(* ===== verification/Prelude.thy ===== *)
theory Prelude
  imports Main "HOL-Library.Sublist"
begin

text \<open>
  Shared vocabulary of the development.

  The TypeScript sources keep almost all of their state in \<open>Map\<close> objects, which iterate
  in insertion order: overwriting a key keeps its place, a new key goes to the end.  The
  model of such a map is an association list with the operations below; \<open>js_ok\<close> says
  that no key occurs twice, and every operation keeps it.  A value of a \<open>Map\<close> that the
  code mutates in place is updated by \<open>js_modify\<close>.

  Errors that the code throws are values: \<open>'e + 'a\<close> with \<open>Inl\<close> for the thrown error.
  Instants (\<open>Date.now()\<close>, ISO timestamps) are integers, milliseconds since the epoch.
\<close>

named_theorems js_simps "rewriting of insertion-ordered maps"

type_synonym ('k, 'v) js_map = "('k \<times> 'v) list"

type_synonym instant = int

text \<open>The \<open>Network\<close> type of the shared packages (\<open>packages/service-kit/src/network-config.ts\<close>).\<close>

datatype network = Testnet | Mainnet

subsection \<open>Insertion-ordered maps\<close>

fun js_get :: "('k, 'v) js_map \<Rightarrow> 'k \<Rightarrow> 'v option" where
  "js_get [] k = None"
| "js_get ((k', v) # m) k = (if k' = k then Some v else js_get m k)"

fun js_set :: "'k \<Rightarrow> 'v \<Rightarrow> ('k, 'v) js_map \<Rightarrow> ('k, 'v) js_map" where
  "js_set k v [] = [(k, v)]"
| "js_set k v ((k', v') # m) = (if k' = k then (k', v) # m else (k', v') # js_set k v m)"

definition js_delete :: "'k \<Rightarrow> ('k, 'v) js_map \<Rightarrow> ('k, 'v) js_map" where
  "js_delete k m = filter (\<lambda>p. fst p \<noteq> k) m"

definition js_keys :: "('k, 'v) js_map \<Rightarrow> 'k list" where
  "js_keys m = map fst m"

definition js_values :: "('k, 'v) js_map \<Rightarrow> 'v list" where
  "js_values m = map snd m"

definition js_has :: "('k, 'v) js_map \<Rightarrow> 'k \<Rightarrow> bool" where
  "js_has m k = (js_get m k \<noteq> None)"

definition js_ok :: "('k, 'v) js_map \<Rightarrow> bool" where
  "js_ok m = distinct (map fst m)"

definition js_modify :: "'k \<Rightarrow> ('v \<Rightarrow> 'v) \<Rightarrow> ('k, 'v) js_map \<Rightarrow> ('k, 'v) js_map" where
  "js_modify k f m = map (\<lambda>(k', v). (k', if k' = k then f v else v)) m"

definition js_map_values :: "('v \<Rightarrow> 'w) \<Rightarrow> ('k, 'v) js_map \<Rightarrow> ('k, 'w) js_map" where
  "js_map_values f m = map (\<lambda>(k, v). (k, f v)) m"

lemma js_get_set [simp, js_simps]: "js_get (js_set k v m) k' = (if k' = k then Some v else js_get m k')"
  by (induction k v m rule: js_set.induct) auto

lemma js_get_delete [simp, js_simps]:
  "js_get (js_delete k m) k' = (if k' = k then None else js_get m k')"
  by (induction m) (auto simp: js_delete_def)

lemma js_get_modify [simp, js_simps]:
  "js_get (js_modify k f m) k' = (if k' = k then map_option f (js_get m k) else js_get m k')"
  by (induction m) (auto simp: js_modify_def)

lemma js_get_map_values [simp, js_simps]: "js_get (js_map_values f m) k = map_option f (js_get m k)"
  by (induction m) (auto simp: js_map_values_def)

lemma js_get_None_iff: "js_get m k = None \<longleftrightarrow> k \<notin> fst ` set m"
proof (induction m)
  case Nil
  then show ?case by simp
next
  case (Cons p m)
  then show ?case by (cases p) (cases "fst p = k"; simp)
qed

lemma js_get_SomeD: "js_get m k = Some v \<Longrightarrow> (k, v) \<in> set m"
  by (induction m) (auto split: if_splits)

lemma js_get_Some_iff: "js_ok m \<Longrightarrow> js_get m k = Some v \<longleftrightarrow> (k, v) \<in> set m"
  by (induction m) (force simp: js_ok_def image_iff dest: js_get_SomeD)+

lemma js_get_in_values: "js_get m k = Some v \<Longrightarrow> v \<in> set (js_values m)"
  by (auto simp: js_values_def dest: js_get_SomeD intro!: rev_image_eqI)

lemma fst_set_js_set: "fst ` set (js_set k v m) = insert k (fst ` set m)"
  by (induction k v m rule: js_set.induct) auto

lemma set_js_set: "js_ok m \<Longrightarrow> set (js_set k v m) = insert (k, v) {p \<in> set m. fst p \<noteq> k}"
  by (induction k v m rule: js_set.induct) (auto simp: js_ok_def image_iff)

lemma js_ok_Nil [simp]: "js_ok []"
  by (simp add: js_ok_def)

lemma js_ok_set [simp, intro]: "js_ok m \<Longrightarrow> js_ok (js_set k v m)"
  by (induction k v m rule: js_set.induct) (auto simp: js_ok_def fst_set_js_set)

lemma js_ok_delete [simp, intro]: "js_ok m \<Longrightarrow> js_ok (js_delete k m)"
  by (simp add: js_ok_def js_delete_def distinct_map_filter)

lemma map_fst_js_modify [simp]: "map fst (js_modify k f m) = map fst m"
  by (auto simp: js_modify_def)

lemma js_ok_modify [simp]: "js_ok (js_modify k f m) = js_ok m"
  by (simp add: js_ok_def)

lemma map_fst_js_map_values [simp]: "map fst (js_map_values f m) = map fst m"
  by (auto simp: js_map_values_def)

lemma js_ok_map_values [simp]: "js_ok (js_map_values f m) = js_ok m"
  by (simp add: js_ok_def)

lemma js_values_map_values [simp]: "js_values (js_map_values f m) = map f (js_values m)"
  by (auto simp: js_values_def js_map_values_def)

lemma js_has_iff: "js_has m k \<longleftrightarrow> k \<in> fst ` set m"
  using js_get_None_iff [of m k] by (simp add: js_has_def)

lemma js_values_iff: "js_ok m \<Longrightarrow> v \<in> set (js_values m) \<longleftrightarrow> (\<exists>k. js_get m k = Some v)"
  by (force simp: js_values_def js_get_Some_iff image_iff)

lemma js_set_new: "\<not> js_has m k \<Longrightarrow> js_set k v m = m @ [(k, v)]"
  by (induction k v m rule: js_set.induct) (auto simp: js_has_iff)

lemma js_get_filter_key:
  "js_ok m \<Longrightarrow> js_get (filter P m) k = (case js_get m k of None \<Rightarrow> None | Some e \<Rightarrow> if P (k, e) then Some e else None)"
proof (induction m)
  case Nil
  then show ?case by simp
next
  case (Cons p m)
  obtain i e where p: "p = (i, e)" by (cases p)
  from Cons.prems have "js_ok m" and "js_get m i = None" by (auto simp: js_ok_def p js_get_None_iff)
  with Cons.IH show ?case by (auto simp: p)
qed

lemma filter_modify_length:
  "(\<And>v. (i, v) \<in> set m \<Longrightarrow> P (f v) \<Longrightarrow> P v) \<Longrightarrow>
     length (filter P (js_values (js_modify i f m))) \<le> length (filter P (js_values m))"
  by (induction m) (auto simp: js_values_def js_modify_def le_SucI split: if_splits)

subsection \<open>The interface of a keyed store\<close>

text \<open>
  What every client of a \<open>Map\<close> relies on, as an interface: the laws of lookup after a
  write and of the well-formedness that the writes keep.  The lemmas are proved from the
  laws alone; the insertion-ordered map is the instance all components use.
\<close>

locale keyed_store =
  fixes empty :: "'s"
    and lookup :: "'s \<Rightarrow> 'k \<Rightarrow> 'v option"
    and put :: "'k \<Rightarrow> 'v \<Rightarrow> 's \<Rightarrow> 's"
    and del :: "'k \<Rightarrow> 's \<Rightarrow> 's"
    and inv :: "'s \<Rightarrow> bool"
  assumes lookup_empty: "lookup empty k = None"
    and lookup_put: "inv s \<Longrightarrow> lookup (put k v s) k' = (if k' = k then Some v else lookup s k')"
    and lookup_del: "inv s \<Longrightarrow> lookup (del k s) k' = (if k' = k then None else lookup s k')"
    and inv_empty: "inv empty"
    and inv_put: "inv s \<Longrightarrow> inv (put k v s)"
    and inv_del: "inv s \<Longrightarrow> inv (del k s)"
begin

lemma put_other: "inv s \<Longrightarrow> k' \<noteq> k \<Longrightarrow> lookup (put k v s) k' = lookup s k'"
  by (simp add: lookup_put)

lemma put_put: "inv s \<Longrightarrow> lookup (put k w (put k v s)) = lookup (put k w s)"
  by (rule ext) (simp add: lookup_put inv_put)

lemma del_put: "inv s \<Longrightarrow> lookup (del k (put k v s)) = lookup (del k s)"
  by (rule ext) (simp add: lookup_put lookup_del inv_put)

lemma lookup_put_all:
  "inv s \<Longrightarrow> inv (fold (\<lambda>(k, v). put k v) kvs s)
     \<and> (k \<notin> fst ` set kvs \<longrightarrow> lookup (fold (\<lambda>(k, v). put k v) kvs s) k = lookup s k)"
  by (induction kvs arbitrary: s) (auto simp: inv_put lookup_put)

end

interpretation jsm: keyed_store "[]" js_get js_set js_delete js_ok
  by unfold_locales auto

subsection \<open>Results\<close>

definition res_bind :: "'e + 'a \<Rightarrow> ('a \<Rightarrow> 'e + 'b) \<Rightarrow> 'e + 'b" where
  "res_bind r f = (case r of Inl e \<Rightarrow> Inl e | Inr x \<Rightarrow> f x)"

lemma res_bind_simps [simp]:
  "res_bind (Inl e) f = Inl e"
  "res_bind (Inr x) f = f x"
  by (simp_all add: res_bind_def)

lemma res_bind_eq_Inr: "res_bind r f = Inr y \<longleftrightarrow> (\<exists>x. r = Inr x \<and> f x = Inr y)"
  by (cases r) auto

definition is_ok :: "'e + 'a \<Rightarrow> bool" where
  "is_ok r = (case r of Inl _ \<Rightarrow> False | Inr _ \<Rightarrow> True)"

lemma is_ok_simps [simp]: "is_ok (Inr x)" "\<not> is_ok (Inl e)"
  by (simp_all add: is_ok_def)

subsection \<open>Strings\<close>

definition starts_with :: "string \<Rightarrow> string \<Rightarrow> bool" where
  "starts_with s p = (take (length p) s = p)"

fun str_includes :: "string \<Rightarrow> string \<Rightarrow> bool" where
  "str_includes [] p = (p = [])"
| "str_includes (c # s) p = (starts_with (c # s) p \<or> str_includes s p)"

definition lower_char :: "char \<Rightarrow> char" where
  "lower_char c = (let n = of_char c :: nat in if 65 \<le> n \<and> n \<le> 90 then char_of (n + 32) else c)"

definition to_lower :: "string \<Rightarrow> string" where
  "to_lower s = map lower_char s"

lemma starts_with_iff: "starts_with s p \<longleftrightarrow> prefix p s"
  by (auto simp: starts_with_def prefix_def) (metis append_take_drop_id)

lemma str_includes_iff: "str_includes s p \<longleftrightarrow> sublist p s"
proof (induction s)
  case Nil
  then show ?case by simp
next
  case (Cons c s)
  then show ?case by (simp add: starts_with_iff sublist_Cons_right)
qed

lemma length_to_lower [simp]: "length (to_lower s) = length s"
  by (simp add: to_lower_def)

text \<open>\<open>String.prototype.trim\<close> on the ASCII white space, and \<open>split\<close> on a one-character separator.\<close>

definition is_space :: "char \<Rightarrow> bool" where
  "is_space c = (let n = of_char c :: nat in n = 32 \<or> (9 \<le> n \<and> n \<le> 13))"

definition js_trim :: "string \<Rightarrow> string" where
  "js_trim s = rev (dropWhile is_space (rev (dropWhile is_space s)))"

fun split_on :: "char \<Rightarrow> string \<Rightarrow> string list" where
  "split_on d [] = [[]]"
| "split_on d (c # s) =
     (if c = d then [] # split_on d s
      else (case split_on d s of [] \<Rightarrow> [[c]] | w # ws \<Rightarrow> (c # w) # ws))"

definition strip_trailing :: "char \<Rightarrow> string \<Rightarrow> string" where
  "strip_trailing d s = rev (dropWhile (\<lambda>c. c = d) (rev s))"

lemma split_on_nonempty [simp]: "split_on d s \<noteq> []"
  by (induction d s rule: split_on.induct) (auto split: list.splits)

lemma split_on_separator_free: "w \<in> set (split_on d s) \<Longrightarrow> d \<notin> set w"
  by (induction d s arbitrary: w rule: split_on.induct) (auto split: list.splits if_splits)

text \<open>\<open>Array.prototype.join\<close>, and a list cut into pieces of a given length.\<close>

fun join_with :: "string \<Rightarrow> string list \<Rightarrow> string" where
  "join_with sep [] = []"
| "join_with sep [s] = s"
| "join_with sep (s # t # ss) = s @ sep @ join_with sep (t # ss)"

function chunks :: "nat \<Rightarrow> 'a list \<Rightarrow> 'a list list" where
  "chunks n xs = (if n = 0 \<or> xs = [] then [] else take n xs # chunks n (drop n xs))"
  by pat_completeness auto
termination by (relation "measure (\<lambda>(n, xs). length xs)") (auto simp: length_greater_0_conv [symmetric] simp del: length_greater_0_conv)

declare chunks.simps [simp del]

lemma chunks_Nil [simp]: "chunks n [] = []"
  by (simp add: chunks.simps)

lemma concat_chunks: "0 < n \<Longrightarrow> concat (chunks n xs) = xs"
proof (induction n xs rule: chunks.induct)
  case (1 n xs)
  then show ?case by (simp add: chunks.simps [of n xs])
qed

lemma chunks_length: "0 < n \<Longrightarrow> length (chunks n xs) = (length xs + (n - 1)) div n"
proof (induction n xs rule: chunks.induct)
  case (1 n xs)
  show ?case
  proof (cases "length xs \<le> n")
    case True
    moreover have "(length xs + (n - 1)) div n = 1" if "xs \<noteq> []"
      by (rule div_nat_eqI) (use that True 1(2) in \<open>cases xs; simp\<close>)+
    ultimately show ?thesis using 1(2) by (cases "xs = []") (simp_all add: chunks.simps [of n xs])
  next
    case False
    then have "length xs + (n - 1) = (length (drop n xs) + (n - 1)) + n" by simp
    then have "(length xs + (n - 1)) div n = Suc ((length (drop n xs) + (n - 1)) div n)"
      using 1(2) by (simp only: div_add_self2)
    with 1 False show ?thesis by (auto simp: chunks.simps [of n xs])
  qed
qed

lemma chunks_piece: "c \<in> set (chunks n xs) \<Longrightarrow> c \<noteq> [] \<and> length c \<le> n"
proof (induction n xs rule: chunks.induct)
  case (1 n xs)
  then show ?case by (auto simp: chunks.simps [of n xs] split: if_split_asm)
qed

subsection \<open>Decimal numbers\<close>

definition digit_char :: "nat \<Rightarrow> char" where
  "digit_char d = char_of (48 + d)"

fun show_nat :: "nat \<Rightarrow> string" where
  "show_nat n = (if n < 10 then [digit_char n] else show_nat (n div 10) @ [digit_char (n mod 10)])"

declare show_nat.simps [simp del]

definition is_digit :: "char \<Rightarrow> bool" where
  "is_digit c = (let n = of_char c :: nat in 48 \<le> n \<and> n \<le> 57)"

definition parse_nat :: "string \<Rightarrow> nat" where
  "parse_nat s = foldl (\<lambda>n c. 10 * n + (of_char c - 48)) 0 s"

lemma of_char_digit [simp]: "d < 10 \<Longrightarrow> (of_char (digit_char d) :: nat) = 48 + d"
  by (simp add: digit_char_def)

lemma parse_show_nat: "parse_nat (show_nat n) = n"
proof (induction n rule: show_nat.induct)
  case (1 n)
  show ?case
  proof (cases "n < 10")
    case True
    then show ?thesis by (simp add: show_nat.simps [of n] parse_nat_def)
  next
    case False
    with 1 have "parse_nat (show_nat (n div 10)) = n div 10" by simp
    then show ?thesis using False by (simp add: show_nat.simps [of n] parse_nat_def)
  qed
qed

lemma show_nat_digits: "list_all is_digit (show_nat n) \<and> show_nat n \<noteq> []"
proof (induction n rule: show_nat.induct)
  case (1 n)
  then show ?case by (cases "n < 10") (simp_all add: show_nat.simps [of n] is_digit_def)
qed

text \<open>\<open>BigInt.prototype.toString\<close>.\<close>

definition show_int :: "int \<Rightarrow> string" where
  "show_int i = (if i < 0 then CHR ''-'' # show_nat (nat (- i)) else show_nat (nat i))"

lemma show_int_chars: "c \<in> set (show_int i) \<Longrightarrow> is_digit c \<or> c = CHR ''-''"
  using show_nat_digits [of "nat i"] show_nat_digits [of "nat (- i)"]
  by (auto simp: show_int_def list_all_iff split: if_splits)

lemma show_int_inj: "show_int i = show_int j \<longleftrightarrow> i = j"
proof
  assume eq: "show_int i = show_int j"
  have nd: "CHR ''-'' \<notin> set (show_nat n)" for n
    using show_nat_digits [of n] by (auto simp: list_all_iff is_digit_def)
  show "i = j"
  proof (cases "i < 0 \<longleftrightarrow> j < 0")
    case True
    with eq have "show_nat (nat \<bar>i\<bar>) = show_nat (nat \<bar>j\<bar>)" by (auto simp: show_int_def split: if_splits)
    then have "nat \<bar>i\<bar> = nat \<bar>j\<bar>" using parse_show_nat by metis
    with True show ?thesis by auto
  next
    case False
    with eq nd [of "nat i"] nd [of "nat j"] have False
      by (auto simp: show_int_def split: if_splits) (metis list.set_intros(1))+
    then show ?thesis ..
  qed
qed simp

subsection \<open>Tasks of one process\<close>

text \<open>Concurrent requests are a list of program counters; one step replaces one of them.\<close>

definition tasks :: "('p \<Rightarrow> bool) \<Rightarrow> 'p list \<Rightarrow> nat" where
  "tasks P ps = length (filter P ps)"

lemma tasks_simps [simp]:
  "tasks P [] = 0" "tasks P (p # ps) = (if P p then 1 else 0) + tasks P ps" "tasks P (ps @ qs) = tasks P ps + tasks P qs"
  by (simp_all add: tasks_def)

lemma tasks_update:
  "j < length ps \<Longrightarrow> tasks P (ps[j := p]) + (if P (ps ! j) then 1 else 0) = tasks P ps + (if P p then 1 else 0)"
proof (induction ps arbitrary: j)
  case (Cons q ps)
  show ?case
  proof (cases j)
    case (Suc i)
    with Cons.prems Cons.IH [of i] show ?thesis by (simp split: if_splits)
  qed simp
qed simp

lemma tasks_mono: "(\<And>p. P p \<Longrightarrow> Q p) \<Longrightarrow> tasks P ps \<le> tasks Q ps"
  by (induction ps) (auto simp: tasks_def)

subsection \<open>Hexadecimal bytes\<close>

text \<open>\<open>Buffer.from(s, "hex")\<close> decodes pairs of hex digits up to the first pair that is not one.\<close>

definition hex_digit :: "char \<Rightarrow> nat option" where
  "hex_digit c =
     (let n = of_char (lower_char c) :: nat in
      if 48 \<le> n \<and> n \<le> 57 then Some (n - 48)
      else if 97 \<le> n \<and> n \<le> 102 then Some (n - 87) else None)"

fun hex_decode :: "string \<Rightarrow> nat list" where
  "hex_decode (a # b # rest) =
     (case (hex_digit a, hex_digit b) of
        (Some x, Some y) \<Rightarrow> (16 * x + y) # hex_decode rest
      | _ \<Rightarrow> [])"
| "hex_decode _ = []"

subsection \<open>Optional strings\<close>

text \<open>A value of type \<open>string | undefined\<close> is truthy when it is a non-empty string.\<close>

definition truthy :: "string option \<Rightarrow> bool" where
  "truthy v = (case v of None \<Rightarrow> False | Some s \<Rightarrow> s \<noteq> [])"

lemma truthy_simps [simp]: "\<not> truthy None" "truthy (Some s) = (s \<noteq> [])"
  by (simp_all add: truthy_def)

end
