(* ===== verification/CircuitBreaker.thy ===== *)
theory CircuitBreaker
  imports Prelude
begin

text \<open>
  The circuit breaker of \<open>packages/service-kit/src/circuit-breaker.ts\<close>.  The closure
  variables of \<open>createCircuitBreaker\<close> are the record \<open>breaker\<close>; \<open>changes\<close> lists the
  calls of the \<open>onStateChange\<close> callback, oldest first.  Every read of the injected clock is
  an argument.
\<close>

datatype circuit_state = Closed | Open | HalfOpen

datatype outcome = Success | Failure

record breaker_options =
  failureThreshold :: int
  cooldownMs :: int

record breaker =
  state :: circuit_state
  consecutiveFailures :: int
  openedAt :: instant
  changes :: "(circuit_state \<times> circuit_state) list"

definition createCircuitBreaker :: breaker where
  "createCircuitBreaker = \<lparr>state = Closed, consecutiveFailures = 0, openedAt = 0, changes = []\<rparr>"

definition transition :: "circuit_state \<Rightarrow> breaker \<Rightarrow> breaker" where
  "transition to b =
     (if to = state b then b
      else b\<lparr>state := to, changes := changes b @ [(state b, to)]\<rparr>)"

text \<open>\<open>Inl r\<close> is the thrown \<open>CircuitOpenError\<close> with \<open>retryAfterMs = r\<close>.\<close>

definition beforeCall :: "breaker_options \<Rightarrow> instant \<Rightarrow> breaker \<Rightarrow> int + breaker" where
  "beforeCall opts now b =
     (if state b = Open then
        (let elapsed = now - openedAt b in
         if elapsed < cooldownMs opts then Inl (cooldownMs opts - elapsed)
         else Inr (transition HalfOpen b))
      else Inr b)"

definition recordOutcome :: "breaker_options \<Rightarrow> instant \<Rightarrow> outcome \<Rightarrow> breaker \<Rightarrow> breaker" where
  "recordOutcome opts now out b =
     (if out = Success then transition Closed (b\<lparr>consecutiveFailures := 0\<rparr>)
      else if state b = HalfOpen then transition Open (b\<lparr>openedAt := now\<rparr>)
      else
        (let b' = b\<lparr>consecutiveFailures := consecutiveFailures b + 1\<rparr> in
         if consecutiveFailures b' \<ge> failureThreshold opts
         then transition Open (b'\<lparr>openedAt := now\<rparr>) else b'))"

text \<open>
  \<open>execute\<close>: \<open>fn\<close> is the outcome of the awaited call (\<open>Inl\<close> a rejection), \<open>t0\<close> the clock
  at the check and \<open>t1\<close> the clock when the call has settled.
\<close>

datatype 'e exec_error = CircuitOpenError int | CallError 'e

definition execute ::
  "breaker_options \<Rightarrow> instant \<Rightarrow> instant \<Rightarrow> 'e + 'a \<Rightarrow> breaker \<Rightarrow> breaker \<times> ('e exec_error + 'a)" where
  "execute opts t0 t1 fn b =
     (case beforeCall opts t0 b of
        Inl r \<Rightarrow> (b, Inl (CircuitOpenError r))
      | Inr b' \<Rightarrow>
          (case fn of
             Inr v \<Rightarrow> (recordOutcome opts t1 Success b', Inr v)
           | Inl e \<Rightarrow> (recordOutcome opts t1 Failure b', Inl (CallError e))))"

subsection \<open>The breaker under any interleaving of calls\<close>

text \<open>
  Callers of the lower-level pair interleave \<open>beforeCall\<close> and \<open>recordOutcome\<close> freely (the
  gateway reports outcomes from proxy hooks), so a step is either one of them.
\<close>

inductive breaker_step :: "breaker_options \<Rightarrow> breaker \<Rightarrow> breaker \<Rightarrow> bool" for opts where
  before: "beforeCall opts now b = Inr b' \<Longrightarrow> breaker_step opts b b'"
| recorded: "breaker_step opts b (recordOutcome opts now out b)"

inductive breaker_reachable :: "breaker_options \<Rightarrow> breaker \<Rightarrow> bool" for opts where
  init: "breaker_reachable opts createCircuitBreaker"
| step: "breaker_reachable opts b \<Longrightarrow> breaker_step opts b b' \<Longrightarrow> breaker_reachable opts b'"

inductive_cases breaker_stepE: "breaker_step opts b b'"

text \<open>The reported changes form one chain from \<open>Closed\<close> to the current state.\<close>

fun chain :: "circuit_state \<Rightarrow> (circuit_state \<times> circuit_state) list \<Rightarrow> circuit_state \<Rightarrow> bool" where
  "chain s [] t = (s = t)"
| "chain s ((a, b) # cs) t = (a = s \<and> a \<noteq> b \<and> chain b cs t)"

definition breaker_inv :: "breaker_options \<Rightarrow> breaker \<Rightarrow> bool" where
  "breaker_inv opts b \<longleftrightarrow>
     0 \<le> consecutiveFailures b
   \<and> (state b = Closed \<longrightarrow> consecutiveFailures b < failureThreshold opts)
   \<and> (state b \<noteq> Closed \<longrightarrow> failureThreshold opts \<le> consecutiveFailures b)
   \<and> chain Closed (changes b) (state b)"

lemma chain_snoc: "chain s cs t \<Longrightarrow> t \<noteq> u \<Longrightarrow> chain s (cs @ [(t, u)]) u"
  by (induction s cs t rule: chain.induct) auto

lemma transition_sel [simp]:
  "state (transition to b) = to"
  "consecutiveFailures (transition to b) = consecutiveFailures b"
  "openedAt (transition to b) = openedAt b"
  by (auto simp: transition_def)

lemma chain_transition [intro!]:
  "chain Closed (changes b) (state b) \<Longrightarrow> chain Closed (changes (transition to b)) to"
  by (auto simp: transition_def chain_snoc)

lemma breaker_inv_init: "1 \<le> failureThreshold opts \<Longrightarrow> breaker_inv opts createCircuitBreaker"
  by (simp add: breaker_inv_def createCircuitBreaker_def)

lemma beforeCall_inv: "beforeCall opts now b = Inr b' \<Longrightarrow> breaker_inv opts b \<Longrightarrow> breaker_inv opts b'"
  by (auto simp: beforeCall_def breaker_inv_def Let_def split: if_splits)

lemma recordOutcome_inv:
  "1 \<le> failureThreshold opts \<Longrightarrow> breaker_inv opts b \<Longrightarrow> breaker_inv opts (recordOutcome opts now out b)"
  by (cases "state b") (auto simp: recordOutcome_def breaker_inv_def Let_def)

lemma breaker_step_inv:
  "breaker_step opts b b' \<Longrightarrow> 1 \<le> failureThreshold opts \<Longrightarrow> breaker_inv opts b \<Longrightarrow> breaker_inv opts b'"
  by (auto elim!: breaker_stepE intro: beforeCall_inv recordOutcome_inv)

text \<open>C21: In every reachable state of a breaker with a positive threshold, the breaker is
  closed exactly while fewer than \<open>failureThreshold\<close> consecutive failures are counted, and the
  reported state changes form an unbroken chain from \<open>Closed\<close> to the current state.\<close>

theorem breaker_reachable_inv:
  assumes "breaker_reachable opts b" and "1 \<le> failureThreshold opts"
  shows "breaker_inv opts b"
  using assms
  by (induction rule: breaker_reachable.induct) (auto intro: breaker_inv_init breaker_step_inv)

theorem breaker_reachable_inv_witness:
  "breaker_inv \<lparr>failureThreshold = 1, cooldownMs = 10\<rparr>
     (recordOutcome \<lparr>failureThreshold = 1, cooldownMs = 10\<rparr> 5 Failure createCircuitBreaker)"
  by (rule breaker_reachable_inv [OF breaker_reachable.step [OF breaker_reachable.init breaker_step.recorded]])
     simp

subsection \<open>Consecutive failures, not an error rate\<close>

fun run_outcomes :: "breaker_options \<Rightarrow> (instant \<times> outcome) list \<Rightarrow> breaker \<Rightarrow> breaker" where
  "run_outcomes opts [] b = b"
| "run_outcomes opts ((t, out) # os) b = run_outcomes opts os (recordOutcome opts t out b)"

definition trailing_failures :: "(instant \<times> outcome) list \<Rightarrow> nat" where
  "trailing_failures os = length (takeWhile (\<lambda>p. snd p = Failure) (rev os))"

lemma trailing_failures_snoc:
  "trailing_failures (os @ [(t, out)]) = (if out = Failure then Suc (trailing_failures os) else 0)"
  by (simp add: trailing_failures_def)

lemma run_outcomes_append: "run_outcomes opts (xs @ ys) b = run_outcomes opts ys (run_outcomes opts xs b)"
  by (induction xs arbitrary: b) auto

text \<open>A fresh breaker that is only told outcomes is open exactly when the trailing run of
  consecutive failures has reached the threshold; one success, however late, closes it.\<close>

theorem breaker_trips_on_consecutive_failures:
  assumes "1 \<le> failureThreshold opts"
  shows "state (run_outcomes opts os createCircuitBreaker)
           = (if failureThreshold opts \<le> int (trailing_failures os) then Open else Closed)
       \<and> consecutiveFailures (run_outcomes opts os createCircuitBreaker) = int (trailing_failures os)"
proof (induction os rule: rev_induct)
  case Nil
  from assms show ?case by (simp add: createCircuitBreaker_def trailing_failures_def)
next
  case (snoc p os)
  obtain t out where p: "p = (t, out)" by (cases p)
  with snoc assms show ?case
    by (cases out)
       (auto simp: run_outcomes_append trailing_failures_snoc recordOutcome_def Let_def)
qed

theorem breaker_trips_on_consecutive_failures_witness:
  "state (run_outcomes \<lparr>failureThreshold = 2, cooldownMs = 10\<rparr>
     [(1, Failure), (2, Success), (3, Failure), (4, Failure)] createCircuitBreaker) = Open"
  using breaker_trips_on_consecutive_failures
    [of "\<lparr>failureThreshold = 2, cooldownMs = 10\<rparr>" "[(1, Failure), (2, Success), (3, Failure), (4, Failure)]"]
  by (simp add: trailing_failures_def)

subsection \<open>Failing fast and recovering\<close>

text \<open>An open breaker answers every call made before its cooldown has elapsed with
  \<open>CircuitOpenError\<close>, whose retry delay is positive and at most the cooldown; the outcome the
  call would have had plays no part and the breaker does not change.\<close>

theorem open_breaker_fails_fast:
  assumes "state b = Open" and "t0 - openedAt b < cooldownMs opts" and "openedAt b \<le> t0"
  shows "\<exists>r. execute opts t0 t1 fn b = (b, Inl (CircuitOpenError r)) \<and> 0 < r \<and> r \<le> cooldownMs opts"
  using assms by (auto simp: execute_def beforeCall_def Let_def)

theorem open_breaker_fails_fast_witness:
  "\<exists>r. execute \<lparr>failureThreshold = 1, cooldownMs = 10\<rparr> 7 8 (Inr () :: unit + unit)
         \<lparr>state = Open, consecutiveFailures = 1, openedAt = 5, changes = []\<rparr>
       = (\<lparr>state = Open, consecutiveFailures = 1, openedAt = 5, changes = []\<rparr>, Inl (CircuitOpenError r))
       \<and> 0 < r \<and> r \<le> cooldownMs \<lparr>failureThreshold = 1, cooldownMs = 10\<rparr>"
  by (rule open_breaker_fails_fast) simp_all

text \<open>Once the cooldown has elapsed the next call is really made.  Its success closes the
  breaker with the failure count cleared; its failure re-opens it with a cooldown that starts
  at the failure.\<close>

theorem trial_call_decides:
  assumes "state b = Open" and "cooldownMs opts \<le> t0 - openedAt b"
  shows "(\<exists>b'. execute opts t0 t1 (Inr v) b = (b', Inr v) \<and> state b' = Closed \<and> consecutiveFailures b' = 0)
       \<and> (\<exists>b'. execute opts t0 t1 (Inl e) b = (b', Inl (CallError e)) \<and> state b' = Open \<and> openedAt b' = t1)"
  using assms by (auto simp: execute_def beforeCall_def recordOutcome_def Let_def)

theorem trial_call_decides_witness:
  "\<exists>b'. execute \<lparr>failureThreshold = 1, cooldownMs = 10\<rparr> 20 25 (Inl ''boom'' :: string + unit)
          \<lparr>state = Open, consecutiveFailures = 1, openedAt = 5, changes = []\<rparr>
        = (b', Inl (CallError ''boom'')) \<and> state b' = Open \<and> openedAt b' = 25"
  using trial_call_decides
    [of "\<lparr>state = Open, consecutiveFailures = 1, openedAt = 5, changes = []\<rparr>"
        "\<lparr>failureThreshold = 1, cooldownMs = 10\<rparr>" 20 25 "()" "''boom''"]
  by auto

text \<open>While the trial call is still running, \<open>beforeCall\<close> lets every further call through: the
  half-open state admits any number of calls, not one.\<close>

theorem half_open_admits_every_call:
  assumes "state b = Open" and "cooldownMs opts \<le> t0 - openedAt b"
  shows "\<exists>b'. beforeCall opts t0 b = Inr b' \<and> state b' = HalfOpen \<and> beforeCall opts t b' = Inr b'"
  using assms by (auto simp: beforeCall_def Let_def)

theorem half_open_admits_every_call_witness:
  "\<exists>b'. beforeCall \<lparr>failureThreshold = 1, cooldownMs = 10\<rparr> 20
          \<lparr>state = Open, consecutiveFailures = 1, openedAt = 5, changes = []\<rparr> = Inr b'
        \<and> state b' = HalfOpen \<and> beforeCall \<lparr>failureThreshold = 1, cooldownMs = 10\<rparr> 20 b' = Inr b'"
  by (rule half_open_admits_every_call) simp_all

end
