(* ===== verification/Retry.thy ===== *)
theory Retry
  imports Complex_Main Prelude
begin

text \<open>
  Retrying with exponential back-off and full jitter: \<open>packages/service-kit/src/retry.ts\<close> and
  its two users, \<open>calculateBackoffDelay\<close> of the verification worker
  (\<open>services/worker-service/src/backoff.ts\<close>) and \<open>computeBackoff\<close> of the policy worker
  (\<open>services/policy-service/src/policy-deploy-worker.ts\<close>).

  \<open>Math.random()\<close> is a stream of rationals in \<open>[0, 1)\<close>; delays in milliseconds are rationals
  where the code multiplies by it.  An \<open>AbortSignal\<close> is the predicate saying at which of the
  code's checks it is already aborted.
\<close>

datatype checkpoint = BeforeAttempt nat | BeforeSleep nat | AfterSleep nat

datatype 'e retry_error =
    RetryAborted checkpoint
  | MaxRetriesExceeded int "'e option"
  | Rethrown 'e
  | RangeError

record 'e retry_options =
  maxAttempts :: int
  baseDelayMs :: int
  maxDelayMs :: int
  noJitter :: bool
  isRetryable :: "'e \<Rightarrow> bool"
  aborted :: "checkpoint \<Rightarrow> bool"
  random :: "nat \<Rightarrow> rat"

definition DEFAULT_MAX_ATTEMPTS :: int where "DEFAULT_MAX_ATTEMPTS = 4"
definition DEFAULT_BASE_DELAY_MS :: int where "DEFAULT_BASE_DELAY_MS = 200"
definition DEFAULT_MAX_DELAY_MS :: int where "DEFAULT_MAX_DELAY_MS = 10000"

definition default_retry_options :: "(nat \<Rightarrow> rat) \<Rightarrow> 'e retry_options" where
  "default_retry_options rnd =
     \<lparr>maxAttempts = DEFAULT_MAX_ATTEMPTS, baseDelayMs = DEFAULT_BASE_DELAY_MS,
      maxDelayMs = DEFAULT_MAX_DELAY_MS, noJitter = False, isRetryable = (\<lambda>_. True),
      aborted = (\<lambda>_. False), random = rnd\<rparr>"

definition delay_cap :: "int \<Rightarrow> int \<Rightarrow> nat \<Rightarrow> int" where
  "delay_cap base mx attempt = min mx (base * 2 ^ attempt)"

definition retry_delay :: "'e retry_options \<Rightarrow> nat \<Rightarrow> rat" where
  "retry_delay opts attempt =
     (let cap = of_int (delay_cap (baseDelayMs opts) (maxDelayMs opts) attempt)
      in if noJitter opts then cap else random opts attempt * cap)"

text \<open>
  The loop of \<open>retryWithBackoff\<close>: \<open>fn i\<close> is what the \<open>i\<close>-th call of \<open>fn\<close> settles to, the
  first component of the result lists the delays slept, the second what the promise settles to.
  The \<open>nat\<close> argument counts the iterations left of \<open>attempt < maxAttempts\<close>.
\<close>

fun retry_loop ::
  "'e retry_options \<Rightarrow> (nat \<Rightarrow> 'e + 'a) \<Rightarrow> nat \<Rightarrow> nat \<Rightarrow> 'e option \<Rightarrow> rat list \<times> ('e retry_error + 'a)"
where
  "retry_loop opts fn 0 attempt lastErr = ([], Inl (MaxRetriesExceeded (maxAttempts opts) lastErr))"
| "retry_loop opts fn (Suc n) attempt lastErr =
     (if aborted opts (BeforeAttempt attempt) then ([], Inl (RetryAborted (BeforeAttempt attempt)))
      else
        (case fn attempt of
           Inr v \<Rightarrow> ([], Inr v)
         | Inl err \<Rightarrow>
             (if \<not> isRetryable opts err then ([], Inl (Rethrown err))
              else if int attempt = maxAttempts opts - 1
              then ([], Inl (MaxRetriesExceeded (maxAttempts opts) (Some err)))
              else if aborted opts (BeforeSleep attempt)
              then ([], Inl (RetryAborted (BeforeSleep attempt)))
              else if aborted opts (AfterSleep attempt)
              then ([retry_delay opts attempt], Inl (RetryAborted (AfterSleep attempt)))
              else (let rest = retry_loop opts fn n (Suc attempt) (Some err)
                    in (retry_delay opts attempt # fst rest, snd rest)))))"

definition retryWithBackoff ::
  "'e retry_options \<Rightarrow> (nat \<Rightarrow> 'e + 'a) \<Rightarrow> rat list \<times> ('e retry_error + 'a)" where
  "retryWithBackoff opts fn =
     (if maxAttempts opts < 1 then ([], Inl RangeError)
      else retry_loop opts fn (nat (maxAttempts opts)) 0 None)"

definition retryWithJitter :: "int \<Rightarrow> int \<Rightarrow> int \<Rightarrow> rat \<Rightarrow> int" where
  "retryWithJitter attempt base mx rnd =
     (let cap = min mx (base * 2 ^ nat (max 0 attempt)) in \<lfloor>rnd * of_int cap\<rfloor>)"

definition calculateBackoffDelay :: "int \<Rightarrow> int \<Rightarrow> int \<Rightarrow> rat \<Rightarrow> int" where
  "calculateBackoffDelay attempt base mx rnd = retryWithJitter attempt base mx rnd"

definition computeBackoff :: "int \<Rightarrow> rat \<Rightarrow> int" where
  "computeBackoff retryCount rnd = retryWithJitter (max 0 (retryCount - 1)) 1000 (60 * 60 * 1000) rnd"

subsection \<open>What the loop does\<close>

definition jitter_ok :: "'e retry_options \<Rightarrow> bool" where
  "jitter_ok opts \<longleftrightarrow> 0 \<le> baseDelayMs opts \<and> 0 \<le> maxDelayMs opts \<and> (\<forall>i. 0 \<le> random opts i \<and> random opts i < 1)"

lemma delay_cap_nonneg: "0 \<le> base \<Longrightarrow> 0 \<le> mx \<Longrightarrow> 0 \<le> delay_cap base mx i"
  by (simp add: delay_cap_def)

lemma retry_delay_within_cap:
  assumes "jitter_ok opts"
  shows "0 \<le> retry_delay opts i
       \<and> retry_delay opts i \<le> of_int (delay_cap (baseDelayMs opts) (maxDelayMs opts) i)"
proof -
  let ?cap = "of_int (delay_cap (baseDelayMs opts) (maxDelayMs opts) i) :: rat"
  have cap: "0 \<le> ?cap" using assms delay_cap_nonneg by (simp add: jitter_ok_def)
  have r: "0 \<le> random opts i" "random opts i \<le> 1"
    using assms by (auto simp: jitter_ok_def intro: less_imp_le)
  then have "random opts i * ?cap \<le> 1 * ?cap" using cap by (intro mult_right_mono)
  with cap r show ?thesis by (simp add: retry_delay_def Let_def)
qed

lemma retry_loop_delays:
  "\<exists>k \<le> n - 1. fst (retry_loop opts fn n attempt le) = map (retry_delay opts) [attempt ..< attempt + k]"
  if "int attempt + int n = maxAttempts opts"
  using that
proof (induction n arbitrary: attempt le)
  case 0
  then show ?case by simp
next
  case (Suc n)
  show ?case
  proof (cases "n = 0")
    case True
    with Suc.prems show ?thesis by (auto split: sum.splits)
  next
    case False
    have tail: "\<exists>k \<le> n - 1. fst (retry_loop opts fn n (Suc attempt) le')
        = map (retry_delay opts) [Suc attempt ..< Suc attempt + k]" for le'
      using Suc.IH [of "Suc attempt" le'] Suc.prems by simp
    have stop: "\<exists>k \<le> Suc n - 1. [] = map (retry_delay opts) [attempt ..< attempt + k]"
      by (rule exI [of _ 0]) simp
    have one: "\<exists>k \<le> Suc n - 1. [retry_delay opts attempt] = map (retry_delay opts) [attempt ..< attempt + k]"
      using False by (intro exI [of _ 1]) (simp add: upt_rec)
    have more: "\<exists>k \<le> Suc n - 1. retry_delay opts attempt # fst (retry_loop opts fn n (Suc attempt) le')
        = map (retry_delay opts) [attempt ..< attempt + k]" for le'
    proof -
      from tail [of le'] obtain k where "k \<le> n - 1"
        "fst (retry_loop opts fn n (Suc attempt) le') = map (retry_delay opts) [Suc attempt ..< Suc attempt + k]"
        by blast
      with False show ?thesis
        by (intro exI [of _ "Suc k"]) (simp add: upt_conv_Cons del: upt_Suc)
    qed
    show ?thesis
      using stop one more by (simp add: Let_def split: sum.split)
  qed
qed

lemma retryWithBackoff_delays:
  "\<exists>k. int k < max 1 (maxAttempts opts) \<and> fst (retryWithBackoff opts fn) = map (retry_delay opts) [0 ..< k]"
proof (cases "maxAttempts opts < 1")
  case True
  then show ?thesis by (intro exI [of _ 0]) (simp add: retryWithBackoff_def)
next
  case False
  then have "int 0 + int (nat (maxAttempts opts)) = maxAttempts opts" by simp
  from retry_loop_delays [OF this, of fn None] obtain k
    where "k \<le> nat (maxAttempts opts) - 1"
      and "fst (retry_loop opts fn (nat (maxAttempts opts)) 0 None) = map (retry_delay opts) [0 ..< 0 + k]"
    by blast
  with False show ?thesis by (intro exI [of _ k]) (auto simp: retryWithBackoff_def)
qed

text \<open>A retried call sleeps fewer times than \<open>maxAttempts\<close>, and the \<open>i\<close>-th sleep lies between
  zero and \<open>min maxDelayMs (baseDelayMs * 2 ^ i)\<close>, whatever the call and the abort signal do.\<close>

theorem retry_sleeps_bounded:
  assumes "jitter_ok opts"
  shows "int (length (fst (retryWithBackoff opts fn))) < max 1 (maxAttempts opts)
       \<and> list_all (\<lambda>(i, d). 0 \<le> d \<and> d \<le> of_int (delay_cap (baseDelayMs opts) (maxDelayMs opts) i))
           (enumerate 0 (fst (retryWithBackoff opts fn)))"
proof -
  obtain k where k: "int k < max 1 (maxAttempts opts)"
    "fst (retryWithBackoff opts fn) = map (retry_delay opts) [0 ..< k]"
    using retryWithBackoff_delays by blast
  then show ?thesis
    using retry_delay_within_cap [OF assms]
    by (auto simp: list_all_length nth_enumerate_eq)
qed

theorem retry_sleeps_bounded_witness:
  "int (length (fst (retryWithBackoff (default_retry_options (\<lambda>_. 1 / 2)) (\<lambda>i. Inl () :: unit + unit)))) < 4"
  using retry_sleeps_bounded [of "default_retry_options (\<lambda>_. 1 / 2)" "\<lambda>i. Inl () :: unit + unit"]
  by (simp add: jitter_ok_def default_retry_options_def DEFAULT_MAX_ATTEMPTS_def
      DEFAULT_BASE_DELAY_MS_def DEFAULT_MAX_DELAY_MS_def)

subsection \<open>The result of an undisturbed retry\<close>

definition undisturbed :: "'e retry_options \<Rightarrow> bool" where
  "undisturbed opts \<longleftrightarrow> (\<forall>c. \<not> aborted opts c) \<and> (\<forall>e. isRetryable opts e)"

fun first_success :: "(nat \<Rightarrow> 'e + 'a) \<Rightarrow> nat \<Rightarrow> nat \<Rightarrow> nat option" where
  "first_success fn 0 i = None"
| "first_success fn (Suc n) i = (if is_ok (fn i) then Some i else first_success fn n (Suc i))"

lemma retry_loop_undisturbed:
  assumes "undisturbed opts" and "int attempt + int n = maxAttempts opts" and "0 < n"
  shows "snd (retry_loop opts fn n attempt le)
           = (case first_success fn n attempt of
                Some k \<Rightarrow> Inr (projr (fn k))
              | None \<Rightarrow> Inl (MaxRetriesExceeded (maxAttempts opts) (Some (projl (fn (attempt + n - 1))))))"
  using assms(2,3)
proof (induction n arbitrary: attempt le)
  case 0
  then show ?case by simp
next
  case (Suc n)
  show ?case
  proof (cases "fn attempt")
    case (Inr v)
    with assms(1) show ?thesis by (simp add: undisturbed_def)
  next
    case (Inl e)
    show ?thesis
    proof (cases "n = 0")
      case True
      with Inl Suc.prems assms(1) show ?thesis by (simp add: undisturbed_def)
    next
      case False
      with Suc.prems have n: "int (Suc attempt) + int n = maxAttempts opts" "0 < n"
        and last: "int attempt \<noteq> maxAttempts opts - 1" by simp_all
      have "Suc attempt + n - 1 = attempt + Suc n - 1" by simp
      with Suc.IH [OF n, of "Some e"] Inl last assms(1) show ?thesis
        by (simp add: undisturbed_def Let_def cong: option.case_cong)
    qed
  qed
qed

text \<open>Without an abort and with every error retryable, \<open>retryWithBackoff\<close> returns the first
  success among the first \<open>maxAttempts\<close> calls and otherwise throws \<open>MaxRetriesExceededError\<close>
  carrying the error of the last of them.\<close>

theorem retry_returns_first_success:
  assumes "undisturbed opts" and "1 \<le> maxAttempts opts"
  shows "snd (retryWithBackoff opts fn)
           = (case first_success fn (nat (maxAttempts opts)) 0 of
                Some k \<Rightarrow> Inr (projr (fn k))
              | None \<Rightarrow> Inl (MaxRetriesExceeded (maxAttempts opts)
                           (Some (projl (fn (nat (maxAttempts opts) - 1))))))"
  using assms retry_loop_undisturbed [OF assms(1), of 0 "nat (maxAttempts opts)" fn None]
  by (simp add: retryWithBackoff_def cong: option.case_cong)

theorem retry_returns_first_success_witness:
  "snd (retryWithBackoff (default_retry_options (\<lambda>_. 0)) (\<lambda>i. if i < 2 then Inl ''busy'' else Inr i))
     = Inr (2::nat)"
  using retry_returns_first_success
    [of "default_retry_options (\<lambda>_. 0)" "\<lambda>i. if i < 2 then Inl ''busy'' else Inr (i::nat)"]
  by (simp add: undisturbed_def default_retry_options_def DEFAULT_MAX_ATTEMPTS_def numeral_nat)

lemma rethrows_permanent_error:
  assumes "1 \<le> maxAttempts opts" and "\<not> aborted opts (BeforeAttempt 0)"
    and "fn 0 = Inl e" and "\<not> isRetryable opts e"
  shows "retryWithBackoff opts fn = ([], Inl (Rethrown e))"
proof -
  from assms(1) obtain n where "nat (maxAttempts opts) = Suc n"
    by (cases "nat (maxAttempts opts)") auto
  with assms show ?thesis by (simp add: retryWithBackoff_def)
qed

subsection \<open>The delay between job attempts\<close>

lemma retryWithJitter_bounds:
  assumes "0 \<le> rnd" "rnd < 1" "0 \<le> base" "0 \<le> mx"
  shows "0 \<le> retryWithJitter attempt base mx rnd"
    and "retryWithJitter attempt base mx rnd \<le> min mx (base * 2 ^ nat attempt)"
proof -
  let ?cap = "min mx (base * 2 ^ nat (max 0 attempt))"
  have cap: "(0::rat) \<le> of_int ?cap" using assms by simp
  then have "0 \<le> rnd * of_int ?cap" using assms by simp
  then show "0 \<le> retryWithJitter attempt base mx rnd"
    by (simp add: retryWithJitter_def Let_def)
  have "rnd * of_int ?cap \<le> 1 * of_int ?cap" using assms cap by (intro mult_right_mono) auto
  then have "\<lfloor>rnd * of_int ?cap\<rfloor> \<le> ?cap" by (metis floor_mono floor_of_int mult_1)
  moreover have "nat (max 0 attempt) = nat attempt" by simp
  ultimately show "retryWithJitter attempt base mx rnd \<le> min mx (base * 2 ^ nat attempt)"
    by (simp add: retryWithJitter_def Let_def)
qed

text \<open>The delay before re-running a failed policy deployment is never negative, never more than an
  hour, and before the first retry less than a second.\<close>

theorem computeBackoff_bounds:
  assumes "0 \<le> rnd" and "rnd < 1"
  shows "0 \<le> computeBackoff n rnd \<and> computeBackoff n rnd \<le> 3600000
       \<and> (n \<le> 1 \<longrightarrow> computeBackoff n rnd \<le> 1000)"
  using retryWithJitter_bounds [of rnd 1000 3600000 "max 0 (n - 1)"] assms
  by (auto simp: computeBackoff_def)

theorem computeBackoff_bounds_witness: "0 \<le> computeBackoff 3 (1 / 2)"
  using computeBackoff_bounds [of "1 / 2" 3] by simp

end
