(* ===== verification/RpcPool.thy ===== *)
theory RpcPool
  imports Prelude "HOL-Library.Multiset"
begin

text \<open>
  The pool of Soroban RPC endpoints of \<open>packages/service-kit/src/rpc-pool.ts\<close>: health state per
  URL, the order in which callers try endpoints, the probe cycle, passive failure reports and
  \<open>withRpcFailover\<close>.  The probe of an endpoint (a JSON-RPC call over the network) is an argument:
  what each URL answered.  \<open>rotations\<close> lists the calls of \<open>onRotate\<close>.  The interval timer and the
  coalescing of overlapping probe cycles are not modelled: a cycle is one step.
\<close>

datatype unhealthy_reason =
    ProbeFailed string
  | ReportedStatus string
  | Lagging int
  | CallFailed string

datatype rotate_reason = HealthCheck | FailureReport string string

record endpoint_health =
  healthy :: bool
  latestLedger :: "int option"
  reason :: "unhealthy_reason option"
  lastCheckedAt :: "instant option"
  lastFailureAt :: "instant option"

record probe_result =
  status :: string
  probedLedger :: int

record rpc_pool =
  urls :: "string list"
  maxLedgerLag :: int
  health :: "(string, endpoint_health) js_map"
  selected :: string
  rotations :: "(string \<times> string \<times> rotate_reason) list"

definition fresh_endpoint :: endpoint_health where
  "fresh_endpoint = \<lparr>healthy = True, latestLedger = None, reason = None,
                     lastCheckedAt = None, lastFailureAt = None\<rparr>"

text \<open>\<open>[...new Set(urls)]\<close>: the first occurrence of each URL, in order.\<close>

fun dedupe :: "'a list \<Rightarrow> 'a list" where
  "dedupe [] = []"
| "dedupe (x # xs) = x # filter (\<lambda>y. y \<noteq> x) (dedupe xs)"

definition createRpcPool :: "string list \<Rightarrow> int \<Rightarrow> string + rpc_pool" where
  "createRpcPool us lag =
     (case dedupe us of
        [] \<Rightarrow> Inl ''createRpcPool: at least one RPC URL is required''
      | u # rest \<Rightarrow>
          Inr \<lparr>urls = u # rest, maxLedgerLag = lag,
               health = map (\<lambda>v. (v, fresh_endpoint)) (u # rest),
               selected = u, rotations = []\<rparr>)"

definition url_healthy :: "rpc_pool \<Rightarrow> string \<Rightarrow> bool" where
  "url_healthy p u = (case js_get (health p) u of None \<Rightarrow> False | Some h \<Rightarrow> healthy h)"

definition failure_rank :: "rpc_pool \<Rightarrow> string \<Rightarrow> instant" where
  "failure_rank p u =
     (case js_get (health p) u of
        None \<Rightarrow> 0
      | Some h \<Rightarrow> (case lastFailureAt h of None \<Rightarrow> 0 | Some t \<Rightarrow> t))"

definition candidates :: "rpc_pool \<Rightarrow> string list" where
  "candidates p =
     filter (url_healthy p) (urls p)
       @ sort_key (failure_rank p) (filter (\<lambda>u. \<not> url_healthy p u) (urls p))"

text \<open>\<open>candidates()[0]!\<close>: the list has an element whenever the pool has a URL (\<open>candidates_nonempty\<close>).\<close>

definition reselect :: "rotate_reason \<Rightarrow> rpc_pool \<Rightarrow> rpc_pool" where
  "reselect why p =
     (case candidates p of
        [] \<Rightarrow> p
      | next_url # _ \<Rightarrow>
          (if next_url \<noteq> selected p
           then p\<lparr>selected := next_url, rotations := rotations p @ [(selected p, next_url, why)]\<rparr>
           else p))"

definition markUnhealthy :: "string \<Rightarrow> unhealthy_reason \<Rightarrow> instant \<Rightarrow> rpc_pool \<Rightarrow> rpc_pool" where
  "markUnhealthy u why now p =
     p\<lparr>health := js_modify u (\<lambda>h. h\<lparr>healthy := False, reason := Some why, lastFailureAt := Some now\<rparr>)
                  (health p)\<rparr>"

definition reportFailure :: "string \<Rightarrow> string \<Rightarrow> instant \<Rightarrow> rpc_pool \<Rightarrow> rpc_pool" where
  "reportFailure u why now p =
     (if \<not> js_has (health p) u then p
      else reselect (FailureReport u why) (markUnhealthy u (CallFailed why) now p))"

subsection \<open>A probe cycle\<close>

text \<open>\<open>results\<close> pairs each URL with \<open>Inl\<close> the error text or \<open>Inr\<close> the reported health.\<close>

definition freshest :: "(string \<times> (string + probe_result)) list \<Rightarrow> int" where
  "freshest results =
     foldr max (concat (map (\<lambda>(u, r). case r of Inl _ \<Rightarrow> [] | Inr h \<Rightarrow> [probedLedger h]) results)) 0"

definition apply_probe ::
  "int \<Rightarrow> instant \<Rightarrow> (string \<Rightarrow> instant) \<Rightarrow> string \<times> (string + probe_result) \<Rightarrow> rpc_pool \<Rightarrow> rpc_pool" where
  "apply_probe newest checkedAt clock = (\<lambda>(u, r) p.
     (let p1 = p\<lparr>health := js_modify u (\<lambda>h. h\<lparr>lastCheckedAt := Some checkedAt\<rparr>) (health p)\<rparr> in
      case r of
        Inl err \<Rightarrow> markUnhealthy u (ProbeFailed err) (clock u) p1
      | Inr res \<Rightarrow>
          (let p2 = p1\<lparr>health := js_modify u (\<lambda>h. h\<lparr>latestLedger := Some (probedLedger res)\<rparr>) (health p1)\<rparr> in
           if status res \<noteq> ''healthy'' then
             markUnhealthy u (ReportedStatus (status res)) (clock u) p2
           else if newest - probedLedger res > maxLedgerLag p then
             markUnhealthy u (Lagging (newest - probedLedger res)) (clock u) p2
           else p2\<lparr>health := js_modify u (\<lambda>h. h\<lparr>healthy := True, reason := None\<rparr>) (health p2)\<rparr>)))"

definition runProbes ::
  "(string \<Rightarrow> string + probe_result) \<Rightarrow> instant \<Rightarrow> (string \<Rightarrow> instant) \<Rightarrow> rpc_pool \<Rightarrow> rpc_pool" where
  "runProbes probe checkedAt clock p =
     (let results = map (\<lambda>u. (u, probe u)) (urls p) in
      reselect HealthCheck (fold (apply_probe (freshest results) checkedAt clock) results p))"

definition snapshot :: "rpc_pool \<Rightarrow> (string \<times> endpoint_health) list" where
  "snapshot p = map (\<lambda>u. (u, case js_get (health p) u of None \<Rightarrow> fresh_endpoint | Some h \<Rightarrow> h)) (urls p)"

subsection \<open>Failover\<close>

text \<open>
  \<open>withRpcFailover\<close> walks the candidate list computed once at the start.  \<open>fn u\<close> is what the call
  against \<open>u\<close> settles to; the result carries the pool afterwards and the URLs called.
\<close>

fun failover_loop ::
  "(string \<Rightarrow> 'e + 'a) \<Rightarrow> ('e \<Rightarrow> bool) \<Rightarrow> ('e \<Rightarrow> string) \<Rightarrow> (string \<Rightarrow> instant) \<Rightarrow> string list \<Rightarrow> 'e option
     \<Rightarrow> rpc_pool \<Rightarrow> rpc_pool \<times> string list \<times> ('e option + 'a)" where
  "failover_loop fn isFailover msg clock [] lastError p = (p, [], Inl lastError)"
| "failover_loop fn isFailover msg clock (u # us) lastError p =
     (case fn u of
        Inr v \<Rightarrow> (p, [u], Inr v)
      | Inl err \<Rightarrow>
          (if \<not> isFailover err then (p, [u], Inl (Some err))
           else
             (let rest = failover_loop fn isFailover msg clock us (Some err)
                           (reportFailure u (msg err) (clock u) p)
              in (fst rest, u # fst (snd rest), snd (snd rest)))))"

definition withRpcFailover ::
  "(string \<Rightarrow> 'e + 'a) \<Rightarrow> ('e \<Rightarrow> bool) \<Rightarrow> ('e \<Rightarrow> string) \<Rightarrow> (string \<Rightarrow> instant) \<Rightarrow> rpc_pool
     \<Rightarrow> rpc_pool \<times> string list \<times> ('e option + 'a)" where
  "withRpcFailover fn isFailover msg clock p =
     failover_loop fn isFailover msg clock (candidates p) None p"

subsection \<open>The pool invariant\<close>

definition pool_inv :: "rpc_pool \<Rightarrow> bool" where
  "pool_inv p \<longleftrightarrow> urls p \<noteq> [] \<and> distinct (urls p) \<and> map fst (health p) = urls p
     \<and> selected p = hd (candidates p)"

definition pool_shape :: "rpc_pool \<Rightarrow> bool" where
  "pool_shape p \<longleftrightarrow> urls p \<noteq> [] \<and> distinct (urls p) \<and> map fst (health p) = urls p"

lemma set_dedupe [simp]: "set (dedupe xs) = set xs"
  by (induction xs) auto

lemma distinct_dedupe [simp]: "distinct (dedupe xs)"
  by (induction xs) auto

lemma mset_candidates: "mset (candidates p) = mset (urls p)"
  by (simp add: candidates_def)

lemma set_candidates [simp]: "set (candidates p) = set (urls p)"
  using mset_candidates mset_eq_setD by blast

lemma candidates_nonempty: "urls p \<noteq> [] \<Longrightarrow> candidates p \<noteq> []"
  using set_candidates [of p] by (metis list.set_intros(1) neq_Nil_conv empty_iff list.set(1))

lemma reselect_sel [simp]:
  "urls (reselect why p) = urls p" "health (reselect why p) = health p"
  "maxLedgerLag (reselect why p) = maxLedgerLag p"
  by (auto simp: reselect_def split: list.splits)

lemma candidates_cong:
  "urls p = urls q \<Longrightarrow> health p = health q \<Longrightarrow> candidates p = candidates q"
  by (simp add: candidates_def url_healthy_def [abs_def] failure_rank_def [abs_def])

lemma candidates_reselect [simp]: "candidates (reselect why p) = candidates p"
  by (rule candidates_cong) simp_all

lemma reselect_inv: "pool_shape p \<Longrightarrow> pool_inv (reselect why p)"
  using candidates_nonempty [of p]
  by (cases "candidates p") (auto simp: pool_inv_def pool_shape_def reselect_def candidates_def
      url_healthy_def [abs_def] failure_rank_def [abs_def] split: list.splits)

lemma markUnhealthy_shape [simp]: "pool_shape (markUnhealthy u why now p) = pool_shape p"
  by (simp add: pool_shape_def markUnhealthy_def)

lemma apply_probe_shape [simp]: "pool_shape (apply_probe newest at clock r p) = pool_shape p"
  by (cases r) (auto simp: apply_probe_def pool_shape_def markUnhealthy_def Let_def split: sum.splits)

lemma fold_apply_probe_shape: "pool_shape p \<Longrightarrow> pool_shape (fold (apply_probe newest at clock) rs p)"
  by (induction rs arbitrary: p) auto

lemma pool_inv_shape: "pool_inv p \<Longrightarrow> pool_shape p"
  by (simp add: pool_inv_def pool_shape_def)

lemma createRpcPool_inv: "createRpcPool us lag = Inr p \<Longrightarrow> pool_inv p"
proof -
  assume r: "createRpcPool us lag = Inr p"
  then obtain u rest where d: "dedupe us = u # rest"
    and p: "p = \<lparr>urls = u # rest, maxLedgerLag = lag,
               health = map (\<lambda>v. (v, fresh_endpoint)) (u # rest), selected = u, rotations = []\<rparr>"
    by (auto simp: createRpcPool_def split: list.splits)
  have "distinct (u # rest)" using distinct_dedupe [of us] d by simp
  moreover have "url_healthy p v" if "v \<in> set (u # rest)" for v
  proof -
    have "js_get (map (\<lambda>v. (v, fresh_endpoint)) xs) v = Some fresh_endpoint" if "v \<in> set xs" for xs
      using that by (induction xs) auto
    with that show ?thesis by (auto simp: url_healthy_def p fresh_endpoint_def)
  qed
  ultimately show ?thesis
    by (simp add: pool_inv_def candidates_def p o_def)
qed

lemma reportFailure_inv: "pool_inv p \<Longrightarrow> pool_inv (reportFailure u why now p)"
  by (auto simp: reportFailure_def intro!: reselect_inv dest: pool_inv_shape)

lemma runProbes_inv: "pool_inv p \<Longrightarrow> pool_inv (runProbes probe at clock p)"
  by (auto simp: runProbes_def Let_def intro!: reselect_inv fold_apply_probe_shape dest: pool_inv_shape)

inductive pool_step :: "rpc_pool \<Rightarrow> rpc_pool \<Rightarrow> bool" where
  failure: "pool_step p (reportFailure u why now p)"
| probes: "pool_step p (runProbes probe at clock p)"

inductive pool_reachable :: "rpc_pool \<Rightarrow> bool" where
  create: "createRpcPool us lag = Inr p \<Longrightarrow> pool_reachable p"
| step: "pool_reachable p \<Longrightarrow> pool_step p q \<Longrightarrow> pool_reachable q"

inductive_cases pool_stepE: "pool_step p q"

lemma pool_reachable_inv: "pool_reachable p \<Longrightarrow> pool_inv p"
  by (induction rule: pool_reachable.induct)
     (auto elim!: pool_stepE intro: createRpcPool_inv reportFailure_inv runProbes_inv)

text \<open>In every reachable pool the endpoint handed out is the head of \<open>candidates\<close>, which lists every
  configured URL exactly once with all healthy URLs, in configured order, before the unhealthy
  ones; so the primary is used whenever it is healthy and some endpoint is handed out always.\<close>

theorem pool_selection:
  assumes "pool_reachable p"
  shows "selected p = hd (candidates p) \<and> candidates p \<noteq> []
       \<and> distinct (candidates p) \<and> set (candidates p) = set (urls p)
       \<and> takeWhile (url_healthy p) (candidates p) = filter (url_healthy p) (urls p)
       \<and> (url_healthy p (hd (urls p)) \<longrightarrow> selected p = hd (urls p))"
proof -
  have inv: "pool_inv p" using assms by (rule pool_reachable_inv)
  then have ne: "urls p \<noteq> []" and d: "distinct (urls p)" and sel: "selected p = hd (candidates p)"
    by (simp_all add: pool_inv_def)
  have "distinct (candidates p)"
    using d mset_candidates [of p] by (metis mset_eq_imp_distinct_iff)
  moreover have "takeWhile (url_healthy p) (candidates p) = filter (url_healthy p) (urls p)"
  proof -
    have "takeWhile (url_healthy p) (sort_key (failure_rank p) (filter (\<lambda>u. \<not> url_healthy p u) (urls p))) = []"
      by (auto simp: takeWhile_eq_Nil_iff dest!: hd_in_set)
    then show ?thesis by (auto simp: candidates_def takeWhile_append)
  qed
  moreover have "url_healthy p (hd (urls p)) \<longrightarrow> selected p = hd (urls p)"
    using ne sel by (cases "urls p") (simp_all add: candidates_def)
  ultimately show ?thesis using sel candidates_nonempty [OF ne] by simp
qed

theorem pool_selection_witness:
  "selected (reportFailure ''a'' ''down'' 5 (projr (createRpcPool [''a'', ''b''] 10))) = ''b''"
proof -
  have "pool_reachable (projr (createRpcPool [''a'', ''b''] 10))"
    by (rule pool_reachable.create [of "[''a'', ''b'']" 10]) (simp add: createRpcPool_def)
  then have "pool_reachable (reportFailure ''a'' ''down'' 5 (projr (createRpcPool [''a'', ''b''] 10)))"
    by (rule pool_reachable.step) (rule pool_step.failure)
  from pool_selection [OF this] show ?thesis
    by (simp add: createRpcPool_def reportFailure_def markUnhealthy_def js_modify_def js_has_def
        candidates_def url_healthy_def fresh_endpoint_def)
qed

subsection \<open>Failover tries every endpoint\<close>

lemma url_healthy_reportFailure:
  "url_healthy (reportFailure u why now p) v = (v \<noteq> u \<and> url_healthy p v)"
  by (auto simp: reportFailure_def url_healthy_def markUnhealthy_def js_has_def split: option.splits)

lemma failover_loop_keeps_unhealthy:
  "\<not> url_healthy p v \<Longrightarrow> \<not> url_healthy (fst (failover_loop fn isF msg clock us le p)) v"
  by (induction us arbitrary: le p) (auto simp: url_healthy_reportFailure Let_def split: sum.splits)

lemma failover_loop_inv:
  "pool_inv p \<Longrightarrow> pool_inv (fst (failover_loop fn isF msg clock us le p))"
  by (induction us arbitrary: le p) (auto simp: reportFailure_inv Let_def split: sum.splits)

definition failed_prefix :: "(string \<Rightarrow> 'e + 'a) \<Rightarrow> string list \<Rightarrow> string list" where
  "failed_prefix fn us = takeWhile (\<lambda>u. \<not> is_ok (fn u)) us"

lemma failover_loop_result:
  "snd (failover_loop fn (\<lambda>_. True) msg clock us le p)
     = (case dropWhile (\<lambda>u. \<not> is_ok (fn u)) us of
          [] \<Rightarrow> (us, Inl (if us = [] then le else Some (projl (fn (last us)))))
        | u # _ \<Rightarrow> (failed_prefix fn us @ [u], Inr (projr (fn u))))
   \<and> list_all (\<lambda>u. \<not> url_healthy (fst (failover_loop fn (\<lambda>_. True) msg clock us le p)) u)
       (failed_prefix fn us)"
proof (induction us arbitrary: le p)
  case Nil
  then show ?case by (simp add: failed_prefix_def)
next
  case (Cons u us)
  show ?case
  proof (cases "fn u")
    case (Inr v)
    then show ?thesis by (simp add: failed_prefix_def)
  next
    case (Inl e)
    let ?p = "reportFailure u (msg e) (clock u) p"
    let ?rest = "failover_loop fn (\<lambda>_. True) msg clock us (Some e) ?p"
    have step: "failover_loop fn (\<lambda>_. True) msg clock (u # us) le p = (fst ?rest, u # fst (snd ?rest), snd (snd ?rest))"
      using Inl by (simp add: Let_def)
    have u: "\<not> url_healthy (fst ?rest) u"
      by (rule failover_loop_keeps_unhealthy) (simp add: url_healthy_reportFailure)
    note IH = Cons.IH [of "Some e" ?p]
    show ?thesis
    proof (cases "dropWhile (\<lambda>u. \<not> is_ok (fn u)) us")
      case Nil
      with IH Inl u show ?thesis unfolding step
        by (simp add: failed_prefix_def del: dropWhile_eq_Nil_conv)
    next
      case (Cons w ws)
      with IH Inl u show ?thesis unfolding step by (simp add: failed_prefix_def)
    qed
  qed
qed

text \<open>With every error counted as an endpoint failure, \<open>withRpcFailover\<close> calls the candidates in
  order up to the first that answers and returns its answer; it throws the last error only after
  every configured endpoint has failed; every endpoint that failed is unhealthy afterwards and
  the pool keeps its invariant.\<close>

theorem failover_tries_every_endpoint:
  assumes "pool_reachable p" and "\<forall>e. isFailover e"
  shows "snd (withRpcFailover fn isFailover msg clock p)
       = (case dropWhile (\<lambda>u. \<not> is_ok (fn u)) (candidates p) of
            [] \<Rightarrow> (candidates p, Inl (Some (projl (fn (last (candidates p))))))
          | u # _ \<Rightarrow> (failed_prefix fn (candidates p) @ [u], Inr (projr (fn u))))
     \<and> (is_ok (snd (snd (withRpcFailover fn isFailover msg clock p))) \<longleftrightarrow> list_ex (\<lambda>u. is_ok (fn u)) (urls p))
     \<and> list_all (\<lambda>u. \<not> url_healthy (fst (withRpcFailover fn isFailover msg clock p)) u)
         (failed_prefix fn (candidates p))
     \<and> pool_inv (fst (withRpcFailover fn isFailover msg clock p))"
proof -
  have inv: "pool_inv p" using assms(1) by (rule pool_reachable_inv)
  then have ne: "candidates p \<noteq> []" by (simp add: pool_inv_def candidates_nonempty)
  have isF: "isFailover = (\<lambda>_. True)" using assms(2) by auto
  have some: "(dropWhile (\<lambda>u. \<not> is_ok (fn u)) (candidates p) = []) \<longleftrightarrow> \<not> list_ex (\<lambda>u. is_ok (fn u)) (urls p)"
    using set_candidates [of p] by (simp add: list_ex_iff)
  note res = failover_loop_result [of fn msg clock "candidates p" None p]
    failover_loop_inv [OF inv, of fn isFailover msg clock "candidates p" None]
  show ?thesis
  proof (cases "dropWhile (\<lambda>u. \<not> is_ok (fn u)) (candidates p)")
    case Nil
    with res ne isF some show ?thesis by (simp add: withRpcFailover_def del: dropWhile_eq_Nil_conv)
  next
    case (Cons u us)
    with res ne isF some show ?thesis by (simp add: withRpcFailover_def)
  qed
qed

theorem failover_tries_every_endpoint_witness:
  "snd (withRpcFailover (\<lambda>u. if u = ''b'' then Inr (7::nat) else Inl ''down'') (\<lambda>_. True) id (\<lambda>_. 5)
          (projr (createRpcPool [''a'', ''b''] 10)))
     = ([''a'', ''b''], Inr 7)"
proof -
  have r: "pool_reachable (projr (createRpcPool [''a'', ''b''] 10))"
    by (rule pool_reachable.create [of "[''a'', ''b'']" 10]) (simp add: createRpcPool_def)
  have "candidates (projr (createRpcPool [''a'', ''b''] 10)) = [''a'', ''b'']"
    by (simp add: createRpcPool_def candidates_def url_healthy_def fresh_endpoint_def)
  with failover_tries_every_endpoint
      [OF r, of "\<lambda>_. True" "\<lambda>u. if u = ''b'' then Inr (7::nat) else Inl ''down''" id "\<lambda>_. 5"]
  show ?thesis by (simp add: failed_prefix_def)
qed

end
