(* ===== verification/SpendBudget.thy ===== *)
theory SpendBudget
  imports Prelude
begin

text \<open>
  The rolling-window spend budgets of the funding paths: \<open>packages/service-kit/src/budget.ts\<close>
  and its Postgres implementation \<open>packages/service-kit/src/pg-budget.ts\<close>.  The
  \<open>spend_ledger\<close> table is the list of its rows in commit order.  The check and the insert run in
  one transaction under an advisory lock keyed on line and network, taken before the aggregate is
  read, so \<open>tryConsume\<close> is one atomic step; the two clock reads happen before the lock is taken,
  so their order across callers is not the order of the commits.
\<close>

datatype budget_line = Sponsor_line | Deploy_line | Create_line

record budget_limits =
  maxStroops :: "int option"
  maxCount :: int

record consume_request =
  req_line :: budget_line
  req_network :: network
  req_stroops :: int
  req_count :: "int option"

datatype consume_result = Consumed | Refused string

record ledger_row =
  row_line :: budget_line
  row_network :: network
  row_stroops :: int
  row_count :: int
  row_at :: instant

record budget_config =
  windowMs :: int
  limits :: "budget_line \<Rightarrow> budget_limits"

definition withinCeiling :: "int \<Rightarrow> int \<Rightarrow> int \<Rightarrow> budget_limits \<Rightarrow> bool" where
  "withinCeiling priorStroops priorCount addStroops lim =
     (if priorCount + 1 > maxCount lim then False
      else (case maxStroops lim of
              None \<Rightarrow> True
            | Some mx \<Rightarrow> \<not> priorStroops + addStroops > mx))"

definition add_count :: "consume_request \<Rightarrow> int" where
  "add_count req = (case req_count req of None \<Rightarrow> 1 | Some n \<Rightarrow> n)"

definition window_rows :: "budget_line \<Rightarrow> network \<Rightarrow> instant \<Rightarrow> ledger_row list \<Rightarrow> ledger_row list" where
  "window_rows l n start led = filter (\<lambda>r. row_line r = l \<and> row_network r = n \<and> start < row_at r) led"

definition sum_stroops :: "ledger_row list \<Rightarrow> int" where
  "sum_stroops led = sum_list (map row_stroops led)"

definition sum_count :: "ledger_row list \<Rightarrow> int" where
  "sum_count led = sum_list (map row_count led)"

definition tryConsume ::
  "budget_config \<Rightarrow> instant \<times> instant \<times> consume_request \<Rightarrow> ledger_row list \<Rightarrow> ledger_row list \<times> consume_result"
where
  "tryConsume cfg = (\<lambda>(now1, now2, req) led.
     (let lim = limits cfg (req_line req);
          windowStart = now1 - windowMs cfg;
          agg = window_rows (req_line req) (req_network req) windowStart led
      in if sum_count agg + add_count req \<le> maxCount lim
            \<and> (case maxStroops lim of None \<Rightarrow> True | Some mx \<Rightarrow> sum_stroops agg + req_stroops req \<le> mx)
         then (led @ [\<lparr>row_line = req_line req, row_network = req_network req,
                       row_stroops = req_stroops req, row_count = add_count req, row_at = now2\<rparr>], Consumed)
         else (led, Refused ''budget_exceeded'')))"

definition unavailable_tryConsume :: "'r \<Rightarrow> 's \<Rightarrow> 's \<times> consume_result" where
  "unavailable_tryConsume req s = (s, Refused ''budget_unavailable'')"

subsection \<open>The interface the funding paths rely on\<close>

text \<open>
  A funding path asks \<open>consume\<close> before it spends and spends only when the answer is \<open>Consumed\<close>.
  The laws: an accepted request is on record with its amount, a refused one leaves no trace.
\<close>

fun gate_run :: "('r \<Rightarrow> 's \<Rightarrow> 's \<times> consume_result) \<Rightarrow> 'r list \<Rightarrow> 's \<Rightarrow> 's \<times> 'r list" where
  "gate_run consume [] s = (s, [])"
| "gate_run consume (r # rs) s =
     (case consume r s of
        (s', Consumed) \<Rightarrow> (let rest = gate_run consume rs s' in (fst rest, r # snd rest))
      | (s', Refused _) \<Rightarrow> gate_run consume rs s')"

locale spend_gate =
  fixes consume :: "'r \<Rightarrow> 's \<Rightarrow> 's \<times> consume_result"
    and amount :: "'r \<Rightarrow> int"
    and spent :: "'s \<Rightarrow> int"
  assumes accept_records: "consume r s = (s', Consumed) \<Longrightarrow> spent s' = spent s + amount r"
    and refuse_keeps: "consume r s = (s', Refused why) \<Longrightarrow> s' = s"
begin

lemma gate_accounts_for_every_spend:
  "spent (fst (gate_run consume rs s)) = spent s + sum_list (map amount (snd (gate_run consume rs s)))"
  by (induction rs arbitrary: s)
     (auto simp: Let_def accept_records dest: refuse_keeps split: prod.split consume_result.split)

lemma gate_run_Cons:
  "gate_run consume (r # rs) s =
     (if snd (consume r s) = Consumed
      then (fst (gate_run consume rs (fst (consume r s))), r # snd (gate_run consume rs (fst (consume r s))))
      else gate_run consume rs s)"
  by (cases "consume r s"; cases "snd (consume r s)") (auto simp: Let_def dest: refuse_keeps)

lemma gate_accepts_subset: "set (snd (gate_run consume rs s)) \<subseteq> set rs"
proof (induction rs arbitrary: s)
  case Nil
  then show ?case by simp
next
  case (Cons r rs)
  show ?case using Cons.IH [of s] Cons.IH [of "fst (consume r s)"]
    by (simp only: gate_run_Cons split: if_split) auto
qed

lemma all_refused_no_trace:
  "snd (gate_run consume rs s) = [] \<Longrightarrow> fst (gate_run consume rs s) = s"
  by (induction rs arbitrary: s)
     (auto simp: Let_def dest: refuse_keeps split: prod.splits consume_result.splits)

end

interpretation pg_gate: spend_gate "tryConsume cfg" "\<lambda>(_, _, req). req_stroops req" sum_stroops
  by unfold_locales
     (auto simp: tryConsume_def sum_stroops_def Let_def split: prod.splits if_splits option.splits)

interpretation unavailable_gate: spend_gate unavailable_tryConsume "\<lambda>req. amt req" "\<lambda>s. tot s"
  by unfold_locales (auto simp: unavailable_tryConsume_def)

subsection \<open>The ceiling of every window\<close>

definition fair_request :: "instant \<times> instant \<times> consume_request \<Rightarrow> bool" where
  "fair_request = (\<lambda>(now1, now2, req). now1 \<le> now2 \<and> 0 \<le> req_stroops req \<and> 0 \<le> add_count req)"

definition ledger_nonneg :: "ledger_row list \<Rightarrow> bool" where
  "ledger_nonneg led = list_all (\<lambda>r. 0 \<le> row_stroops r \<and> 0 \<le> row_count r) led"

definition closed_window :: "budget_line \<Rightarrow> network \<Rightarrow> instant \<Rightarrow> instant \<Rightarrow> ledger_row list \<Rightarrow> ledger_row list" where
  "closed_window l n start stop led = filter (\<lambda>r. row_at r \<le> stop) (window_rows l n start led)"

definition ceiling_ok :: "budget_limits \<Rightarrow> ledger_row list \<Rightarrow> bool" where
  "ceiling_ok lim led \<longleftrightarrow> sum_count led \<le> maxCount lim
     \<and> (case maxStroops lim of None \<Rightarrow> True | Some mx \<Rightarrow> sum_stroops led \<le> mx)"

definition limits_nonneg :: "budget_limits \<Rightarrow> bool" where
  "limits_nonneg lim \<longleftrightarrow> 0 \<le> maxCount lim \<and> (case maxStroops lim of None \<Rightarrow> True | Some mx \<Rightarrow> 0 \<le> mx)"

lemma sum_stroops_simps [simp]:
  "sum_stroops [] = 0" "sum_stroops (r # rs) = row_stroops r + sum_stroops rs"
  "sum_stroops (xs @ ys) = sum_stroops xs + sum_stroops ys"
  by (simp_all add: sum_stroops_def)

lemma sum_count_simps [simp]:
  "sum_count [] = 0" "sum_count (r # rs) = row_count r + sum_count rs"
  "sum_count (xs @ ys) = sum_count xs + sum_count ys"
  by (simp_all add: sum_count_def)

lemma sums_filter_mono:
  assumes "ledger_nonneg led" and "\<And>r. P r \<Longrightarrow> Q r"
  shows "sum_stroops (filter P led) \<le> sum_stroops (filter Q led)
       \<and> sum_count (filter P led) \<le> sum_count (filter Q led)"
  using assms(1)
proof (induction led)
  case Nil
  then show ?case by simp
next
  case (Cons r led)
  with assms(2) [of r] show ?case by (auto simp: ledger_nonneg_def)
qed

lemma closed_window_le_window:
  assumes "ledger_nonneg led" and "start' \<le> start"
  shows "sum_stroops (closed_window l n start stop led) \<le> sum_stroops (window_rows l n start' led)
       \<and> sum_count (closed_window l n start stop led) \<le> sum_count (window_rows l n start' led)"
  unfolding closed_window_def window_rows_def filter_filter
  using assms by (intro sums_filter_mono) auto

lemma tryConsume_nonneg:
  "fair_request r \<Longrightarrow> ledger_nonneg led \<Longrightarrow> ledger_nonneg (fst (tryConsume cfg r led))"
  by (cases r) (auto simp: tryConsume_def fair_request_def ledger_nonneg_def Let_def)

lemma closed_window_snoc:
  "closed_window l n a b (led @ [r])
     = closed_window l n a b led
         @ (if row_line r = l \<and> row_network r = n \<and> a < row_at r \<and> row_at r \<le> b then [r] else [])"
  by (simp add: closed_window_def window_rows_def)

lemma tryConsume_ceiling:
  assumes fair: "fair_request r" and nn: "ledger_nonneg led"
    and ok: "ceiling_ok (limits cfg l) (closed_window l n (t - windowMs cfg) t led)"
  shows "ceiling_ok (limits cfg l) (closed_window l n (t - windowMs cfg) t (fst (tryConsume cfg r led)))"
proof -
  obtain now1 now2 req where r: "r = (now1, now2, req)" by (cases r)
  let ?start = "now1 - windowMs cfg"
  let ?agg = "window_rows (req_line req) (req_network req) ?start led"
  let ?lim = "limits cfg (req_line req)"
  let ?row = "\<lparr>row_line = req_line req, row_network = req_network req,
                row_stroops = req_stroops req, row_count = add_count req, row_at = now2\<rparr>"
  show ?thesis
  proof (cases "sum_count ?agg + add_count req \<le> maxCount ?lim
            \<and> (case maxStroops ?lim of None \<Rightarrow> True | Some mx \<Rightarrow> sum_stroops ?agg + req_stroops req \<le> mx)")
    case False
    then have "fst (tryConsume cfg r led) = led" by (simp add: tryConsume_def r Let_def)
    with ok show ?thesis by simp
  next
    case True
    then have led': "fst (tryConsume cfg r led) = led @ [?row]" by (simp add: tryConsume_def r Let_def)
    show ?thesis
    proof (cases "req_line req = l \<and> req_network req = n \<and> t - windowMs cfg < now2 \<and> now2 \<le> t")
      case False
      with ok led' show ?thesis by (auto simp: closed_window_snoc)
    next
      case inside: True
      with fair r have "?start \<le> t - windowMs cfg" by (simp add: fair_request_def)
      from closed_window_le_window [OF nn this, of l n t] inside True led'
      show ?thesis by (auto simp: closed_window_snoc ceiling_ok_def split: option.splits)
    qed
  qed
qed

lemma gate_run_snoc_inv:
  assumes "\<And>r s. fair_request r \<Longrightarrow> I s \<Longrightarrow> I (fst (tryConsume cfg r s))"
    and "list_all fair_request rs" and "I s"
  shows "I (fst (gate_run (tryConsume cfg) rs s))"
  using assms(2,3)
proof (induction rs arbitrary: s)
  case Nil
  then show ?case by simp
next
  case (Cons r rs)
  from assms(1) [of r s] Cons.prems have "I (fst (tryConsume cfg r s))" by simp
  with Cons.IH [of "fst (tryConsume cfg r s)"] Cons.IH [of s] Cons.prems show ?case
    by (simp only: pg_gate.gate_run_Cons list.pred_inject split: if_split) simp
qed

definition window_inv :: "budget_config \<Rightarrow> budget_line \<Rightarrow> network \<Rightarrow> instant \<Rightarrow> ledger_row list \<Rightarrow> bool" where
  "window_inv cfg l n t led \<longleftrightarrow> ledger_nonneg led
     \<and> ceiling_ok (limits cfg l) (closed_window l n (t - windowMs cfg) t led)"

lemma window_inv_init: "limits_nonneg (limits cfg l) \<Longrightarrow> window_inv cfg l n t []"
  by (auto simp: window_inv_def ledger_nonneg_def ceiling_ok_def limits_nonneg_def closed_window_def
      window_rows_def split: option.splits)

lemma window_inv_step:
  "fair_request r \<Longrightarrow> window_inv cfg l n t led \<Longrightarrow> window_inv cfg l n t (fst (tryConsume cfg r led))"
  unfolding window_inv_def by (blast intro: tryConsume_nonneg tryConsume_ceiling)

text \<open>C1: Starting from an empty ledger and whatever the order in which concurrent callers commit,
  the calls accepted on a line and network inside any time window of the configured length, wherever
  it is placed, never exceed the call ceiling nor, on a metered line, the stroop ceiling.\<close>

theorem budget_ceiling_every_window:
  assumes "list_all fair_request rs" and "limits_nonneg (limits cfg l)"
  shows "ceiling_ok (limits cfg l)
           (closed_window l n (t - windowMs cfg) t (fst (gate_run (tryConsume cfg) rs [])))"
proof -
  have "window_inv cfg l n t (fst (gate_run (tryConsume cfg) rs []))"
    by (rule gate_run_snoc_inv [of "window_inv cfg l n t", OF window_inv_step assms(1)
          window_inv_init [OF assms(2)]])
  then show ?thesis by (simp add: window_inv_def)
qed

definition example_config :: budget_config where
  "example_config = \<lparr>windowMs = 100, limits = (\<lambda>_. \<lparr>maxStroops = Some 50, maxCount = 3\<rparr>)\<rparr>"

definition example_request :: "int \<Rightarrow> consume_request" where
  "example_request n = \<lparr>req_line = Sponsor_line, req_network = Mainnet, req_stroops = n, req_count = None\<rparr>"

theorem budget_ceiling_every_window_witness:
  "ceiling_ok (limits example_config Sponsor_line)
     (closed_window Sponsor_line Mainnet (120 - windowMs example_config) 120
       (fst (gate_run (tryConsume example_config)
          [(20, 21, example_request 30), (10, 11, example_request 20), (90, 90, example_request 40)] [])))"
  by (rule budget_ceiling_every_window)
     (simp_all add: fair_request_def add_count_def limits_nonneg_def example_config_def example_request_def)

text \<open>Every stroop accepted by the ledger is on record: after any sequence of requests the recorded
  total has grown by exactly the amounts of the accepted ones.\<close>

theorem budget_accounts_for_every_spend:
  "sum_stroops (fst (gate_run (tryConsume cfg) rs led))
     = sum_stroops led + sum_list (map (\<lambda>(_, _, req). req_stroops req) (snd (gate_run (tryConsume cfg) rs led)))"
  by (rule pg_gate.gate_accounts_for_every_spend)

lemma unavailable_budget_spends_nothing:
  "gate_run unavailable_tryConsume rs s = (s, [])"
  by (induction rs) (simp_all add: unavailable_tryConsume_def)

text \<open>For a single call the SQL condition is the pure ceiling check of \<open>budget.ts\<close>.\<close>

lemma tryConsume_withinCeiling:
  assumes "add_count req = 1"
  shows "snd (tryConsume cfg (now1, now2, req) led) = Consumed \<longleftrightarrow>
     withinCeiling
       (sum_stroops (window_rows (req_line req) (req_network req) (now1 - windowMs cfg) led))
       (sum_count (window_rows (req_line req) (req_network req) (now1 - windowMs cfg) led))
       (req_stroops req) (limits cfg (req_line req))"
  using assms by (auto simp: tryConsume_def withinCeiling_def Let_def not_less split: option.splits)

end
