(* ===== verification/SigningKeys.thy ===== *)
theory SigningKeys
  imports Prelude
begin

text \<open>
  The signing-key and network coherence guard of \<open>packages/service-kit/src/signing-keys.ts\<close>.  Key
  derivation (the Stellar SDK's) and \<open>new URL\<close> (host and path of a parsed URL, \<open>None\<close> when the
  constructor throws) are arguments.  Every problem pushed by the code is a constructor of
  \<open>key_problem\<close> carrying the values its message names; the message never carries a secret, and
  no constructor has a place for one.
\<close>

datatype role = SponsorRole | AttestorRole

record key_input =
  role :: role
  secretEnvVar :: string
  secret :: "string option"
  pinEnvVar :: string
  expectedPublicKey :: "string option"

record key_check =
  kc_network :: network
  kc_keys :: "key_input list"
  relayerBaseUrl :: "string option"
  allowUnpinned :: bool
  nodeEnv :: "string option"

record resolved_key =
  rk_role :: role
  publicKey :: string
  pinned :: bool

record key_report =
  rep_network :: network
  rep_keys :: "resolved_key list"
  rep_relayer :: "network option"

datatype key_problem =
    SecretMissing string string role
  | InvalidSeed string
  | PinMismatch string string string string role network
  | UnpinnedOnMainnet string string string role bool
  | SharedAccount role role string
  | RelayerMismatch string network network

type_synonym derive = "string \<Rightarrow> string option"

type_synonym url_parser = "string \<Rightarrow> (string \<times> string) option"

definition relayerNetwork :: "url_parser \<Rightarrow> string \<Rightarrow> network option" where
  "relayerNetwork parse_url baseUrl =
     (case parse_url baseUrl of
        None \<Rightarrow> None
      | Some (h, p) \<Rightarrow>
          (let host = to_lower h; path = to_lower (strip_trailing CHR ''/'' p) in
           if host = ''channels.openzeppelin.com'' then
             (if path = ''/testnet'' \<or> starts_with path ''/testnet/'' then Some Testnet
              else if path = [] \<or> path = ''/mainnet'' \<or> starts_with path ''/mainnet/'' then Some Mainnet
              else None)
           else
             (let segments = split_on CHR ''/'' path in
              if ''testnet'' \<in> set segments then Some Testnet
              else if ''mainnet'' \<in> set segments \<or> ''pubnet'' \<in> set segments then Some Mainnet
              else None)))"

text \<open>\<open>key.secret?.trim()\<close> tested for truth, and \<open>key.expectedPublicKey?.trim() || undefined\<close>.\<close>

definition trimmed :: "string option \<Rightarrow> string option" where
  "trimmed v = (case v of None \<Rightarrow> None | Some s \<Rightarrow> (if js_trim s = [] then None else Some (js_trim s)))"

text \<open>One pass of the first loop: the problems it pushes and the key it resolves, if any.\<close>

definition check_key ::
  "derive \<Rightarrow> network \<Rightarrow> bool \<Rightarrow> bool \<Rightarrow> key_input \<Rightarrow> key_problem list \<times> resolved_key list" where
  "check_key derivePublicKey net isProd allowUnp key =
     (let pin = trimmed (expectedPublicKey key) in
      case trimmed (secret key) of
        None \<Rightarrow>
          (if pin \<noteq> None then ([SecretMissing (pinEnvVar key) (secretEnvVar key) (role key)], []) else ([], []))
      | Some sec \<Rightarrow>
          (case derivePublicKey sec of
             None \<Rightarrow> ([InvalidSeed (secretEnvVar key)], [])
           | Some pk \<Rightarrow>
               (case pin of
                  Some p \<Rightarrow>
                    (if p \<noteq> pk
                     then ([PinMismatch (secretEnvVar key) pk (pinEnvVar key) p (role key) net], [])
                     else ([], [\<lparr>rk_role = role key, publicKey = pk, pinned = True\<rparr>]))
                | None \<Rightarrow>
                    (if net = Mainnet \<and> \<not> allowUnp
                     then ([UnpinnedOnMainnet (secretEnvVar key) (pinEnvVar key) pk (role key) isProd], [])
                     else ([], [\<lparr>rk_role = role key, publicKey = pk, pinned = False\<rparr>])))))"

fun shared_accounts :: "resolved_key list \<Rightarrow> (string, role) js_map \<Rightarrow> key_problem list" where
  "shared_accounts [] byPublicKey = []"
| "shared_accounts (k # ks) byPublicKey =
     (case js_get byPublicKey (publicKey k) of
        Some other \<Rightarrow> (if other \<noteq> rk_role k then [SharedAccount other (rk_role k) (publicKey k)] else [])
      | None \<Rightarrow> [])
     @ shared_accounts ks (js_set (publicKey k) (rk_role k) byPublicKey)"

definition relayer_of :: "url_parser \<Rightarrow> key_check \<Rightarrow> network option" where
  "relayer_of parse_url inp =
     (case relayerBaseUrl inp of
        None \<Rightarrow> None
      | Some u \<Rightarrow> (if u = [] then None else relayerNetwork parse_url u))"

definition relayer_problems :: "url_parser \<Rightarrow> key_check \<Rightarrow> key_problem list" where
  "relayer_problems parse_url inp =
     (case relayer_of parse_url inp of
        None \<Rightarrow> []
      | Some n \<Rightarrow>
          (if n \<noteq> kc_network inp
           then [RelayerMismatch (case relayerBaseUrl inp of None \<Rightarrow> [] | Some u \<Rightarrow> u) n (kc_network inp)]
           else []))"

definition is_prod :: "key_check \<Rightarrow> bool" where
  "is_prod inp = (nodeEnv inp = Some ''production'')"

definition checked_keys :: "derive \<Rightarrow> key_check \<Rightarrow> (key_problem list \<times> resolved_key list) list" where
  "checked_keys derivePublicKey inp =
     map (check_key derivePublicKey (kc_network inp) (is_prod inp) (\<not> is_prod inp \<and> allowUnpinned inp))
       (kc_keys inp)"

text \<open>\<open>Inl\<close> is the thrown \<open>SigningKeyConfigError\<close> with all its problems.\<close>

definition verifySigningKeys :: "derive \<Rightarrow> url_parser \<Rightarrow> key_check \<Rightarrow> key_problem list + key_report" where
  "verifySigningKeys derivePublicKey parse_url inp =
     (let checked = checked_keys derivePublicKey inp;
          resolved = concat (map snd checked);
          problems = concat (map fst checked) @ shared_accounts resolved [] @ relayer_problems parse_url inp
      in if problems \<noteq> [] then Inl problems
         else Inr \<lparr>rep_network = kc_network inp, rep_keys = resolved, rep_relayer = relayer_of parse_url inp\<rparr>)"

subsection \<open>The on-chain probe and the environment\<close>

datatype account_status = Found | NotFound | ProbeError string

definition probeSigningKeysOnChain ::
  "(string \<Rightarrow> string + bool) \<Rightarrow> key_report \<Rightarrow> (role \<times> string \<times> account_status) list" where
  "probeSigningKeysOnChain accountExists report =
     map (\<lambda>k. (rk_role k, publicKey k,
             case accountExists (publicKey k) of
               Inl err \<Rightarrow> ProbeError err
             | Inr found \<Rightarrow> (if found then Found else NotFound)))
       (rep_keys report)"

fun SIGNING_KEY_ENV :: "role \<Rightarrow> string \<times> string" where
  "SIGNING_KEY_ENV SponsorRole = (''SPONSOR_SECRET_KEY'', ''SPONSOR_PUBLIC_KEY'')"
| "SIGNING_KEY_ENV AttestorRole = (''ATTESTOR_SECRET_KEY'', ''ATTESTOR_PUBLIC_KEY'')"

definition or_undefined :: "string option \<Rightarrow> string option" where
  "or_undefined v = (if truthy v then v else None)"

definition signingKeyFromEnv :: "(string \<Rightarrow> string option) \<Rightarrow> role \<Rightarrow> key_input" where
  "signingKeyFromEnv env r =
     (let (secVar, pinVar) = SIGNING_KEY_ENV r in
      \<lparr>role = r, secretEnvVar = secVar, secret = or_undefined (env secVar),
       pinEnvVar = pinVar, expectedPublicKey = or_undefined (env pinVar)\<rparr>)"

subsection \<open>What booting means\<close>

text \<open>The specification: what a configured key must satisfy, stated without the loop.\<close>

definition key_ok :: "derive \<Rightarrow> key_check \<Rightarrow> key_input \<Rightarrow> bool" where
  "key_ok derivePublicKey inp key \<longleftrightarrow>
     (case trimmed (secret key) of
        None \<Rightarrow> trimmed (expectedPublicKey key) = None
      | Some sec \<Rightarrow>
          (case derivePublicKey sec of
             None \<Rightarrow> False
           | Some pk \<Rightarrow>
               (case trimmed (expectedPublicKey key) of
                  Some p \<Rightarrow> p = pk
                | None \<Rightarrow> kc_network inp = Testnet \<or> (nodeEnv inp \<noteq> Some ''production'' \<and> allowUnpinned inp))))"

definition key_account :: "derive \<Rightarrow> key_input \<Rightarrow> string option" where
  "key_account derivePublicKey key =
     (case trimmed (secret key) of None \<Rightarrow> None | Some sec \<Rightarrow> derivePublicKey sec)"

definition resolved_of :: "derive \<Rightarrow> key_input \<Rightarrow> resolved_key list" where
  "resolved_of derivePublicKey key =
     (case key_account derivePublicKey key of
        None \<Rightarrow> []
      | Some pk \<Rightarrow> [\<lparr>rk_role = role key, publicKey = pk, pinned = trimmed (expectedPublicKey key) \<noteq> None\<rparr>])"

definition roles_distinct :: "resolved_key list \<Rightarrow> bool" where
  "roles_distinct ks = list_all (\<lambda>k. list_all (\<lambda>k'. publicKey k = publicKey k' \<longrightarrow> rk_role k = rk_role k') ks) ks"

lemma roles_distinct_Cons:
  "roles_distinct (k # ks) \<longleftrightarrow>
     (\<forall>k'\<in>set ks. publicKey k' = publicKey k \<longrightarrow> rk_role k' = rk_role k) \<and> roles_distinct ks"
  unfolding roles_distinct_def list_all_iff list.set by (metis insert_iff)

lemma network_not_mainnet [simp]: "n \<noteq> Mainnet \<longleftrightarrow> n = Testnet"
  by (cases n) auto

lemma check_key_ok:
  "fst (check_key d (kc_network inp) pr (\<not> is_prod inp \<and> allowUnpinned inp) key) = [] \<longleftrightarrow> key_ok d inp key"
  by (auto simp: check_key_def key_ok_def is_prod_def Let_def split: option.splits)

lemma check_key_resolved:
  "key_ok d inp key \<Longrightarrow>
     snd (check_key d (kc_network inp) pr (\<not> is_prod inp \<and> allowUnpinned inp) key) = resolved_of d key"
  by (auto simp: check_key_def key_ok_def resolved_of_def key_account_def is_prod_def Let_def split: option.splits)

text \<open>The scan with the map of accounts seen finds no shared account exactly when there is none.\<close>

lemma shared_accounts_scan:
  assumes "\<And>pk r. js_get m pk = Some r \<Longrightarrow> \<forall>k\<in>set ks. publicKey k = pk \<longrightarrow> rk_role k = r"
    and "roles_distinct ks"
  shows "shared_accounts ks m = []"
  using assms
proof (induction ks arbitrary: m)
  case Nil
  then show ?case by simp
next
  case (Cons k ks)
  have tail: "shared_accounts ks (js_set (publicKey k) (rk_role k) m) = []"
  proof (rule Cons.IH)
    show "roles_distinct ks" using Cons.prems(2) by (simp add: roles_distinct_Cons)
    fix pk r
    assume "js_get (js_set (publicKey k) (rk_role k) m) pk = Some r"
    then show "\<forall>k'\<in>set ks. publicKey k' = pk \<longrightarrow> rk_role k' = r"
      using Cons.prems(1) [of pk r] Cons.prems(2) by (cases "pk = publicKey k") (auto simp: roles_distinct_Cons)
  qed
  have "js_get m (publicKey k) = Some other \<Longrightarrow> other = rk_role k" for other
    using Cons.prems(1) [of "publicKey k" other] by simp
  with tail show ?case by (auto split: option.split)
qed

lemma shared_accounts_consistent:
  assumes "shared_accounts ks m = []" and "k \<in> set ks" and "js_get m (publicKey k) = Some r"
  shows "rk_role k = r"
  using assms
proof (induction ks arbitrary: m)
  case Nil
  then show ?case by simp
next
  case (Cons a ks)
  show ?case
  proof (cases "publicKey a = publicKey k")
    case True
    with Cons.prems have ra: "rk_role a = r" by (auto split: if_splits)
    show ?thesis
    proof (cases "k = a")
      case True
      with ra show ?thesis by simp
    next
      case False
      with Cons.prems True ra show ?thesis
        by (intro Cons.IH [of "js_set (publicKey a) (rk_role a) m"]) auto
    qed
  next
    case False
    with Cons.prems show ?thesis
      by (intro Cons.IH [of "js_set (publicKey a) (rk_role a) m"]) auto
  qed
qed

lemma shared_accounts_distinct: "shared_accounts ks m = [] \<Longrightarrow> roles_distinct ks"
proof (induction ks arbitrary: m)
  case Nil
  then show ?case by (simp add: roles_distinct_def)
next
  case (Cons a ks)
  let ?m = "js_set (publicKey a) (rk_role a) m"
  have tail: "shared_accounts ks ?m = []" using Cons.prems by simp
  have "rk_role k = rk_role a" if "k \<in> set ks" "publicKey k = publicKey a" for k
    using shared_accounts_consistent [OF tail that(1), of "rk_role a"] that(2) by simp
  with Cons.IH [OF tail] show ?case by (simp add: roles_distinct_Cons)
qed

lemma shared_accounts_iff: "shared_accounts ks [] = [] \<longleftrightarrow> roles_distinct ks"
  by (auto intro: shared_accounts_distinct shared_accounts_scan)

lemma relayer_problems_iff:
  "relayer_problems u inp = [] \<longleftrightarrow> relayer_of u inp \<in> {None, Some (kc_network inp)}"
  by (auto simp: relayer_problems_def split: option.splits)

lemma verifySigningKeys_cases:
  "verifySigningKeys d u inp =
     (if list_all (key_ok d inp) (kc_keys inp)
         \<and> roles_distinct (concat (map (resolved_of d) (kc_keys inp)))
         \<and> relayer_of u inp \<in> {None, Some (kc_network inp)}
      then Inr \<lparr>rep_network = kc_network inp, rep_keys = concat (map (resolved_of d) (kc_keys inp)),
                rep_relayer = relayer_of u inp\<rparr>
      else Inl (concat (map fst (checked_keys d inp))
                @ shared_accounts (concat (map snd (checked_keys d inp))) [] @ relayer_problems u inp))"
proof (cases "list_all (key_ok d inp) (kc_keys inp)")
  case True
  then have "map snd (checked_keys d inp) = map (resolved_of d) (kc_keys inp)"
    by (auto simp: checked_keys_def list_all_iff check_key_resolved)
  moreover have "concat (map fst (checked_keys d inp)) = []"
    using True by (auto simp: checked_keys_def list_all_iff check_key_ok)
  ultimately show ?thesis using True
    by (simp add: verifySigningKeys_def Let_def shared_accounts_iff relayer_problems_iff)
next
  case False
  then have "concat (map fst (checked_keys d inp)) \<noteq> []"
    by (auto simp: checked_keys_def list_all_iff check_key_ok)
  with False show ?thesis by (simp add: verifySigningKeys_def Let_def)
qed

text \<open>C24: A service boots exactly when every configured secret derives its pinned account (with a pin
  required on Mainnet unless waived outside production), no pin stands without its secret, no two
  roles share an account and the relayer does not name the other network; the report then lists
  exactly the accounts derived from the configured secrets, in order.\<close>

theorem signing_keys_accepted_iff:
  "case verifySigningKeys d u inp of
     Inr rep \<Rightarrow> list_all (key_ok d inp) (kc_keys inp)
       \<and> roles_distinct (concat (map (resolved_of d) (kc_keys inp)))
       \<and> relayer_of u inp \<in> {None, Some (kc_network inp)}
       \<and> rep = \<lparr>rep_network = kc_network inp, rep_keys = concat (map (resolved_of d) (kc_keys inp)),
                rep_relayer = relayer_of u inp\<rparr>
   | Inl problems \<Rightarrow> problems \<noteq> []
       \<and> \<not> (list_all (key_ok d inp) (kc_keys inp)
            \<and> roles_distinct (concat (map (resolved_of d) (kc_keys inp)))
            \<and> relayer_of u inp \<in> {None, Some (kc_network inp)})"
proof -
  have "verifySigningKeys d u inp \<noteq> Inl []" by (simp add: verifySigningKeys_def Let_def)
  then show ?thesis
    using verifySigningKeys_cases [of d u inp]
    by (simp split: sum.splits if_splits del: insert_iff)
qed

text \<open>C37: In production on Mainnet no setting of ALLOW_UNPINNED_SIGNING_KEYS lets an unpinned key
  through: every account in the report of a booted service was pinned by the operator.\<close>

theorem production_mainnet_keys_pinned:
  assumes "verifySigningKeys d u inp = Inr rep" and "kc_network inp = Mainnet"
    and "nodeEnv inp = Some ''production''"
  shows "list_all (\<lambda>k. pinned k \<and> (\<exists>key\<in>set (kc_keys inp). trimmed (expectedPublicKey key) = Some (publicKey k)))
           (rep_keys rep)"
proof -
  from assms(1) have ok: "list_all (key_ok d inp) (kc_keys inp)"
    and rep: "rep_keys rep = concat (map (resolved_of d) (kc_keys inp))"
    by (auto simp: verifySigningKeys_cases split: if_splits)
  have "pinned k \<and> trimmed (expectedPublicKey key) = Some (publicKey k)"
    if "key \<in> set (kc_keys inp)" "k \<in> set (resolved_of d key)" for key k
  proof -
    from ok that(1) have "key_ok d inp key" by (simp add: list_all_iff)
    with that(2) assms(2,3) show ?thesis
      by (cases "trimmed (expectedPublicKey key)")
         (auto simp: key_ok_def resolved_of_def key_account_def split: option.splits)
  qed
  then show ?thesis unfolding rep by (auto simp: list_all_iff)
qed

definition example_key :: "string option \<Rightarrow> key_input" where
  "example_key pin = \<lparr>role = SponsorRole, secretEnvVar = ''SPONSOR_SECRET_KEY'', secret = Some ''Sx '',
                      pinEnvVar = ''SPONSOR_PUBLIC_KEY'', expectedPublicKey = pin\<rparr>"

definition example_check :: "string option \<Rightarrow> key_check" where
  "example_check pin = \<lparr>kc_network = Mainnet, kc_keys = [example_key pin], relayerBaseUrl = None,
                        allowUnpinned = True, nodeEnv = Some ''production''\<rparr>"

theorem production_mainnet_keys_pinned_witness:
  "list_all (\<lambda>k. pinned k \<and> (\<exists>key\<in>set (kc_keys (example_check (Some ''Gx''))).
       trimmed (expectedPublicKey key) = Some (publicKey k)))
     [\<lparr>rk_role = SponsorRole, publicKey = ''Gx'', pinned = True\<rparr>]
   \<and> \<not> is_ok (verifySigningKeys (\<lambda>s. Some (CHR ''G'' # tl s)) (\<lambda>_. None) (example_check None))"
proof -
  have "verifySigningKeys (\<lambda>s. Some (CHR ''G'' # tl s)) (\<lambda>_. None) (example_check (Some ''Gx''))
      = Inr \<lparr>rep_network = Mainnet, rep_keys = [\<lparr>rk_role = SponsorRole, publicKey = ''Gx'', pinned = True\<rparr>],
             rep_relayer = None\<rparr>"
    by code_simp
  from production_mainnet_keys_pinned [OF this]
  have "list_all (\<lambda>k. pinned k \<and> (\<exists>key\<in>set (kc_keys (example_check (Some ''Gx''))).
       trimmed (expectedPublicKey key) = Some (publicKey k)))
     [\<lparr>rk_role = SponsorRole, publicKey = ''Gx'', pinned = True\<rparr>]"
    by (simp add: example_check_def)
  moreover have "\<not> is_ok (verifySigningKeys (\<lambda>s. Some (CHR ''G'' # tl s)) (\<lambda>_. None) (example_check None))"
    by code_simp
  ultimately show ?thesis ..
qed

end
