(* ===== verification/WasmCompare.thy ===== *)
theory WasmCompare
  imports Prelude "HOL-Library.Word" "HOL-Library.List_Lexorder"
begin

unbundle bit_operations_syntax

text \<open>
  The metadata-tolerant comparison of a rebuilt and a deployed wasm module:
  \<open>services/worker-service/src/wasm-compare.ts\<close>.  A \<open>Uint8Array\<close> is a list of 8-bit words, the
  JavaScript 32-bit operators of \<open>readU32Leb\<close> work on 32-bit words, offsets are naturals.
  \<open>TextDecoder("utf-8", {fatal: true})\<close> is \<open>utf8_decode\<close>: the strict decoder of the encoding
  standard, which also drops a leading byte order mark; a decoded string is the list of its code
  points.  A thrown \<open>WasmParseError\<close> is an \<open>Inl\<close>.
\<close>

type_synonym bytes = "8 word list"

type_synonym utf8_string = "nat list"

datatype wasm_error =
    NotWasm
  | TruncatedLeb
  | LebOverflow
  | LebTooLong
  | SectionOverrun "8 word"
  | NameOverrun
  | NameNotUtf8

record wasm_section =
  section_id :: "8 word"
  section_name :: "utf8_string option"
  content :: bytes

definition subarray :: "bytes \<Rightarrow> nat \<Rightarrow> nat \<Rightarrow> bytes" where
  "subarray bs from to = take (to - from) (drop from bs)"

subsection \<open>UTF-8\<close>

definition cont_byte :: "nat \<Rightarrow> bool" where
  "cont_byte b \<longleftrightarrow> 128 \<le> b \<and> b < 192"

text \<open>The second byte after a lead byte: the standard excludes overlong forms, surrogates and
  values beyond the last code point here.\<close>

definition second_ok :: "nat \<Rightarrow> nat \<Rightarrow> bool" where
  "second_ok lead b \<longleftrightarrow> cont_byte b \<and> (lead = 224 \<longrightarrow> 160 \<le> b) \<and> (lead = 237 \<longrightarrow> b \<le> 159)
     \<and> (lead = 240 \<longrightarrow> 144 \<le> b) \<and> (lead = 244 \<longrightarrow> b \<le> 143)"

fun utf8_chars :: "nat list \<Rightarrow> nat list option" where
  "utf8_chars [] = Some []"
| "utf8_chars (b # bs) =
     (if b < 128 then map_option ((#) b) (utf8_chars bs)
      else if 194 \<le> b \<and> b \<le> 223 then
        (case bs of
           c # rest \<Rightarrow>
             (if cont_byte c then map_option ((#) ((b - 192) * 64 + (c - 128))) (utf8_chars rest) else None)
         | _ \<Rightarrow> None)
      else if 224 \<le> b \<and> b \<le> 239 then
        (case bs of
           c # d # rest \<Rightarrow>
             (if second_ok b c \<and> cont_byte d
              then map_option ((#) ((b - 224) * 4096 + (c - 128) * 64 + (d - 128))) (utf8_chars rest) else None)
         | _ \<Rightarrow> None)
      else if 240 \<le> b \<and> b \<le> 244 then
        (case bs of
           c # d # e # rest \<Rightarrow>
             (if second_ok b c \<and> cont_byte d \<and> cont_byte e
              then map_option ((#) ((b - 240) * 262144 + (c - 128) * 4096 + (d - 128) * 64 + (e - 128)))
                     (utf8_chars rest) else None)
         | _ \<Rightarrow> None)
      else None)"

definition utf8_decode :: "bytes \<Rightarrow> utf8_string option" where
  "utf8_decode bs =
     (case utf8_chars (map unat bs) of
        None \<Rightarrow> None
      | Some [] \<Rightarrow> Some []
      | Some (c # cs) \<Rightarrow> (if c = 65279 then Some cs else Some (c # cs)))"

definition lit :: "string \<Rightarrow> utf8_string" where
  "lit s = map of_char s"

definition TOOLCHAIN_META_KEYS :: "utf8_string list" where
  "TOOLCHAIN_META_KEYS = [lit ''rsver'', lit ''rssdkver'']"

definition CONTRACT_META_SECTION :: utf8_string where
  "CONTRACT_META_SECTION = lit ''contractmetav0''"

definition SC_META_V0 :: nat where "SC_META_V0 = 0"

subsection \<open>Reading a module\<close>

text \<open>The loop of \<open>readU32Leb\<close>; the first \<open>nat\<close> counts the iterations left, \<open>i\<close> is the loop index,
  \<open>shift\<close> is \<open>7 * i\<close>.\<close>

fun leb_loop :: "bytes \<Rightarrow> nat \<Rightarrow> nat \<Rightarrow> 32 word \<Rightarrow> nat \<Rightarrow> wasm_error + (nat \<times> nat)" where
  "leb_loop bs 0 i result pos = Inl LebTooLong"
| "leb_loop bs (Suc n) i result pos =
     (if length bs \<le> pos then Inl TruncatedLeb
      else
        (let byte = bs ! pos;
             result' = result OR push_bit (7 * i) (ucast (byte AND 0x7f))
         in if byte AND 0x80 = 0
            then (if i = 4 \<and> byte > 0x0f then Inl LebOverflow else Inr (unat result', Suc pos))
            else leb_loop bs n (Suc i) result' (Suc pos)))"

definition readU32Leb :: "bytes \<Rightarrow> nat \<Rightarrow> wasm_error + (nat \<times> nat)" where
  "readU32Leb bs offset = leb_loop bs 5 0 0 offset"

definition wasm_header :: bytes where
  "wasm_header = [0x00, 0x61, 0x73, 0x6d, 0x01, 0x00, 0x00, 0x00]"

text \<open>One pass of the loop of \<open>parseWasmSections\<close>: the section at \<open>pos\<close> and where it ends.\<close>

definition parse_section :: "bytes \<Rightarrow> nat \<Rightarrow> wasm_error + (wasm_section \<times> nat)" where
  "parse_section bs pos =
     (let sid = bs ! pos in
      res_bind (readU32Leb bs (Suc pos)) (\<lambda>(size, start).
        (let stop = start + size in
         if length bs < stop then Inl (SectionOverrun sid)
         else if sid = 0 then
           res_bind (readU32Leb bs start) (\<lambda>(nameLen, nameStart).
             (let nameEnd = nameStart + nameLen in
              if stop < nameEnd then Inl NameOverrun
              else
                (case utf8_decode (subarray bs nameStart nameEnd) of
                   None \<Rightarrow> Inl NameNotUtf8
                 | Some nm \<Rightarrow>
                     Inr (\<lparr>section_id = sid, section_name = Some nm, content = subarray bs nameEnd stop\<rparr>, stop))))
         else Inr (\<lparr>section_id = sid, section_name = None, content = subarray bs start stop\<rparr>, stop))))"

lemma leb_loop_next: "leb_loop bs n i r pos = Inr (v, next) \<Longrightarrow> pos < next \<and> next \<le> length bs"
  by (induction bs n i r pos rule: leb_loop.induct) (force simp: Let_def split: if_splits)+

lemma readU32Leb_next: "readU32Leb bs pos = Inr (v, next) \<Longrightarrow> pos < next \<and> next \<le> length bs"
  by (simp add: readU32Leb_def leb_loop_next)

lemma parse_section_next:
  assumes "parse_section bs pos = Inr (sec, stop)"
  shows "pos < stop \<and> stop \<le> length bs"
proof -
  from assms obtain size start where sz: "readU32Leb bs (Suc pos) = Inr (size, start)"
    and stop: "stop = start + size \<and> stop \<le> length bs"
    by (cases "readU32Leb bs (Suc pos)")
       (auto simp: parse_section_def Let_def res_bind_eq_Inr split: if_splits option.splits)
  from readU32Leb_next [OF sz] stop show ?thesis by simp
qed

function parse_from :: "bytes \<Rightarrow> nat \<Rightarrow> wasm_error + wasm_section list" where
  "parse_from bs pos =
     (if length bs \<le> pos then Inr []
      else
        (case parse_section bs pos of
           Inl e \<Rightarrow> Inl e
         | Inr (sec, stop) \<Rightarrow> res_bind (parse_from bs stop) (\<lambda>rest. Inr (sec # rest))))"
  by pat_completeness auto
termination
  by (relation "measure (\<lambda>(bs, pos). length bs - pos)") (auto dest: parse_section_next)

declare parse_from.simps [simp del]

definition parseWasmSections :: "bytes \<Rightarrow> wasm_error + wasm_section list" where
  "parseWasmSections bs =
     (if length bs < 8 \<or> take 8 bs \<noteq> wasm_header then Inl NotWasm else parse_from bs 8)"

subsection \<open>Contract metadata\<close>

record meta_entry =
  key :: utf8_string
  val :: utf8_string
  raw :: bytes

text \<open>
  \<open>parseMetaEntries\<close> keeps a position in the section's content; the model keeps what is left from
  that position on, so \<open>content.length - pos\<close> is the length of the rest.
\<close>

definition getUint32 :: "bytes \<Rightarrow> nat" where
  "getUint32 bs = ((unat (bs ! 0) * 256 + unat (bs ! 1)) * 256 + unat (bs ! 2)) * 256 + unat (bs ! 3)"

definition padded_length :: "nat \<Rightarrow> nat" where
  "padded_length n = n + (4 - n mod 4) mod 4"

definition read_string :: "bytes \<Rightarrow> (utf8_string \<times> bytes) option" where
  "read_string bs =
     (if length bs < 4 then None
      else
        (let len = getUint32 bs; rest = drop 4 bs; padded = padded_length len in
         if length rest < padded then None
         else if \<not> list_all (\<lambda>b. b = 0) (subarray rest len padded) then None
         else
           (case utf8_decode (take len rest) of
              None \<Rightarrow> None
            | Some s \<Rightarrow> Some (s, drop padded rest))))"

text \<open>One pass of the loop: the entry at the front and what follows it.\<close>

definition read_entry :: "bytes \<Rightarrow> (meta_entry \<times> bytes) option" where
  "read_entry bs =
     (if length bs < 4 then None
      else if getUint32 bs \<noteq> SC_META_V0 then None
      else
        (case read_string (drop 4 bs) of
           None \<Rightarrow> None
         | Some (k, rest1) \<Rightarrow>
             (case read_string rest1 of
                None \<Rightarrow> None
              | Some (v, rest2) \<Rightarrow>
                  Some (\<lparr>key = k, val = v, raw = take (length bs - length rest2) bs\<rparr>, rest2))))"

lemma read_string_suffix:
  "read_string bs = Some (s, rest) \<Longrightarrow> \<exists>n. rest = drop n bs \<and> 4 \<le> n \<and> n \<le> length bs"
  by (auto simp: read_string_def Let_def split: if_splits option.splits)

lemma read_entry_suffix:
  assumes "read_entry bs = Some (e, rest)"
  shows "bs = raw e @ rest \<and> 12 \<le> length (raw e)"
proof -
  from assms obtain k v rest1 where 1: "read_string (drop 4 bs) = Some (k, rest1)"
    and 2: "read_string rest1 = Some (v, rest)" and len: "4 \<le> length bs"
    and e: "raw e = take (length bs - length rest) bs"
    by (auto simp: read_entry_def split: if_splits option.splits)
  from read_string_suffix [OF 1] obtain m where m: "rest1 = drop m (drop 4 bs)" "4 \<le> m" "m \<le> length bs - 4"
    by auto
  from read_string_suffix [OF 2] obtain n where n: "rest = drop n rest1" "4 \<le> n" "n \<le> length rest1"
    by auto
  have "rest = drop (4 + m + n) bs" using m n by (simp add: add.assoc add.commute)
  moreover have "length bs - length rest = 4 + m + n" using m n len by auto
  ultimately show ?thesis using e m n len by auto
qed

function parseMetaEntries :: "bytes \<Rightarrow> meta_entry list option" where
  "parseMetaEntries bs =
     (if bs = [] then Some []
      else
        (case read_entry bs of
           None \<Rightarrow> None
         | Some (e, rest) \<Rightarrow> map_option ((#) e) (parseMetaEntries rest)))"
  by pat_completeness auto
termination
  by (relation "measure length") (auto dest!: read_entry_suffix)

declare parseMetaEntries.simps [simp del]

subsection \<open>The comparison\<close>

definition is_meta :: "wasm_section \<Rightarrow> bool" where
  "is_meta s \<longleftrightarrow> section_id s = 0 \<and> section_name s = Some CONTRACT_META_SECTION"

definition is_toolchain :: "meta_entry \<Rightarrow> bool" where
  "is_toolchain e = (key e \<in> set TOOLCHAIN_META_KEYS)"

fun normalizedView :: "wasm_section list \<Rightarrow> wasm_section list" where
  "normalizedView [] = []"
| "normalizedView (s # ss) =
     (if \<not> is_meta s then s # normalizedView ss
      else
        (case parseMetaEntries (content s) of
           None \<Rightarrow> s # normalizedView ss
         | Some entries \<Rightarrow>
             (let kept = filter (\<lambda>e. \<not> is_toolchain e) entries in
              if kept = [] then normalizedView ss
              else \<lparr>section_id = 0, section_name = Some CONTRACT_META_SECTION,
                     content = concat (map raw kept)\<rparr> # normalizedView ss)))"

text \<open>\<open>collect\<close>: the value of each toolchain key, the last one set when a key occurs twice.\<close>

definition entries_of :: "wasm_section \<Rightarrow> meta_entry list" where
  "entries_of s =
     (if is_meta s then (case parseMetaEntries (content s) of None \<Rightarrow> [] | Some es \<Rightarrow> es) else [])"

definition collect :: "wasm_section list \<Rightarrow> (utf8_string, utf8_string) js_map" where
  "collect sections =
     fold (\<lambda>e m. if is_toolchain e then js_set (key e) (val e) m else m) (concat (map entries_of sections)) []"

definition differingToolchainKeys :: "wasm_section list \<Rightarrow> wasm_section list \<Rightarrow> utf8_string list" where
  "differingToolchainKeys a b =
     sort (filter (\<lambda>k. js_get (collect a) k \<noteq> js_get (collect b) k) TOOLCHAIN_META_KEYS)"

datatype mismatch =
    Unparseable wasm_error
  | LayoutDiffers
  | SectionDiffers "8 word" "utf8_string option"
  | OutsideStamps

datatype wasm_comparison =
    Exact
  | ToolchainMetadata "utf8_string list"
  | NoMatch mismatch

definition same_section :: "wasm_section \<Rightarrow> wasm_section \<Rightarrow> bool" where
  "same_section sa sb \<longleftrightarrow> section_id sa = section_id sb \<and> section_name sa = section_name sb
     \<and> content sa = content sb"

definition compareWasm :: "bytes \<Rightarrow> bytes \<Rightarrow> wasm_comparison" where
  "compareWasm rebuilt deployed =
     (if rebuilt = deployed then Exact
      else
        (case res_bind (parseWasmSections rebuilt)
                (\<lambda>a. res_bind (parseWasmSections deployed) (\<lambda>b. Inr (a, b))) of
           Inl err \<Rightarrow> NoMatch (Unparseable err)
         | Inr (a, b) \<Rightarrow>
             (let va = normalizedView a; vb = normalizedView b in
              if length va \<noteq> length vb then NoMatch LayoutDiffers
              else
                (case find (\<lambda>(sa, sb). \<not> same_section sa sb) (zip va vb) of
                   Some (sa, _) \<Rightarrow> NoMatch (SectionDiffers (section_id sa) (section_name sa))
                 | None \<Rightarrow>
                     (let normalizedKeys = differingToolchainKeys a b in
                      if normalizedKeys = [] then NoMatch OutsideStamps
                      else ToolchainMetadata normalizedKeys)))))"

subsection \<open>LEB128 integers\<close>

lemma or_push_nat: "x < 2 ^ k \<Longrightarrow> (x::nat) OR push_bit k y = x + 2 ^ k * y"
proof -
  assume x: "x < 2 ^ k"
  have "x + push_bit k y = x OR push_bit k y"
  proof (rule disjunctive_add)
    fix n
    have "x = take_bit k x" using x by (simp add: take_bit_nat_eq_self)
    then have "bit x n \<Longrightarrow> n < k" by (metis bit_take_bit_iff)
    then show "\<not> bit x n \<or> \<not> bit (push_bit k y) n" by (auto simp: bit_push_bit_iff)
  qed
  then show ?thesis by (simp add: push_bit_eq_mult mult.commute)
qed

lemma low7: "unat ((b::8 word) AND 0x7f) = unat b mod 128"
proof -
  have "b AND 0x7f = take_bit 7 b" by (simp only: take_bit_eq_mask mask_eq_exp_minus_1) simp
  then have "unat (b AND 0x7f) = take_bit 7 (unat b)" by (simp only: unsigned_take_bit_eq)
  then show ?thesis by (simp only: take_bit_eq_mod) simp
qed

lemma top_bit: "(b::8 word) AND 0x80 = 0 \<longleftrightarrow> unat b < 128"
proof -
  have "b AND 0x80 = 0 \<longleftrightarrow> \<not> bit b 7" using and_exp_eq_0_iff_not_bit [of b 7] by simp
  moreover have "bit b 7 \<longleftrightarrow> odd (unat b div 128)"
    using bit_unsigned_iff [where ?'a = nat, of b 7]
    by (simp add: bit_iff_odd [of "unat b"])
  moreover have "unat b < 256" using unsigned_less [of b] by simp
  moreover have "unat b div 128 = 1" if "128 \<le> unat b" "unat b < 256"
    using that by (intro div_nat_eqI) auto
  ultimately show ?thesis by (cases "unat b < 128") auto
qed

lemma leb_or:
  assumes "unat r < 2 ^ (7 * i)" and "unat (b::8 word) mod 128 * 2 ^ (7 * i) < 2 ^ 32"
  shows "unat ((r::32 word) OR push_bit (7 * i) (ucast (b AND 0x7f))) = unat r + 2 ^ (7 * i) * (unat b mod 128)"
proof -
  have low: "unat (ucast (b AND 0x7f) :: 32 word) = unat b mod 128"
    by (simp add: unsigned_ucast_eq low7 take_bit_nat_eq_self_iff)
  have "unat (push_bit (7 * i) (ucast (b AND 0x7f) :: 32 word)) = push_bit (7 * i) (unat b mod 128)"
    using assms(2) by (simp only: unsigned_push_bit_eq low) (simp add: take_bit_nat_eq_self push_bit_eq_mult)
  with assms(1) show ?thesis by (simp only: unsigned_or_eq or_push_nat)
qed

fun leb_value :: "bytes \<Rightarrow> nat" where
  "leb_value [] = 0"
| "leb_value (b # bs) = unat b mod 128 + 128 * leb_value bs"

fun leb_wf :: "bytes \<Rightarrow> bool" where
  "leb_wf [] = False"
| "leb_wf (b # bs) = (if unat b < 128 then bs = [] else leb_wf bs)"

lemma subarray_step:
  "pos < length bs \<Longrightarrow> pos < nxt \<Longrightarrow> subarray bs pos nxt = bs ! pos # subarray bs (Suc pos) nxt"
  by (simp add: subarray_def Cons_nth_drop_Suc [symmetric] Suc_diff_Suc take_Cons')

lemma subarray_Nil_iff: "nxt \<le> length bs \<Longrightarrow> subarray bs pos nxt = [] \<longleftrightarrow> nxt \<le> pos"
  by (auto simp: subarray_def)

lemma leb_loop_Inr:
  assumes "i + n = 5" and "unat r < 2 ^ (7 * i)"
  shows "leb_loop bs n i r pos = Inr (v, nxt) \<longleftrightarrow>
           pos < nxt \<and> nxt \<le> length bs \<and> nxt - pos \<le> n \<and> leb_wf (subarray bs pos nxt)
         \<and> v = unat r + 2 ^ (7 * i) * leb_value (subarray bs pos nxt) \<and> v < 2 ^ 32"
  using assms
proof (induction bs n i r pos rule: leb_loop.induct)
  case (1 bs i r pos)
  then show ?case by auto
next
  case (2 bs n i r pos)
  let ?b = "bs ! pos"
  let ?r = "r OR push_bit (7 * i) (ucast (?b AND 0x7f)) :: 32 word"
  have i: "i \<le> 4" using "2.prems" by simp
  have pow: "(2::nat) ^ (7 * i) \<le> 2 ^ 21" if "i \<noteq> 4"
    using i that by (intro power_increasing) auto
  have fits: "\<not> (i = 4 \<and> 15 < unat ?b) \<longleftrightarrow> unat r + 2 ^ (7 * i) * unat ?b < 2 ^ 32" if "unat ?b < 128"
  proof (cases "i = 4")
    case True
    with "2.prems"(2) that show ?thesis by auto
  next
    case False
    have "2 ^ (7 * i) * unat ?b \<le> 2 ^ 21 * 127" using pow [OF False] that by (intro mult_le_mono) auto
    with "2.prems"(2) pow [OF False] False show ?thesis by simp
  qed
  show ?case
  proof (cases "pos < length bs")
    case False
    then show ?thesis by auto
  next
    case pos: True
    show ?thesis
    proof (cases "unat ?b < 128")
      case True
      have "leb_loop bs (Suc n) i r pos = Inr (v, nxt) \<longleftrightarrow>
          \<not> (i = 4 \<and> 15 < unat ?b) \<and> v = unat ?r \<and> nxt = Suc pos"
        using pos True top_bit [of ?b] by (auto simp: Let_def word_less_nat_alt)
      also have "\<dots> \<longleftrightarrow> nxt = Suc pos \<and> v = unat r + 2 ^ (7 * i) * unat ?b \<and> v < 2 ^ 32"
      proof (cases "unat r + 2 ^ (7 * i) * unat ?b < 2 ^ 32")
        case fit: True
        have "unat ?b mod 128 * 2 ^ (7 * i) < 2 ^ 32"
          using fit True by (simp only: mod_less mult.commute [of "unat ?b"])
        from leb_or [OF "2.prems"(2) this] True have "unat ?r = unat r + 2 ^ (7 * i) * unat ?b" by simp
        with fit show ?thesis by (simp only: fits [OF True]) auto
      next
        case False
        then show ?thesis by (simp only: fits [OF True]) blast
      qed
      also have "\<dots> \<longleftrightarrow> pos < nxt \<and> nxt \<le> length bs \<and> nxt - pos \<le> Suc n \<and> leb_wf (subarray bs pos nxt)
         \<and> v = unat r + 2 ^ (7 * i) * leb_value (subarray bs pos nxt) \<and> v < 2 ^ 32"
      proof (cases "nxt = Suc pos")
        case eq: True
        then have "subarray bs pos nxt = [?b]" using pos by (simp add: subarray_step) (simp add: subarray_def)
        with eq pos True show ?thesis by simp
      next
        case False
        then have "\<not> (pos < nxt \<and> nxt \<le> length bs \<and> leb_wf (subarray bs pos nxt))"
          using pos True subarray_Nil_iff [of nxt bs "Suc pos"] by (auto simp: subarray_step)
        with False show ?thesis by blast
      qed
      finally show ?thesis .
    next
      case big: False
      have step: "leb_loop bs (Suc n) i r pos = leb_loop bs n (Suc i) ?r (Suc pos)"
        using pos big top_bit [of ?b] by (simp add: Let_def)
      show ?thesis
      proof (cases "n = 0")
        case True
        have "\<not> leb_wf (subarray bs pos nxt)" if "pos < nxt" "nxt - pos \<le> Suc n"
        proof -
          from that True have "nxt = Suc pos" by simp
          then have "subarray bs pos nxt = [?b]" using pos by (simp add: subarray_step) (simp add: subarray_def)
          with big show ?thesis by simp
        qed
        moreover have "leb_loop bs n (Suc i) ?r (Suc pos) = Inl LebTooLong" using True by simp
        ultimately show ?thesis unfolding step by (simp only: sum.distinct) blast
      next
        case False
        then have i3: "i \<le> 3" using "2.prems"(1) by simp
        have r: "unat ?r = unat r + 2 ^ (7 * i) * (unat ?b mod 128)"
        proof (rule leb_or [OF "2.prems"(2)])
          have "unat ?b mod 128 * 2 ^ (7 * i) \<le> 127 * 2 ^ 21"
            using pow i3 by (intro mult_le_mono) auto
          then show "unat ?b mod 128 * 2 ^ (7 * i) < 2 ^ 32" by simp
        qed
        have "unat ?b mod 128 \<le> 127" by simp
        then have "2 ^ (7 * i) * (unat ?b mod 128) \<le> 2 ^ (7 * i) * 127" by (rule mult_le_mono2)
        with r "2.prems"(2) have "unat ?r < 2 ^ (7 * i) + 2 ^ (7 * i) * 127" by linarith
        then have "unat ?r < 2 ^ (7 * Suc i)" by (simp add: power_add)
        with "2.IH" [OF _ refl refl] pos big top_bit [of ?b] "2.prems"(1)
        have "leb_loop bs n (Suc i) ?r (Suc pos) = Inr (v, nxt) \<longleftrightarrow>
           Suc pos < nxt \<and> nxt \<le> length bs \<and> nxt - Suc pos \<le> n \<and> leb_wf (subarray bs (Suc pos) nxt)
         \<and> v = unat ?r + 2 ^ (7 * Suc i) * leb_value (subarray bs (Suc pos) nxt) \<and> v < 2 ^ 32"
          by simp
        moreover have "unat ?r + 2 ^ (7 * Suc i) * leb_value (subarray bs (Suc pos) nxt)
            = unat r + 2 ^ (7 * i) * (unat ?b mod 128 + 128 * leb_value (subarray bs (Suc pos) nxt))"
          by (simp add: r power_add distrib_left)
        moreover have "\<not> leb_wf (subarray bs (Suc pos) nxt)" if "nxt \<le> Suc pos"
          using that by (simp add: subarray_def)
        moreover have "subarray bs pos nxt = ?b # subarray bs (Suc pos) nxt" if "Suc pos < nxt"
          using that pos by (intro subarray_step) simp_all
        moreover have "\<not> leb_wf (subarray bs pos nxt)" if "nxt = Suc pos"
        proof -
          have "subarray bs pos nxt = [?b]" using that pos by (simp add: subarray_step) (simp add: subarray_def)
          with big show ?thesis by simp
        qed
        ultimately show ?thesis unfolding step using big by (cases "Suc pos < nxt"; cases "nxt = Suc pos") auto
      qed
    qed
  qed
qed

text \<open>\<open>readU32Leb\<close> accepts exactly the encodings of at most five bytes whose continuation bits are
  set on all bytes but the last and whose value fits 32 bits, and returns that value, the number
  the groups of seven bits spell in base 128, and the offset behind it.\<close>

theorem readU32Leb_correct:
  "readU32Leb bs off = Inr (v, nxt) \<longleftrightarrow>
     off < nxt \<and> nxt \<le> length bs \<and> nxt - off \<le> 5 \<and> leb_wf (subarray bs off nxt)
   \<and> v = leb_value (subarray bs off nxt) \<and> v < 2 ^ 32"
  unfolding readU32Leb_def by (subst leb_loop_Inr) simp_all

subsection \<open>What a match means\<close>

definition kept_meta :: "wasm_section list \<Rightarrow> bytes" where
  "kept_meta ss = concat (map (\<lambda>s. case parseMetaEntries (content s) of
       None \<Rightarrow> content s | Some es \<Rightarrow> concat (map raw (filter (\<lambda>e. \<not> is_toolchain e) es))) (filter is_meta ss))"

lemma normalizedView_opaque:
  "filter (\<lambda>s. \<not> is_meta s) (normalizedView ss) = filter (\<lambda>s. \<not> is_meta s) ss"
  by (induction ss rule: normalizedView.induct)
     (auto simp: Let_def is_meta_def split: option.split)

lemma normalizedView_meta: "concat (map content (filter is_meta (normalizedView ss))) = kept_meta ss"
proof (induction ss rule: normalizedView.induct)
  case 1
  then show ?case by (simp add: kept_meta_def)
next
  case (2 s ss)
  show ?case
  proof (cases "is_meta s")
    case False
    with 2 show ?thesis by (simp add: kept_meta_def)
  next
    case True
    have m: "is_meta \<lparr>section_id = 0, section_name = Some CONTRACT_META_SECTION, content = c\<rparr>" for c
      by (simp add: is_meta_def)
    from 2 True m show ?thesis
      by (cases "parseMetaEntries (content s)") (simp_all add: kept_meta_def Let_def)
  qed
qed

lemma same_section_eq: "same_section sa sb \<longleftrightarrow> sa = (sb :: wasm_section)"
  by (cases sa; cases sb) (auto simp: same_section_def)

lemma find_difference:
  "length va = length vb \<Longrightarrow>
     find (\<lambda>(sa, sb). \<not> same_section sa sb) (zip va vb) = None \<longleftrightarrow> va = vb"
  by (auto simp: find_None_iff same_section_eq list_eq_iff_zip_eq)

lemma compareWasm_toolchain_iff:
  "compareWasm r d = ToolchainMetadata ks \<longleftrightarrow>
     r \<noteq> d \<and> (\<exists>a b. parseWasmSections r = Inr a \<and> parseWasmSections d = Inr b
       \<and> normalizedView a = normalizedView b \<and> ks = differingToolchainKeys a b \<and> ks \<noteq> [])"
proof (cases "r = d \<or> \<not> is_ok (parseWasmSections r) \<or> \<not> is_ok (parseWasmSections d)")
  case True
  then show ?thesis
    by (cases "parseWasmSections r"; cases "parseWasmSections d") (auto simp: compareWasm_def)
next
  case False
  then obtain a b where p: "parseWasmSections r = Inr a" "parseWasmSections d = Inr b"
    by (cases "parseWasmSections r"; cases "parseWasmSections d") auto
  show ?thesis
  proof (cases "length (normalizedView a) = length (normalizedView b)")
    case len: True
    show ?thesis using p False find_difference [OF len]
      by (auto simp: compareWasm_def Let_def len split: option.splits)
  next
    case len: False
    then show ?thesis using p False by (auto simp: compareWasm_def Let_def)
  qed
qed

text \<open>C6: When two different modules are accepted as differing in toolchain metadata only, both parse,
  all their sections outside the contract metadata (code and data among them) are equal and in the
  same order, the metadata bytes left after removing the toolchain entries are equal, and some
  toolchain key that is named in the verdict has different values.\<close>

theorem toolchain_match_sound:
  assumes "compareWasm r d = ToolchainMetadata ks"
  shows "\<exists>a b. parseWasmSections r = Inr a \<and> parseWasmSections d = Inr b
     \<and> filter (\<lambda>s. \<not> is_meta s) a = filter (\<lambda>s. \<not> is_meta s) b \<and> kept_meta a = kept_meta b
     \<and> ks \<noteq> [] \<and> list_all (\<lambda>k. k \<in> set TOOLCHAIN_META_KEYS \<and> js_get (collect a) k \<noteq> js_get (collect b) k) ks"
proof -
  from assms obtain a b where p: "parseWasmSections r = Inr a" "parseWasmSections d = Inr b"
    and v: "normalizedView a = normalizedView b" and ks: "ks = differingToolchainKeys a b" "ks \<noteq> []"
    by (auto simp: compareWasm_toolchain_iff)
  have "filter (\<lambda>s. \<not> is_meta s) a = filter (\<lambda>s. \<not> is_meta s) b"
    using v by (metis normalizedView_opaque)
  moreover have "kept_meta a = kept_meta b" using v by (metis normalizedView_meta)
  ultimately show ?thesis using p ks by (auto simp: differingToolchainKeys_def list_all_iff)
qed

text \<open>Two modules whose contract metadata differ in the compiler version, and in which a further
  custom section has the name \<open>x\<close> in the one and a byte order mark before \<open>x\<close> in the other.\<close>

definition meta_name :: bytes where
  "meta_name = [99, 111, 110, 116, 114, 97, 99, 116, 109, 101, 116, 97, 118, 48]"

definition rsver_entry :: "8 word \<Rightarrow> bytes" where
  "rsver_entry v = [0, 0, 0, 0, 0, 0, 0, 5, 114, 115, 118, 101, 114, 0, 0, 0, 0, 0, 0, 1, v, 0, 0, 0]"

definition example_module :: "8 word \<Rightarrow> bytes \<Rightarrow> bytes" where
  "example_module v nm =
     wasm_header @ [0, 39, 14] @ meta_name @ rsver_entry v
       @ [0, of_nat (Suc (length nm)), of_nat (length nm)] @ nm"


lemma leb_one: "pos < length bs \<Longrightarrow> unat (bs ! pos) < 128 \<Longrightarrow> readU32Leb bs pos = Inr (unat (bs ! pos), Suc pos)"
  unfolding readU32Leb_correct by (simp add: subarray_step) (simp add: subarray_def)

lemma example_name: "utf8_decode meta_name = Some CONTRACT_META_SECTION"
  by (simp add: utf8_decode_def meta_name_def CONTRACT_META_SECTION_def lit_def)

lemma example_bom: "utf8_decode [0xEF, 0xBB, 0xBF, 120] = Some [120]" "utf8_decode [120] = Some [120]"
  by (simp_all add: utf8_decode_def second_ok_def cont_byte_def)


lemma example_key: "utf8_decode [114, 115, 118, 101, 114] = Some (lit ''rsver'')"
  by (simp add: utf8_decode_def lit_def)

lemma example_entry:
  assumes "utf8_decode [v] = Some s"
  shows "parseMetaEntries (rsver_entry v) = Some [\<lparr>key = lit ''rsver'', val = s, raw = rsver_entry v\<rparr>]"
proof -
  have 1: "read_string (drop 4 (rsver_entry v)) = Some (lit ''rsver'', [0, 0, 0, 1, v, 0, 0, 0])"
    by (simp add: rsver_entry_def read_string_def getUint32_def padded_length_def subarray_def example_key)
  have 2: "read_string [0, 0, 0, 1, v, 0, 0, 0] = Some (s, [])"
    by (simp add: read_string_def getUint32_def padded_length_def subarray_def assms)
  have "read_entry (rsver_entry v) = Some (\<lparr>key = lit ''rsver'', val = s, raw = rsver_entry v\<rparr>, [])"
    unfolding read_entry_def by (simp add: 1 2) (simp add: rsver_entry_def getUint32_def SC_META_V0_def)
  then show ?thesis
    by (subst parseMetaEntries.simps) (simp add: parseMetaEntries.simps [of "[]"], simp add: rsver_entry_def)
qed

lemmas example_defs = example_module_def wasm_header_def meta_name_def rsver_entry_def

lemma example_parse:
  assumes "utf8_decode nm = Some [120]" and "nm = [120] \<or> nm = [0xEF, 0xBB, 0xBF, 120]"
  shows "parseWasmSections (example_module v nm) =
     Inr [\<lparr>section_id = 0, section_name = Some CONTRACT_META_SECTION, content = rsver_entry v\<rparr>,
          \<lparr>section_id = 0, section_name = Some [120], content = []\<rparr>]"
proof -
  let ?m = "example_module v nm"
  have len: "length ?m = 52 + length nm" by (simp add: example_defs)
  have 1: "parse_section ?m 8 = Inr (\<lparr>section_id = 0, section_name = Some CONTRACT_META_SECTION, content = rsver_entry v\<rparr>, 49)"
  proof -
    have "readU32Leb ?m 9 = Inr (39, 10)" "readU32Leb ?m 10 = Inr (14, 11)"
      using leb_one [of 9 ?m] leb_one [of 10 ?m] by (simp_all add: example_defs)
    moreover have "subarray ?m 11 25 = meta_name" "subarray ?m 25 49 = rsver_entry v" "?m ! 8 = 0"
      by (simp_all add: example_defs subarray_def)
    ultimately show ?thesis by (simp add: parse_section_def len example_name)
  qed
  have 2: "parse_section ?m 49 = Inr (\<lparr>section_id = 0, section_name = Some [120], content = []\<rparr>, length ?m)"
  proof -
    have "readU32Leb ?m 50 = Inr (Suc (length nm), 51)" "readU32Leb ?m 51 = Inr (length nm, 52)"
      using leb_one [of 50 ?m] leb_one [of 51 ?m] assms(2) by (auto simp: example_defs)
    moreover have "subarray ?m 52 (52 + length nm) = nm" "?m ! 49 = 0"
      by (simp_all add: example_defs subarray_def)
    ultimately show ?thesis using assms(1) by (simp add: parse_section_def len subarray_def)
  qed
  have "take 8 ?m = wasm_header" by (simp add: example_defs)
  then show ?thesis
    by (simp add: parseWasmSections_def len parse_from.simps [of ?m 8] parse_from.simps [of ?m 49]
        parse_from.simps [of ?m "52 + length nm"] 1 2)
qed

lemma is_meta_example [simp]:
  "is_meta \<lparr>section_id = 0, section_name = Some CONTRACT_META_SECTION, content = c\<rparr>"
  "\<not> is_meta \<lparr>section_id = 0, section_name = Some [120], content = c\<rparr>"
  by (simp_all add: is_meta_def CONTRACT_META_SECTION_def lit_def)

lemma example_modules_match:
  "compareWasm (example_module 97 [120]) (example_module 98 [0xEF, 0xBB, 0xBF, 120])
     = ToolchainMetadata [lit ''rsver'']"
proof -
  note p = example_parse [OF example_bom(2)] example_parse [OF example_bom(1)]
  have v: "utf8_decode [97] = Some [97]" "utf8_decode [98] = Some [98]"
    by (simp_all add: utf8_decode_def)
  have k: "is_toolchain \<lparr>key = lit ''rsver'', val = s, raw = w\<rparr>" for s w
    by (simp add: is_toolchain_def TOOLCHAIN_META_KEYS_def)
  have rs: "lit ''rssdkver'' \<noteq> lit ''rsver''" by (simp add: lit_def)
  have "example_module 97 [120] \<noteq> example_module 98 [0xEF, 0xBB, 0xBF, 120]"
    by (simp add: example_defs)
  then show ?thesis unfolding compareWasm_toolchain_iff
    using rs by (simp add: p example_entry v k differingToolchainKeys_def collect_def entries_of_def
        TOOLCHAIN_META_KEYS_def)
qed

theorem toolchain_match_sound_witness:
  "\<exists>a b. parseWasmSections (example_module 97 [120]) = Inr a
     \<and> parseWasmSections (example_module 98 [0xEF, 0xBB, 0xBF, 120]) = Inr b
     \<and> filter (\<lambda>s. \<not> is_meta s) a = filter (\<lambda>s. \<not> is_meta s) b"
  using toolchain_match_sound [OF example_modules_match] by blast

text \<open>The comparison does not depend on which module was rebuilt: the verdict is \<open>exact\<close> exactly for
  equal bytes, and the two orders accept the same pairs with the same keys.\<close>

theorem compareWasm_symmetric:
  "(compareWasm r d = Exact \<longleftrightarrow> r = d)
   \<and> (compareWasm r d = ToolchainMetadata ks \<longleftrightarrow> compareWasm d r = ToolchainMetadata ks)"
proof
  show "compareWasm r d = Exact \<longleftrightarrow> r = d"
    by (auto simp: compareWasm_def Let_def split: sum.split option.split)
  have "differingToolchainKeys a b = differingToolchainKeys b a" for a b
    by (simp add: differingToolchainKeys_def eq_commute)
  then show "compareWasm r d = ToolchainMetadata ks \<longleftrightarrow> compareWasm d r = ToolchainMetadata ks"
    by (auto simp: compareWasm_toolchain_iff)
qed

text \<open>A byte order mark at the start of a custom section's name is dropped by the decoder, so a
  difference there goes unnoticed: with a differing compiler version the two modules are accepted
  although one has a section named by three more bytes.\<close>

theorem section_name_bom_ignored:
  "compareWasm (example_module 97 [120]) (example_module 98 [0xEF, 0xBB, 0xBF, 120])
     = ToolchainMetadata [lit ''rsver'']
   \<and> length (example_module 98 [0xEF, 0xBB, 0xBF, 120]) = length (example_module 97 [120]) + 3"
  using example_modules_match by (simp add: example_defs)

end
