(* ===== verification/Artifact.thy ===== *)
theory Artifact
  imports WasmCompare
begin

text \<open>
  Artifact hashes, the first-party rule and the signature on a verification job:
  \<open>artifact.ts\<close>, \<open>first-party.ts\<close> and \<open>job-signature.ts\<close> of \<open>services/worker-service/src\<close>.
  SHA-256 and HMAC are parameters of the definitions that use them (\<open>sha256\<close> gives the
  lower-case hex digest), as is \<open>new URL\<close> (host name and path, \<open>None\<close> when it throws).
\<close>

subsection \<open>Hashes\<close>

definition strip_0x :: "string \<Rightarrow> string" where
  "strip_0x s = (case s of c # d # rest \<Rightarrow> (if c = CHR ''0'' \<and> lower_char d = CHR ''x'' then rest else s) | _ \<Rightarrow> s)"

definition normalizeHash :: "string \<Rightarrow> string" where
  "normalizeHash h = to_lower (strip_0x (js_trim h))"

definition hashesMatch :: "string \<Rightarrow> string \<Rightarrow> bool" where
  "hashesMatch a b \<longleftrightarrow> normalizeHash a = normalizeHash b \<and> length (normalizeHash a) > 0"

definition hashArtifact :: "(bytes \<Rightarrow> string) \<Rightarrow> bytes \<Rightarrow> string" where
  "hashArtifact sha256 w = sha256 w"

datatype match_mode = ExactMatch | ToolchainMatch

definition attestedHash :: "match_mode option \<Rightarrow> string option \<Rightarrow> string option \<Rightarrow> string option" where
  "attestedHash matchMode outputHash deployedHash =
     (if matchMode = Some ToolchainMatch then deployedHash else outputHash)"

lemma hashesMatch_equivalence:
  "hashesMatch a b \<Longrightarrow> hashesMatch b a"
  "hashesMatch a b \<Longrightarrow> hashesMatch b c \<Longrightarrow> hashesMatch a c"
  "\<not> hashesMatch [] b"
  by (auto simp: hashesMatch_def normalizeHash_def js_trim_def strip_0x_def to_lower_def)

subsection \<open>First-party contracts\<close>

definition FIRST_PARTY_WASM_HASHES :: "string list" where
  "FIRST_PARTY_WASM_HASHES =
     [''0f6b858d61799a33efdc2303c60eb0c148fd2983b7d2336fc345b5492a24b791'',
      ''a57efbf969d6e574e2b40d98985a145fd87d1760224ef6d10e268ea1f6080960'']"

definition FIRST_PARTY_GITHUB_OWNERS :: "string list" where
  "FIRST_PARTY_GITHUB_OWNERS = [''vellar-wallet'']"

definition githubOwner :: "(string \<Rightarrow> (string \<times> string) option) \<Rightarrow> string \<Rightarrow> string option" where
  "githubOwner parse_url repoUrl =
     (case parse_url repoUrl of
        None \<Rightarrow> None
      | Some (hostname, pathname) \<Rightarrow>
          (if to_lower hostname \<noteq> ''github.com'' then None
           else
             (case filter (\<lambda>s. s \<noteq> []) (split_on CHR ''/'' pathname) of
                [] \<Rightarrow> None
              | s # _ \<Rightarrow> Some (to_lower s))))"

definition isFirstPartyContract ::
  "(string \<Rightarrow> (string \<times> string) option) \<Rightarrow> string option \<Rightarrow> string \<Rightarrow> bool" where
  "isFirstPartyContract parse_url repoUrl deployedHash =
     (if normalizeHash deployedHash \<in> set FIRST_PARTY_WASM_HASHES then True
      else
        (let owner = (case repoUrl of
                        None \<Rightarrow> None
                      | Some u \<Rightarrow> (if u = [] then None else githubOwner parse_url u))
         in case owner of None \<Rightarrow> False | Some ow \<Rightarrow> ow \<in> set FIRST_PARTY_GITHUB_OWNERS))"

subsection \<open>Signed jobs\<close>

datatype source_type = RepoSource | UploadSource

record build_input =
  sourceType :: source_type
  repoUrl :: "string option"
  commitHash :: "string option"
  sourceArchiveRef :: "string option"
  toolchainVersion :: string
  buildFlags :: "string list option"

record verification_job = build_input +
  contractId :: string
  timestamp :: "int option"
  signature :: "string option"

text \<open>What \<open>canonicalizeJobPayload\<close> puts into its JSON text, field by field; an absent optional
  field becomes \<open>null\<close>, an empty list or 0.\<close>

record canonical_payload =
  cp_contractId :: string
  cp_sourceType :: source_type
  cp_repoUrl :: "string option"
  cp_commitHash :: "string option"
  cp_sourceArchiveRef :: "string option"
  cp_toolchainVersion :: string
  cp_buildFlags :: "string list"
  cp_timestamp :: int

definition canonicalizeJobPayload :: "verification_job \<Rightarrow> canonical_payload" where
  "canonicalizeJobPayload job =
     \<lparr>cp_contractId = contractId job, cp_sourceType = sourceType job, cp_repoUrl = repoUrl job,
      cp_commitHash = commitHash job, cp_sourceArchiveRef = sourceArchiveRef job,
      cp_toolchainVersion = toolchainVersion job,
      cp_buildFlags = (case buildFlags job of None \<Rightarrow> [] | Some fs \<Rightarrow> fs),
      cp_timestamp = (case timestamp job of None \<Rightarrow> 0 | Some t \<Rightarrow> t)\<rparr>"

type_synonym hmac = "string \<Rightarrow> canonical_payload \<Rightarrow> string"

definition signJobPayload :: "hmac \<Rightarrow> verification_job \<Rightarrow> string \<Rightarrow> string" where
  "signJobPayload hmac job secret = hmac secret (canonicalizeJobPayload job)"

datatype signature_result =
  SigValid | MissingSignature | InvalidSignature | SigExpired

definition verifyJobSignature ::
  "hmac \<Rightarrow> verification_job \<Rightarrow> string \<Rightarrow> int option \<Rightarrow> instant \<Rightarrow> signature_result" where
  "verifyJobSignature hmac job secret maxAgeMs now =
     (if \<not> truthy (signature job) then MissingSignature
      else if (case (maxAgeMs, timestamp job) of
                 (Some age, Some t) \<Rightarrow> age \<noteq> 0 \<and> t \<noteq> 0 \<and> (now - t > age \<or> t > now + 60000)
               | _ \<Rightarrow> False)
      then SigExpired
      else if hex_decode (signJobPayload hmac job secret)
              \<noteq> hex_decode (case signature job of None \<Rightarrow> [] | Some s \<Rightarrow> s)
      then InvalidSignature
      else SigValid)"

text \<open>A signature made for one job is valid for another only if contract, source, commit, toolchain,
  flags and time stamp all agree, as long as the two payloads do not collide under the HMAC.\<close>

lemma signature_binds_payload:
  assumes "canonicalizeJobPayload job \<noteq> canonicalizeJobPayload job' \<Longrightarrow>
      hex_decode (hmac secret (canonicalizeJobPayload job)) \<noteq> hex_decode (hmac secret (canonicalizeJobPayload job'))"
    and "verifyJobSignature hmac job secret age now = SigValid"
    and "signature job = Some (signJobPayload hmac job' secret)"
  shows "contractId job = contractId job' \<and> sourceType job = sourceType job' \<and> repoUrl job = repoUrl job'
       \<and> commitHash job = commitHash job' \<and> sourceArchiveRef job = sourceArchiveRef job'
       \<and> toolchainVersion job = toolchainVersion job'
       \<and> cp_buildFlags (canonicalizeJobPayload job) = cp_buildFlags (canonicalizeJobPayload job')
       \<and> cp_timestamp (canonicalizeJobPayload job) = cp_timestamp (canonicalizeJobPayload job')"
proof -
  from assms(2,3) have "hex_decode (hmac secret (canonicalizeJobPayload job))
      = hex_decode (hmac secret (canonicalizeJobPayload job'))"
    by (auto simp: verifyJobSignature_def signJobPayload_def split: if_splits)
  then have "canonicalizeJobPayload job = canonicalizeJobPayload job'" using assms(1) by blast
  then show ?thesis by (simp add: canonicalizeJobPayload_def)
qed

end
