(* ===== verification/ErrorClassification.thy ===== *)
theory ErrorClassification
  imports Prelude
begin

text \<open>
  Transient or permanent: \<open>services/worker-service/src/error-classification.ts\<close>.  A thrown
  JavaScript value is an \<open>Error\<close> with its name, message and (on the project's own classes) code,
  a string, or something else given by its \<open>String(...)\<close> text.
\<close>

record js_error =
  err_name :: string
  message :: string
  code :: "string option"

datatype thrown = ErrorObj js_error | ThrownString string | ThrownOther string

definition transient_markers :: "string list" where
  "transient_markers =
     [''timeout'',
      ''econnrefused'', ''econnreset'', ''connection refused'', ''connection reset'', ''network unreachable'',
      ''dns'', ''enotfound'', ''getaddrinfo'',
      ''socket'', ''hang up'', ''broken pipe'', ''epipe'', ''econnaborted'',
      ''rate limit'', ''too many requests'',
      ''temporarily unavailable'', ''node is syncing'', ''not ready'', ''not synced'',
      ''500'', ''502'', ''503'']"

text \<open>The block of checks for \<open>error instanceof Error\<close>: on the name and on the lower-cased message.\<close>

definition network_level :: "js_error \<Rightarrow> bool" where
  "network_level e =
     (let msg = to_lower (message e) in
      if err_name e \<in> {''TimeoutError'', ''EAI_AGAIN'', ''ENOTFOUND''} then True
      else if list_ex (str_includes msg) transient_markers then True
      else str_includes msg ''rpc'' \<and> \<not> str_includes msg ''not found'')"

text \<open>The two blocks keyed on the error class; \<open>None\<close> when no branch returns.\<close>

definition resolve_code_answer :: "string \<Rightarrow> bool option" where
  "resolve_code_answer c =
     (if c = ''not_found'' then Some False
      else if c = ''not_wasm'' then Some False
      else if c = ''rpc_error'' then Some True
      else None)"

definition executor_code_answer :: "string \<Rightarrow> bool option" where
  "executor_code_answer c =
     (if c = ''not_configured'' then Some False
      else if c = ''clone_failed'' then Some True
      else if c = ''build_failed'' then Some True
      else if c = ''artifact_missing'' then Some False
      else if c = ''repo_url_rejected'' then Some False
      else if c = ''unsupported_source'' then Some False
      else if c = ''dependencies_unresolved'' then Some False
      else if c = ''dependency_fetch_failed'' then Some True
      else None)"

definition by_class :: "js_error \<Rightarrow> bool option" where
  "by_class e =
     (case code e of
        None \<Rightarrow> None
      | Some c \<Rightarrow>
          (if err_name e = ''ArtifactResolveError'' then resolve_code_answer c
           else if err_name e = ''BuildExecutorError'' then executor_code_answer c
           else None))"

definition isTransientFailure :: "thrown \<Rightarrow> bool" where
  "isTransientFailure error =
     (case error of
        ErrorObj e \<Rightarrow>
          (if network_level e then True
           else (case by_class e of Some answer \<Rightarrow> answer | None \<Rightarrow> True))
      | ThrownString _ \<Rightarrow> True
      | ThrownOther _ \<Rightarrow> True)"

datatype classification = Transient | Permanent

record classification_result =
  classification :: classification
  res_reason :: string
  errorType :: string
  errorCode :: "string option"

definition classifyError :: "thrown \<Rightarrow> classification_result" where
  "classifyError error =
     (let cls = (if isTransientFailure error then Transient else Permanent) in
      case error of
        ErrorObj e \<Rightarrow>
          \<lparr>classification = cls,
           res_reason = (case code e of
               Some c \<Rightarrow> err_name e @ '' ('' @ c @ ''): '' @ message e
             | None \<Rightarrow> message e),
           errorType = err_name e, errorCode = code e\<rparr>
      | ThrownString s \<Rightarrow>
          \<lparr>classification = cls, res_reason = s, errorType = ''string'', errorCode = None\<rparr>
      | ThrownOther s \<Rightarrow>
          \<lparr>classification = cls, res_reason = s, errorType = ''unknown'', errorCode = None\<rparr>)"

subsection \<open>Which errors are given up on\<close>

definition permanent_codes :: "(string \<times> string) set" where
  "permanent_codes =
     {(''ArtifactResolveError'', ''not_found''), (''ArtifactResolveError'', ''not_wasm''),
      (''BuildExecutorError'', ''not_configured''), (''BuildExecutorError'', ''artifact_missing''),
      (''BuildExecutorError'', ''repo_url_rejected''), (''BuildExecutorError'', ''unsupported_source''),
      (''BuildExecutorError'', ''dependencies_unresolved'')}"

lemma by_class_False:
  "by_class e = Some False \<longleftrightarrow> (\<exists>c. code e = Some c \<and> (err_name e, c) \<in> permanent_codes)"
  by (auto simp: by_class_def resolve_code_answer_def executor_code_answer_def permanent_codes_def split: option.splits)

text \<open>An error is permanent, so never retried, exactly when it is one of seven resolver and
  executor codes and neither its name nor its message reads like a network failure; everything
  else, unknown values included, is retried.\<close>

theorem permanent_iff:
  "classification (classifyError error) = Permanent \<longleftrightarrow>
     (case error of
        ErrorObj e \<Rightarrow> \<not> network_level e \<and> (\<exists>c. code e = Some c \<and> (err_name e, c) \<in> permanent_codes)
      | _ \<Rightarrow> False)"
proof (cases error)
  case (ErrorObj e)
  then show ?thesis
    by (auto simp: classifyError_def isTransientFailure_def Let_def simp flip: by_class_False
        split: option.split)
qed (simp_all add: classifyError_def isTransientFailure_def Let_def)

text \<open>The message is read before the code, and messages quote hashes, hosts and paths: a wasm that
  is not on the chain is a permanent failure, unless its hash happens to contain the digits 500,
  502 or 503; the same error is then classified as transient and retried.\<close>

theorem quoted_hash_makes_permanent_error_transient:
  assumes "str_includes h ''503''"
  shows "isTransientFailure (ErrorObj \<lparr>err_name = ''ArtifactResolveError'',
           message = ''wasm '' @ h @ '' not found on-chain'', code = Some ''not_found''\<rparr>)"
proof -
  from assms obtain a b where h: "h = a @ ''503'' @ b"
    by (auto simp: str_includes_iff sublist_def)
  have "sublist ''503'' (to_lower (''wasm '' @ h @ '' not found on-chain''))"
    unfolding h sublist_def to_lower_def
    by (rule exI [of _ "map lower_char (''wasm '' @ a)"], rule exI [of _ "map lower_char (b @ '' not found on-chain'')"])
       (simp add: lower_char_def)
  then show ?thesis
    by (simp add: isTransientFailure_def network_level_def transient_markers_def str_includes_iff Let_def)
qed

theorem quoted_hash_makes_permanent_error_transient_witness:
  "isTransientFailure (ErrorObj \<lparr>err_name = ''ArtifactResolveError'',
      message = ''wasm 5034 not found on-chain'', code = Some ''not_found''\<rparr>)
   \<and> \<not> isTransientFailure (ErrorObj \<lparr>err_name = ''ArtifactResolveError'',
      message = ''wasm 5134 not found on-chain'', code = Some ''not_found''\<rparr>)"
  using quoted_hash_makes_permanent_error_transient [of "''5034''"]
  by (simp add: starts_with_def isTransientFailure_def by_class_def resolve_code_answer_def network_level_def
      transient_markers_def to_lower_def lower_char_def Let_def)

end
