(* ===== verification/Verify.thy ===== *)
theory Verify
  imports Artifact ErrorClassification Retry
begin

text \<open>
  The verification pipeline: \<open>runVerification\<close> of \<open>services/worker-service/src/verify.ts\<close>.  The build
  executor and the contract resolver are parameters: what each call settled to, with the project's
  own error classes as values and any other rejection as \<open>Unexpected\<close>.  The import of the
  signature module and the calls are in the order of the code; a rethrown error is an \<open>Inl\<close>.
\<close>

datatype resolver_code = NotFound | NotWasm | RpcError | ResolverTimeout

datatype executor_code =
    NotConfigured | CloneFailed | BuildFailed | ArtifactMissing | UnsupportedSource
  | RepoUrlRejected | DependenciesUnresolved | DependencyFetchFailed | InsufficientDiskSpace

fun resolver_code_text :: "resolver_code \<Rightarrow> string" where
  "resolver_code_text NotFound = ''not_found''"
| "resolver_code_text NotWasm = ''not_wasm''"
| "resolver_code_text RpcError = ''rpc_error''"
| "resolver_code_text ResolverTimeout = ''timeout''"

fun executor_code_text :: "executor_code \<Rightarrow> string" where
  "executor_code_text NotConfigured = ''not_configured''"
| "executor_code_text CloneFailed = ''clone_failed''"
| "executor_code_text BuildFailed = ''build_failed''"
| "executor_code_text ArtifactMissing = ''artifact_missing''"
| "executor_code_text UnsupportedSource = ''unsupported_source''"
| "executor_code_text RepoUrlRejected = ''repo_url_rejected''"
| "executor_code_text DependenciesUnresolved = ''dependencies_unresolved''"
| "executor_code_text DependencyFetchFailed = ''dependency_fetch_failed''"
| "executor_code_text InsufficientDiskSpace = ''insufficient_disk_space''"

record resolve_error =
  re_message :: string
  re_code :: resolver_code

record build_error =
  be_message :: string
  be_code :: executor_code
  be_log :: string

definition resolve_js :: "resolve_error \<Rightarrow> js_error" where
  "resolve_js e = \<lparr>err_name = ''ArtifactResolveError'', message = re_message e,
                   code = Some (resolver_code_text (re_code e))\<rparr>"

definition build_js :: "build_error \<Rightarrow> js_error" where
  "build_js e = \<lparr>err_name = ''BuildExecutorError'', message = be_message e,
                 code = Some (executor_code_text (be_code e))\<rparr>"

datatype 'e rejected = Known 'e | Unexpected thrown

record build_result =
  wasm :: bytes
  wasmHash :: string
  build_log :: string

record verify_deps =
  build :: "verification_job \<Rightarrow> build_error rejected + build_result"
  resolveDeployedHash :: "string \<Rightarrow> resolve_error rejected + string"
  fetchDeployedWasm :: "(string \<Rightarrow> resolve_error rejected + bytes) option"
  dep_retryAttempt :: "int option"
  dep_baseDelayMs :: "int option"
  dep_maxDelayMs :: "int option"
  jobSecret :: "string option"
  sha256 :: "bytes \<Rightarrow> string"
  hmac :: hmac
  parse_url :: "string \<Rightarrow> (string \<times> string) option"
  rnd :: rat

text \<open>The private log: one constructor per template string, with the values it interpolates.\<close>

datatype mismatch_reason =
    FirstPartyExact
  | ByteForByteOnly
  | BytesDoNotHash
  | Differs mismatch
  | BytesMatchHashDoesNot

datatype run_log =
    SignatureRejected string
  | ResolveFailed string string
  | BuildFailedLog string string string
  | FetchFailed string string
  | MismatchLog string string mismatch_reason string
  | VerifiedLog string
  | VerifiedMetadataLog "utf8_string list" string string string

datatype outcome_status = Verified | Failed

record verification_outcome =
  out_status :: outcome_status
  outputHash :: "string option"
  deployedHash :: "string option"
  matchMode :: "match_mode option"
  statusDetail :: string
  log :: run_log
  isRetryable :: bool
  retryDelayMs :: "int option"
  retryAttempt :: int

definition MAX_ATTEMPTS :: int where "MAX_ATTEMPTS = 5"
definition BASE_DELAY_MS :: int where "BASE_DELAY_MS = 1000"
definition MAX_DELAY_MS :: int where "MAX_DELAY_MS = 30000"

fun PUBLIC_BUILD_HINTS :: "executor_code \<Rightarrow> string option" where
  "PUBLIC_BUILD_HINTS DependenciesUnresolved =
     Some ''Dependencies could not be resolved for an offline build: commit an up-to-date Cargo.lock that uses only crates.io and public https git dependencies (no submodules).''"
| "PUBLIC_BUILD_HINTS DependencyFetchFailed =
     Some ''A dependency host was unreachable while pre-fetching from Cargo.lock; the build will be retried.''"
| "PUBLIC_BUILD_HINTS InsufficientDiskSpace =
     Some ''The verification worker does not have enough free disk space to pre-fetch dependencies; this is an operator issue, not a problem with the submission.''"
| "PUBLIC_BUILD_HINTS _ = None"

fun signature_reason :: "signature_result \<Rightarrow> string" where
  "signature_reason MissingSignature = ''missing_signature''"
| "signature_reason InvalidSignature = ''invalid_signature''"
| "signature_reason SigExpired = ''expired''"
| "signature_reason SigValid = ''''"

definition attempt_of :: "verify_deps \<Rightarrow> int" where
  "attempt_of deps = (case dep_retryAttempt deps of None \<Rightarrow> 0 | Some n \<Rightarrow> n)"

definition backoff_of :: "verify_deps \<Rightarrow> int" where
  "backoff_of deps =
     calculateBackoffDelay (attempt_of deps)
       (case dep_baseDelayMs deps of None \<Rightarrow> BASE_DELAY_MS | Some b \<Rightarrow> b)
       (case dep_maxDelayMs deps of None \<Rightarrow> MAX_DELAY_MS | Some m \<Rightarrow> m) (rnd deps)"

text \<open>The failed outcomes of the two \<open>catch\<close> blocks: retryable with a delay exactly when transient.\<close>

definition failed_outcome ::
  "verify_deps \<Rightarrow> thrown \<Rightarrow> string option \<Rightarrow> string option \<Rightarrow> string \<Rightarrow> run_log \<Rightarrow> verification_outcome" where
  "failed_outcome deps err outHash depHash detail lg =
     (let isTransient = isTransientFailure err in
      \<lparr>out_status = Failed, outputHash = outHash, deployedHash = depHash, matchMode = None,
       statusDetail = detail, log = lg, isRetryable = isTransient,
       retryDelayMs = (if isTransient then Some (backoff_of deps) else None),
       retryAttempt = attempt_of deps\<rparr>)"

definition mismatch_outcome ::
  "verify_deps \<Rightarrow> build_result \<Rightarrow> string \<Rightarrow> mismatch_reason \<Rightarrow> verification_outcome" where
  "mismatch_outcome deps b depHash why =
     \<lparr>out_status = Failed, outputHash = Some (wasmHash b), deployedHash = Some depHash, matchMode = None,
      statusDetail = ''Rebuilt artifact does not match the deployed contract.'',
      log = MismatchLog (wasmHash b) depHash why (build_log b),
      isRetryable = False, retryDelayMs = None, retryAttempt = attempt_of deps\<rparr>"

definition verified_outcome ::
  "verify_deps \<Rightarrow> build_result \<Rightarrow> string \<Rightarrow> match_mode \<Rightarrow> string \<Rightarrow> run_log \<Rightarrow> verification_outcome" where
  "verified_outcome deps b depHash mode detail lg =
     \<lparr>out_status = Verified, outputHash = Some (wasmHash b), deployedHash = Some depHash,
      matchMode = Some mode, statusDetail = detail, log = lg,
      isRetryable = False, retryDelayMs = None, retryAttempt = attempt_of deps\<rparr>"

definition rejected_outcome :: "verify_deps \<Rightarrow> signature_result \<Rightarrow> verification_outcome" where
  "rejected_outcome deps sigResult =
     \<lparr>out_status = Failed, outputHash = None, deployedHash = None, matchMode = None,
      statusDetail = ''Signature verification failed ('' @ signature_reason sigResult @ '').'',
      log = SignatureRejected (signature_reason sigResult),
      isRetryable = False, retryDelayMs = None, retryAttempt = attempt_of deps\<rparr>"

text \<open>Steps 4 and 5, reached when the hashes differ.\<close>

definition compare_third_party ::
  "verify_deps \<Rightarrow> verification_job \<Rightarrow> string \<Rightarrow> build_result \<Rightarrow> resolve_error rejected + verification_outcome"
where
  "compare_third_party deps job depHash b =
     (if isFirstPartyContract (parse_url deps) (repoUrl job) depHash
      then Inr (mismatch_outcome deps b depHash FirstPartyExact)
      else
        (case fetchDeployedWasm deps of
           None \<Rightarrow> Inr (mismatch_outcome deps b depHash ByteForByteOnly)
         | Some fetch \<Rightarrow>
             (case fetch depHash of
                Inl (Known err) \<Rightarrow>
                  (if re_code err = ResolverTimeout then Inl (Known err)
                   else Inr (failed_outcome deps (ErrorObj (resolve_js err)) (Some (wasmHash b)) (Some depHash)
                          (''Could not fetch the deployed wasm ('' @ resolver_code_text (re_code err) @ '').'')
                          (FetchFailed (re_message err) (resolver_code_text (re_code err)))))
              | Inl (Unexpected e) \<Rightarrow> Inl (Unexpected e)
              | Inr deployedWasm \<Rightarrow>
                  (if hashArtifact (sha256 deps) (wasm b) \<noteq> normalizeHash (wasmHash b)
                   then Inr (mismatch_outcome deps b depHash BytesDoNotHash)
                   else
                     (case compareWasm (wasm b) deployedWasm of
                        NoMatch why \<Rightarrow> Inr (mismatch_outcome deps b depHash (Differs why))
                      | Exact \<Rightarrow> Inr (mismatch_outcome deps b depHash BytesMatchHashDoesNot)
                      | ToolchainMetadata ks \<Rightarrow>
                          Inr (verified_outcome deps b depHash ToolchainMatch
                            ''Rebuilt artifact matches the deployed contract; only toolchain version metadata differs.''
                            (VerifiedMetadataLog ks (wasmHash b) depHash (build_log b))))))))"

definition build_and_compare ::
  "verify_deps \<Rightarrow> verification_job \<Rightarrow> string \<Rightarrow> resolve_error rejected + verification_outcome" where
  "build_and_compare deps job depHash =
     (case build deps job of
        Inl (Known err) \<Rightarrow>
          Inr (failed_outcome deps (ErrorObj (build_js err)) None (Some depHash)
            (''Build failed ('' @ executor_code_text (be_code err) @ '').''
               @ (case PUBLIC_BUILD_HINTS (be_code err) of None \<Rightarrow> [] | Some hint \<Rightarrow> '' '' @ hint))
            (BuildFailedLog (be_message err) (executor_code_text (be_code err)) (be_log err)))
      | Inl (Unexpected e) \<Rightarrow> Inl (Unexpected e)
      | Inr b \<Rightarrow>
          (if hashesMatch (wasmHash b) depHash
           then Inr (verified_outcome deps b depHash ExactMatch
                  ''Rebuilt artifact matches the deployed wasm hash.'' (VerifiedLog (build_log b)))
           else compare_third_party deps job depHash b))"

definition signature_check :: "verify_deps \<Rightarrow> verification_job \<Rightarrow> instant \<Rightarrow> signature_result" where
  "signature_check deps job now =
     (if truthy (jobSecret deps)
      then verifyJobSignature (hmac deps) job (case jobSecret deps of None \<Rightarrow> [] | Some s \<Rightarrow> s) None now
      else SigValid)"

definition runVerification ::
  "verify_deps \<Rightarrow> instant \<Rightarrow> verification_job \<Rightarrow> resolve_error rejected + verification_outcome" where
  "runVerification deps now job =
     (let sigResult = signature_check deps job now in
      if sigResult \<noteq> SigValid then
        Inr (rejected_outcome deps sigResult)
      else
        (case resolveDeployedHash deps (contractId job) of
           Inl (Known err) \<Rightarrow>
             (if re_code err = ResolverTimeout then Inl (Known err)
              else Inr (failed_outcome deps (ErrorObj (resolve_js err)) None None
                     (''Could not resolve the deployed contract ('' @ resolver_code_text (re_code err) @ '').'')
                     (ResolveFailed (re_message err) (resolver_code_text (re_code err)))))
         | Inl (Unexpected e) \<Rightarrow> Inl (Unexpected e)
         | Inr depHash \<Rightarrow> build_and_compare deps job depHash))"

subsection \<open>What a verified outcome vouches for\<close>

lemma failed_outcome_sel [simp]:
  "out_status (failed_outcome d e o1 o2 s l) = Failed"
  "statusDetail (failed_outcome d e o1 o2 s l) = s"
  by (simp_all add: failed_outcome_def Let_def)

lemma mismatch_outcome_sel [simp]:
  "out_status (mismatch_outcome d b h w) = Failed"
  "statusDetail (mismatch_outcome d b h w) = ''Rebuilt artifact does not match the deployed contract.''"
  by (simp_all add: mismatch_outcome_def)

lemma verified_outcome_sel [simp]:
  "out_status (verified_outcome d b h m s l) = Verified"
  "statusDetail (verified_outcome d b h m s l) = s"
  "outputHash (verified_outcome d b h m s l) = Some (wasmHash b)"
  "deployedHash (verified_outcome d b h m s l) = Some h"
  "matchMode (verified_outcome d b h m s l) = Some m"
  by (simp_all add: verified_outcome_def)

definition accepted_match :: "verify_deps \<Rightarrow> verification_job \<Rightarrow> string \<Rightarrow> build_result \<Rightarrow> match_mode \<Rightarrow> bool" where
  "accepted_match deps job depHash b mode \<longleftrightarrow>
     (case mode of
        ExactMatch \<Rightarrow> hashesMatch (wasmHash b) depHash
      | ToolchainMatch \<Rightarrow>
          \<not> isFirstPartyContract (parse_url deps) (repoUrl job) depHash
          \<and> sha256 deps (wasm b) = normalizeHash (wasmHash b)
          \<and> (case fetchDeployedWasm deps of
               None \<Rightarrow> False
             | Some fetch \<Rightarrow>
                 (case fetch depHash of
                    Inl _ \<Rightarrow> False
                  | Inr w \<Rightarrow> (case compareWasm (wasm b) w of ToolchainMetadata ks \<Rightarrow> True | _ \<Rightarrow> False))))"

lemma rejected_outcome_sel [simp]:
  "out_status (rejected_outcome d r) = Failed"
  "statusDetail (rejected_outcome d r) = ''Signature verification failed ('' @ signature_reason r @ '').''"
  by (simp_all add: rejected_outcome_def)

lemma compare_third_party_verified:
  "compare_third_party deps job h b = Inr out \<Longrightarrow> out_status out = Verified \<Longrightarrow>
     outputHash out = Some (wasmHash b) \<and> deployedHash out = Some h
     \<and> matchMode out = Some ToolchainMatch \<and> accepted_match deps job h b ToolchainMatch"
  by (auto simp: compare_third_party_def accepted_match_def hashArtifact_def
      split: if_splits option.splits sum.splits rejected.splits wasm_comparison.splits)

lemma build_and_compare_verified:
  assumes "build_and_compare deps job h = Inr out" and "out_status out = Verified"
  shows "\<exists>b mode. build deps job = Inr b \<and> outputHash out = Some (wasmHash b)
     \<and> deployedHash out = Some h \<and> matchMode out = Some mode \<and> accepted_match deps job h b mode"
proof -
  from assms obtain b where b: "build deps job = Inr b"
    by (auto simp: build_and_compare_def split: sum.splits rejected.splits)
  show ?thesis
  proof (cases "hashesMatch (wasmHash b) h")
    case True
    with assms b show ?thesis by (auto simp: build_and_compare_def accepted_match_def)
  next
    case False
    with assms b have "compare_third_party deps job h b = Inr out" by (simp add: build_and_compare_def)
    from compare_third_party_verified [OF this assms(2)] b show ?thesis by blast
  qed
qed


definition example_job :: verification_job where
  "example_job = \<lparr>sourceType = RepoSource, repoUrl = Some ''https://example.org/r'', commitHash = Some ''abc'',
     sourceArchiveRef = None, toolchainVersion = ''1'', buildFlags = None, contractId = ''C1'',
     timestamp = Some 1, signature = Some ''0a''\<rparr>"

definition example_deps :: verify_deps where
  "example_deps =
     \<lparr>build = (\<lambda>_. Inr \<lparr>wasm = [1], wasmHash = ''0xAB'', build_log = []\<rparr>),
      resolveDeployedHash = (\<lambda>_. Inr ''ab''), fetchDeployedWasm = None, dep_retryAttempt = Some 2,
      dep_baseDelayMs = None, dep_maxDelayMs = None, jobSecret = Some ''k'', sha256 = (\<lambda>_. ''ab''),
      hmac = (\<lambda>k p. ''0a''), parse_url = (\<lambda>_. None), rnd = 1 / 2\<rparr>"

lemma example_hash: "hashesMatch ''0xAB'' ''ab''"
  by code_simp

lemma example_run:
  "runVerification example_deps 9 example_job =
     Inr (verified_outcome example_deps \<lparr>wasm = [1], wasmHash = ''0xAB'', build_log = []\<rparr> ''ab'' ExactMatch
            ''Rebuilt artifact matches the deployed wasm hash.'' (VerifiedLog []))"
  by (simp add: runVerification_def build_and_compare_def signature_check_def example_deps_def example_job_def
      verifyJobSignature_def signJobPayload_def example_hash)


text \<open>The texts a submitter may see: fixed sentences around an error code.\<close>

definition public_texts :: "string set" where
  "public_texts =
     {''Rebuilt artifact matches the deployed wasm hash.'',
      ''Rebuilt artifact matches the deployed contract; only toolchain version metadata differs.'',
      ''Rebuilt artifact does not match the deployed contract.''}
     \<union> range (\<lambda>r. ''Signature verification failed ('' @ signature_reason r @ '').'')
     \<union> range (\<lambda>c. ''Could not resolve the deployed contract ('' @ resolver_code_text c @ '').'')
     \<union> range (\<lambda>c. ''Could not fetch the deployed wasm ('' @ resolver_code_text c @ '').'')
     \<union> range (\<lambda>c. ''Build failed ('' @ executor_code_text c @ '').''
                  @ (case PUBLIC_BUILD_HINTS c of None \<Rightarrow> [] | Some hint \<Rightarrow> '' '' @ hint))"

text \<open>Every outcome is built by one of the four constructors, with a public text of its own.\<close>

lemma detail_public:
  "''Signature verification failed ('' @ signature_reason r @ '').'' \<in> public_texts"
  "''Could not resolve the deployed contract ('' @ resolver_code_text c @ '').'' \<in> public_texts"
  "''Could not fetch the deployed wasm ('' @ resolver_code_text c @ '').'' \<in> public_texts"
  "''Build failed ('' @ executor_code_text k @ '').''
      @ (case PUBLIC_BUILD_HINTS k of None \<Rightarrow> [] | Some hint \<Rightarrow> '' '' @ hint) \<in> public_texts"
  "''Rebuilt artifact matches the deployed wasm hash.'' \<in> public_texts"
  "''Rebuilt artifact matches the deployed contract; only toolchain version metadata differs.'' \<in> public_texts"
  "''Rebuilt artifact does not match the deployed contract.'' \<in> public_texts"
  unfolding public_texts_def by blast+

definition run_shape_pred :: "verify_deps \<Rightarrow> verification_outcome \<Rightarrow> bool" where
  "run_shape_pred deps out \<longleftrightarrow>
     (\<exists>r. out = rejected_outcome deps r)
     \<or> (\<exists>e o1 o2 s l. out = failed_outcome deps e o1 o2 s l \<and> s \<in> public_texts)
     \<or> (\<exists>b h w. out = mismatch_outcome deps b h w)
     \<or> (\<exists>b h m s l. out = verified_outcome deps b h m s l \<and> s \<in> public_texts)"

lemma shape_intros:
  "run_shape_pred deps (rejected_outcome deps r)"
  "s \<in> public_texts \<Longrightarrow> run_shape_pred deps (failed_outcome deps e o1 o2 s l)"
  "run_shape_pred deps (mismatch_outcome deps b h w)"
  "s \<in> public_texts \<Longrightarrow> run_shape_pred deps (verified_outcome deps b h m s l)"
  unfolding run_shape_pred_def by blast+

lemma compare_third_party_shape: "compare_third_party deps job h b = Inr out \<Longrightarrow> run_shape_pred deps out"
  by (auto simp only: compare_third_party_def sum.simps
      split: if_splits option.splits sum.splits rejected.splits wasm_comparison.splits
      intro!: shape_intros detail_public)

lemma build_and_compare_shape: "build_and_compare deps job h = Inr out \<Longrightarrow> run_shape_pred deps out"
  by (auto simp only: build_and_compare_def sum.simps split: if_splits sum.splits rejected.splits
      intro!: shape_intros detail_public dest!: compare_third_party_shape)

lemma run_shape: "runVerification deps now job = Inr out \<Longrightarrow> run_shape_pred deps out"
  by (auto simp only: runVerification_def Let_def sum.simps split: if_splits sum.splits rejected.splits
      intro!: shape_intros detail_public dest!: build_and_compare_shape)

text \<open>An outcome asks for a retry only when it failed for a transient reason, and the delay it
  recommends then lies between 0 and the configured cap, doubling per attempt up to it; final
  outcomes carry no delay.\<close>

theorem retry_advice_bounded:
  assumes "runVerification deps now job = Inr out"
    and "0 \<le> rnd deps" "rnd deps < 1" "dep_baseDelayMs deps = None" "dep_maxDelayMs deps = None"
  shows "(if isRetryable out
          then out_status out = Failed
             \<and> (\<exists>d. retryDelayMs out = Some d \<and> 0 \<le> d \<and> d \<le> MAX_DELAY_MS
                   \<and> d \<le> BASE_DELAY_MS * 2 ^ nat (attempt_of deps))
          else retryDelayMs out = None) \<and> retryAttempt out = attempt_of deps"
proof -
  have "0 \<le> backoff_of deps" "backoff_of deps \<le> min MAX_DELAY_MS (BASE_DELAY_MS * 2 ^ nat (attempt_of deps))"
    using retryWithJitter_bounds [OF assms(2,3), of BASE_DELAY_MS MAX_DELAY_MS "attempt_of deps"] assms(4,5)
    by (simp_all add: backoff_of_def calculateBackoffDelay_def BASE_DELAY_MS_def MAX_DELAY_MS_def)
  with run_shape [OF assms(1), unfolded run_shape_pred_def] show ?thesis
    by (auto simp: failed_outcome_def mismatch_outcome_def verified_outcome_def rejected_outcome_def Let_def)
qed

theorem retry_advice_bounded_witness: "retryAttempt (projr (runVerification example_deps 9 example_job)) = 2"
  using retry_advice_bounded [OF example_run] by (simp add: example_run) (simp add: example_deps_def attempt_of_def)

text \<open>Whatever error messages and build logs the executor and the resolver produce, the public status
  text of an outcome is one of finitely many fixed sentences around an error code: no message, log,
  path or host can reach a submitter through it.\<close>

theorem public_status_never_leaks:
  assumes "runVerification deps now job = Inr out"
  shows "statusDetail out \<in> public_texts \<and> finite public_texts"
proof
  have "UNIV = {MissingSignature, InvalidSignature, SigExpired, SigValid}"
    by (auto intro: signature_result.exhaust)
  then have 1: "finite (UNIV :: signature_result set)" by (metis finite.emptyI finite.insertI)
  have "UNIV = {NotFound, NotWasm, RpcError, ResolverTimeout}" by (auto intro: resolver_code.exhaust)
  then have 2: "finite (UNIV :: resolver_code set)" by (metis finite.emptyI finite.insertI)
  have "UNIV = {NotConfigured, CloneFailed, BuildFailed, ArtifactMissing, UnsupportedSource,
      RepoUrlRejected, DependenciesUnresolved, DependencyFetchFailed, InsufficientDiskSpace}"
    by (auto intro: executor_code.exhaust)
  then have 3: "finite (UNIV :: executor_code set)" by (metis finite.emptyI finite.insertI)
  show "finite public_texts"
    unfolding public_texts_def by (intro finite_UnI finite_imageI 1 2 3) simp_all
  show "statusDetail out \<in> public_texts"
    using run_shape [OF assms] unfolding run_shape_pred_def by (auto simp only: rejected_outcome_sel failed_outcome_sel
        mismatch_outcome_sel verified_outcome_sel detail_public)
qed

theorem public_status_never_leaks_witness:
  "statusDetail (projr (runVerification example_deps 9 example_job)) \<in> public_texts"
  using public_status_never_leaks [OF example_run] by (simp add: example_run)

text \<open>\<open>runVerification\<close> gives \<open>verifyJobSignature\<close> no maximum age, so a signed job is accepted at any
  later time: its time stamp is authenticated but never checked.\<close>

theorem signed_jobs_never_expire:
  "runVerification deps now job = runVerification deps later job"
  by (simp add: runVerification_def signature_check_def verifyJobSignature_def)

end
