(* ===== verification/JobStore.thy ===== *)
theory JobStore
  imports Verify
begin

text \<open>
  The store of verification jobs: the contract of \<open>services/worker-service/src/job-store.ts\<close> as the
  locale \<open>job_store\<close>, and its two implementations, \<open>memory-job-store.ts\<close> and
  \<open>pg-job-store.ts\<close>, interpreted against it.  The Postgres table is an insertion-ordered map from
  record ids to rows; one SQL statement is one step.  Rows locked by other workers
  (\<open>SKIP LOCKED\<close>) are an argument of the claim, as is the schema check of claimed rows.
\<close>

datatype job_status = Unverified | Submitted | Building | VerifiedStatus | FailedStatus | DeadLetter

fun status_of :: "outcome_status \<Rightarrow> job_status" where
  "status_of Verified = VerifiedStatus"
| "status_of Failed = FailedStatus"

definition active :: "job_status \<Rightarrow> bool" where
  "active s \<longleftrightarrow> s = Submitted \<or> s = Building"

record claimed_job =
  recordId :: string
  claimed :: verification_job
  cj_submittedAt :: "instant option"

record reap_opts =
  timeoutMs :: int
  maxAttempts :: int
  baseBackoffDelayMs :: int
  maxBackoffDelayMs :: int

datatype reap_event = Reclaimed int | DeadLettered

definition reclaimed_count :: "reap_event list \<Rightarrow> nat" where
  "reclaimed_count evs = length (filter (\<lambda>e. e \<noteq> DeadLettered) evs)"

definition deadLettered_count :: "reap_event list \<Rightarrow> nat" where
  "deadLettered_count evs = length (filter (\<lambda>e. e = DeadLettered) evs)"

subsection \<open>The contract\<close>

text \<open>
  What the worker relies on.  \<open>view s i\<close> is the status of record \<open>i\<close> with the number of times it was
  claimed.  A claim flips at most \<open>limit\<close> submitted records to building and counts the attempt; a
  completed record takes the outcome's status; the reaper parks a building record in the
  dead-letter state only when its attempts are used up and re-queues it only while they are not.
\<close>

datatype 'c store_op =
    Claim 'c nat
  | Complete instant string verification_outcome
  | Reap instant reap_opts

fun store_exec ::
  "('c \<Rightarrow> nat \<Rightarrow> 's \<Rightarrow> 's \<times> claimed_job list) \<Rightarrow> (instant \<Rightarrow> string \<Rightarrow> verification_outcome \<Rightarrow> 's \<Rightarrow> 's)
     \<Rightarrow> (instant \<Rightarrow> reap_opts \<Rightarrow> 's \<Rightarrow> 's \<times> reap_event list) \<Rightarrow> 'c store_op \<Rightarrow> 's \<Rightarrow> 's" where
  "store_exec claim finish reap (Claim c n) s = fst (claim c n s)"
| "store_exec claim finish reap (Complete t i out) s = finish t i out s"
| "store_exec claim finish reap (Reap t opts) s = fst (reap t opts s)"

fun op_limit :: "int \<Rightarrow> 'c store_op \<Rightarrow> bool" where
  "op_limit mx (Reap t opts) = (maxAttempts opts = mx)"
| "op_limit mx _ = True"

locale job_store =
  fixes view :: "'s \<Rightarrow> string \<Rightarrow> (job_status \<times> int) option"
    and inv :: "'s \<Rightarrow> bool"
    and claim :: "'c \<Rightarrow> nat \<Rightarrow> 's \<Rightarrow> 's \<times> claimed_job list"
    and finish :: "instant \<Rightarrow> string \<Rightarrow> verification_outcome \<Rightarrow> 's \<Rightarrow> 's"
    and reap :: "instant \<Rightarrow> reap_opts \<Rightarrow> 's \<Rightarrow> 's \<times> reap_event list"
  assumes claim_inv: "inv s \<Longrightarrow> inv (fst (claim c n s))"
    and finish_inv: "inv s \<Longrightarrow> inv (finish t i out s)"
    and reap_inv: "inv s \<Longrightarrow> inv (fst (reap t opts s))"
    and claim_view: "inv s \<Longrightarrow> view (fst (claim c n s)) i = view s i
          \<or> (\<exists>k. view s i = Some (Submitted, k) \<and> view (fst (claim c n s)) i = Some (Building, k + 1))"
    and claim_limit: "inv s \<Longrightarrow> card {i. view (fst (claim c n s)) i \<noteq> view s i} \<le> n"
    and claimed_building: "inv s \<Longrightarrow> j \<in> set (snd (claim c n s)) \<Longrightarrow>
          view (fst (claim c n s)) (recordId j) \<noteq> view s (recordId j)"
    and claimed_distinct: "inv s \<Longrightarrow> distinct (map recordId (snd (claim c n s)))"
    and finish_view: "inv s \<Longrightarrow> view (finish t i out s) i' = view s i'
          \<or> (i' = i \<and> (\<exists>st k. view s i = Some (st, k) \<and> view (finish t i out s) i = Some (status_of (out_status out), k)))"
    and finish_building: "inv s \<Longrightarrow> view s i = Some (Building, k) \<Longrightarrow>
          view (finish t i out s) i = Some (status_of (out_status out), k)"
    and reap_view: "inv s \<Longrightarrow> view (fst (reap t opts s)) i = view s i
          \<or> (\<exists>k. view s i = Some (Building, k)
               \<and> view (fst (reap t opts s)) i = Some (if maxAttempts opts \<le> k then DeadLetter else Submitted, k))"
begin

text \<open>No job is built more often than the reaper's limit allows: the invariant behind it.\<close>

definition attempts_ok :: "int \<Rightarrow> 's \<Rightarrow> bool" where
  "attempts_ok mx s \<longleftrightarrow>
     (\<forall>i st k. view s i = Some (st, k) \<longrightarrow>
        0 \<le> k \<and> k \<le> mx \<and> (st = Submitted \<longrightarrow> k < mx) \<and> (st = Building \<longrightarrow> 1 \<le> k) \<and> (st = DeadLetter \<longrightarrow> k = mx))"

lemma claim_attempts:
  assumes "inv s" "attempts_ok mx s" shows "attempts_ok mx (fst (claim c n s))"
  unfolding attempts_ok_def
proof (intro allI impI)
  fix i st k
  assume v: "view (fst (claim c n s)) i = Some (st, k)"
  from claim_view [OF assms(1), of c n i] v assms(2)
  show "0 \<le> k \<and> k \<le> mx \<and> (st = Submitted \<longrightarrow> k < mx) \<and> (st = Building \<longrightarrow> 1 \<le> k) \<and> (st = DeadLetter \<longrightarrow> k = mx)"
    by (fastforce simp: attempts_ok_def)
qed

lemma finish_attempts:
  assumes "inv s" "attempts_ok mx s" shows "attempts_ok mx (finish t i out s)"
  unfolding attempts_ok_def
proof (intro allI impI)
  fix i' st k
  assume v: "view (finish t i out s) i' = Some (st, k)"
  from finish_view [OF assms(1), of t i out i'] v assms(2)
  show "0 \<le> k \<and> k \<le> mx \<and> (st = Submitted \<longrightarrow> k < mx) \<and> (st = Building \<longrightarrow> 1 \<le> k) \<and> (st = DeadLetter \<longrightarrow> k = mx)"
    by (cases "out_status out") (fastforce simp: attempts_ok_def)+
qed

lemma reap_attempts:
  assumes "inv s" "attempts_ok mx s" "maxAttempts opts = mx" shows "attempts_ok mx (fst (reap t opts s))"
  unfolding attempts_ok_def
proof (intro allI impI)
  fix i st k
  assume v: "view (fst (reap t opts s)) i = Some (st, k)"
  from reap_view [OF assms(1), of t opts i] v assms(2,3)
  show "0 \<le> k \<and> k \<le> mx \<and> (st = Submitted \<longrightarrow> k < mx) \<and> (st = Building \<longrightarrow> 1 \<le> k) \<and> (st = DeadLetter \<longrightarrow> k = mx)"
    by (fastforce simp: attempts_ok_def split: if_splits)
qed

lemma exec_attempts:
  "op_limit mx opn \<Longrightarrow> inv s \<Longrightarrow> attempts_ok mx s \<Longrightarrow>
     inv (store_exec claim finish reap opn s) \<and> attempts_ok mx (store_exec claim finish reap opn s)"
  by (cases opn) (auto intro: claim_inv finish_inv reap_inv claim_attempts finish_attempts reap_attempts)

lemma run_attempts:
  "list_all (op_limit mx) ops \<Longrightarrow> inv s \<Longrightarrow> attempts_ok mx s \<Longrightarrow>
     inv (fold (store_exec claim finish reap) ops s)
     \<and> attempts_ok mx (fold (store_exec claim finish reap) ops s)"
  by (induction ops arbitrary: s) (auto dest: exec_attempts)

text \<open>A record that has left the queue for good stays as it is, whatever the worker's reaper does.\<close>

lemma reap_keeps_terminal:
  "inv s \<Longrightarrow> view s i = Some (st, k) \<Longrightarrow> st \<noteq> Building \<Longrightarrow> view (fst (reap t opts s)) i = Some (st, k)"
  using reap_view [of s t opts i] by auto

lemma claim_keeps_other:
  "inv s \<Longrightarrow> view s i = Some (st, k) \<Longrightarrow> st \<noteq> Submitted \<Longrightarrow> view (fst (claim c n s)) i = Some (st, k)"
  using claim_view [of s c n i] by auto

end

subsection \<open>The in-memory store\<close>

record mem_row =
  mr_status :: job_status
  mr_job :: verification_job
  mr_submittedAtMs :: "instant option"
  mr_outputHash :: "string option"
  mr_deployedHash :: "string option"
  mr_matchMode :: "match_mode option"
  mr_log :: "run_log option"
  mr_statusDetail :: "string option"
  mr_completedAtMs :: "instant option"
  mr_attempts :: "int option"
  mr_startedBuildingAtMs :: "instant option"

type_synonym mem_store = "(string, mem_row) js_map"

definition or_zero :: "int option \<Rightarrow> int" where
  "or_zero a = (case a of None \<Rightarrow> 0 | Some n \<Rightarrow> n)"

definition mem_submit :: "string \<Rightarrow> verification_job \<Rightarrow> instant \<Rightarrow> mem_store \<Rightarrow> mem_store" where
  "mem_submit i job t m =
     js_set i \<lparr>mr_status = Submitted, mr_job = job, mr_submittedAtMs = Some t, mr_outputHash = None,
             mr_deployedHash = None, mr_matchMode = None, mr_log = None, mr_statusDetail = None,
             mr_completedAtMs = None, mr_attempts = None, mr_startedBuildingAtMs = None\<rparr> m"

definition mem_flip :: "instant \<Rightarrow> mem_row \<Rightarrow> mem_row" where
  "mem_flip now r = r\<lparr>mr_status := Building, mr_attempts := Some (or_zero (mr_attempts r) + 1),
                    mr_startedBuildingAtMs := Some now\<rparr>"

text \<open>The loop of \<open>claimSubmitted\<close>; \<open>n\<close> is what is left of the limit.\<close>

fun mem_claim :: "instant \<Rightarrow> nat \<Rightarrow> mem_store \<Rightarrow> mem_store \<times> claimed_job list" where
  "mem_claim now n [] = ([], [])"
| "mem_claim now n ((i, r) # rows) =
     (if n = 0 then ((i, r) # rows, [])
      else if mr_status r = Submitted then
        (let rest = mem_claim now (n - 1) rows in
         ((i, mem_flip now r) # fst rest,
          \<lparr>recordId = i, claimed = mr_job r, cj_submittedAt = mr_submittedAtMs r\<rparr> # snd rest))
      else (let rest = mem_claim now n rows in ((i, r) # fst rest, snd rest)))"

definition mem_complete :: "instant \<Rightarrow> string \<Rightarrow> verification_outcome \<Rightarrow> mem_store \<Rightarrow> mem_store" where
  "mem_complete now i out m =
     js_modify i (\<lambda>r. r\<lparr>mr_status := status_of (out_status out), mr_outputHash := outputHash out,
        mr_deployedHash := deployedHash out, mr_matchMode := matchMode out, mr_log := Some (log out),
        mr_statusDetail := Some (statusDetail out), mr_completedAtMs := Some now\<rparr>) m"

text \<open>One row of the reaper's loop, with the callback it fires.\<close>

definition mem_reap_row :: "instant \<Rightarrow> reap_opts \<Rightarrow> mem_row \<Rightarrow> mem_row \<times> reap_event list" where
  "mem_reap_row now opts r =
     (if mr_status r \<noteq> Building then (r, [])
      else if now - (case mr_startedBuildingAtMs r of None \<Rightarrow> now | Some t \<Rightarrow> t) \<le> timeoutMs opts then (r, [])
      else if or_zero (mr_attempts r) \<ge> maxAttempts opts
      then (r\<lparr>mr_status := DeadLetter, mr_completedAtMs := Some now\<rparr>, [DeadLettered])
      else (r\<lparr>mr_status := Submitted, mr_startedBuildingAtMs := None\<rparr>,
            [Reclaimed (or_zero (mr_attempts r) - 1)]))"

definition mem_reap :: "instant \<Rightarrow> reap_opts \<Rightarrow> mem_store \<Rightarrow> mem_store \<times> reap_event list" where
  "mem_reap now opts m =
     (js_map_values (\<lambda>r. fst (mem_reap_row now opts r)) m,
      concat (map (\<lambda>r. snd (mem_reap_row now opts r)) (js_values m)))"

definition mem_countActive :: "mem_store \<Rightarrow> nat" where
  "mem_countActive m = length (filter (\<lambda>r. active (mr_status r)) (js_values m))"

definition mem_hasActiveForContract :: "string \<Rightarrow> mem_store \<Rightarrow> bool" where
  "mem_hasActiveForContract c m =
     list_ex (\<lambda>r. contractId (mr_job r) = c \<and> active (mr_status r)) (js_values m)"

text \<open>\<open>listLatestVerified\<close>: the map of the latest terminal row per contract, then its verified rows.\<close>

definition mem_latest :: "mem_store \<Rightarrow> (string, mem_row) js_map" where
  "mem_latest m =
     fold (\<lambda>r acc.
         if mr_status r \<noteq> VerifiedStatus \<and> mr_status r \<noteq> FailedStatus then acc
         else
           (case js_get acc (contractId (mr_job r)) of
              None \<Rightarrow> js_set (contractId (mr_job r)) r acc
            | Some cur \<Rightarrow>
                (if or_zero (mr_completedAtMs r) > or_zero (mr_completedAtMs cur)
                 then js_set (contractId (mr_job r)) r acc else acc)))
       (js_values m) []"

definition listed_row :: "mem_row \<Rightarrow> (string \<times> string) list" where
  "listed_row r =
     (case attestedHash (mr_matchMode r) (mr_outputHash r) (mr_deployedHash r) of
        None \<Rightarrow> []
      | Some h \<Rightarrow>
          (if mr_status r = VerifiedStatus \<and> h \<noteq> [] then [(contractId (mr_job r), h)] else []))"

definition mem_listLatestVerified :: "nat \<Rightarrow> mem_store \<Rightarrow> (string \<times> string) list" where
  "mem_listLatestVerified limit m = take limit (concat (map listed_row (js_values (mem_latest m))))"

definition mem_view :: "mem_store \<Rightarrow> string \<Rightarrow> (job_status \<times> int) option" where
  "mem_view m i = map_option (\<lambda>r. (mr_status r, or_zero (mr_attempts r))) (js_get m i)"

lemma mem_claim_keys: "map fst (fst (mem_claim now n m)) = map fst m"
  by (induction now n m rule: mem_claim.induct) (auto simp: Let_def)

lemma mem_claim_ids: "set (map recordId (snd (mem_claim now n m))) \<subseteq> fst ` set m"
  by (induction now n m rule: mem_claim.induct) (auto simp: Let_def)

lemma mem_claim_length: "length (snd (mem_claim now n m)) \<le> n"
  by (induction now n m rule: mem_claim.induct) (auto simp: Let_def)

lemma mem_claim_distinct: "js_ok m \<Longrightarrow> distinct (map recordId (snd (mem_claim now n m)))"
proof (induction now n m rule: mem_claim.induct)
  case (2 now n k r rows)
  have ok: "js_ok rows" and k: "k \<notin> fst ` set rows" using "2.prems" by (auto simp: js_ok_def)
  then have "k \<notin> set (map recordId (snd (mem_claim now l rows)))" for l
    using mem_claim_ids [of now l rows] by blast
  with 2 ok show ?case by (auto simp: Let_def)
qed simp

lemma mem_claim_get:
  "js_ok m \<Longrightarrow> js_get (fst (mem_claim now n m)) i =
     (if i \<in> set (map recordId (snd (mem_claim now n m)))
      then map_option (mem_flip now) (js_get m i) else js_get m i)"
proof (induction now n m rule: mem_claim.induct)
  case (2 now n k r rows)
  have ok: "js_ok rows" and k: "k \<notin> fst ` set rows" using "2.prems" by (auto simp: js_ok_def)
  then have "k \<notin> set (map recordId (snd (mem_claim now l rows)))" for l
    using mem_claim_ids [of now l rows] by blast
  with 2 ok show ?case by (auto simp: Let_def)
qed simp

lemma mem_claim_submitted:
  "js_ok m \<Longrightarrow> j \<in> set (snd (mem_claim now n m)) \<Longrightarrow>
     \<exists>r. js_get m (recordId j) = Some r \<and> mr_status r = Submitted"
proof (induction now n m rule: mem_claim.induct)
  case (2 now n k r rows)
  have ok: "js_ok rows" and k: "k \<notin> fst ` set rows" using "2.prems" by (auto simp: js_ok_def)
  have ne: "recordId j \<noteq> k" if "j \<in> set (snd (mem_claim now l rows))" for l
    using that k mem_claim_ids [of now l rows] by auto
  from 2 ok ne show ?case by (auto simp: Let_def split: if_splits)
qed simp

lemma mem_flip_sel [simp]:
  "mr_status (mem_flip t r) = Building"
  "or_zero (mr_attempts (mem_flip t r)) = or_zero (mr_attempts r) + 1"
  by (simp_all add: mem_flip_def or_zero_def)

lemma claimed_card: "set (map recordId js) = A \<Longrightarrow> B \<subseteq> A \<Longrightarrow> length js \<le> n \<Longrightarrow> card B \<le> n"
  by (metis List.finite_set card_length card_mono dual_order.trans length_map)

interpretation mem: job_store mem_view js_ok mem_claim mem_complete mem_reap
proof (unfold_locales, goal_cases)
  case (1 s c n)
  then show ?case by (simp add: js_ok_def mem_claim_keys)
next
  case (2 s t i out)
  then show ?case by (simp add: mem_complete_def)
next
  case (3 s t opts)
  then show ?case by (simp add: mem_reap_def)
next
  case (4 s c n i)
  show ?case
  proof (cases "i \<in> set (map recordId (snd (mem_claim c n s)))")
    case True
    then obtain j where "j \<in> set (snd (mem_claim c n s))" "i = recordId j" by auto
    with mem_claim_submitted [OF 4, of j c n] True 4 show ?thesis
      by (auto simp: mem_view_def mem_claim_get)
  next
    case False
    with 4 show ?thesis by (simp add: mem_view_def mem_claim_get)
  qed
next
  case (5 s c n)
  have "{i. mem_view (fst (mem_claim c n s)) i \<noteq> mem_view s i} \<subseteq> set (map recordId (snd (mem_claim c n s)))"
    using 5 by (auto simp: mem_view_def mem_claim_get)
  then show ?case by (rule claimed_card [OF refl]) (rule mem_claim_length)
next
  case (6 s j c n)
  from mem_claim_submitted [OF 6] 6 show ?case
    by (auto simp: mem_view_def mem_claim_get)
next
  case (7 s c n)
  then show ?case by (rule mem_claim_distinct)
next
  case (8 s t i out i')
  then show ?case
    by (cases "js_get s i") (auto simp: mem_view_def mem_complete_def)
next
  case (9 s i k t out)
  then show ?case by (auto simp: mem_view_def mem_complete_def)
next
  case (10 s t opts i)
  then show ?case
    by (cases "js_get s i")
       (auto simp: mem_view_def mem_reap_def mem_reap_row_def)
qed

subsection \<open>The Postgres store\<close>

text \<open>A row of \<open>verification_records\<close>: the columns, and the fields of the jsonb \<open>record\<close> (\<open>rec_\<close>).\<close>

record pg_row =
  col_contract :: string
  col_status :: job_status
  created_at :: instant
  updated_at :: instant
  rec_status :: job_status
  rec_attempts :: "int option"
  rec_job :: verification_job
  rec_outputHash :: "string option"
  rec_deployedHash :: "string option"
  rec_matchMode :: "match_mode option"
  rec_log :: "run_log option"
  rec_statusDetail :: "string option"

type_synonym pg_store = "(string, pg_row) js_map"

text \<open>What a claim depends on besides the table: the clock, the rows other transactions have locked and
  the schema check, which gives the job the worker will see or \<open>None\<close> for a malformed record.\<close>

record claim_env =
  ce_now :: instant
  locked :: "string \<Rightarrow> bool"
  validate :: "pg_row \<Rightarrow> verification_job option"

definition claim_ids :: "claim_env \<Rightarrow> nat \<Rightarrow> pg_store \<Rightarrow> string list" where
  "claim_ids env limit m =
     take limit (map fst (sort_key (\<lambda>p. created_at (snd p))
       (filter (\<lambda>p. col_status (snd p) = Submitted \<and> \<not> locked env (fst p)) m)))"

definition pg_flip :: "instant \<Rightarrow> pg_row \<Rightarrow> pg_row" where
  "pg_flip now r = r\<lparr>col_status := Building, updated_at := now,
                   rec_attempts := Some (or_zero (rec_attempts r) + 1)\<rparr>"

text \<open>\<open>toClaimedJob\<close> copies eight fields of the validated record; a time stamp or signature stored on
  it is not among them.\<close>

definition toClaimedJob :: "string \<Rightarrow> verification_job \<Rightarrow> instant \<Rightarrow> claimed_job" where
  "toClaimedJob i job created =
     \<lparr>recordId = i, claimed = job\<lparr>timestamp := None, signature := None\<rparr>, cj_submittedAt = Some created\<rparr>"

definition pg_claim :: "claim_env \<Rightarrow> nat \<Rightarrow> pg_store \<Rightarrow> pg_store \<times> claimed_job list" where
  "pg_claim env limit m =
     (let ids = claim_ids env limit m;
          flipped = map (\<lambda>(i, r). (i, if i \<in> set ids then pg_flip (ce_now env) r else r)) m;
          returned = filter (\<lambda>p. fst p \<in> set ids) flipped
      in (flipped,
          concat (map (\<lambda>(i, r). case validate env r of
                    None \<Rightarrow> []
                  | Some job \<Rightarrow> [toClaimedJob i job (created_at r)]) returned)))"

definition pg_result :: "instant \<Rightarrow> verification_outcome \<Rightarrow> pg_row \<Rightarrow> pg_row" where
  "pg_result now out r =
     r\<lparr>col_status := status_of (out_status out), updated_at := now, rec_status := status_of (out_status out),
       rec_outputHash := outputHash out, rec_deployedHash := deployedHash out, rec_matchMode := matchMode out,
       rec_log := Some (log out), rec_statusDetail := Some (statusDetail out)\<rparr>"

definition pg_complete :: "instant \<Rightarrow> string \<Rightarrow> verification_outcome \<Rightarrow> pg_store \<Rightarrow> pg_store" where
  "pg_complete now i out m =
     (case js_get m i of
        None \<Rightarrow> m
      | Some r \<Rightarrow> (if col_status r \<noteq> Building then m else js_modify i (\<lambda>_. pg_result now out r) m))"

text \<open>The reaper reads the stranded rows in one statement and then updates them one by one, by id.\<close>

definition pg_stranded :: "instant \<Rightarrow> reap_opts \<Rightarrow> pg_store \<Rightarrow> (string \<times> int) list" where
  "pg_stranded now opts m =
     map (\<lambda>(i, r). (i, or_zero (rec_attempts r)))
       (filter (\<lambda>(i, r). col_status r = Building \<and> updated_at r < now - timeoutMs opts) m)"

definition pg_reap_update :: "instant \<Rightarrow> reap_opts \<Rightarrow> string \<times> int \<Rightarrow> pg_store \<Rightarrow> pg_store" where
  "pg_reap_update now opts = (\<lambda>(i, attempts).
     js_modify i (\<lambda>r. if attempts \<ge> maxAttempts opts
       then r\<lparr>col_status := DeadLetter, updated_at := now, rec_status := DeadLetter\<rparr>
       else r\<lparr>col_status := Submitted, updated_at := now, rec_status := Submitted\<rparr>))"

definition pg_reap_event :: "reap_opts \<Rightarrow> string \<times> int \<Rightarrow> reap_event" where
  "pg_reap_event opts = (\<lambda>(i, attempts). if attempts \<ge> maxAttempts opts then DeadLettered else Reclaimed attempts)"

definition pg_reap :: "instant \<Rightarrow> reap_opts \<Rightarrow> pg_store \<Rightarrow> pg_store \<times> reap_event list" where
  "pg_reap now opts m =
     (let list = pg_stranded now opts m in
      (fold (pg_reap_update now opts) list m, map (pg_reap_event opts) list))"

definition pg_countActive :: "pg_store \<Rightarrow> nat" where
  "pg_countActive m = length (filter (\<lambda>r. active (col_status r)) (js_values m))"

definition pg_hasActiveForContract :: "string \<Rightarrow> pg_store \<Rightarrow> bool" where
  "pg_hasActiveForContract c m = list_ex (\<lambda>r. col_contract r = c \<and> active (col_status r)) (js_values m)"

definition pg_view :: "pg_store \<Rightarrow> string \<Rightarrow> (job_status \<times> int) option" where
  "pg_view m i = map_option (\<lambda>r. (col_status r, or_zero (rec_attempts r))) (js_get m i)"

lemma js_get_map_if:
  "js_get (map (\<lambda>(i, r). (i, if i \<in> A then f r else r)) m) k
     = (if k \<in> A then map_option f (js_get m k) else js_get m k)"
  by (induction m) auto

lemma pg_claim_get:
  "js_get (fst (pg_claim env n m)) i =
     (if i \<in> set (claim_ids env n m) then map_option (pg_flip (ce_now env)) (js_get m i) else js_get m i)"
  by (simp add: pg_claim_def Let_def js_get_map_if)

lemma claim_ids_submitted:
  assumes "js_ok m" "i \<in> set (claim_ids env n m)"
  shows "\<exists>r. js_get m i = Some r \<and> col_status r = Submitted"
proof -
  from assms(2) have "i \<in> fst ` {p \<in> set m. col_status (snd p) = Submitted \<and> \<not> locked env (fst p)}"
    unfolding claim_ids_def by (auto dest!: in_set_takeD)
  with assms(1) show ?thesis by (auto simp: js_get_Some_iff)
qed

lemma length_claim_ids: "length (claim_ids env n m) \<le> n"
  by (simp add: claim_ids_def)

lemma pg_claimed_ids: "j \<in> set (snd (pg_claim env n m)) \<Longrightarrow> recordId j \<in> set (claim_ids env n m)"
  by (auto simp: pg_claim_def Let_def toClaimedJob_def split: option.splits)

lemma pg_claimed_distinct:
  assumes "js_ok m" shows "distinct (map recordId (snd (pg_claim env n m)))"
proof -
  have "distinct (map recordId (concat (map (\<lambda>(i, r). case validate env r of None \<Rightarrow> []
          | Some job \<Rightarrow> [toClaimedJob i job (created_at r)]) xs)))
      \<and> set (map recordId (concat (map (\<lambda>(i, r). case validate env r of None \<Rightarrow> []
          | Some job \<Rightarrow> [toClaimedJob i job (created_at r)]) xs))) \<subseteq> fst ` set xs"
    if "distinct (map fst xs)" for xs :: "(string \<times> pg_row) list"
    using that by (induction xs) (auto simp: toClaimedJob_def split: option.split, force+)
  moreover have "distinct (map fst (filter (\<lambda>p. fst p \<in> A)
      (map (\<lambda>(i, r). (i, if i \<in> A then pg_flip t r else r)) m)))" for A t
  proof (rule distinct_map_filter)
    have "map fst (map (\<lambda>(i, r). (i, if i \<in> A then pg_flip t r else r)) m) = map fst m" by auto
    with assms show "distinct (map fst (map (\<lambda>(i, r). (i, if i \<in> A then pg_flip t r else r)) m))"
      unfolding js_ok_def by (simp only:)
  qed
  ultimately show ?thesis by (simp add: pg_claim_def Let_def)
qed

lemma pg_flip_sel [simp]:
  "col_status (pg_flip t r) = Building"
  "or_zero (rec_attempts (pg_flip t r)) = or_zero (rec_attempts r) + 1"
  by (simp_all add: pg_flip_def or_zero_def)

text \<open>Without interleaving, the row-by-row updates of the reaper come to one map over the table.\<close>

definition pg_reap_row :: "instant \<Rightarrow> reap_opts \<Rightarrow> pg_row \<Rightarrow> pg_row" where
  "pg_reap_row now opts r =
     (if col_status r = Building \<and> updated_at r < now - timeoutMs opts then
        (if or_zero (rec_attempts r) \<ge> maxAttempts opts
         then r\<lparr>col_status := DeadLetter, updated_at := now, rec_status := DeadLetter\<rparr>
         else r\<lparr>col_status := Submitted, updated_at := now, rec_status := Submitted\<rparr>)
      else r)"

lemma pg_reap_other: "i \<notin> fst ` set xs \<Longrightarrow> js_get (fold (pg_reap_update t opts) xs m) i = js_get m i"
  by (induction xs arbitrary: m) (auto simp: pg_reap_update_def)

lemma pg_reap_listed:
  "distinct (map fst xs) \<Longrightarrow> (i, a) \<in> set xs \<Longrightarrow>
     js_get (fold (pg_reap_update t opts) xs m) i = js_get (pg_reap_update t opts (i, a) m) i"
proof (induction xs arbitrary: m)
  case (Cons x xs)
  show ?case
  proof (cases "x = (i, a)")
    case True
    with Cons.prems have "i \<notin> fst ` set xs" by force
    with True show ?thesis by (simp add: pg_reap_other)
  next
    case False
    with Cons.prems have mem: "(i, a) \<in> set xs" by simp
    then have "i \<in> set (map fst xs)" by force
    with Cons.prems(1) have "fst x \<noteq> i" by auto
    with mem Cons show ?thesis by (cases x) (auto simp: pg_reap_update_def)
  qed
qed simp

lemma pg_reap_get:
  assumes "js_ok m"
  shows "js_get (fst (pg_reap t opts m)) i = map_option (pg_reap_row t opts) (js_get m i)"
proof -
  have d: "distinct (map fst (pg_stranded t opts m))"
    using assms by (auto simp: pg_stranded_def js_ok_def case_prod_unfold o_def distinct_map_filter)
  show ?thesis
  proof (cases "js_get m i")
    case None
    then have "i \<notin> fst ` set (pg_stranded t opts m)"
      by (auto simp: pg_stranded_def js_get_None_iff image_iff)
    with None show ?thesis by (simp add: pg_reap_def Let_def pg_reap_other)
  next
    case (Some r)
    show ?thesis
    proof (cases "col_status r = Building \<and> updated_at r < t - timeoutMs opts")
      case True
      with Some assms have "(i, or_zero (rec_attempts r)) \<in> set (pg_stranded t opts m)"
        by (auto simp: pg_stranded_def js_get_Some_iff image_iff split: prod.splits)
      from pg_reap_listed [OF d this] True Some show ?thesis
        by (simp add: pg_reap_def Let_def pg_reap_update_def pg_reap_row_def)
    next
      case False
      have "i \<notin> fst ` set (pg_stranded t opts m)"
      proof
        assume "i \<in> fst ` set (pg_stranded t opts m)"
        then obtain r' where "(i, r') \<in> set m" and r': "col_status r' = Building \<and> updated_at r' < t - timeoutMs opts"
          by (auto simp: pg_stranded_def)
        with assms have "js_get m i = Some r'" by (simp add: js_get_Some_iff)
        with Some r' False show False by simp
      qed
      with Some False show ?thesis by (auto simp: pg_reap_def Let_def pg_reap_other pg_reap_row_def)
    qed
  qed
qed

lemma pg_reap_ok: "js_ok m \<Longrightarrow> js_ok (fst (pg_reap t opts m))"
proof -
  have "js_ok m \<Longrightarrow> js_ok (fold (pg_reap_update t opts) xs m)" for xs
    by (induction xs arbitrary: m) (auto simp: pg_reap_update_def split: prod.splits)
  then show "js_ok m \<Longrightarrow> js_ok (fst (pg_reap t opts m))" by (simp add: pg_reap_def Let_def)
qed

interpretation pg: job_store pg_view js_ok pg_claim pg_complete pg_reap
proof (unfold_locales, goal_cases)
  case (1 s c n)
  have "map fst (fst (pg_claim c n s)) = map fst s" by (auto simp: pg_claim_def Let_def)
  with 1 show ?case by (simp add: js_ok_def)
next
  case (2 s t i out)
  then show ?case by (auto simp: pg_complete_def split: option.split)
next
  case (3 s t opts)
  then show ?case by (rule pg_reap_ok)
next
  case (4 s c n i)
  show ?case using claim_ids_submitted [OF 4, of i c n] by (auto simp: pg_view_def pg_claim_get)
next
  case (5 s c n)
  have "{i. pg_view (fst (pg_claim c n s)) i \<noteq> pg_view s i} \<subseteq> set (claim_ids c n s)"
    by (auto simp: pg_view_def pg_claim_get)
  then have "card {i. pg_view (fst (pg_claim c n s)) i \<noteq> pg_view s i} \<le> length (claim_ids c n s)"
    by (meson List.finite_set card_length card_mono order_trans)
  then show ?case using length_claim_ids [of c n s] by simp
next
  case (6 s j c n)
  from claim_ids_submitted [OF 6(1) pg_claimed_ids [OF 6(2)]] pg_claimed_ids [OF 6(2)]
  show ?case by (auto simp: pg_view_def pg_claim_get)
next
  case (7 s c n)
  then show ?case by (rule pg_claimed_distinct)
next
  case (8 s t i out i')
  show ?case
    by (cases "js_get s i") (auto simp: pg_view_def pg_complete_def pg_result_def)
next
  case (9 s i k t out)
  then show ?case by (auto simp: pg_view_def pg_complete_def pg_result_def)
next
  case (10 s t opts i)
  show ?case
    by (cases "js_get s i") (auto simp: pg_view_def pg_reap_get [OF 10] pg_reap_row_def)
qed

subsection \<open>Properties of both stores\<close>


text \<open>The in-memory store bounds the attempts of every record in the same way.\<close>

theorem mem_attempts_bounded:
  assumes "js_ok m" and "\<And>i st k. mem_view m i = Some (st, k) \<Longrightarrow> st = Submitted \<and> k = 0" and "1 \<le> mx"
    and "list_all (op_limit mx) ops"
    and "mem_view (fold (store_exec mem_claim mem_complete mem_reap) ops m) i = Some (st, k)"
  shows "0 \<le> k \<and> k \<le> mx \<and> (st = Submitted \<longrightarrow> k < mx) \<and> (st = Building \<longrightarrow> 1 \<le> k) \<and> (st = DeadLetter \<longrightarrow> k = mx)"
proof -
  have "mem.attempts_ok mx m" using assms(2,3) by (fastforce simp: mem.attempts_ok_def)
  from mem.run_attempts [OF assms(4,1) this] assms(5) show ?thesis
    by (auto simp: mem.attempts_ok_def)
qed

definition example_pg :: pg_store where
  "example_pg = [(''r1'', \<lparr>col_contract = ''C1'', col_status = Submitted, created_at = 1, updated_at = 1,
     rec_status = Submitted, rec_attempts = None, rec_job = example_job, rec_outputHash = None,
     rec_deployedHash = None, rec_matchMode = None, rec_log = None, rec_statusDetail = None\<rparr>)]"

definition example_env :: "instant \<Rightarrow> claim_env" where
  "example_env t = \<lparr>ce_now = t, locked = (\<lambda>_. False), validate = (\<lambda>r. Some (rec_job r))\<rparr>"

definition example_opts :: reap_opts where
  "example_opts = \<lparr>timeoutMs = 10, maxAttempts = 1, baseBackoffDelayMs = 1000, maxBackoffDelayMs = 30000\<rparr>"

lemmas example_pg_defs = example_pg_def example_env_def example_opts_def pg_view_def or_zero_def
  pg_claim_def claim_ids_def pg_flip_def pg_reap_def pg_stranded_def pg_reap_update_def js_modify_def


definition example_mem :: mem_store where
  "example_mem = mem_submit ''r1'' example_job 1 []"

theorem mem_attempts_bounded_witness:
  "\<exists>k. mem_view (fold (store_exec mem_claim mem_complete mem_reap) [Claim 5 3] example_mem) ''r1'' = Some (Building, k)
       \<and> k \<le> 2"
proof -
  have run: "mem_view (fold (store_exec mem_claim mem_complete mem_reap) [Claim 5 3] example_mem) ''r1'' = Some (Building, 1)"
    by (simp add: example_mem_def mem_submit_def mem_view_def mem_flip_def or_zero_def)
  have ok: "js_ok example_mem" by (simp add: example_mem_def mem_submit_def js_ok_def)
  have "st = Submitted \<and> k = 0" if "mem_view example_mem i = Some (st, k)" for i st k
    using that by (auto simp: example_mem_def mem_submit_def mem_view_def or_zero_def split: if_splits)
  from mem_attempts_bounded [where mx = 2, OF ok this _ _ run] run show ?thesis by simp
qed

text \<open>A result can be lost: when a worker completes its job after the reaper has read it as stranded
  and before the reaper's update reaches it, the update, which selects the row by id only, puts the
  finished record back into the queue (or the dead-letter state) over its verified status.\<close>

theorem reaper_overwrites_completed_job:
  assumes "js_get m i = Some r" and "col_status r = Building" and "out_status out = Verified"
  shows "\<exists>r1 r2. js_get (pg_complete t i out m) i = Some r1 \<and> col_status r1 = VerifiedStatus
     \<and> js_get (pg_reap_update now opts (i, or_zero (rec_attempts r)) (pg_complete t i out m)) i = Some r2
     \<and> col_status r2 = (if maxAttempts opts \<le> or_zero (rec_attempts r) then DeadLetter else Submitted)
     \<and> rec_status r2 = col_status r2 \<and> rec_outputHash r2 = outputHash out"
  using assms by (auto simp: pg_complete_def pg_result_def pg_reap_update_def)

theorem reaper_overwrites_completed_job_witness:
  "\<exists>r2. js_get (pg_reap_update 100 (example_opts\<lparr>maxAttempts := 3\<rparr>) (''r1'', 1)
          (pg_complete 99 ''r1'' (verified_outcome example_deps \<lparr>wasm = [1], wasmHash = ''ab'', build_log = []\<rparr>
              ''ab'' ExactMatch [] (VerifiedLog []))
            (fst (pg_claim (example_env 5) 1 example_pg)))) ''r1'' = Some r2 \<and> col_status r2 = Submitted"
proof -
  let ?out = "verified_outcome example_deps \<lparr>wasm = [1], wasmHash = ''ab'', build_log = []\<rparr> ''ab'' ExactMatch [] (VerifiedLog [])"
  obtain r where r: "js_get example_pg ''r1'' = Some r" "or_zero (rec_attempts r) = 0"
    by (simp add: example_pg_def or_zero_def)
  have "''r1'' \<in> set (claim_ids (example_env 5) 1 example_pg)"
    by (simp add: claim_ids_def example_pg_def example_env_def)
  then have "js_get (fst (pg_claim (example_env 5) 1 example_pg)) ''r1'' = Some (pg_flip 5 r)"
    using r by (simp add: pg_claim_get) (simp add: example_env_def)
  from reaper_overwrites_completed_job [OF this, of ?out 99 100 "example_opts\<lparr>maxAttempts := 3\<rparr>"] r
  show ?thesis by (auto simp: example_opts_def)
qed

text \<open>A claim writes the status column only: the record the public API serves still says \<open>submitted\<close>
  while its job is being built.\<close>

theorem claimed_record_status_is_stale:
  assumes "js_ok m" and "i \<in> set (claim_ids env n m)" and "js_get m i = Some r"
  shows "\<exists>r'. js_get (fst (pg_claim env n m)) i = Some r' \<and> col_status r' = Building \<and> rec_status r' = rec_status r"
  using assms by (auto simp: pg_claim_get) (simp add: pg_flip_def)

theorem claimed_record_status_is_stale_witness:
  "\<exists>r'. js_get (fst (pg_claim (example_env 5) 1 example_pg)) ''r1'' = Some r' \<and> col_status r' = Building
     \<and> rec_status r' = Submitted"
  using claimed_record_status_is_stale [of example_pg "''r1''" "example_env 5" 1]
  by (simp add: example_pg_def example_env_def claim_ids_def js_ok_def)

text \<open>The two stores disagree on late completions: the Postgres store ignores an outcome for a record
  that is not being built, the in-memory store lets it replace a terminal one.\<close>

theorem late_completion_differs:
  assumes "js_get p i = Some r" and "col_status r \<noteq> Building" and "js_get m i = Some q"
  shows "pg_complete t i out p = p
     \<and> map_option mr_status (js_get (mem_complete t i out m) i) = Some (status_of (out_status out))"
  using assms by (simp add: pg_complete_def mem_complete_def)

theorem late_completion_differs_witness:
  "pg_complete 7 ''r1'' (failed_outcome example_deps (ThrownString []) None None [] (VerifiedLog [])) example_pg = example_pg
   \<and> map_option mr_status (js_get (mem_complete 7 ''r1'' (failed_outcome example_deps (ThrownString []) None None [] (VerifiedLog [])) example_mem) ''r1'') = Some FailedStatus"
  using late_completion_differs [of example_pg "''r1''" _ example_mem _ 7 "(failed_outcome example_deps (ThrownString []) None None [] (VerifiedLog []))"]
  by (simp add: example_pg_def example_mem_def mem_submit_def)

end
