(* ===== verification/Publisher.thy ===== *)
theory Publisher
  imports Prelude
begin

text \<open>
  The publisher identity that attestor and policy builder share: \<open>packages/service-kit/src/publisher.ts\<close>.
  \<open>new URL\<close> is an argument giving host name and path of a URL, the SHA-256 digest another.
\<close>

definition is_alnum_lower :: "char \<Rightarrow> bool" where
  "is_alnum_lower c = (let n = of_char c :: nat in (97 \<le> n \<and> n \<le> 122) \<or> (48 \<le> n \<and> n \<le> 57))"

definition has_scheme :: "string \<Rightarrow> bool" where
  "has_scheme s =
     (case map lower_char s of
        [] \<Rightarrow> False
      | c # rest \<Rightarrow>
          (let n = of_char c :: nat in 97 \<le> n \<and> n \<le> 122)
          \<and> starts_with (dropWhile (\<lambda>d. is_alnum_lower d \<or> d \<in> set ''+.-'') rest) ''://'')"

definition strip_git :: "string \<Rightarrow> string" where
  "strip_git s = (if drop (length s - 4) s = ''.git'' then take (length s - 4) s else s)"

definition owner_ok :: "string \<Rightarrow> bool" where
  "owner_ok s =
     (case s of
        [] \<Rightarrow> False
      | c # rest \<Rightarrow> is_alnum_lower c \<and> list_all (\<lambda>d. is_alnum_lower d \<or> d \<in> set ''._-'') rest)"

definition canonicalPublisher :: "(string \<Rightarrow> (string \<times> string) option) \<Rightarrow> string \<Rightarrow> string option" where
  "canonicalPublisher new_url input =
     (let trimmed = js_trim input in
      if trimmed = [] then None
      else
        (case new_url (if has_scheme trimmed then trimmed else ''https://'' @ trimmed) of
           None \<Rightarrow> None
         | Some (hostname, pathname) \<Rightarrow>
             (let host = to_lower hostname in
              case filter (\<lambda>s. s \<noteq> []) (map js_trim (split_on CHR ''/'' pathname)) of
                [] \<Rightarrow> None
              | owner # _ \<Rightarrow>
                  (if host = [] then None
                   else
                     (let cleaned = strip_git (to_lower owner) in
                      if \<not> owner_ok cleaned then None else Some (host @ ''/'' @ cleaned))))))"

definition publisherIdFor ::
  "(string \<Rightarrow> string) \<Rightarrow> (string \<Rightarrow> (string \<times> string) option) \<Rightarrow> string \<Rightarrow> string option" where
  "publisherIdFor sha256_hex new_url input = map_option sha256_hex (canonicalPublisher new_url input)"

lemma js_trim_idem [simp]: "js_trim (js_trim s) = js_trim s"
proof -
  let ?d = "dropWhile is_space"
  have left: "?d (rev (?d (rev t))) = rev (?d (rev t))" if "?d t = t" for t :: string
  proof (cases t)
    case (Cons c rest)
    with that have c: "\<not> is_space c" by (metis dropWhile_eq_Cons_conv list.inject)
    then have "?d (rev t) = ?d (rev rest) @ [c]" using Cons by (simp add: dropWhile_append)
    with c show ?thesis by simp
  qed simp
  have "?d (js_trim s) = js_trim s" unfolding js_trim_def by (rule left) simp
  moreover have "?d (rev (js_trim s)) = rev (js_trim s)" by (simp add: js_trim_def)
  ultimately show ?thesis by (simp add: js_trim_def [of "js_trim s"])
qed

lemma publisherIdFor_trim [simp]: "publisherIdFor h u (js_trim s) = publisherIdFor h u s"
  by (simp add: publisherIdFor_def canonicalPublisher_def)

end
