(* ===== verification/Attestor.thy ===== *)
theory Attestor
  imports JobStore Publisher
begin

text \<open>
  Mirroring verification outcomes on the chain: \<open>services/worker-service/src/attestor.ts\<close>, and the
  network guard of \<open>attestor-guard.ts\<close>.  The attestation registry contract is the map of its entries with the
  current ledger; an upsert replaces the contract's entry and a revoke removes it (the documented
  behaviour of the contract).  Every call may also fail, as the predicate \<open>down\<close> says.
\<close>

subsection \<open>The registry\<close>

record attestation =
  att_hash :: "string option"
  att_publisher :: "string option"
  att_expires :: int

datatype registry_call =
    CurrentLedger
  | IsAttested string
  | Upsert string "string option" "string option" int
  | Revoke string

record registry =
  entries :: "(string, attestation) js_map"
  ledger :: int

type_synonym outage = "registry_call \<Rightarrow> bool"

definition reg_upsert :: "string \<Rightarrow> string option \<Rightarrow> string option \<Rightarrow> int \<Rightarrow> registry \<Rightarrow> registry" where
  "reg_upsert c h p e reg =
     reg\<lparr>entries := js_set c \<lparr>att_hash = h, att_publisher = p, att_expires = e\<rparr> (entries reg)\<rparr>"

definition reg_revoke :: "string \<Rightarrow> registry \<Rightarrow> registry" where
  "reg_revoke c reg = reg\<lparr>entries := js_delete c (entries reg)\<rparr>"

definition reg_isAttested :: "string \<Rightarrow> registry \<Rightarrow> bool" where
  "reg_isAttested c reg = js_has (entries reg) c"

subsection \<open>Reporting an outcome\<close>

datatype attest_event = Upserted | Revoked | AttestError

definition DEFAULT_TTL_LEDGERS :: int where "DEFAULT_TTL_LEDGERS = (60 * 60 * 24 * 7) div 5"

text \<open>
  \<open>reportOutcome\<close>: the publisher id (or \<open>None\<close>) is computed from the record's repository URL by the
  caller of this definition; the second upsert passes \<open>outcome.outputHash\<close> as the code does.  The
  result is the registry afterwards with the metric events; no error leaves the function.
\<close>

definition reportOutcome ::
  "outage \<Rightarrow> int \<Rightarrow> string option \<Rightarrow> string \<Rightarrow> verification_outcome \<Rightarrow> registry \<Rightarrow> registry \<times> attest_event list"
where
  "reportOutcome down ttl publisher c out reg =
     (if out_status out = Verified then
        (case attestedHash (matchMode out) (outputHash out) (deployedHash out) of
           None \<Rightarrow> (reg, [])
         | Some hash \<Rightarrow>
             (if hash = [] then (reg, [])
              else if down CurrentLedger then (reg, [AttestError])
              else
                (let expires = ledger reg + ttl in
                 if down (Upsert c (Some hash) None expires) then (reg, [AttestError])
                 else
                   (let reg1 = reg_upsert c (Some hash) None expires reg in
                    if down (Upsert c (outputHash out) publisher expires) then (reg1, [AttestError])
                    else (reg_upsert c (outputHash out) publisher expires reg1, [Upserted])))))
      else if down (IsAttested c) then (reg, [AttestError])
      else if \<not> reg_isAttested c reg then (reg, [])
      else if down (Revoke c) then (reg, [AttestError])
      else (reg_revoke c reg, [Revoked]))"

subsection \<open>The upgrade sweep\<close>

text \<open>One contract of the watch list; \<open>resolve\<close> is what the resolver answers now.\<close>

definition sweep_one ::
  "outage \<Rightarrow> (string \<Rightarrow> resolve_error rejected + string) \<Rightarrow> string \<times> string \<Rightarrow> registry \<Rightarrow> registry \<times> attest_event list"
where
  "sweep_one down resolve = (\<lambda>(c, attested) reg.
     (if down (IsAttested c) then (reg, [AttestError])
      else if \<not> reg_isAttested c reg then (reg, [])
      else
        (let live = (case resolve c of
             Inr h \<Rightarrow> Some (Some h)
           | Inl (Known err) \<Rightarrow> (if re_code err \<noteq> RpcError then Some None else None)
           | Inl (Unexpected _) \<Rightarrow> None)
         in case live of
              None \<Rightarrow> (reg, [])
            | Some liveHash \<Rightarrow>
                (if liveHash \<noteq> Some attested
                 then (if down (Revoke c) then (reg, [AttestError]) else (reg_revoke c reg, [Revoked]))
                 else (reg, [])))))"

fun sweep_list ::
  "outage \<Rightarrow> (string \<Rightarrow> resolve_error rejected + string) \<Rightarrow> (string \<times> string) list \<Rightarrow> registry
     \<Rightarrow> registry \<times> attest_event list" where
  "sweep_list down resolve [] reg = (reg, [])"
| "sweep_list down resolve (w # ws) reg =
     (let (reg1, ev) = sweep_one down resolve w reg;
          (reg2, evs) = sweep_list down resolve ws reg1
      in (reg2, ev @ evs))"

text \<open>\<open>None\<close> for the watch list when \<open>listLatestVerified\<close> rejects.\<close>

definition runUpgradeSweep ::
  "outage \<Rightarrow> (string \<Rightarrow> resolve_error rejected + string) \<Rightarrow> (string \<times> string) list option \<Rightarrow> registry
     \<Rightarrow> registry \<times> attest_event list" where
  "runUpgradeSweep down resolve watch reg =
     (case watch of None \<Rightarrow> (reg, [AttestError]) | Some ws \<Rightarrow> sweep_list down resolve ws reg)"

subsection \<open>The network guard\<close>

datatype attestor_guard_error = HardGated | SingleKeyRefused

definition assertAttestorSafeForNetwork ::
  "network \<Rightarrow> bool \<Rightarrow> string option \<Rightarrow> attestor_guard_error + unit" where
  "assertAttestorSafeForNetwork net allowSingleKey nodeEnv =
     (if net = Mainnet then
        (if nodeEnv = Some ''production'' then Inl HardGated
         else if \<not> allowSingleKey then Inl SingleKeyRefused
         else Inr ())
      else Inr ())"

subsection \<open>What reaches the chain\<close>

lemma reg_sel [simp]:
  "ledger (reg_upsert c h p e reg) = ledger reg" "ledger (reg_revoke c reg) = ledger reg"
  "js_get (entries (reg_upsert c h p e reg)) c' =
     (if c' = c then Some \<lparr>att_hash = h, att_publisher = p, att_expires = e\<rparr> else js_get (entries reg) c')"
  "js_get (entries (reg_revoke c reg)) c' = (if c' = c then None else js_get (entries reg) c')"
  by (simp_all add: reg_upsert_def reg_revoke_def)

text \<open>Reporting an outcome touches no other contract's attestation; a failed verification never
  leaves an attestation behind unless the registry was unreachable, and an attestation that is
  written expires exactly \<open>ttl\<close> ledgers from now.\<close>

theorem reportOutcome_effects:
  "(\<forall>c'. c' \<noteq> c \<longrightarrow>
      js_get (entries (fst (reportOutcome down ttl pub c out reg))) c' = js_get (entries reg) c')
   \<and> (out_status out = Failed \<longrightarrow> js_get (entries (fst (reportOutcome down ttl pub c out reg))) c = None
        \<or> AttestError \<in> set (snd (reportOutcome down ttl pub c out reg)))
   \<and> (case js_get (entries (fst (reportOutcome down ttl pub c out reg))) c of
        None \<Rightarrow> True
      | Some a \<Rightarrow> js_get (entries reg) c = Some a
          \<or> (out_status out = Verified \<and> att_expires a = ledger reg + ttl))"
  by (cases "out_status out")
     (auto simp: reportOutcome_def reg_isAttested_def js_has_def Let_def split: option.splits)

definition example_att :: attestation where
  "example_att = \<lparr>att_hash = Some ''aa'', att_publisher = None, att_expires = 7\<rparr>"

theorem reportOutcome_effects_witness:
  "js_get (entries (fst (reportOutcome (\<lambda>_. False) 10 None ''C1''
        (failed_outcome example_deps (ThrownString []) None None [] (SignatureRejected []))
        \<lparr>entries = [(''C1'', example_att), (''C2'', example_att)], ledger = 5\<rparr>))) ''C2'' = Some example_att"
  using reportOutcome_effects [of "''C1''" "\<lambda>_. False" 10 None
      "failed_outcome example_deps (ThrownString []) None None [] (SignatureRejected [])"
      "\<lparr>entries = [(''C1'', example_att), (''C2'', example_att)], ledger = 5\<rparr>"] by simp

text \<open>For a contract verified up to toolchain metadata the attestation ends up with the rebuilt hash,
  which is not on the chain: the attested (deployed) hash is written first and then overwritten by
  the second upsert.\<close>

theorem toolchain_attestation_names_rebuilt_hash:
  assumes "out_status out = Verified" and "matchMode out = Some ToolchainMatch"
    and "deployedHash out = Some h" and "h \<noteq> []" and "outputHash out = Some h'" and "\<forall>call. \<not> down call"
  shows "js_get (entries (fst (reportOutcome down ttl pub c out reg))) c
           = Some \<lparr>att_hash = Some h', att_publisher = pub, att_expires = ledger reg + ttl\<rparr>
       \<and> attestedHash (matchMode out) (outputHash out) (deployedHash out) = Some h"
  using assms by (simp add: reportOutcome_def attestedHash_def Let_def)

theorem toolchain_attestation_names_rebuilt_hash_witness:
  "js_get (entries (fst (reportOutcome (\<lambda>_. False) 10 None ''C1''
      (verified_outcome example_deps \<lparr>wasm = [1], wasmHash = ''aa'', build_log = []\<rparr> ''bb'' ToolchainMatch []
         (VerifiedLog [])) \<lparr>entries = [], ledger = 5\<rparr>))) ''C1''
    = Some \<lparr>att_hash = Some ''aa'', att_publisher = None, att_expires = 15\<rparr>"
  using toolchain_attestation_names_rebuilt_hash
    [of "verified_outcome example_deps \<lparr>wasm = [1], wasmHash = ''aa'', build_log = []\<rparr> ''bb'' ToolchainMatch []
         (VerifiedLog [])" "''bb''" "''aa''" "\<lambda>_. False" 10 None "''C1''" "\<lparr>entries = [], ledger = 5\<rparr>"] by simp

subsection \<open>What a sweep may do\<close>

text \<open>The live hash as the sweep sees it: unknown on RPC trouble, absent on every other resolver error.\<close>

definition sweep_stale :: "(string \<Rightarrow> resolve_error rejected + string) \<Rightarrow> string \<times> string \<Rightarrow> bool" where
  "sweep_stale resolve = (\<lambda>(c, attested).
     (case resolve c of
        Inr h \<Rightarrow> h \<noteq> attested
      | Inl (Known err) \<Rightarrow> re_code err \<noteq> RpcError
      | Inl (Unexpected _) \<Rightarrow> False))"

lemma sweep_one_get:
  "js_get (entries (fst (sweep_one down resolve w reg))) c = js_get (entries reg) c
   \<or> (c = fst w \<and> sweep_stale resolve w \<and> js_get (entries (fst (sweep_one down resolve w reg))) c = None)"
  by (cases w) (auto simp: sweep_one_def sweep_stale_def Let_def split: sum.splits rejected.splits option.splits)

lemma sweep_list_get:
  "js_get (entries (fst (sweep_list down resolve ws reg))) c = js_get (entries reg) c
   \<or> ((\<exists>w\<in>set ws. fst w = c \<and> sweep_stale resolve w)
       \<and> js_get (entries (fst (sweep_list down resolve ws reg))) c = None)"
proof (induction ws arbitrary: reg)
  case Nil
  then show ?case by simp
next
  case (Cons w ws)
  let ?r = "fst (sweep_one down resolve w reg)"
  have "fst (sweep_list down resolve (w # ws) reg) = fst (sweep_list down resolve ws ?r)"
    by (simp add: Let_def split: prod.split)
  with Cons.IH [of ?r] sweep_one_get [of down resolve w reg c] show ?case by auto
qed

text \<open>The upgrade sweep only revokes: every attestation is afterwards what it was before or gone, and it
  goes only for a watched contract whose live hash differs from the attested one, or whose
  resolution failed with an error other than an RPC error.\<close>

theorem sweep_only_revokes:
  "js_get (entries (fst (runUpgradeSweep down resolve watch reg))) c = js_get (entries reg) c
   \<or> (js_get (entries (fst (runUpgradeSweep down resolve watch reg))) c = None
       \<and> (case watch of None \<Rightarrow> False | Some ws \<Rightarrow> list_ex (\<lambda>w. fst w = c \<and> sweep_stale resolve w) ws))"
  using sweep_list_get [of down resolve _ reg c]
  by (auto simp: runUpgradeSweep_def list_ex_iff split: option.split)

text \<open>A resolver timeout, which the pipeline treats as transient, makes the sweep revoke a valid
  attestation.\<close>

theorem sweep_revokes_on_timeout:
  assumes "resolve c = Inl (Known err)" and "re_code err = ResolverTimeout"
    and "js_has (entries reg) c" and "\<forall>call. \<not> down call"
  shows "runUpgradeSweep down resolve (Some [(c, h)]) reg = (reg_revoke c reg, [Revoked])"
  using assms by (simp add: runUpgradeSweep_def sweep_one_def reg_isAttested_def)

theorem sweep_revokes_on_timeout_witness:
  "runUpgradeSweep (\<lambda>_. False) (\<lambda>_. Inl (Known \<lparr>re_message = ''slow'', re_code = ResolverTimeout\<rparr>))
     (Some [(''C1'', ''aa'')]) \<lparr>entries = [(''C1'', example_att)], ledger = 5\<rparr> = (\<lparr>entries = [], ledger = 5\<rparr>, [Revoked])"
  using sweep_revokes_on_timeout
    [of "\<lambda>_. Inl (Known \<lparr>re_message = ''slow'', re_code = ResolverTimeout\<rparr>)" "''C1''" _
        "\<lparr>entries = [(''C1'', example_att)], ledger = 5\<rparr>" "\<lambda>_. False" "''aa''"]
  by (simp add: js_has_def reg_revoke_def js_delete_def)

lemma attestor_guard:
  "is_ok (assertAttestorSafeForNetwork net allow env) \<longleftrightarrow>
     net = Testnet \<or> (allow \<and> env \<noteq> Some ''production'')"
  by (cases net) (simp_all add: assertAttestorSafeForNetwork_def)

end
