(* ===== verification/WorkerLoop.thy ===== *)
theory WorkerLoop
  imports Attestor
begin

text \<open>
  One tick of the build worker (\<open>services/worker-service/src/loop.ts\<close>) over any job store, and the
  cleanup of old records (\<open>cleanup.ts\<close>).  Jobs of a tick are processed one after another, in
  claim order, as with the default concurrency limit of 1; the timers of \<open>startWorkerLoop\<close> and
  the metrics other than results and failures are not modelled.
\<close>

subsection \<open>A tick\<close>

text \<open>The object literal handed to \<open>runVerification\<close>: executor, resolver and the retry attempt, which
  a claimed job never carries.\<close>

definition tick_deps :: "verify_deps \<Rightarrow> verify_deps" where
  "tick_deps deps = deps\<lparr>dep_retryAttempt := None, dep_baseDelayMs := None, dep_maxDelayMs := None,
                         jobSecret := None\<rparr>"

datatype tick_event = ResultMetric outcome_status | WorkerFailure

record worker_config =
  batchSize :: "nat option"
  concurrencyLimit :: "nat option"

definition claim_limit :: "worker_config \<Rightarrow> nat" where
  "claim_limit cfg =
     (let concurrency = max 1 (case concurrencyLimit cfg of None \<Rightarrow> 1 | Some n \<Rightarrow> n) in
      case batchSize cfg of None \<Rightarrow> concurrency | Some b \<Rightarrow> b)"

text \<open>\<open>report\<close> is the attestor's \<open>reportOutcome\<close> (the identity when none is configured), \<open>clock\<close> the
  time at which a record is completed.\<close>

definition process_job ::
  "(instant \<Rightarrow> string \<Rightarrow> verification_outcome \<Rightarrow> 's \<Rightarrow> 's)
     \<Rightarrow> (string \<Rightarrow> verification_outcome \<Rightarrow> string option \<Rightarrow> 'r \<Rightarrow> 'r)
     \<Rightarrow> verify_deps \<Rightarrow> instant \<Rightarrow> (string \<Rightarrow> instant) \<Rightarrow> claimed_job \<Rightarrow> 's \<times> 'r \<times> tick_event list
     \<Rightarrow> 's \<times> 'r \<times> tick_event list" where
  "process_job finish report deps now clock job = (\<lambda>(s, reg, evs).
     (case runVerification (tick_deps deps) now (claimed job) of
        Inl _ \<Rightarrow> (s, reg, evs @ [WorkerFailure])
      | Inr out \<Rightarrow>
          (finish (clock (recordId job)) (recordId job) out s,
           report (contractId (claimed job)) out (repoUrl (claimed job)) reg,
           evs @ [ResultMetric (out_status out)])))"

definition runWorkerTick ::
  "('c \<Rightarrow> nat \<Rightarrow> 's \<Rightarrow> 's \<times> claimed_job list)
     \<Rightarrow> (instant \<Rightarrow> string \<Rightarrow> verification_outcome \<Rightarrow> 's \<Rightarrow> 's)
     \<Rightarrow> (string \<Rightarrow> verification_outcome \<Rightarrow> string option \<Rightarrow> 'r \<Rightarrow> 'r)
     \<Rightarrow> verify_deps \<Rightarrow> instant \<Rightarrow> (string \<Rightarrow> instant) \<Rightarrow> worker_config \<Rightarrow> 'c \<Rightarrow> 's \<times> 'r
     \<Rightarrow> ('s \<times> 'r \<times> tick_event list) \<times> nat" where
  "runWorkerTick claim finish report deps now clock cfg c = (\<lambda>(s, reg).
     (let (s1, jobs) = claim c (claim_limit cfg) s in
      (fold (process_job finish report deps now clock) jobs (s1, reg, []), length jobs)))"

text \<open>What a job's run means for its record.\<close>

definition job_fate :: "verify_deps \<Rightarrow> instant \<Rightarrow> verification_job \<Rightarrow> job_status" where
  "job_fate deps now job =
     (case runVerification (tick_deps deps) now job of Inl _ \<Rightarrow> Building | Inr out \<Rightarrow> status_of (out_status out))"

context job_store
begin

lemma process_other:
  assumes "inv s" and "i \<noteq> recordId job"
  shows "view (fst (process_job finish report deps now clock job (s, reg, evs))) i = view s i"
  using finish_view [OF assms(1), of _ "recordId job" _ i] assms(2)
  by (auto simp: process_job_def split: sum.split)

lemma process_inv: "inv s \<Longrightarrow> inv (fst (process_job finish report deps now clock job (s, reg, evs)))"
  by (auto simp: process_job_def intro: finish_inv split: sum.split)

lemma process_self:
  assumes "inv s" and "view s (recordId job) = Some (Building, k)"
  shows "view (fst (process_job finish report deps now clock job (s, reg, evs))) (recordId job)
           = Some (job_fate deps now (claimed job), k)"
  using finish_building [OF assms] assms(2) by (auto simp: process_job_def job_fate_def split: sum.split)

lemma fold_process:
  assumes "inv s" and "distinct (map recordId jobs)"
    and "\<And>j. j \<in> set jobs \<Longrightarrow> \<exists>k. view s (recordId j) = Some (Building, k)"
  shows "inv (fst (fold (process_job finish report deps now clock) jobs (s, reg, evs)))
     \<and> (\<forall>i. i \<notin> set (map recordId jobs) \<longrightarrow>
          view (fst (fold (process_job finish report deps now clock) jobs (s, reg, evs))) i = view s i)
     \<and> (\<forall>j\<in>set jobs. \<exists>k. view (fst (fold (process_job finish report deps now clock) jobs (s, reg, evs))) (recordId j)
          = Some (job_fate deps now (claimed j), k))"
  using assms
proof (induction jobs arbitrary: s reg evs)
  case Nil
  then show ?case by simp
next
  case (Cons j js)
  obtain s' reg' evs' where p: "process_job finish report deps now clock j (s, reg, evs) = (s', reg', evs')"
    by (metis prod_cases3)
  then have s': "s' = fst (process_job finish report deps now clock j (s, reg, evs))" by simp
  have inv': "inv s'" unfolding s' by (rule process_inv) (rule Cons.prems)
  have other: "view s' i = view s i" if "i \<noteq> recordId j" for i
    unfolding s' by (rule process_other [OF Cons.prems(1) that])
  have nj: "recordId j' \<noteq> recordId j" if "j' \<in> set js" for j'
  proof -
    from that have "recordId j' \<in> recordId ` set js" by (rule imageI)
    with Cons.prems(2) show ?thesis by auto
  qed
  have build: "\<exists>k. view s' (recordId j') = Some (Building, k)" if "j' \<in> set js" for j'
    using that nj other Cons.prems(3) by simp
  have self: "\<exists>k. view s' (recordId j) = Some (job_fate deps now (claimed j), k)"
    unfolding s' using Cons.prems(3) [of j] process_self [OF Cons.prems(1)] by fastforce
  have "distinct (map recordId js)" "recordId j \<notin> set (map recordId js)" using Cons.prems(2) by auto
  with Cons.IH [OF inv' _ build, of reg' evs'] self other show ?case
    by (simp add: p)
qed

lemma tick_fates:
  assumes "inv s"
  shows "\<forall>j\<in>set (snd (claim c (claim_limit cfg) s)). \<exists>k.
     view (fst (fst (runWorkerTick claim finish report deps now clock cfg c (s, reg)))) (recordId j)
       = Some (job_fate deps now (claimed j), k)"
proof -
  let ?c = "claim c (claim_limit cfg) s"
  have "\<exists>k. view (fst ?c) (recordId j) = Some (Building, k)" if "j \<in> set (snd ?c)" for j
    using claimed_building [OF assms that] claim_view [OF assms, of c "claim_limit cfg" "recordId j"] by auto
  from fold_process [OF claim_inv [OF assms, of c "claim_limit cfg"]
      claimed_distinct [OF assms, of c "claim_limit cfg"] this,
      where report = report and deps = deps and now = now and clock = clock and reg = reg and evs = "[]"] show ?thesis
    by (simp add: runWorkerTick_def case_prod_beta)
qed

lemma tick_inv:
  assumes "inv s" shows "inv (fst (fst (runWorkerTick claim finish report deps now clock cfg c (s, reg))))"
proof -
  have "inv (fst (fold (process_job finish report deps now clock) jobs (s', r', evs)))" if "inv s'" for s' r' evs jobs
    using that
  proof (induction jobs arbitrary: s' r' evs)
    case (Cons j js)
    obtain s2 r2 e2 where p: "process_job finish report deps now clock j (s', r', evs) = (s2, r2, e2)"
      by (metis prod_cases3)
    with process_inv [OF Cons.prems, of report deps now clock j r' evs] have "inv s2" by simp
    from Cons.IH [OF this] p show ?case by simp
  qed simp
  with claim_inv [OF assms] show ?thesis by (simp add: runWorkerTick_def case_prod_beta)
qed

end

text \<open>After a tick on the Postgres store every job it claimed has its record in the state its run
  decided: verified or failed with the outcome, or still building when the run threw, so a failing
  job neither blocks nor changes the others of its batch.\<close>

theorem worker_tick_fates:
  assumes "js_ok m" and "j \<in> set (snd (pg_claim env (claim_limit cfg) m))"
  shows "\<exists>k. pg_view (fst (fst (runWorkerTick pg_claim pg_complete report deps now clock cfg env (m, reg)))) (recordId j)
     = Some (job_fate deps now (claimed j), k)"
  using pg.tick_fates [OF assms(1), where c = env and cfg = cfg and report = report and deps = deps
      and now = now and clock = clock and reg = reg] assms(2) by blast

definition example_cfg :: worker_config where
  "example_cfg = \<lparr>batchSize = None, concurrencyLimit = None\<rparr>"

lemma example_claimed:
  "snd (pg_claim (example_env 5) (claim_limit example_cfg) example_pg)
     = [\<lparr>recordId = ''r1'', claimed = example_job\<lparr>timestamp := None, signature := None\<rparr>, cj_submittedAt = Some 1\<rparr>]"
  by (simp add: claim_limit_def example_cfg_def example_pg_defs toClaimedJob_def Let_def)

theorem worker_tick_fates_witness:
  "\<exists>k. pg_view (fst (fst (runWorkerTick pg_claim pg_complete (\<lambda>_ _ _ r. r) example_deps 9 (\<lambda>_. 10) example_cfg
        (example_env 5) (example_pg, ())))) ''r1''
     = Some (job_fate example_deps 9 (example_job\<lparr>timestamp := None, signature := None\<rparr>), k)"
proof -
  have "js_ok example_pg" by (simp add: example_pg_def js_ok_def)
  from worker_tick_fates [OF this, of _ "example_env 5" example_cfg "\<lambda>_ _ _ r. r" example_deps 9 "\<lambda>_. 10" "()",
      unfolded example_claimed]
  show ?thesis by (metis claimed_job.select_convs(1,2) list.set_intros(1))
qed

text \<open>A tick never checks a signature, whatever secret is configured: no secret is handed to the
  pipeline, and the jobs a claim returns have lost their signature.\<close>

theorem tick_ignores_signatures:
  "signature_check (tick_deps deps) job now = SigValid
   \<and> list_all (\<lambda>j. signature (claimed j) = None) (snd (pg_claim env n m))"
  by (auto simp: signature_check_def tick_deps_def pg_claim_def toClaimedJob_def Let_def list_all_iff
      split: option.splits)

text \<open>A transient failure is final: the tick completes the record of a retryable outcome as failed, and
  no later claim takes it up again.\<close>

theorem retryable_failure_is_final:
  assumes "js_ok m" and "j \<in> set (snd (pg_claim env (claim_limit cfg) m))"
    and "runVerification (tick_deps deps) now (claimed j) = Inr out" and "isRetryable out"
  shows "\<exists>k. let m' = fst (fst (runWorkerTick pg_claim pg_complete report deps now clock cfg env (m, reg))) in
      pg_view m' (recordId j) = Some (FailedStatus, k)
      \<and> pg_view (fst (pg_claim env' n m')) (recordId j) = Some (FailedStatus, k)"
proof -
  let ?m = "fst (fst (runWorkerTick pg_claim pg_complete report deps now clock cfg env (m, reg)))"
  have "out_status out = Failed"
    using assms(4) run_shape [OF assms(3), unfolded run_shape_pred_def]
    by (auto simp: rejected_outcome_def mismatch_outcome_def verified_outcome_def)
  with assms(3) have fate: "job_fate deps now (claimed j) = FailedStatus" by (simp add: job_fate_def)
  from pg.tick_fates [OF assms(1), where c = env and cfg = cfg and report = report and deps = deps
      and now = now and clock = clock and reg = reg] assms(2) obtain k
    where v: "pg_view ?m (recordId j) = Some (FailedStatus, k)" unfolding fate [symmetric] by blast
  have "js_ok ?m" by (rule pg.tick_inv [OF assms(1)])
  from pg.claim_keeps_other [OF this v] v show ?thesis by (auto simp: Let_def)
qed

text \<open>An executor that cannot clone: a transient build error.\<close>

definition flaky_deps :: verify_deps where
  "flaky_deps = example_deps\<lparr>build := (\<lambda>_. Inl (Known \<lparr>be_message = ''git clone failed'', be_code = CloneFailed, be_log = []\<rparr>)),
     jobSecret := None\<rparr>"

theorem retryable_failure_is_final_witness:
  "\<exists>k. pg_view (fst (fst (runWorkerTick pg_claim pg_complete (\<lambda>_ _ _ r. r) flaky_deps 9 (\<lambda>_. 10) example_cfg
        (example_env 5) (example_pg, ())))) ''r1'' = Some (FailedStatus, k)"
proof -
  let ?j = "\<lparr>recordId = ''r1'', claimed = example_job\<lparr>timestamp := None, signature := None\<rparr>, cj_submittedAt = Some 1\<rparr>"
  obtain out where out: "runVerification (tick_deps flaky_deps) 9 (claimed ?j) = Inr out" "isRetryable out"
    by (simp add: runVerification_def signature_check_def build_and_compare_def flaky_deps_def tick_deps_def
        example_deps_def failed_outcome_def isTransientFailure_def by_class_def executor_code_answer_def build_js_def Let_def)
  have ok: "js_ok example_pg" by (simp add: example_pg_def js_ok_def)
  have mem: "?j \<in> set (snd (pg_claim (example_env 5) (claim_limit example_cfg) example_pg))"
    by (simp add: example_claimed)
  from retryable_failure_is_final [OF ok mem out, of "\<lambda>_ _ _ r. r" "\<lambda>_. 10" "()"]
  show ?thesis by (auto simp: Let_def)
qed

subsection \<open>Cleanup of terminal records\<close>

record cleanup_config =
  retentionDays :: int
  cleanup_batch :: nat
  archiveEnabled :: bool

definition terminal :: "job_status \<Rightarrow> bool" where
  "terminal s \<longleftrightarrow> s \<in> {VerifiedStatus, FailedStatus, DeadLetter}"

text \<open>The three statements of a pass: the select, the archiving insert (existing archive rows win) and the
  delete by id.  The live table may have changed in between, so each takes the table it finds.\<close>

definition cleanup_eligible :: "cleanup_config \<Rightarrow> instant \<Rightarrow> pg_store \<Rightarrow> string list" where
  "cleanup_eligible cfg now live =
     take (cleanup_batch cfg)
       (map fst (filter (\<lambda>(i, r). terminal (col_status r)
                    \<and> updated_at r \<le> now - retentionDays cfg * 24 * 60 * 60 * 1000) live))"

definition cleanup_archive :: "string list \<Rightarrow> pg_store \<Rightarrow> pg_store \<Rightarrow> pg_store" where
  "cleanup_archive ids live arch =
     fold (\<lambda>(i, r) a. if i \<in> set ids \<and> \<not> js_has a i then js_set i r a else a) live arch"

definition cleanup_delete :: "string list \<Rightarrow> pg_store \<Rightarrow> pg_store" where
  "cleanup_delete ids live = filter (\<lambda>(i, r). i \<notin> set ids) live"

definition runCleanup :: "cleanup_config \<Rightarrow> instant \<Rightarrow> pg_store \<times> pg_store \<Rightarrow> (pg_store \<times> pg_store) \<times> nat" where
  "runCleanup cfg now = (\<lambda>(live, arch).
     (let ids = cleanup_eligible cfg now live in
      if ids = [] then ((live, arch), 0)
      else
        ((cleanup_delete ids live,
          if archiveEnabled cfg then cleanup_archive ids live arch else arch), length ids)))"

fun runCleanupUntilEmpty :: "nat \<Rightarrow> cleanup_config \<Rightarrow> instant \<Rightarrow> pg_store \<times> pg_store \<Rightarrow> (pg_store \<times> pg_store) \<times> nat" where
  "runCleanupUntilEmpty 0 cfg now tabs = (tabs, 0)"
| "runCleanupUntilEmpty (Suc passes) cfg now tabs =
     (let (tabs1, deleted) = runCleanup cfg now tabs in
      if deleted = 0 then (tabs1, 0)
      else (let (tabs2, more) = runCleanupUntilEmpty passes cfg now tabs1 in (tabs2, deleted + more)))"

definition cleanup_due :: "cleanup_config \<Rightarrow> instant \<Rightarrow> pg_row \<Rightarrow> bool" where
  "cleanup_due cfg now r \<longleftrightarrow> terminal (col_status r) \<and> updated_at r \<le> now - retentionDays cfg * 24 * 60 * 60 * 1000"

lemma cleanup_eligible_alt:
  "cleanup_eligible cfg now live = take (cleanup_batch cfg) (map fst (filter (\<lambda>p. cleanup_due cfg now (snd p)) live))"
  by (simp add: cleanup_eligible_def cleanup_due_def case_prod_unfold)

lemma cleanup_delete_get [simp]:
  "js_get (cleanup_delete ids live) i = (if i \<in> set ids then None else js_get live i)"
proof (induction live)
  case Nil
  then show ?case by (simp add: cleanup_delete_def)
next
  case (Cons p live)
  then show ?case by (cases p; cases "fst p = i") (auto simp: cleanup_delete_def)
qed

lemma cleanup_archive_get:
  "js_ok live \<Longrightarrow> js_get (cleanup_archive ids live arch) i =
     (if js_has arch i \<or> i \<notin> set ids then js_get arch i else js_get live i)"
proof (induction live arbitrary: arch)
  case Nil
  then show ?case by (auto simp: cleanup_archive_def js_has_def)
next
  case (Cons p live)
  obtain k r where p: "p = (k, r)" by (cases p)
  have ok: "js_ok live" and k: "js_get live k = None"
    using Cons.prems p by (auto simp: js_ok_def js_get_None_iff)
  show ?case
  proof (cases "k \<in> set ids \<and> \<not> js_has arch k")
    case True
    then have "cleanup_archive ids (p # live) arch = cleanup_archive ids live (js_set k r arch)"
      by (simp add: cleanup_archive_def p)
    with Cons.IH [OF ok, of "js_set k r arch"] True k show ?thesis by (auto simp: p js_has_def)
  next
    case False
    then have "cleanup_archive ids (p # live) arch = cleanup_archive ids live arch"
      by (auto simp: cleanup_archive_def p)
    with Cons.IH [OF ok, of arch] False k show ?thesis by (auto simp: p js_has_def)
  qed
qed

lemma cleanup_eligible_due:
  "js_ok live \<Longrightarrow> i \<in> set (cleanup_eligible cfg now live) \<Longrightarrow>
     \<exists>r. js_get live i = Some r \<and> cleanup_due cfg now r"
  by (fastforce simp: cleanup_eligible_alt js_get_Some_iff dest!: in_set_takeD)

text \<open>With archiving on, a cleanup pass never loses a record: every live record is afterwards still
  live and unchanged, or it was terminal and past its retention and is in the archive, as an exact
  copy unless the archive already held that id; archived rows never change.\<close>

theorem cleanup_loses_nothing:
  assumes "js_ok live" and "archiveEnabled cfg" and "js_get live i = Some r"
    and "runCleanup cfg now (live, arch) = ((live', arch'), n)"
  shows "(js_get live' i = Some r \<or> (cleanup_due cfg now r \<and> js_get live' i = None
            \<and> js_get arch' i = (if js_has arch i then js_get arch i else Some r)))
       \<and> (js_has arch i \<longrightarrow> js_get arch' i = js_get arch i)"
proof (cases "cleanup_eligible cfg now live = []")
  case True
  with assms show ?thesis by (auto simp: runCleanup_def Let_def)
next
  case False
  with assms have l: "live' = cleanup_delete (cleanup_eligible cfg now live) live"
    and a: "arch' = cleanup_archive (cleanup_eligible cfg now live) live arch"
    by (auto simp: runCleanup_def Let_def)
  show ?thesis
    using cleanup_eligible_due [OF assms(1), of i cfg now] assms(3)
    by (auto simp: l a cleanup_archive_get [OF assms(1)])
qed

definition example_done :: pg_store where
  "example_done = pg_complete 5 ''r1'' (verified_outcome example_deps \<lparr>wasm = [1], wasmHash = ''ab'', build_log = []\<rparr>
      ''ab'' ExactMatch [] (VerifiedLog [])) (fst (pg_claim (example_env 5) 1 example_pg))"

definition example_cleanup :: cleanup_config where
  "example_cleanup = \<lparr>retentionDays = 1, cleanup_batch = 10, archiveEnabled = True\<rparr>"

lemma example_done_row: "\<exists>r. example_done = [(''r1'', r)] \<and> col_status r = VerifiedStatus \<and> updated_at r = 5"
  by (simp add: example_done_def example_pg_defs pg_complete_def pg_result_def Let_def)

theorem cleanup_loses_nothing_witness:
  "\<exists>live arch. runCleanup example_cleanup 90000000 (example_done, []) = ((live, arch), 1)
     \<and> js_get live ''r1'' = None \<and> js_get arch ''r1'' = js_get example_done ''r1''"
proof -
  obtain r where e: "example_done = [(''r1'', r)]" "col_status r = VerifiedStatus" "updated_at r = 5"
    using example_done_row by blast
  have run: "runCleanup example_cleanup 90000000 (example_done, []) = (([], [(''r1'', r)]), 1)"
    by (simp add: runCleanup_def cleanup_eligible_def cleanup_delete_def cleanup_archive_def js_has_def
        example_cleanup_def terminal_def e)
  have "js_ok example_done" "js_get example_done ''r1'' = Some r" by (simp_all add: e js_ok_def)
  from cleanup_loses_nothing [OF this(1) _ this(2) run] show ?thesis
    using run by (simp add: e example_cleanup_def js_has_def)
qed

text \<open>The delete matches on the id only: a record that was terminal when it was selected and has been
  put back into the queue before the delete is removed all the same.\<close>

theorem cleanup_deletes_requeued_record:
  assumes "i \<in> set (cleanup_eligible cfg now live0)"
  shows "js_get (cleanup_delete (cleanup_eligible cfg now live0) live1) i = None"
  using assms by simp

theorem cleanup_deletes_requeued_record_witness:
  "js_get (cleanup_delete (cleanup_eligible example_cleanup 90000000 example_done) example_pg) ''r1'' = None
   \<and> map_option col_status (js_get example_pg ''r1'') = Some Submitted"
proof -
  obtain r where e: "example_done = [(''r1'', r)]" "col_status r = VerifiedStatus" "updated_at r = 5"
    using example_done_row by blast
  have "''r1'' \<in> set (cleanup_eligible example_cleanup 90000000 example_done)"
    by (simp add: cleanup_eligible_def example_cleanup_def terminal_def e)
  from cleanup_deletes_requeued_record [OF this, of example_pg] show ?thesis
    by (simp add: example_pg_def)
qed

definition due_count :: "cleanup_config \<Rightarrow> instant \<Rightarrow> pg_store \<Rightarrow> nat" where
  "due_count cfg now live = length (filter (\<lambda>p. cleanup_due cfg now (snd p)) live)"

lemma filter_drop_batch:
  assumes "distinct (map fst xs)"
  shows "filter (\<lambda>p. fst p \<notin> set (map fst (take b xs))) xs = drop b xs"
proof -
  let ?P = "\<lambda>p. fst p \<notin> set (map fst (take b xs))"
  have "distinct (map fst (take b xs) @ map fst (drop b xs))"
    using assms by (simp flip: map_append)
  then have "?P p" if "p \<in> set (drop b xs)" for p using that by auto
  then have "filter ?P (drop b xs) = drop b xs" by (simp only: filter_id_conv) blast
  moreover have "filter ?P (take b xs) = []" by (auto simp: filter_empty_conv)
  moreover have "filter ?P xs = filter ?P (take b xs) @ filter ?P (drop b xs)"
    by (metis append_take_drop_id filter_append)
  ultimately show ?thesis by simp
qed

lemma due_count_delete:
  assumes "js_ok live"
  shows "due_count cfg now (cleanup_delete (cleanup_eligible cfg now live) live)
     = due_count cfg now live - cleanup_batch cfg"
proof -
  let ?due = "filter (\<lambda>p. cleanup_due cfg now (snd p)) live"
  let ?b = "cleanup_batch cfg"
  have d: "distinct (map fst ?due)" using assms by (simp add: js_ok_def distinct_map_filter)
  have "filter (\<lambda>p. cleanup_due cfg now (snd p)) (cleanup_delete (map fst (take ?b ?due)) live)
      = filter (\<lambda>p. fst p \<notin> set (map fst (take ?b ?due))) ?due"
    by (simp add: cleanup_delete_def case_prod_unfold conj_commute)
  also have "\<dots> = drop ?b ?due" using d by (rule filter_drop_batch)
  finally show ?thesis by (simp add: due_count_def cleanup_eligible_alt take_map)
qed

lemma runCleanup_spec:
  assumes "js_ok live" and "1 \<le> cleanup_batch cfg"
    and "runCleanup cfg now (live, arch) = ((live', arch'), n)"
  shows "js_ok live' \<and> due_count cfg now live' = due_count cfg now live - n
       \<and> n = min (cleanup_batch cfg) (due_count cfg now live)"
proof -
  have n: "length (cleanup_eligible cfg now live) = min (cleanup_batch cfg) (due_count cfg now live)"
    by (simp add: cleanup_eligible_alt due_count_def)
  show ?thesis
  proof (cases "cleanup_eligible cfg now live = []")
    case True
    with assms n show ?thesis by (auto simp: runCleanup_def Let_def)
  next
    case False
    have "js_ok (cleanup_delete ids live)" for ids
      using assms(1) by (simp add: js_ok_def cleanup_delete_def distinct_map_filter)
    with False assms(3) n due_count_delete [OF assms(1), of cfg now] show ?thesis
      by (auto simp: runCleanup_def Let_def)
  qed
qed

text \<open>The drain loop removes every record that is due, and counts them, as soon as its pass limit
  exceeds their number: it stops because nothing is left, not because it gave up.\<close>

theorem cleanup_drains:
  assumes "js_ok live" and "1 \<le> cleanup_batch cfg" and "due_count cfg now live < passes"
    and "runCleanupUntilEmpty passes cfg now (live, arch) = ((live', arch'), n)"
  shows "n = due_count cfg now live \<and> due_count cfg now live' = 0 \<and> js_ok live'"
  using assms
proof (induction passes arbitrary: live arch n)
  case 0
  then show ?case by simp
next
  case (Suc passes)
  obtain l1 a1 d where r: "runCleanup cfg now (live, arch) = ((l1, a1), d)" by (metis prod.exhaust)
  note spec = runCleanup_spec [OF Suc.prems(1,2) r]
  show ?case
  proof (cases "d = 0")
    case True
    with Suc.prems(2,4) r spec show ?thesis by auto
  next
    case False
    obtain more where rec: "runCleanupUntilEmpty passes cfg now (l1, a1) = ((live', arch'), more)"
      and n: "n = d + more"
      using Suc.prems(4) r False by (auto split: prod.splits)
    have "due_count cfg now l1 < passes" using spec False Suc.prems(3) by auto
    from Suc.IH [OF _ Suc.prems(2) this rec] spec n show ?thesis by auto
  qed
qed

theorem cleanup_drains_witness:
  "\<exists>tabs. runCleanupUntilEmpty 2 example_cleanup 90000000 (example_done, []) = (tabs, 1)
     \<and> due_count example_cleanup 90000000 (fst tabs) = 0"
proof -
  obtain r where e: "example_done = [(''r1'', r)]" "col_status r = VerifiedStatus" "updated_at r = 5"
    using example_done_row by blast
  obtain tabs n where run: "runCleanupUntilEmpty 2 example_cleanup 90000000 (example_done, []) = (tabs, n)"
    by (metis prod.exhaust)
  have due: "due_count example_cleanup 90000000 example_done = 1"
    by (simp add: due_count_def cleanup_due_def terminal_def example_cleanup_def e)
  have "js_ok example_done" "1 \<le> cleanup_batch example_cleanup" by (simp_all add: e js_ok_def example_cleanup_def)
  from cleanup_drains [OF this, of 90000000 2 "[]" "fst tabs" "snd tabs" n] run due show ?thesis by simp
qed

end
