(* ===== verification/RepoUrlGuard.thy ===== *)
theory RepoUrlGuard
  imports Prelude
begin

text \<open>
  The guard in front of the host-side clone: \<open>services/worker-service/src/repo-url-guard.ts\<close>.
  \<open>new URL\<close> is an argument giving the parts of a parsed URL, name resolution another.  \<open>node:net\<close>'s
  \<open>isIP\<close> is written out for IPv4 dotted quads; for IPv6 it is the argument \<open>isIPv6\<close>.
\<close>

subsection \<open>Blocked addresses\<close>

text \<open>One octet of a dotted quad: no leading zero, at most 255.\<close>

definition octet_ok :: "string \<Rightarrow> bool" where
  "octet_ok s \<longleftrightarrow> s \<noteq> [] \<and> list_all is_digit s \<and> (length s = 1 \<or> hd s \<noteq> CHR ''0'') \<and> length s \<le> 3 \<and> parse_nat s \<le> 255"

definition isIPv4 :: "string \<Rightarrow> bool" where
  "isIPv4 ip = (let parts = split_on CHR ''.'' ip in length parts = 4 \<and> list_all octet_ok parts)"

definition blocked_v4 :: "string \<Rightarrow> bool" where
  "blocked_v4 ip =
     (let parts = map parse_nat (split_on CHR ''.'' ip) in
      if length parts \<noteq> 4 \<or> list_ex (\<lambda>p. p > 255) parts then True
      else
        (let a = parts ! 0; b = parts ! 1 in
         if a = 0 then True
         else if a = 10 then True
         else if a = 127 then True
         else if a = 169 \<and> b = 254 then True
         else if a = 172 \<and> b \<ge> 16 \<and> b \<le> 31 then True
         else if a = 192 \<and> b = 168 then True
         else if a \<ge> 224 then True
         else False))"

text \<open>The group captured by \<open>/::ffff:(\d+\.\d+\.\d+\.\d+)$/\<close>.\<close>

definition quad_shape :: "string \<Rightarrow> bool" where
  "quad_shape s = (let parts = split_on CHR ''.'' s in
     length parts = 4 \<and> list_all (\<lambda>p. p \<noteq> [] \<and> list_all is_digit p) parts)"

fun mapped_v4 :: "string \<Rightarrow> string option" where
  "mapped_v4 [] = None"
| "mapped_v4 (c # s) =
     (if starts_with (c # s) ''::ffff:'' \<and> quad_shape (drop 7 (c # s)) then Some (drop 7 (c # s))
      else mapped_v4 s)"

definition isBlockedAddress :: "(string \<Rightarrow> bool) \<Rightarrow> string \<Rightarrow> bool" where
  "isBlockedAddress isIPv6 ip =
     (if isIPv4 ip then blocked_v4 ip
      else if isIPv6 ip then
        (let lower = to_lower ip in
         if lower = ''::1'' \<or> lower = ''::'' then True
         else if starts_with lower ''fe80'' then True
         else if starts_with lower ''fc'' \<or> starts_with lower ''fd'' then True
         else if starts_with lower ''ff'' then True
         else
           (case mapped_v4 lower of
              Some v4 \<Rightarrow> (if isIPv4 v4 then blocked_v4 v4 else True)
            | None \<Rightarrow> False))
      else True)"

subsection \<open>The guard\<close>

record url =
  protocol :: string
  username :: string
  password :: string
  hostname :: string
  port :: string

datatype url_error =
    InvalidUrl string
  | NotHttps string
  | HasCredentials
  | PrivateLiteral string
  | Unresolvable string string
  | NoAddress string
  | BlockedAddress string string

record resolved_pin =
  pin_host :: string
  pin_port :: nat
  pin_ip :: string

definition parseHttpsRepoUrl :: "(string \<Rightarrow> url option) \<Rightarrow> string \<Rightarrow> url_error + url" where
  "parseHttpsRepoUrl new_url repoUrl =
     (case new_url repoUrl of
        None \<Rightarrow> Inl (InvalidUrl repoUrl)
      | Some u \<Rightarrow>
          (if protocol u \<noteq> ''https:'' then Inl (NotHttps (protocol u))
           else if username u \<noteq> [] \<or> password u \<noteq> [] then Inl HasCredentials
           else Inr u))"

definition assertPublicHttpsRepoUrl ::
  "(string \<Rightarrow> url option) \<Rightarrow> (string \<Rightarrow> bool) \<Rightarrow> (string \<Rightarrow> string + string list) \<Rightarrow> string
     \<Rightarrow> url_error + resolved_pin option" where
  "assertPublicHttpsRepoUrl new_url isIPv6 resolve repoUrl =
     res_bind (parseHttpsRepoUrl new_url repoUrl) (\<lambda>u.
       let prt = (if port u \<noteq> [] then parse_nat (port u) else 443) in
       if isIPv4 (hostname u) \<or> isIPv6 (hostname u) then
         (if isBlockedAddress isIPv6 (hostname u) then Inl (PrivateLiteral (hostname u)) else Inr None)
       else
         (case resolve (hostname u) of
            Inl err \<Rightarrow> Inl (Unresolvable (hostname u) err)
          | Inr addresses \<Rightarrow>
              (case addresses of
                 [] \<Rightarrow> Inl (NoAddress (hostname u))
               | pinnedIp # _ \<Rightarrow>
                   (case find (isBlockedAddress isIPv6) addresses of
                      Some addr \<Rightarrow> Inl (BlockedAddress (hostname u) addr)
                    | None \<Rightarrow> Inr (Some \<lparr>pin_host = hostname u, pin_port = prt, pin_ip = pinnedIp\<rparr>)))))"

definition gitConnectionPinArgs :: "resolved_pin option \<Rightarrow> string list" where
  "gitConnectionPinArgs pin =
     [''-c'', ''http.followRedirects=false'']
     @ (case pin of
          None \<Rightarrow> []
        | Some p \<Rightarrow> [''-c'', ''http.curloptResolve='' @ pin_host p @ '':'' @ show_nat (pin_port p) @ '':'' @ pin_ip p])"

subsection \<open>What the guard lets through\<close>

text \<open>When the guard accepts a URL it is https without credentials, and git is pinned to an address that
  the host resolved to; that address and every other the host resolved to is unblocked, or the host
  itself is an unblocked literal.  Redirects are off in every case.\<close>

theorem accepted_repo_is_pinned_public:
  assumes "assertPublicHttpsRepoUrl new_url isIPv6 resolve repoUrl = Inr pin"
  shows "\<exists>u. new_url repoUrl = Some u \<and> protocol u = ''https:'' \<and> username u = [] \<and> password u = []
     \<and> take 2 (gitConnectionPinArgs pin) = [''-c'', ''http.followRedirects=false'']
     \<and> (case pin of
          None \<Rightarrow> \<not> isBlockedAddress isIPv6 (hostname u)
        | Some p \<Rightarrow> pin_host p = hostname u
            \<and> (\<exists>addrs. resolve (hostname u) = Inr addrs \<and> pin_ip p \<in> set addrs
                  \<and> list_all (\<lambda>a. \<not> isBlockedAddress isIPv6 a) addrs))"
proof -
  from assms obtain u where u: "new_url repoUrl = Some u" "protocol u = ''https:''" "username u = []" "password u = []"
    and ok: "parseHttpsRepoUrl new_url repoUrl = Inr u"
    by (auto simp: assertPublicHttpsRepoUrl_def parseHttpsRepoUrl_def res_bind_eq_Inr split: option.splits if_splits)
  have t: "take 2 (gitConnectionPinArgs pin) = [''-c'', ''http.followRedirects=false'']"
    by (simp add: gitConnectionPinArgs_def)
  show ?thesis
  proof (cases "isIPv4 (hostname u) \<or> isIPv6 (hostname u)")
    case True
    with assms ok have "pin = None \<and> \<not> isBlockedAddress isIPv6 (hostname u)"
      by (auto simp: assertPublicHttpsRepoUrl_def Let_def split: if_splits)
    with u t show ?thesis by auto
  next
    case False
    with assms ok obtain a as where r: "resolve (hostname u) = Inr (a # as)"
      and f: "find (isBlockedAddress isIPv6) (a # as) = None"
      and pin: "\<exists>n. pin = Some \<lparr>pin_host = hostname u, pin_port = n, pin_ip = a\<rparr>"
      unfolding assertPublicHttpsRepoUrl_def Let_def
      by (auto split: sum.splits list.splits option.splits simp del: find.simps)
    from f have "list_all (\<lambda>x. \<not> isBlockedAddress isIPv6 x) (a # as)"
      by (auto simp: find_None_iff list_all_iff simp del: find.simps)
    with u t r pin show ?thesis by auto
  qed
qed

definition example_url :: url where
  "example_url = \<lparr>protocol = ''https:'', username = [], password = [], hostname = ''h'', port = []\<rparr>"

theorem accepted_repo_is_pinned_public_witness:
  "gitConnectionPinArgs (Some \<lparr>pin_host = ''h'', pin_port = 443, pin_ip = ''8.8.8.8''\<rparr>)
     = [''-c'', ''http.followRedirects=false'', ''-c'', ''http.curloptResolve=h:443:8.8.8.8'']
   \<and> \<not> isBlockedAddress (\<lambda>_. False) ''8.8.8.8''"
proof -
  have run: "assertPublicHttpsRepoUrl (\<lambda>_. Some example_url) (\<lambda>_. False) (\<lambda>_. Inr [''8.8.8.8'']) ''https://h''
      = Inr (Some \<lparr>pin_host = ''h'', pin_port = 443, pin_ip = ''8.8.8.8''\<rparr>)"
    by code_simp
  from accepted_repo_is_pinned_public [OF run]
  have "\<not> isBlockedAddress (\<lambda>_. False) ''8.8.8.8''" by (auto simp: list_all_iff)
  moreover have "gitConnectionPinArgs (Some \<lparr>pin_host = ''h'', pin_port = 443, pin_ip = ''8.8.8.8''\<rparr>)
     = [''-c'', ''http.followRedirects=false'', ''-c'', ''http.curloptResolve=h:443:8.8.8.8'']"
    by code_simp
  ultimately show ?thesis by simp
qed

subsection \<open>The ranges that are blocked\<close>

definition quad :: "nat \<Rightarrow> nat \<Rightarrow> nat \<Rightarrow> nat \<Rightarrow> string" where
  "quad a b c d = show_nat a @ CHR ''.'' # show_nat b @ CHR ''.'' # show_nat c @ CHR ''.'' # show_nat d"

lemma split_on_free: "d \<notin> set w \<Longrightarrow> split_on d w = [w]"
  by (induction w) auto

lemma split_on_join: "d \<notin> set w \<Longrightarrow> split_on d (w @ d # rest) = w # split_on d rest"
  by (induction w) auto

lemma dot_not_in_show: "CHR ''.'' \<notin> set (show_nat n)"
  using show_nat_digits [of n] by (auto simp: list_all_iff is_digit_def)

lemma split_quad: "split_on CHR ''.'' (quad a b c d) = [show_nat a, show_nat b, show_nat c, show_nat d]"
  by (simp add: quad_def split_on_join split_on_free dot_not_in_show)

lemma digit_char_zero: "d < 10 \<Longrightarrow> digit_char d = CHR ''0'' \<Longrightarrow> d = 0"
  using of_char_digit [of d] by simp

lemma octet_show: "n \<le> 255 \<Longrightarrow> octet_ok (show_nat n)"
proof -
  assume n: "n \<le> 255"
  have "(length (show_nat n) = 1 \<or> hd (show_nat n) \<noteq> CHR ''0'') \<and> length (show_nat n) \<le> 3"
  proof (cases "n < 10")
    case True
    then show ?thesis by (simp add: show_nat.simps [of n])
  next
    case f1: False
    show ?thesis
    proof (cases "n < 100")
      case True
      then show ?thesis using f1 digit_char_zero [of "n div 10"]
        by (auto simp: show_nat.simps [of n] show_nat.simps [of "n div 10"])
    next
      case False
      then show ?thesis using n digit_char_zero [of "n div 10 div 10"]
        by (auto simp: show_nat.simps [of n] show_nat.simps [of "n div 10"] show_nat.simps [of "n div 10 div 10"])
    qed
  qed
  with n show ?thesis using show_nat_digits [of n] by (simp add: octet_ok_def parse_show_nat)
qed

text \<open>For an IPv4 address the guard blocks exactly 0/8, 10/8, 127/8, 169.254/16, 172.16/12, 192.168/16 and
  everything from 224 up; every other quad, the carrier-grade range 100.64/10 among them, passes.\<close>

theorem ipv4_blocked_iff:
  assumes "a \<le> 255" "b \<le> 255" "c \<le> 255" "d \<le> 255"
  shows "isBlockedAddress isIPv6 (quad a b c d) \<longleftrightarrow>
     a = 0 \<or> a = 10 \<or> a = 127 \<or> (a = 169 \<and> b = 254) \<or> (a = 172 \<and> 16 \<le> b \<and> b \<le> 31)
     \<or> (a = 192 \<and> b = 168) \<or> 224 \<le> a"
proof -
  have "isIPv4 (quad a b c d)" using assms by (simp add: isIPv4_def split_quad octet_show)
  with assms show ?thesis
    by (simp add: isBlockedAddress_def blocked_v4_def split_quad parse_show_nat Let_def)
qed

theorem ipv4_blocked_iff_witness:
  "\<not> isBlockedAddress (\<lambda>_. False) (quad 100 64 0 1) \<and> isBlockedAddress (\<lambda>_. False) (quad 172 31 0 1)"
  using ipv4_blocked_iff [of 100 64 0 1] ipv4_blocked_iff [of 172 31 0 1] by simp

lemma link_local_beyond_fe80_passes:
  "isIPv6 ''fe90::1'' \<Longrightarrow> \<not> isBlockedAddress isIPv6 ''fe90::1''"
  by (simp add: isBlockedAddress_def isIPv4_def to_lower_def lower_char_def starts_with_def Let_def)

lemma hex_mapped_loopback_passes:
  "isIPv6 ''::ffff:7f00:1'' \<Longrightarrow> \<not> isBlockedAddress isIPv6 ''::ffff:7f00:1''"
  by (simp add: isBlockedAddress_def isIPv4_def to_lower_def lower_char_def starts_with_def quad_shape_def Let_def)

end
