(* ===== verification/EventQueue.thy ===== *)
theory EventQueue
  imports Prelude "HOL-Library.Multiset"
begin

text \<open>
  The policy event queue with poison-message quarantine: \<open>services/policy-service/src/event-queue.ts\<close>.
  The handler is an argument: what it settles to for a message, its rejection as the reason.  The
  queue is the array of the class, the quarantine the insertion-ordered map of the in-memory
  quarantine queue; log lines, metrics and the alert callback are not modelled.  A handler that
  enqueues while it runs is outside the model.
\<close>

record 'p event_message =
  ev_id :: string
  eventType :: string
  payload :: "'p option"
  attempts :: int
  ev_maxAttempts :: "int option"
  enqueuedAt :: instant
  correlationId :: "string option"

record 'p quarantined =
  q_message :: "'p event_message"
  quarantinedAt :: instant
  q_attempts :: int
  q_reason :: string

record 'p event_queue =
  queue :: "'p event_message list"
  quarantine :: "(string, 'p quarantined) js_map"
  maxAttempts :: int

datatype outcome = Success | Retry | Quarantined

record process_result =
  messageId :: string
  outcome :: outcome
  pr_attempts :: int
  pr_reason :: "string option"

definition createQueue :: "int \<Rightarrow> 'p event_queue" where
  "createQueue mx = \<lparr>queue = [], quarantine = [], maxAttempts = mx\<rparr>"

definition enqueue ::
  "string \<Rightarrow> string \<Rightarrow> 'p option \<Rightarrow> int option \<Rightarrow> instant \<Rightarrow> string option \<Rightarrow> 'p event_queue \<Rightarrow> 'p event_queue" where
  "enqueue i ty pl mx now corr q =
     q\<lparr>queue := queue q @ [\<lparr>ev_id = i, eventType = ty, payload = pl, attempts = 0,
         ev_maxAttempts = Some (case mx of None \<Rightarrow> maxAttempts q | Some m \<Rightarrow> m), enqueuedAt = now,
         correlationId = corr\<rparr>]\<rparr>"

definition limit_of :: "'p event_queue \<Rightarrow> 'p event_message \<Rightarrow> int" where
  "limit_of q msg = (case ev_maxAttempts msg of None \<Rightarrow> maxAttempts q | Some m \<Rightarrow> m)"

text \<open>What processing the message settles to: the envelope check, then the handler.\<close>

definition attempt_message :: "('p event_message \<Rightarrow> string + unit) \<Rightarrow> 'p event_message \<Rightarrow> string + unit" where
  "attempt_message handler msg =
     (if eventType msg = [] \<or> payload msg = None
      then Inl ''Malformed message: missing eventType or payload'' else handler msg)"

definition processNext ::
  "('p event_message \<Rightarrow> string + unit) \<Rightarrow> instant \<Rightarrow> 'p event_queue \<Rightarrow> 'p event_queue \<times> process_result option" where
  "processNext handler now q =
     (case queue q of
        [] \<Rightarrow> (q, None)
      | m # rest \<Rightarrow>
          (let q1 = q\<lparr>queue := rest\<rparr>;
               msg = m\<lparr>attempts := attempts m + 1\<rparr>;
               lim = limit_of q msg
           in case attempt_message handler msg of
                Inr _ \<Rightarrow> (q1, Some \<lparr>messageId = ev_id msg, outcome = Success, pr_attempts = attempts msg, pr_reason = None\<rparr>)
              | Inl err \<Rightarrow>
                  (if attempts msg \<ge> lim then
                     (q1\<lparr>quarantine := js_set (ev_id msg)
                          \<lparr>q_message = msg, quarantinedAt = now, q_attempts = attempts msg, q_reason = err\<rparr>
                          (quarantine q1)\<rparr>,
                      Some \<lparr>messageId = ev_id msg, outcome = Quarantined, pr_attempts = attempts msg, pr_reason = Some err\<rparr>)
                   else
                     (q1\<lparr>queue := queue q1 @ [msg]\<rparr>,
                      Some \<lparr>messageId = ev_id msg, outcome = Retry, pr_attempts = attempts msg, pr_reason = Some err\<rparr>))))"

text \<open>How many attempts a message has left at most; every pass uses one up or removes the message.\<close>

definition tries_left :: "'p event_queue \<Rightarrow> 'p event_message \<Rightarrow> nat" where
  "tries_left q m = Suc (nat (limit_of q m - attempts m))"

definition work_left :: "'p event_queue \<Rightarrow> nat" where
  "work_left q = sum_list (map (tries_left q) (queue q))"

lemma processNext_work:
  assumes "queue q \<noteq> []" shows "work_left (fst (processNext handler now q)) < work_left q"
proof -
  from assms obtain m rest where q: "queue q = m # rest" by (cases "queue q") auto
  have t: "tries_left (q\<lparr>queue := a\<rparr>) = tries_left q" "tries_left (q\<lparr>queue := a, quarantine := b\<rparr>) = tries_left q" for a b
    by (simp_all add: tries_left_def limit_of_def fun_eq_iff cong: option.case_cong)
  show ?thesis
    by (cases "attempt_message handler (m\<lparr>attempts := attempts m + 1\<rparr>)")
       (auto simp: processNext_def q work_left_def Let_def t, simp_all add: tries_left_def limit_of_def)
qed

function processAll ::
  "('p event_message \<Rightarrow> string + unit) \<Rightarrow> instant \<Rightarrow> 'p event_queue \<Rightarrow> 'p event_queue \<times> process_result list" where
  "processAll handler now q =
     (if queue q = [] then (q, [])
      else
        (let (q1, res) = processNext handler now q;
             (q2, rest) = processAll handler now q1
         in (q2, (case res of None \<Rightarrow> rest | Some r \<Rightarrow> r # rest))))"
  by pat_completeness auto
termination
proof (relation "measure (\<lambda>(h, n, q). work_left q)", goal_cases)
  case (2 handler now q x q1 res)
  then show ?case using processNext_work [of q handler now] by (simp add: prod_eq_iff)
qed simp

declare processAll.simps [simp del]

subsection \<open>Draining\<close>

text \<open>The results that end a message's life.\<close>

definition final :: "process_result \<Rightarrow> bool" where
  "final r \<longleftrightarrow> outcome r \<noteq> Retry"

definition queued_ids :: "'p event_queue \<Rightarrow> string multiset" where
  "queued_ids q = mset (map ev_id (queue q))"

lemma processNext_conserves:
  assumes "queue q \<noteq> []"
  shows "\<exists>r. snd (processNext handler now q) = Some r
     \<and> queued_ids q = queued_ids (fst (processNext handler now q)) + (if final r then {#messageId r#} else {#})
     \<and> maxAttempts (fst (processNext handler now q)) = maxAttempts q"
proof -
  from assms obtain m rest where q: "queue q = m # rest" by (cases "queue q") auto
  show ?thesis
    by (cases "attempt_message handler (m\<lparr>attempts := attempts m + 1\<rparr>)")
       (auto simp: processNext_def q queued_ids_def final_def Let_def)
qed

lemma processNext_quarantine:
  "js_has (quarantine q) i \<Longrightarrow> js_has (quarantine (fst (processNext handler now q))) i"
  "snd (processNext handler now q) = Some r \<Longrightarrow> outcome r = Quarantined \<Longrightarrow>
     js_has (quarantine (fst (processNext handler now q))) (messageId r)"
  by (auto simp: processNext_def Let_def js_has_def split: list.splits sum.splits if_splits)

lemma processAll_quarantine:
  "js_has (quarantine q) i \<Longrightarrow> js_has (quarantine (fst (processAll handler now q))) i"
proof (induction handler now q rule: processAll.induct)
  case (1 handler now q)
  show ?case
  proof (cases "queue q = []")
    case True
    with 1 show ?thesis by (simp add: processAll.simps [of handler now q])
  next
    case False
    obtain q1 res where p: "processNext handler now q = (q1, res)" by (cases "processNext handler now q")
    have "js_has (quarantine q1) i" using processNext_quarantine(1) [OF "1.prems", of handler now] p by simp
    from "1.IH" [OF False p [symmetric] refl this] False p show ?thesis
      by (cases "processAll handler now q1") (simp add: processAll.simps [of handler now q])
  qed
qed

text \<open>Draining the queue always ends, with the queue empty: every queued message has exactly one final
  result, success or quarantine, a quarantined one is on record in the quarantine, and the number of
  attempts made stays within the total of the attempts the messages had left.\<close>

theorem drain_accounts_for_every_message:
  "queue (fst (processAll handler now q)) = []
   \<and> mset (map messageId (filter final (snd (processAll handler now q)))) = queued_ids q
   \<and> list_all (\<lambda>r. outcome r = Quarantined \<longrightarrow> js_has (quarantine (fst (processAll handler now q))) (messageId r))
       (snd (processAll handler now q))
   \<and> length (snd (processAll handler now q)) \<le> work_left q"
proof (induction handler now q rule: processAll.induct)
  case (1 handler now q)
  show ?case
  proof (cases "queue q = []")
    case True
    then show ?thesis by (simp add: processAll.simps [of handler now q] queued_ids_def)
  next
    case False
    obtain q1 res where p: "processNext handler now q = (q1, res)" by (cases "processNext handler now q")
    obtain q2 rest where a: "processAll handler now q1 = (q2, rest)" by (cases "processAll handler now q1")
    note IH = "1.IH" [OF False p [symmetric] refl]
    from processNext_conserves [OF False, of handler now] p obtain r where r: "res = Some r"
      and ids: "queued_ids q = queued_ids q1 + (if final r then {#messageId r#} else {#})" by auto
    have "outcome r = Quarantined \<longrightarrow> js_has (quarantine q2) (messageId r)"
      using processNext_quarantine(2) [of handler now q r] processAll_quarantine [of q1 "messageId r" handler now] p r a
      by simp
    moreover have "work_left q1 < work_left q" using processNext_work [OF False, of handler now] p by simp
    ultimately show ?thesis using IH False p a r ids
      by (simp add: processAll.simps [of handler now q])
  qed
qed

definition example_message :: "string \<Rightarrow> unit event_message" where
  "example_message i = \<lparr>ev_id = i, eventType = ''policy'', payload = Some (), attempts = 0,
                      ev_maxAttempts = Some 2, enqueuedAt = 1, correlationId = None\<rparr>"

theorem drain_accounts_for_every_message_witness:
  "mset (map messageId (filter final (snd (processAll (\<lambda>m. if ev_id m = ''bad'' then Inl ''boom'' else Inr ()) 5
      \<lparr>queue = [example_message ''bad'', example_message ''good''], quarantine = [], maxAttempts = 3\<rparr>))))
     = {#''bad'', ''good''#}"
  using drain_accounts_for_every_message
    [of "\<lambda>m. if ev_id m = ''bad'' then Inl ''boom'' else Inr ()" 5
        "\<lparr>queue = [example_message ''bad'', example_message ''good''], quarantine = [], maxAttempts = 3\<rparr>"]
  by (simp add: queued_ids_def example_message_def)

end
