(* ===== verification/Json.thy ===== *)
theory Json
  imports Complex_Main Prelude "HOL-Library.List_Lexorder" "HOL-Library.Char_ord"
begin

text \<open>
  JSON values as the services receive them, the readings of JavaScript's \<open>BigInt\<close> that amounts go
  through, and \<open>canonicalize\<close> of \<open>services/policy-service/src/templates.ts\<close>, the key-sorted
  serialisation behind the policy hash.  How a number prints is an argument, the escapes of
  \<open>JSON.stringify\<close> are written out.
\<close>

datatype json =
    JNull
  | JBool bool
  | JNum rat
  | JStr string
  | JArr "json list"
  | JObj "(string, json) js_map"

fun fld :: "json \<Rightarrow> string \<Rightarrow> json option" where
  "fld (JObj kvs) k = js_get kvs k"
| "fld _ k = None"

fun str_of :: "json \<Rightarrow> string option" where
  "str_of (JStr s) = Some s"
| "str_of _ = None"

fun num_of :: "json \<Rightarrow> rat option" where
  "num_of (JNum n) = Some n"
| "num_of _ = None"

fun arr_of :: "json \<Rightarrow> json list option" where
  "arr_of (JArr xs) = Some xs"
| "arr_of _ = None"

definition str_fld :: "json \<Rightarrow> string \<Rightarrow> string option" where
  "str_fld o1 k = Option.bind (fld o1 k) str_of"

definition num_fld :: "json \<Rightarrow> string \<Rightarrow> rat option" where
  "num_fld o1 k = Option.bind (fld o1 k) num_of"

definition arr_fld :: "json \<Rightarrow> string \<Rightarrow> json list option" where
  "arr_fld o1 k = Option.bind (fld o1 k) arr_of"

subsection \<open>\<open>BigInt\<close> of a string\<close>

definition digit_val :: "char \<Rightarrow> nat option" where
  "digit_val c =
     (let n = of_char (lower_char c) :: nat in
      if 48 \<le> n \<and> n \<le> 57 then Some (n - 48) else if 97 \<le> n \<and> n \<le> 102 then Some (n - 87) else None)"

definition radix_digits :: "nat \<Rightarrow> string \<Rightarrow> bool" where
  "radix_digits b s \<longleftrightarrow> s \<noteq> [] \<and> list_all (\<lambda>c. case digit_val c of None \<Rightarrow> False | Some d \<Rightarrow> d < b) s"

definition parse_radix :: "nat \<Rightarrow> string \<Rightarrow> nat" where
  "parse_radix b s = foldl (\<lambda>n c. b * n + the (digit_val c)) 0 s"

text \<open>\<open>None\<close> is the \<open>SyntaxError\<close> that \<open>BigInt\<close> throws.\<close>

definition js_BigInt :: "string \<Rightarrow> int option" where
  "js_BigInt s =
     (let t = js_trim s; radix = (\<lambda>b u. if radix_digits b u then Some (int (parse_radix b u)) else None);
          dec = (\<lambda>u. if u \<noteq> [] \<and> list_all is_digit u then Some (int (parse_nat u)) else None)
      in case t of
           [] \<Rightarrow> Some 0
         | c # u \<Rightarrow>
             (if starts_with (to_lower t) ''0x'' then radix 16 (drop 2 t)
              else if starts_with (to_lower t) ''0o'' then radix 8 (drop 2 t)
              else if starts_with (to_lower t) ''0b'' then radix 2 (drop 2 t)
              else if c = CHR ''-'' then map_option uminus (dec u)
              else if c = CHR ''+'' then dec u
              else dec t))"

lemma is_digit_not_space: "is_digit c \<Longrightarrow> \<not> is_space c"
  by (auto simp: is_digit_def is_space_def Let_def)

lemma trim_digits: "list_all is_digit s \<Longrightarrow> js_trim s = s"
proof -
  assume d: "list_all is_digit s"
  have "dropWhile is_space t = t" if "list_all is_digit t" for t
    using that by (cases t) (auto dest: is_digit_not_space)
  with d show ?thesis by (simp add: js_trim_def)
qed

lemma js_BigInt_digits:
  assumes "list_all is_digit s" "s \<noteq> []"
  shows "js_BigInt s = Some (int (parse_nat s))"
proof -
  from assms obtain c u where s: "s = c # u" by (cases s) auto
  have no: "\<not> is_digit (lower_char d) \<or> lower_char d = d" "is_digit d \<Longrightarrow> lower_char d = d" for d
    by (auto simp: is_digit_def lower_char_def Let_def)
  have "\<not> starts_with (to_lower s) (CHR ''0'' # [x])" if "\<not> is_digit x" for x
    using assms(1) that no(2) s by (cases u) (auto simp: starts_with_def to_lower_def)
  moreover have "c \<noteq> CHR ''-''" "c \<noteq> CHR ''+''" using assms(1) s by (auto simp: is_digit_def)
  moreover have "\<not> is_digit CHR ''x''" "\<not> is_digit CHR ''o''" "\<not> is_digit CHR ''b''"
    by (simp_all add: is_digit_def)
  ultimately show ?thesis using assms s trim_digits [of s]
    by (simp add: js_BigInt_def Let_def)
qed

subsection \<open>Canonical serialisation\<close>

definition hex_char :: "nat \<Rightarrow> char" where
  "hex_char d = char_of (if d < 10 then 48 + d else 87 + d)"

definition esc :: "char \<Rightarrow> string" where
  "esc c =
     (let n = of_char c :: nat in
      if n = 34 then [CHR 0x5C, CHR 0x22]
      else if n = 92 then [CHR 0x5C, CHR 0x5C]
      else if n = 8 then [CHR 0x5C, CHR ''b'']
      else if n = 12 then [CHR 0x5C, CHR ''f'']
      else if n = 10 then [CHR 0x5C, CHR ''n'']
      else if n = 13 then [CHR 0x5C, CHR ''r'']
      else if n = 9 then [CHR 0x5C, CHR ''t'']
      else if n < 32 then [CHR 0x5C, CHR ''u'', CHR ''0'', CHR ''0'', hex_char (n div 16), hex_char (n mod 16)]
      else [c])"

definition quote_json :: "string \<Rightarrow> string" where
  "quote_json s = CHR 0x22 # concat (map esc s) @ [CHR 0x22]"

fun join :: "char \<Rightarrow> string list \<Rightarrow> string" where
  "join d [] = []"
| "join d [w] = w"
| "join d (w # v # ws) = w @ d # join d (v # ws)"

lemma size_member: "kv \<in> set kvs \<Longrightarrow> size (snd kv) < size (JObj kvs)"
  by (induction kvs) (auto simp: less_Suc_eq_le)

function canonicalize :: "(rat \<Rightarrow> string) \<Rightarrow> json \<Rightarrow> string" where
  "canonicalize pr JNull = ''null''"
| "canonicalize pr (JBool b) = (if b then ''true'' else ''false'')"
| "canonicalize pr (JNum n) = pr n"
| "canonicalize pr (JStr s) = quote_json s"
| "canonicalize pr (JArr xs) = CHR ''['' # join CHR '','' (map (canonicalize pr) xs) @ '']''"
| "canonicalize pr (JObj kvs) =
     CHR 0x7B # join CHR '','' (map (\<lambda>kv. quote_json (fst kv) @ CHR '':'' # snd kv)
        (sort_key fst (map (\<lambda>kv. (fst kv, canonicalize pr (snd kv))) kvs))) @ [CHR 0x7D]"
  by pat_completeness auto
termination
proof (relation "measure (\<lambda>(pr, j). size j)", goal_cases)
  case (3 pr kvs kv)
  then show ?case using size_member [of kv kvs] by simp
qed (auto simp: less_Suc_eq_le size_list_estimation')

text \<open>The value with the keys of every object sorted: what the order of keys does not change.\<close>

function normalize :: "json \<Rightarrow> json" where
  "normalize JNull = JNull"
| "normalize (JBool b) = JBool b"
| "normalize (JNum n) = JNum n"
| "normalize (JStr s) = JStr s"
| "normalize (JArr xs) = JArr (map normalize xs)"
| "normalize (JObj kvs) = JObj (sort_key fst (map (\<lambda>kv. (fst kv, normalize (snd kv))) kvs))"
  by pat_completeness auto
termination
proof (relation "measure size", goal_cases)
  case (3 kvs kv)
  then show ?case using size_member [of kv kvs] by simp
qed (auto simp: less_Suc_eq_le size_list_estimation')

subsection \<open>The serialisation determines the value up to key order\<close>

lemma sort_key_map: "sort_key f (map g xs) = map g (sort_key (\<lambda>x. f (g x)) xs)"
proof (induction xs)
  case (Cons x xs)
  have "insort_key f (g x) (map g ys) = map g (insort_key (\<lambda>x. f (g x)) x ys)" for ys
    by (induction ys) auto
  with Cons show ?case by simp
qed simp

definition hex_val :: "char \<Rightarrow> nat" where
  "hex_val c = (let n = of_char c :: nat in if n < 58 then n - 48 else n - 87)"

lemma hex_val_digit: "d < 16 \<Longrightarrow> hex_val (hex_char d) = d"
  by (simp add: hex_val_def hex_char_def)

text \<open>Reading an escape sequence back.\<close>

fun unesc :: "string \<Rightarrow> nat \<times> string" where
  "unesc (b # t # r) =
     (if t = CHR 0x22 then (34, r) else if t = CHR 0x5C then (92, r) else if t = CHR ''b'' then (8, r)
      else if t = CHR ''f'' then (12, r) else if t = CHR ''n'' then (10, r) else if t = CHR ''r'' then (13, r)
      else if t = CHR ''t'' then (9, r) else (16 * hex_val (r ! 2) + hex_val (r ! 3), drop 4 r))"
| "unesc s = (0, s)"

definition escaped :: "char \<Rightarrow> bool" where
  "escaped c = (let n = of_char c :: nat in n < 32 \<or> n = 34 \<or> n = 92)"

lemma unesc_esc: "escaped c \<Longrightarrow> unesc (esc c @ x) = (of_char c, x) \<and> hd (esc c) = CHR 0x5C \<and> esc c \<noteq> []"
proof (cases "(of_char c :: nat) \<in> {34, 92, 8, 12, 10, 13, 9}")
  case True
  then show ?thesis by (simp only: insert_iff empty_iff) (elim disjE; simp add: esc_def Let_def)
next
  case False
  moreover assume "escaped c"
  ultimately have "(of_char c :: nat) < 32" by (auto simp: escaped_def Let_def)
  with False show ?thesis by (simp add: esc_def Let_def hex_val_digit)
qed

lemma esc_plain: "\<not> escaped c \<Longrightarrow> esc c = [c] \<and> c \<noteq> CHR 0x5C"
  by (auto simp: esc_def escaped_def Let_def)

lemma esc_inj: "esc c @ x = esc d @ y \<longleftrightarrow> c = d \<and> x = y"
proof
  assume eq: "esc c @ x = esc d @ y"
  show "c = d \<and> x = y"
  proof (cases "escaped c \<and> escaped d")
    case True
    with eq unesc_esc [of c x] unesc_esc [of d y] show ?thesis by (metis char_of_char prod.inject)
  next
    case False
    moreover have "escaped c = escaped d"
      using eq unesc_esc [of c x] unesc_esc [of d y] esc_plain [of c] esc_plain [of d]
      by (metis append_Cons hd_append2 list.sel(1))
    ultimately show ?thesis using eq esc_plain [of c] esc_plain [of d] by auto
  qed
qed simp

lemma esc_not_quote: "esc c @ x \<noteq> CHR 0x22 # y"
  by (auto simp: esc_def Let_def)

lemma quote_inj: "quote_json s @ x = quote_json t @ y \<longleftrightarrow> s = t \<and> x = y"
proof -
  have "concat (map esc s) @ CHR 0x22 # x = concat (map esc t) @ CHR 0x22 # y \<longleftrightarrow> s = t \<and> x = y"
  proof (induction s arbitrary: t)
    case Nil
    then show ?case using esc_not_quote by (cases t) (auto dest: sym)
  next
    case (Cons c s)
    then show ?case using esc_not_quote by (cases t) (auto simp: esc_inj)
  qed
  then show ?thesis by (simp add: quote_json_def)
qed

text \<open>What may follow a value in a document.\<close>

definition delim :: "string \<Rightarrow> bool" where
  "delim x \<longleftrightarrow> x = [] \<or> hd x \<in> {CHR '','', CHR '']'', CHR 0x7D}"

text \<open>The printing of numbers: different numbers print differently, in digits, signs, a dot and an exponent.\<close>

definition number_char :: "char \<Rightarrow> bool" where
  "number_char c \<longleftrightarrow> is_digit c \<or> c \<in> set ''+-.e''"

definition number_printer :: "(rat \<Rightarrow> string) \<Rightarrow> bool" where
  "number_printer pr \<longleftrightarrow> inj pr \<and> (\<forall>r. pr r \<noteq> [] \<and> list_all number_char (pr r) \<and> hd (pr r) \<noteq> CHR ''e'')"

lemma number_inj:
  assumes pr: "number_printer pr" and eq: "pr r @ x = pr s @ y" and d: "delim x" "delim y"
  shows "r = s \<and> x = y"
proof -
  have nc: "\<not> number_char (hd z)" if "delim z" "z \<noteq> []" for z
    using that by (auto simp: delim_def number_char_def is_digit_def)
  have "takeWhile number_char (pr u @ z) = pr u \<and> dropWhile number_char (pr u @ z) = z" if "delim z" for u z
    using pr that nc [of z] by (cases z) (auto simp: number_printer_def list_all_iff)
  from this [OF d(1), of r] this [OF d(2), of s] eq have "pr r = pr s" "x = y" by metis+
  with pr show ?thesis by (auto simp: number_printer_def dest: injD)
qed

lemma join_items_inj:
  assumes elems: "\<And>e e' x y. e \<in> set es \<Longrightarrow> delim x \<Longrightarrow> delim y \<Longrightarrow> f e @ x = f e' @ y \<Longrightarrow> g e = g e' \<and> x = y"
    and start: "\<And>e. f e \<noteq> [] \<and> hd (f e) \<noteq> c"
    and c: "c \<in> {CHR '']'', CHR 0x7D}"
    and eq: "join CHR '','' (map f es) @ c # x = join CHR '','' (map f es') @ c # y"
  shows "map g es = map g es' \<and> x = y"
  using elems eq
proof (induction es arbitrary: es')
  case Nil
  have "join CHR '','' (map f (e # r)) @ c # y = f e @ z \<Longrightarrow> f e @ z \<noteq> c # x" for e r z
    using start [of e] by (cases "f e") auto
  moreover have "\<exists>z. join CHR '','' (map f (e # r)) @ c # y = f e @ z" for e r
    by (cases r) auto
  ultimately show ?case using Nil.prems by (cases es') (simp, metis append_Nil join.simps(1) list.map_disc_iff)
next
  case (Cons e es)
  define tl1 where "tl1 = (\<lambda>r z. if r = [] then c # z else CHR '','' # join CHR '','' (map f r) @ c # z)"
  have cons: "join CHR '','' (map f (e # r)) @ c # z = f e @ tl1 r z" for e r z
    by (cases r) (simp_all add: tl1_def)
  have dl: "delim (tl1 r z)" for r z using c by (auto simp: tl1_def delim_def)
  show ?case
  proof (cases es')
    case Nil
    with Cons.prems(2) have "f e @ tl1 es x = c # y" by (simp only: cons) simp
    then show ?thesis using start [of e] by (cases "f e") auto
  next
    case (Cons e' r)
    with Cons.prems(2) have "f e @ tl1 es x = f e' @ tl1 r y" by (simp only: cons)
    with Cons.prems(1) [of e "tl1 es x" "tl1 r y" e'] dl have ge: "g e = g e'" and t: "tl1 es x = tl1 r y" by auto
    have cc: "c \<noteq> CHR '',''" using c by auto
    show ?thesis
    proof (cases "es = [] \<or> r = []")
      case True
      with t cc Cons ge show ?thesis by (auto simp: tl1_def split: if_splits)
    next
      case False
      with t have "join CHR '','' (map f es) @ c # x = join CHR '','' (map f r) @ c # y" by (simp add: tl1_def)
      moreover have "\<And>a a' x y. a \<in> set es \<Longrightarrow> delim x \<Longrightarrow> delim y \<Longrightarrow> f a @ x = f a' @ y \<Longrightarrow> g a = g a' \<and> x = y"
        using Cons.prems(1) by (meson list.set_intros(2))
      ultimately have "map g es = map g r \<and> x = y" using Cons.IH [of r] by blast
      with ge Cons show ?thesis by simp
    qed
  qed
qed

lemma canonicalize_start:
  assumes "number_printer pr"
  shows "canonicalize pr j \<noteq> [] \<and> hd (canonicalize pr j) \<notin> {CHR '','', CHR '']'', CHR 0x7D, CHR '':''}"
proof (cases j)
  case (JNum n)
  from assms have "pr n \<noteq> []" "list_all number_char (pr n)" by (auto simp: number_printer_def)
  then have "number_char (hd (pr n))" by (cases "pr n") auto
  with \<open>pr n \<noteq> []\<close> JNum show ?thesis by (auto simp: number_char_def is_digit_def)
qed (auto simp: quote_json_def)

text \<open>Which kind of value it is shows in the first character.\<close>

definition kind_of :: "json \<Rightarrow> nat" where
  "kind_of j = (case j of JNull \<Rightarrow> 0 | JBool b \<Rightarrow> (if b then 1 else 2) | JNum _ \<Rightarrow> 3 | JStr _ \<Rightarrow> 4 | JArr _ \<Rightarrow> 5 | JObj _ \<Rightarrow> 6)"

definition kind_of_char :: "char \<Rightarrow> nat" where
  "kind_of_char c = (if c = CHR ''n'' then 0 else if c = CHR ''t'' then 1 else if c = CHR ''f'' then 2
     else if c = CHR 0x22 then 4 else if c = CHR ''['' then 5 else if c = CHR 0x7B then 6 else 3)"

lemma canonicalize_kind:
  assumes "number_printer pr"
  shows "kind_of_char (hd (canonicalize pr j)) = kind_of j"
proof (cases j)
  case (JNum n)
  from assms have "pr n \<noteq> []" "list_all number_char (pr n)" by (auto simp: number_printer_def)
  then have "number_char (hd (pr n))" by (cases "pr n") auto
  with JNum show ?thesis by (auto simp: number_char_def is_digit_def kind_of_char_def kind_of_def)
qed (auto simp: quote_json_def kind_of_char_def kind_of_def)

lemma canonicalize_kinds_agree:
  assumes "number_printer pr" "canonicalize pr a @ x = canonicalize pr b @ y"
  shows "kind_of a = kind_of b"
  using assms canonicalize_start [of pr] canonicalize_kind [of pr] by (metis hd_append2)

lemma canonicalize_JObj:
  "canonicalize pr (JObj kvs) =
     CHR 0x7B # join CHR '','' (map (\<lambda>kv. quote_json (fst kv) @ CHR '':'' # canonicalize pr (snd kv)) (sort_key fst kvs))
       @ [CHR 0x7D]"
  by (simp add: sort_key_map o_def)

lemma canonicalize_inj:
  assumes pr: "number_printer pr"
  shows "delim x \<Longrightarrow> delim y \<Longrightarrow> canonicalize pr a @ x = canonicalize pr b @ y \<Longrightarrow> normalize a = normalize b \<and> x = y"
proof (induction a arbitrary: b x y)
  case JNull
  with canonicalize_kinds_agree [OF pr JNull.prems(3)] show ?case by (cases b) (auto simp: kind_of_def split: if_splits)
next
  case (JBool v)
  with canonicalize_kinds_agree [OF pr JBool.prems(3)] show ?case by (cases b) (auto simp: kind_of_def split: if_splits)
next
  case (JNum n)
  from canonicalize_kinds_agree [OF pr JNum.prems(3)] obtain m where b: "b = JNum m"
    by (cases b) (auto simp: kind_of_def split: if_splits)
  with JNum.prems number_inj [OF pr, of n x m y] show ?case by simp
next
  case (JStr s)
  from canonicalize_kinds_agree [OF pr JStr.prems(3)] obtain t where b: "b = JStr t"
    by (cases b) (auto simp: kind_of_def split: if_splits)
  with JStr.prems show ?case by (simp add: quote_inj)
next
  case (JArr xs)
  from canonicalize_kinds_agree [OF pr JArr.prems(3)] obtain ys where b: "b = JArr ys"
    by (cases b) (auto simp: kind_of_def split: if_splits)
  have "map normalize xs = map normalize ys \<and> x = y"
  proof (rule join_items_inj [where f = "canonicalize pr" and c = "CHR '']''"])
    show "join CHR '','' (map (canonicalize pr) xs) @ CHR '']'' # x = join CHR '','' (map (canonicalize pr) ys) @ CHR '']'' # y"
      using JArr.prems(3) b by simp
  qed (use JArr.IH canonicalize_start [OF pr] in auto)
  with b show ?case by simp
next
  case (JObj kvs)
  from canonicalize_kinds_agree [OF pr JObj.prems(3)] obtain kvs' where b: "b = JObj kvs'"
    by (cases b) (auto simp: kind_of_def split: if_splits)
  let ?f = "\<lambda>kv. quote_json (fst kv) @ CHR '':'' # canonicalize pr (snd kv)"
  let ?g = "\<lambda>kv. (fst kv, normalize (snd kv))"
  have "map ?g (sort_key fst kvs) = map ?g (sort_key fst kvs') \<and> x = y"
  proof (rule join_items_inj [where f = ?f and c = "CHR 0x7D"])
    fix e e' u v
    assume "e \<in> set (sort_key fst kvs)" and d: "delim u" "delim v" and eq: "?f e @ u = ?f e' @ v"
    then have e: "e \<in> set kvs" by simp
    from eq have k: "fst e = fst e'" and r: "canonicalize pr (snd e) @ u = canonicalize pr (snd e') @ v"
      by (simp_all add: quote_inj)
    have "snd e \<in> Basic_BNFs.snds e" by (cases e) auto
    from JObj.IH [OF e this d r] k show "?g e = ?g e' \<and> u = v" by simp
  next
    show "join CHR '','' (map ?f (sort_key fst kvs)) @ CHR 0x7D # x = join CHR '','' (map ?f (sort_key fst kvs')) @ CHR 0x7D # y"
      using JObj.prems(3) b by (simp add: canonicalize_JObj del: canonicalize.simps)
  qed (auto simp: quote_json_def)
  with b show ?case by (simp add: sort_key_map o_def)
qed

lemma sort_key_idem: "sort_key f (sort_key f xs) = sort_key f xs"
  by (rule sort_key_id_if_sorted) simp

lemma canonicalize_normalize: "canonicalize pr (normalize j) = canonicalize pr j"
proof (induction j rule: normalize.induct)
  case (6 kvs)
  let ?g = "\<lambda>kv. (fst kv, normalize (snd kv))"
  have "sort_key fst (map ?g kvs) = map ?g (sort_key fst kvs)"
    by (simp add: sort_key_map)
  moreover have "sort_key fst (map ?g (sort_key fst kvs)) = map ?g (sort_key fst kvs)"
    by (rule sort_key_id_if_sorted) (simp add: o_def)
  moreover have "map (\<lambda>kv. quote_json (fst kv) @ CHR '':'' # canonicalize pr (normalize (snd kv))) (sort_key fst kvs)
      = map (\<lambda>kv. quote_json (fst kv) @ CHR '':'' # canonicalize pr (snd kv)) (sort_key fst kvs)"
    by (rule map_cong) (use 6 in auto)
  ultimately show ?case by (simp only: normalize.simps canonicalize_JObj map_map o_def fst_conv snd_conv)
qed (auto simp: o_def cong: map_cong)

lemma canonicalize_eq_iff:
  assumes "number_printer pr"
  shows "canonicalize pr a = canonicalize pr b \<longleftrightarrow> normalize a = normalize b"
  using canonicalize_inj [OF assms, of "[]" "[]" a b] canonicalize_normalize [of pr a] canonicalize_normalize [of pr b]
  by (auto simp: delim_def)

end
