(* ===== verification/PolicyTemplates.thy ===== *)
theory PolicyTemplates
  imports Json Publisher
begin

text \<open>
  The policy templates: \<open>services/policy-service/src/templates.ts\<close>.  A definition is the JSON value of
  the request.  The schemas are the predicates the validation library checks; issue texts are not
  modelled, the verdict is.  \<open>continues\<close> says whether the library runs the refinement of an object
  although a string check in it has failed; a refinement that throws makes the validation throw.
  \<open>generatePolicy\<close> casts the definition to its type: a field of another type reads as absent here.
\<close>

subsection \<open>Amounts\<close>

definition STROOPS_PER_XLM :: int where
  "STROOPS_PER_XLM = 10000000"

definition DEFAULT_WINDOW_SECONDS :: rat where
  "DEFAULT_WINDOW_SECONDS = 60 * 60 * 24"

definition xlmToStroops :: "string \<Rightarrow> int option" where
  "xlmToStroops xlm =
     (let parts = split_on CHR ''.'' xlm;
          whole = parts ! 0;
          frac = (if length parts > 1 then parts ! 1 else []);
          fracPadded = take 7 (frac @ ''0000000'')
      in case js_BigInt whole of
           None \<Rightarrow> None
         | Some w \<Rightarrow> (case js_BigInt fracPadded of None \<Rightarrow> None | Some f \<Rightarrow> Some (w * STROOPS_PER_XLM + f)))"

definition digits :: "string \<Rightarrow> bool" where
  "digits s \<longleftrightarrow> s \<noteq> [] \<and> list_all is_digit s"

text \<open>\<open>/^\d+(\.\d{1,7})?$/\<close>\<close>

definition decimal_amount :: "string \<Rightarrow> bool" where
  "decimal_amount s =
     (case split_on CHR ''.'' s of
        [w] \<Rightarrow> digits w
      | [w, f] \<Rightarrow> digits w \<and> digits f \<and> length f \<le> 7
      | _ \<Rightarrow> False)"

definition positiveXlmAmount :: "string \<Rightarrow> bool" where
  "positiveXlmAmount s \<longleftrightarrow> decimal_amount s \<and> (case xlmToStroops s of None \<Rightarrow> False | Some n \<Rightarrow> n > 0)"

definition i128_max :: nat where
  "i128_max = 2 ^ 127 - 1"

definition baseUnits :: "string \<Rightarrow> bool" where
  "baseUnits s \<longleftrightarrow> digits s \<and> 1 \<le> parse_nat s \<and> parse_nat s \<le> i128_max"

definition is_int :: "rat \<Rightarrow> bool" where
  "is_int r \<longleftrightarrow> of_int \<lfloor>r\<rfloor> = r \<and> \<bar>r\<bar> \<le> 2 ^ 53 - 1"

definition windowSeconds_ok :: "rat \<Rightarrow> bool" where
  "windowSeconds_ok r \<longleftrightarrow> is_int r \<and> 1 \<le> r \<and> r \<le> 31536000"

subsection \<open>Schemas\<close>

definition base32_char :: "char \<Rightarrow> bool" where
  "base32_char c = (let n = of_char c :: nat in (65 \<le> n \<and> n \<le> 90) \<or> (50 \<le> n \<and> n \<le> 55))"

definition strkey :: "string \<Rightarrow> string \<Rightarrow> bool" where
  "strkey kinds s =
     (case s of [] \<Rightarrow> False | c # r \<Rightarrow> c \<in> set kinds \<and> length r = 55 \<and> list_all base32_char r)"

definition str_ok :: "(string \<Rightarrow> bool) \<Rightarrow> json \<Rightarrow> bool" where
  "str_ok P j = (case str_of j of None \<Rightarrow> False | Some s \<Rightarrow> P s)"

definition num_ok :: "(rat \<Rightarrow> bool) \<Rightarrow> json \<Rightarrow> bool" where
  "num_ok P j = (case num_of j of None \<Rightarrow> False | Some n \<Rightarrow> P n)"

definition arr_ok :: "(json list \<Rightarrow> bool) \<Rightarrow> json \<Rightarrow> bool" where
  "arr_ok P j = (case arr_of j of None \<Rightarrow> False | Some xs \<Rightarrow> P xs)"

definition required :: "json \<Rightarrow> string \<Rightarrow> (json \<Rightarrow> bool) \<Rightarrow> bool" where
  "required d k P = (case fld d k of None \<Rightarrow> False | Some v \<Rightarrow> P v)"

definition optional :: "json \<Rightarrow> string \<Rightarrow> (json \<Rightarrow> bool) \<Rightarrow> bool" where
  "optional d k P = (case fld d k of None \<Rightarrow> True | Some v \<Rightarrow> P v)"

definition strict :: "string list \<Rightarrow> json \<Rightarrow> bool" where
  "strict ks d = (case d of JObj kvs \<Rightarrow> list_all (\<lambda>kv. fst kv \<in> set ks) kvs | _ \<Rightarrow> False)"

definition address :: "json \<Rightarrow> bool" where
  "address = str_ok (strkey ''GC'')"

definition contractAddress :: "json \<Rightarrow> bool" where
  "contractAddress = str_ok (strkey ''C'')"

definition owners_ok :: "(nat \<Rightarrow> bool) \<Rightarrow> json \<Rightarrow> bool" where
  "owners_ok len = arr_ok (\<lambda>xs. list_all address xs \<and> len (length xs) \<and> distinct xs)"

text \<open>The fields every template has; \<open>ks\<close> are the further keys a template allows.\<close>

definition base_schema :: "string list \<Rightarrow> (nat \<Rightarrow> bool) \<Rightarrow> json \<Rightarrow> bool" where
  "base_schema ks len d \<longleftrightarrow>
     strict ([''version'', ''schemaVersion'', ''owners'', ''type''] @ ks) d
     \<and> required d ''version'' (\<lambda>v. v = JStr ''1'')
     \<and> optional d ''schemaVersion'' (num_ok (\<lambda>n. is_int n \<and> 1 \<le> n))
     \<and> required d ''owners'' (owners_ok len)"

definition MAX_RULE_ENTRIES :: nat where "MAX_RULE_ENTRIES = 8"

definition MAX_TRUSTED_PUBLISHERS :: nat where "MAX_TRUSTED_PUBLISHERS = 16"

definition cap_schema :: "json \<Rightarrow> bool" where
  "cap_schema j \<longleftrightarrow> strict [''token'', ''amountBaseUnits''] j \<and> required j ''token'' contractAddress
     \<and> required j ''amountBaseUnits'' (str_ok baseUnits)"

definition safetyRulesSchema :: "json \<Rightarrow> bool" where
  "safetyRulesSchema r \<longleftrightarrow>
     strict [''maxSingleTransfer'', ''allowedTokens''] r
     \<and> optional r ''maxSingleTransfer'' (arr_ok (\<lambda>xs. list_all cap_schema xs \<and> length xs \<le> MAX_RULE_ENTRIES
          \<and> distinct (map (\<lambda>x. str_fld x ''token'') xs)))
     \<and> optional r ''allowedTokens'' (arr_ok (\<lambda>xs. list_all contractAddress xs \<and> 1 \<le> length xs
          \<and> length xs \<le> MAX_RULE_ENTRIES \<and> distinct xs))"

definition tokenBudgetSchema :: "json \<Rightarrow> bool" where
  "tokenBudgetSchema b \<longleftrightarrow>
     strict [''token'', ''amountBaseUnits'', ''windowSeconds''] b
     \<and> required b ''token'' contractAddress \<and> required b ''amountBaseUnits'' (str_ok baseUnits)
     \<and> optional b ''windowSeconds'' (num_ok windowSeconds_ok)"

definition publisher_ok :: "(string \<Rightarrow> string option) \<Rightarrow> string \<Rightarrow> bool" where
  "publisher_ok pubid v =
     (let t = js_trim v in 1 \<le> length t \<and> length t \<le> 200 \<and> pubid t \<noteq> None)"

definition provenanceSchema :: "(string \<Rightarrow> string option) \<Rightarrow> json \<Rightarrow> bool" where
  "provenanceSchema pubid p =
     (if fld p ''mode'' = Some (JStr ''strict'') then strict [''mode''] p
      else if fld p ''mode'' = Some (JStr ''trusted_publishers'') then
        strict [''mode'', ''trustedPublishers''] p
        \<and> required p ''trustedPublishers'' (arr_ok (\<lambda>xs. list_all (str_ok (publisher_ok pubid)) xs
             \<and> 1 \<le> length xs \<and> length xs \<le> MAX_TRUSTED_PUBLISHERS))
      else False)"

text \<open>\<open>xlmToStroops(perTxXlm) <= xlmToStroops(dailyXlm)\<close>; \<open>None\<close> when it throws.\<close>

definition per_tx_within_daily :: "json \<Rightarrow> bool option" where
  "per_tx_within_daily sl =
     (case (str_fld sl ''perTxXlm'', str_fld sl ''dailyXlm'') of
        (Some p, Some d) \<Rightarrow>
          (case (xlmToStroops p, xlmToStroops d) of (Some m, Some n) \<Rightarrow> Some (m \<le> n) | _ \<Rightarrow> None)
      | _ \<Rightarrow> Some True)"

definition spendingLimitsSchema :: "json \<Rightarrow> bool" where
  "spendingLimitsSchema sl \<longleftrightarrow>
     strict [''dailyXlm'', ''perTxXlm''] sl
     \<and> optional sl ''dailyXlm'' (str_ok positiveXlmAmount) \<and> optional sl ''perTxXlm'' (str_ok positiveXlmAmount)
     \<and> (fld sl ''dailyXlm'' \<noteq> None \<or> fld sl ''perTxXlm'' \<noteq> None)
     \<and> per_tx_within_daily sl = Some True"

definition spendingLimits_throws :: "bool \<Rightarrow> json \<Rightarrow> bool" where
  "spendingLimits_throws continues sl \<longleftrightarrow>
     strict [''dailyXlm'', ''perTxXlm''] sl
     \<and> optional sl ''dailyXlm'' (str_ok (\<lambda>s. continues \<or> positiveXlmAmount s))
     \<and> optional sl ''perTxXlm'' (str_ok (\<lambda>s. continues \<or> positiveXlmAmount s))
     \<and> per_tx_within_daily sl = None"

subsection \<open>Templates\<close>

record safety_rules =
  maxSingleTransfer :: "(string \<times> string) list"
  allowedTokens :: "string list option"

record spending_constructor =
  dailyLimitStroops :: string
  sp_windowSeconds :: rat
  rules :: "safety_rules option"

record token_spending_constructor =
  token :: string
  dailyLimitBaseUnits :: string
  tk_windowSeconds :: rat

datatype provenance_mode = Strict | Trusted_publishers

record verified_recipient_constructor =
  registry_id :: string
  provenance_mode :: provenance_mode
  trustedPublisherIds :: "string list option"

datatype constructor_args =
    Spending_args spending_constructor
  | Token_args token_spending_constructor
  | Recipient_args verified_recipient_constructor

datatype enforcement =
    Policy_contract string "constructor_args option"
  | Signer_limits
  | No_enforcement
  | Custom_contract_pending

record policy_template =
  t_type :: string
  t_schemaVersion :: int
  t_schema :: "(string \<Rightarrow> string option) \<Rightarrow> json \<Rightarrow> bool"
  t_enforcement :: enforcement

definition SPENDING_POLICY_WASM_HASH :: string where
  "SPENDING_POLICY_WASM_HASH = ''c42ab9b52c977a3ba29ca3e848dda499e91180e0c01de86a7e21e241989fcbdf''"

definition VERIFIED_RECIPIENT_WASM_HASH :: string where
  "VERIFIED_RECIPIENT_WASM_HASH = ''ef07b922670bab0f2c15c48bc96a3af0d858250c785536dde3e49d6ead690def''"

definition TOKEN_SPENDING_POLICY_WASM_HASH :: string where
  "TOKEN_SPENDING_POLICY_WASM_HASH = ''7756ebbd6423a225692a529ca1294bc74e40bc7265184265dcd9bfc2e6a09c5e''"

definition ATTESTATION_REGISTRY_ID :: string where
  "ATTESTATION_REGISTRY_ID = ''CDYLXSYEE7CSPM3JTU52TODQWVUMDUZVFIDPEAVGDCBO7Q4YFKYHHR4W''"

definition single_owner :: policy_template where
  "single_owner = \<lparr>t_type = ''single_owner'', t_schemaVersion = 1,
     t_schema = (\<lambda>pubid d. required d ''type'' (\<lambda>v. v = JStr ''single_owner'') \<and> base_schema [] (\<lambda>n. n = 1) d),
     t_enforcement = No_enforcement\<rparr>"

definition multisig_threshold :: policy_template where
  "multisig_threshold = \<lparr>t_type = ''multisig_threshold'', t_schemaVersion = 1,
     t_schema = (\<lambda>pubid d. required d ''type'' (\<lambda>v. v = JStr ''multisig_threshold'')
        \<and> base_schema [''threshold''] (\<lambda>n. 2 \<le> n) d
        \<and> required d ''threshold'' (num_ok (\<lambda>t. is_int t \<and> 2 \<le> t
             \<and> (case arr_fld d ''owners'' of None \<Rightarrow> False | Some xs \<Rightarrow> t \<le> of_nat (length xs))))),
     t_enforcement = Signer_limits\<rparr>"

definition spending_limit :: policy_template where
  "spending_limit = \<lparr>t_type = ''spending_limit'', t_schemaVersion = 1,
     t_schema = (\<lambda>pubid d. required d ''type'' (\<lambda>v. v = JStr ''spending_limit'')
        \<and> base_schema [''spendingLimits'', ''safetyRules''] (\<lambda>n. 1 \<le> n) d
        \<and> required d ''spendingLimits'' spendingLimitsSchema \<and> optional d ''safetyRules'' safetyRulesSchema),
     t_enforcement = Policy_contract SPENDING_POLICY_WASM_HASH None\<rparr>"

definition token_spending_limit :: policy_template where
  "token_spending_limit = \<lparr>t_type = ''token_spending_limit'', t_schemaVersion = 1,
     t_schema = (\<lambda>pubid d. required d ''type'' (\<lambda>v. v = JStr ''token_spending_limit'')
        \<and> base_schema [''tokenBudget''] (\<lambda>n. 1 \<le> n) d \<and> required d ''tokenBudget'' tokenBudgetSchema),
     t_enforcement = Policy_contract TOKEN_SPENDING_POLICY_WASM_HASH None\<rparr>"

definition contract_allowlist :: policy_template where
  "contract_allowlist = \<lparr>t_type = ''contract_allowlist'', t_schemaVersion = 1,
     t_schema = (\<lambda>pubid d. required d ''type'' (\<lambda>v. v = JStr ''contract_allowlist'')
        \<and> base_schema [''allowlistedContracts''] (\<lambda>n. 1 \<le> n) d
        \<and> required d ''allowlistedContracts''
             (arr_ok (\<lambda>xs. list_all contractAddress xs \<and> 1 \<le> length xs \<and> distinct xs))),
     t_enforcement = Signer_limits\<rparr>"

definition verified_only :: policy_template where
  "verified_only = \<lparr>t_type = ''verified_only'', t_schemaVersion = 1,
     t_schema = (\<lambda>pubid d. required d ''type'' (\<lambda>v. v = JStr ''verified_only'')
        \<and> base_schema [''provenance''] (\<lambda>n. 1 \<le> n) d \<and> optional d ''provenance'' (provenanceSchema pubid)),
     t_enforcement = Policy_contract VERIFIED_RECIPIENT_WASM_HASH None\<rparr>"

definition timelock :: policy_template where
  "timelock = \<lparr>t_type = ''timelock'', t_schemaVersion = 1,
     t_schema = (\<lambda>pubid d. required d ''type'' (\<lambda>v. v = JStr ''timelock'')
        \<and> base_schema [''timelocks''] (\<lambda>n. 1 \<le> n) d
        \<and> required d ''timelocks'' (\<lambda>t. strict [''adminActionDelaySeconds''] t
             \<and> required t ''adminActionDelaySeconds'' (num_ok windowSeconds_ok))),
     t_enforcement = Custom_contract_pending\<rparr>"

definition templates :: "policy_template list" where
  "templates = [single_owner, multisig_threshold, spending_limit, token_spending_limit, contract_allowlist,
     verified_only, timelock]"

definition getTemplate :: "string \<Rightarrow> rat option \<Rightarrow> policy_template option" where
  "getTemplate ty v =
     (case v of
        Some n \<Rightarrow> find (\<lambda>t. t_type t = ty \<and> of_int (t_schemaVersion t) = n) templates
      | None \<Rightarrow>
          (case sort_key (\<lambda>t. - t_schemaVersion t) (filter (\<lambda>t. t_type t = ty) templates) of
             [] \<Rightarrow> None
           | t # _ \<Rightarrow> Some t))"

subsection \<open>Validation\<close>

datatype validation_error = NotAnObject | UnknownType | NoSuchVersion rat | SchemaIssues

datatype verdict = Valid | Invalid validation_error | Throws

definition parse_template :: "bool \<Rightarrow> (string \<Rightarrow> string option) \<Rightarrow> policy_template \<Rightarrow> json \<Rightarrow> verdict" where
  "parse_template continues pubid t d =
     (if t_type t = ''spending_limit''
         \<and> (case fld d ''spendingLimits'' of None \<Rightarrow> False | Some sl \<Rightarrow> spendingLimits_throws continues sl)
      then Throws
      else if t_schema t pubid d then Valid else Invalid SchemaIssues)"

definition validateDefinition ::
  "bool \<Rightarrow> (string \<Rightarrow> string option) \<Rightarrow> json \<Rightarrow> rat option \<Rightarrow> verdict" where
  "validateDefinition continues pubid d override =
     (if \<not> (case d of JObj _ \<Rightarrow> True | JArr _ \<Rightarrow> True | _ \<Rightarrow> False) then Invalid NotAnObject
      else
        (case str_fld d ''type'' of
           None \<Rightarrow> Invalid UnknownType
         | Some ty \<Rightarrow>
             (if ty = [] then Invalid UnknownType
              else
                (let requested = (case override of Some v \<Rightarrow> Some v | None \<Rightarrow> num_fld d ''schemaVersion'') in
                 case requested of
                   Some v \<Rightarrow>
                     (case getTemplate ty (Some v) of
                        None \<Rightarrow> Invalid (NoSuchVersion v)
                      | Some t \<Rightarrow> parse_template continues pubid t d)
                 | None \<Rightarrow>
                     (case getTemplate ty None of
                        None \<Rightarrow> Invalid UnknownType
                      | Some t \<Rightarrow> parse_template continues pubid t d)))))"

definition validateDeployedPolicy ::
  "bool \<Rightarrow> (string \<Rightarrow> string option) \<Rightarrow> json \<Rightarrow> rat option \<Rightarrow> verdict" where
  "validateDeployedPolicy continues pubid d recVersion =
     validateDefinition continues pubid d
       (case recVersion of Some v \<Rightarrow> Some v | None \<Rightarrow> num_fld d ''schemaVersion'')"

subsection \<open>Generation\<close>

datatype generate_error =
    UnknownPolicyType
  | NoCap
  | BadAmount
  | NoTokenBudget
  | UnattributablePublisher string

definition the_str :: "string option \<Rightarrow> string" where
  "the_str v = (case v of None \<Rightarrow> [] | Some s \<Rightarrow> s)"

definition strings_of :: "json list \<Rightarrow> string list" where
  "strings_of xs = map (\<lambda>x. the_str (str_of x)) xs"

definition deriveSafetyRules :: "json \<Rightarrow> safety_rules option" where
  "deriveSafetyRules d =
     (case fld d ''safetyRules'' of
        None \<Rightarrow> None
      | Some r \<Rightarrow>
          (let caps = (case arr_fld r ''maxSingleTransfer'' of None \<Rightarrow> [] | Some xs \<Rightarrow> xs);
               allowed = arr_fld r ''allowedTokens''
           in if caps = [] \<and> allowed = None then None
              else Some \<lparr>maxSingleTransfer =
                           map (\<lambda>c. (the_str (str_fld c ''token''), the_str (str_fld c ''amountBaseUnits''))) caps,
                         allowedTokens = map_option strings_of allowed\<rparr>))"

definition deriveSpendingConstructor :: "json \<Rightarrow> generate_error + spending_constructor" where
  "deriveSpendingConstructor d =
     (let limits = fld d ''spendingLimits'';
          capXlm = (case Option.bind limits (\<lambda>l. str_fld l ''dailyXlm'') of
                      Some c \<Rightarrow> Some c | None \<Rightarrow> Option.bind limits (\<lambda>l. str_fld l ''perTxXlm''))
      in if \<not> truthy capXlm then Inl NoCap
         else
           (case xlmToStroops (the capXlm) of
              None \<Rightarrow> Inl BadAmount
            | Some n \<Rightarrow> Inr \<lparr>dailyLimitStroops = show_int n, sp_windowSeconds = DEFAULT_WINDOW_SECONDS,
                             rules = deriveSafetyRules d\<rparr>))"

definition deriveTokenSpendingConstructor :: "json \<Rightarrow> generate_error + token_spending_constructor" where
  "deriveTokenSpendingConstructor d =
     (case fld d ''tokenBudget'' of
        None \<Rightarrow> Inl NoTokenBudget
      | Some b \<Rightarrow> Inr \<lparr>token = the_str (str_fld b ''token''),
                       dailyLimitBaseUnits = the_str (str_fld b ''amountBaseUnits''),
                       tk_windowSeconds = (case num_fld b ''windowSeconds'' of
                          None \<Rightarrow> DEFAULT_WINDOW_SECONDS | Some w \<Rightarrow> w)\<rparr>)"

fun publisher_ids :: "(string \<Rightarrow> string option) \<Rightarrow> string list \<Rightarrow> generate_error + string list" where
  "publisher_ids pubid [] = Inr []"
| "publisher_ids pubid (p # ps) =
     (case pubid p of
        None \<Rightarrow> Inl (UnattributablePublisher p)
      | Some i \<Rightarrow> res_bind (publisher_ids pubid ps) (\<lambda>is. Inr (i # is)))"

text \<open>\<open>[...new Set(ids)]\<close> keeps the first of equal elements.\<close>

definition set_order :: "'a list \<Rightarrow> 'a list" where
  "set_order xs = rev (remdups (rev xs))"

definition deriveVerifiedRecipientConstructor ::
  "(string \<Rightarrow> string option) \<Rightarrow> json \<Rightarrow> generate_error + verified_recipient_constructor" where
  "deriveVerifiedRecipientConstructor pubid d =
     (case fld d ''provenance'' of
        None \<Rightarrow> Inr \<lparr>registry_id = ATTESTATION_REGISTRY_ID, provenance_mode = Strict, trustedPublisherIds = None\<rparr>
      | Some p \<Rightarrow>
          (if str_fld p ''mode'' = Some ''trusted_publishers'' then
             res_bind (publisher_ids pubid (case arr_fld p ''trustedPublishers'' of None \<Rightarrow> [] | Some xs \<Rightarrow> strings_of xs))
               (\<lambda>ids. Inr \<lparr>registry_id = ATTESTATION_REGISTRY_ID, provenance_mode = Trusted_publishers,
                            trustedPublisherIds = Some (set_order ids)\<rparr>)
           else Inr \<lparr>registry_id = ATTESTATION_REGISTRY_ID, provenance_mode = Strict, trustedPublisherIds = None\<rparr>))"

record generated_policy =
  definition_of :: json
  policy_hash :: string
  manifest_template :: string
  manifest_schemaVersion :: int
  manifest_enforcement :: enforcement
  manifest_network :: network

definition policyHash :: "(string \<Rightarrow> string) \<Rightarrow> (rat \<Rightarrow> string) \<Rightarrow> json \<Rightarrow> string" where
  "policyHash sha256_hex pr d = sha256_hex (canonicalize pr d)"

definition with_version :: "int \<Rightarrow> json \<Rightarrow> json" where
  "with_version v d = (case d of JObj kvs \<Rightarrow> JObj (js_set ''schemaVersion'' (JNum (of_int v)) kvs) | _ \<Rightarrow> d)"

definition constructor_for ::
  "(string \<Rightarrow> string option) \<Rightarrow> json \<Rightarrow> string \<Rightarrow> generate_error + constructor_args option" where
  "constructor_for pubid d ty =
     (if ty = ''spending_limit'' then
        res_bind (deriveSpendingConstructor d) (\<lambda>c. Inr (Some (Spending_args c)))
      else if ty = ''token_spending_limit'' then
        res_bind (deriveTokenSpendingConstructor d) (\<lambda>c. Inr (Some (Token_args c)))
      else if ty = ''verified_only'' then
        res_bind (deriveVerifiedRecipientConstructor pubid d) (\<lambda>c. Inr (Some (Recipient_args c)))
      else Inr None)"

definition generatePolicy ::
  "(string \<Rightarrow> string option) \<Rightarrow> (string \<Rightarrow> string) \<Rightarrow> (rat \<Rightarrow> string) \<Rightarrow> json \<Rightarrow> network
     \<Rightarrow> generate_error + generated_policy" where
  "generatePolicy pubid sha256_hex pr d net =
     (let ty = the_str (str_fld d ''type'');
          version = (case num_fld d ''schemaVersion'' of None \<Rightarrow> 1 | Some v \<Rightarrow> v)
      in case getTemplate ty (Some version) of
           None \<Rightarrow> Inl UnknownPolicyType
         | Some t \<Rightarrow>
             res_bind
               (case t_enforcement t of
                  Policy_contract h args \<Rightarrow>
                    res_bind (constructor_for pubid d ty)
                      (\<lambda>c. Inr (Policy_contract h (case c of None \<Rightarrow> args | Some a \<Rightarrow> Some a)))
                | e \<Rightarrow> Inr e)
               (\<lambda>enf.
                  let d' = with_version (t_schemaVersion t) d
                  in Inr \<lparr>definition_of = d', policy_hash = policyHash sha256_hex pr d',
                          manifest_template = t_type t, manifest_schemaVersion = t_schemaVersion t,
                          manifest_enforcement = enf, manifest_network = net\<rparr>))"

subsection \<open>Validated definitions generate\<close>

lemmas schema_defs = required_def optional_def str_ok_def num_ok_def arr_ok_def str_fld_def num_fld_def arr_fld_def

lemma str_of_Some [simp]: "str_of j = Some s \<longleftrightarrow> j = JStr s" by (cases j) auto
lemma num_of_Some [simp]: "num_of j = Some n \<longleftrightarrow> j = JNum n" by (cases j) auto
lemma arr_of_Some [simp]: "arr_of j = Some xs \<longleftrightarrow> j = JArr xs" by (cases j) auto

lemma set_templates: "t \<in> set templates \<longleftrightarrow> t = single_owner \<or> t = multisig_threshold \<or> t = spending_limit
    \<or> t = token_spending_limit \<or> t = contract_allowlist \<or> t = verified_only \<or> t = timelock"
  by (auto simp: templates_def)

lemma template_versions: "t \<in> set templates \<Longrightarrow> t_schemaVersion t = 1"
  by (auto simp: templates_def single_owner_def multisig_threshold_def spending_limit_def token_spending_limit_def
        contract_allowlist_def verified_only_def timelock_def)

lemma template_types_distinct: "distinct (map t_type templates)"
  by (simp add: templates_def single_owner_def multisig_threshold_def spending_limit_def token_spending_limit_def
        contract_allowlist_def verified_only_def timelock_def)

lemma getTemplate_Some: "getTemplate ty v = Some t \<Longrightarrow> t \<in> set templates \<and> t_type t = ty"
proof (cases v)
  case None
  assume "getTemplate ty v = Some t"
  with None obtain ts where "sort_key (\<lambda>t. - t_schemaVersion t) (filter (\<lambda>t. t_type t = ty) templates) = t # ts"
    by (auto simp: getTemplate_def split: list.splits)
  then have "t \<in> set (filter (\<lambda>t. t_type t = ty) templates)" by (metis list.set_intros(1) set_sort)
  then show ?thesis by simp
next
  case (Some n)
  assume "getTemplate ty v = Some t"
  with Some show ?thesis by (auto simp: getTemplate_def find_Some_iff)
qed

lemma getTemplate_version: "getTemplate ty (Some n) = Some t \<Longrightarrow> n = 1"
  using getTemplate_Some [of ty "Some n" t] template_versions [of t]
  by (auto simp: getTemplate_def find_Some_iff)

lemma find_unique: "distinct (map f xs) \<Longrightarrow> t \<in> set xs \<Longrightarrow> (\<And>u. u \<in> set xs \<Longrightarrow> Q u) \<Longrightarrow> find (\<lambda>u. f u = f t \<and> Q u) xs = Some t"
  by (induction xs) (auto simp: image_iff)

lemma getTemplate_member: "t \<in> set templates \<Longrightarrow> getTemplate (t_type t) (Some 1) = Some t"
  using find_unique [OF template_types_distinct, of t "\<lambda>u. of_int (t_schemaVersion u) = (1::rat)"] template_versions
  by (simp add: getTemplate_def)

lemma valid_definition:
  assumes "validateDefinition continues pubid d None = Valid"
  shows "\<exists>t \<in> set templates. str_fld d ''type'' = Some (t_type t) \<and> t_schema t pubid d
     \<and> (case num_fld d ''schemaVersion'' of None \<Rightarrow> True | Some v \<Rightarrow> v = 1)"
proof -
  from assms obtain ty where ty: "str_fld d ''type'' = Some ty" "ty \<noteq> []"
    by (auto simp: validateDefinition_def split: if_splits option.splits)
  have "\<exists>t. getTemplate ty (num_fld d ''schemaVersion'') = Some t \<and> parse_template continues pubid t d = Valid"
    using assms ty by (auto simp: validateDefinition_def Let_def split: if_splits option.splits)
  then obtain t where t: "getTemplate ty (num_fld d ''schemaVersion'') = Some t"
    and "parse_template continues pubid t d = Valid" by blast
  then have "t_schema t pubid d" by (auto simp: parse_template_def split: if_splits)
  with getTemplate_Some [OF t] ty t getTemplate_version [of ty] show ?thesis
    by (auto split: option.split)
qed

text \<open>What the constructor arguments of a generated policy satisfy.\<close>

definition rules_ok :: "safety_rules \<Rightarrow> bool" where
  "rules_ok r \<longleftrightarrow>
     length (maxSingleTransfer r) \<le> MAX_RULE_ENTRIES \<and> distinct (map fst (maxSingleTransfer r))
     \<and> list_all (\<lambda>c. strkey ''C'' (fst c) \<and> baseUnits (snd c)) (maxSingleTransfer r)
     \<and> (case allowedTokens r of
          None \<Rightarrow> maxSingleTransfer r \<noteq> []
        | Some ts \<Rightarrow> ts \<noteq> [] \<and> length ts \<le> MAX_RULE_ENTRIES \<and> distinct ts \<and> list_all (strkey ''C'') ts)"

definition constructor_ok :: "constructor_args \<Rightarrow> bool" where
  "constructor_ok args =
     (case args of
        Spending_args c \<Rightarrow>
          digits (dailyLimitStroops c) \<and> 1 \<le> parse_nat (dailyLimitStroops c) \<and> sp_windowSeconds c = 86400
          \<and> (case rules c of None \<Rightarrow> True | Some r \<Rightarrow> rules_ok r)
      | Token_args c \<Rightarrow>
          strkey ''C'' (token c) \<and> baseUnits (dailyLimitBaseUnits c) \<and> windowSeconds_ok (tk_windowSeconds c)
      | Recipient_args c \<Rightarrow>
          registry_id c = ATTESTATION_REGISTRY_ID
          \<and> (case trustedPublisherIds c of
               None \<Rightarrow> provenance_mode c = Strict
             | Some ids \<Rightarrow> provenance_mode c = Trusted_publishers \<and> ids \<noteq> [] \<and> distinct ids
                 \<and> length ids \<le> MAX_TRUSTED_PUBLISHERS))"

lemma spending_limits_cap:
  assumes "spendingLimitsSchema sl"
  shows "\<exists>c n. (case str_fld sl ''dailyXlm'' of Some c \<Rightarrow> Some c | None \<Rightarrow> str_fld sl ''perTxXlm'') = Some c
     \<and> c \<noteq> [] \<and> xlmToStroops c = Some n \<and> 0 < n"
proof -
  have pos: "\<exists>n. s \<noteq> [] \<and> xlmToStroops s = Some n \<and> 0 < n" if "positiveXlmAmount s" for s
    using that by (auto simp: positiveXlmAmount_def decimal_amount_def digits_def split: option.splits)
  from assms show ?thesis
    by (auto simp: spendingLimitsSchema_def schema_defs split: option.splits dest: pos)
qed

lemma derive_rules_ok:
  assumes "safetyRulesSchema sr" "fld d ''safetyRules'' = Some sr" "deriveSafetyRules d = Some r"
  shows "rules_ok r"
proof -
  define caps where "caps = (case arr_fld sr ''maxSingleTransfer'' of None \<Rightarrow> [] | Some xs \<Rightarrow> xs)"
  define al where "al = arr_fld sr ''allowedTokens''"
  have c1: "list_all cap_schema caps" "length caps \<le> MAX_RULE_ENTRIES" "distinct (map (\<lambda>x. str_fld x ''token'') caps)"
    using assms(1) by (auto simp: caps_def safetyRulesSchema_def schema_defs split: option.splits)
  have a1: "case al of None \<Rightarrow> True | Some xs \<Rightarrow> list_all contractAddress xs \<and> 1 \<le> length xs \<and> length xs \<le> MAX_RULE_ENTRIES \<and> distinct xs"
    using assms(1) by (auto simp: al_def safetyRulesSchema_def schema_defs split: option.splits)
  have r: "r = \<lparr>maxSingleTransfer = map (\<lambda>c. (the_str (str_fld c ''token''), the_str (str_fld c ''amountBaseUnits''))) caps,
                 allowedTokens = map_option strings_of al\<rparr>" and ne: "caps \<noteq> [] \<or> al \<noteq> None"
    using assms(2,3) by (auto simp: deriveSafetyRules_def Let_def caps_def al_def split: if_splits)
  have cap: "\<exists>t a. str_fld x ''token'' = Some t \<and> strkey ''C'' t \<and> str_fld x ''amountBaseUnits'' = Some a \<and> baseUnits a"
    if "cap_schema x" for x
    using that by (auto simp: cap_schema_def contractAddress_def schema_defs split: option.splits)
  have "inj_on the_str ((\<lambda>x. str_fld x ''token'') ` set caps)"
    using c1(1) by (auto simp: inj_on_def list_all_iff the_str_def dest!: cap split: option.splits)
  then have d1: "distinct (map (\<lambda>c. the_str (str_fld c ''token'')) caps)"
    using c1(3) by (simp add: distinct_map inj_on_def)
  have l1: "list_all (\<lambda>c. strkey ''C'' (the_str (str_fld c ''token'')) \<and> baseUnits (the_str (str_fld c ''amountBaseUnits''))) caps"
    using c1(1) by (auto simp: list_all_iff the_str_def dest!: cap)
  have a2: "strings_of xs \<noteq> [] \<and> length (strings_of xs) \<le> MAX_RULE_ENTRIES \<and> distinct (strings_of xs) \<and> list_all (strkey ''C'') (strings_of xs)"
    if "al = Some xs" for xs
  proof -
    have xs: "list_all contractAddress xs" "1 \<le> length xs" "length xs \<le> MAX_RULE_ENTRIES" "distinct xs" using a1 that by auto
    then have e: "\<exists>s. x = JStr s \<and> strkey ''C'' s" if "x \<in> set xs" for x
      using that by (auto simp: list_all_iff contractAddress_def schema_defs split: option.splits)
    have "inj_on (\<lambda>x. the_str (str_of x)) (set xs)" by (auto simp: inj_on_def the_str_def dest!: e)
    then show ?thesis using xs e
      by (force simp: strings_of_def distinct_map list_all_iff the_str_def)
  qed
  show ?thesis unfolding rules_ok_def r using c1(2) d1 l1 a2 ne
    by (cases al) (simp_all add: list_all_iff o_def)
qed

lemma show_int_digits: "0 \<le> n \<Longrightarrow> digits (show_int n) \<and> int (parse_nat (show_int n)) = n"
  using show_nat_digits [of "nat n"] by (auto simp: show_int_def digits_def parse_show_nat)

lemma spending_args_ok:
  assumes "t_schema spending_limit pubid d"
  shows "\<exists>c. deriveSpendingConstructor d = Inr c \<and> constructor_ok (Spending_args c)"
proof -
  from assms obtain sl where sl: "fld d ''spendingLimits'' = Some sl" "spendingLimitsSchema sl"
    and sr: "optional d ''safetyRules'' safetyRulesSchema"
    by (auto simp: spending_limit_def required_def split: option.splits)
  from spending_limits_cap [OF sl(2)] obtain cap n where cap:
    "(case str_fld sl ''dailyXlm'' of Some c \<Rightarrow> Some c | None \<Rightarrow> str_fld sl ''perTxXlm'') = Some cap"
    "cap \<noteq> []" "xlmToStroops cap = Some n" "0 < n" by blast
  let ?c = "\<lparr>dailyLimitStroops = show_int n, sp_windowSeconds = DEFAULT_WINDOW_SECONDS, rules = deriveSafetyRules d\<rparr>"
  have "deriveSpendingConstructor d = Inr ?c"
    using sl(1) cap by (cases "str_fld sl ''dailyXlm''") (simp_all add: deriveSpendingConstructor_def Let_def)
  moreover have "rules_ok r" if "deriveSafetyRules d = Some r" for r
    using derive_rules_ok [of _ d r] that sr
    by (cases "fld d ''safetyRules''") (auto simp: optional_def deriveSafetyRules_def)
  then have "constructor_ok (Spending_args ?c)"
    using show_int_digits [of n] cap(4)
    by (auto simp: constructor_ok_def DEFAULT_WINDOW_SECONDS_def split: option.split)
  ultimately show ?thesis by blast
qed

lemma token_args_ok:
  assumes "t_schema token_spending_limit pubid d"
  shows "\<exists>c. deriveTokenSpendingConstructor d = Inr c \<and> constructor_ok (Token_args c)"
proof -
  from assms obtain b where b: "fld d ''tokenBudget'' = Some b" "tokenBudgetSchema b"
    by (auto simp: token_spending_limit_def required_def split: option.splits)
  from b(2) obtain t a where "str_fld b ''token'' = Some t" "strkey ''C'' t"
    "str_fld b ''amountBaseUnits'' = Some a" "baseUnits a"
    by (auto simp: tokenBudgetSchema_def contractAddress_def schema_defs split: option.splits)
  moreover have "num_fld b ''windowSeconds'' = Some w \<Longrightarrow> windowSeconds_ok w" for w
    using b(2) by (auto simp: tokenBudgetSchema_def schema_defs split: option.splits)
  ultimately show ?thesis using b(1)
    by (auto simp: deriveTokenSpendingConstructor_def constructor_ok_def the_str_def DEFAULT_WINDOW_SECONDS_def
          windowSeconds_ok_def is_int_def split: option.split)
qed

lemma publisher_ids_ok:
  "list_all (\<lambda>p. pubid p \<noteq> None) ps \<Longrightarrow> \<exists>ids. publisher_ids pubid ps = Inr ids \<and> length ids = length ps"
  by (induction ps) auto

lemma set_order_props: "distinct (set_order xs)" "length (set_order xs) \<le> length xs" "set_order xs = [] \<longleftrightarrow> xs = []"
  by (simp_all add: set_order_def) (metis length_remdups_leq length_rev)

lemma recipient_args_ok:
  assumes "t_schema verified_only (publisherIdFor h u) d"
  shows "\<exists>c. deriveVerifiedRecipientConstructor (publisherIdFor h u) d = Inr c \<and> constructor_ok (Recipient_args c)"
proof (cases "fld d ''provenance''")
  case None
  then show ?thesis by (simp add: deriveVerifiedRecipientConstructor_def constructor_ok_def)
next
  case (Some p)
  with assms have ps: "provenanceSchema (publisherIdFor h u) p"
    by (simp add: verified_only_def optional_def)
  show ?thesis
  proof (cases "str_fld p ''mode'' = Some ''trusted_publishers''")
    case False
    with Some show ?thesis by (simp add: deriveVerifiedRecipientConstructor_def constructor_ok_def)
  next
    case True
    then have m: "fld p ''mode'' = Some (JStr ''trusted_publishers'')"
      by (auto simp: str_fld_def split: bind_splits)
    with ps obtain xs where xs: "arr_fld p ''trustedPublishers'' = Some xs" "1 \<le> length xs" "length xs \<le> MAX_TRUSTED_PUBLISHERS"
      and ok: "list_all (str_ok (publisher_ok (publisherIdFor h u))) xs"
      by (auto simp: provenanceSchema_def required_def arr_ok_def arr_fld_def split: option.splits)
    have "list_all (\<lambda>s. publisherIdFor h u s \<noteq> None) (strings_of xs)"
      using ok by (auto simp: list_all_iff strings_of_def str_ok_def publisher_ok_def the_str_def Let_def split: option.splits)
    from publisher_ids_ok [OF this] obtain ids where ids: "publisher_ids (publisherIdFor h u) (strings_of xs) = Inr ids"
      "length ids = length xs" by (auto simp: strings_of_def)
    with xs have "set_order ids \<noteq> [] \<and> distinct (set_order ids) \<and> length (set_order ids) \<le> MAX_TRUSTED_PUBLISHERS"
      using set_order_props(2) [of ids] by (auto simp: set_order_props)
    with Some True xs ids show ?thesis by (simp add: deriveVerifiedRecipientConstructor_def constructor_ok_def)
  qed
qed

definition contract_enforced :: "string list" where
  "contract_enforced = [''spending_limit'', ''token_spending_limit'', ''verified_only'']"

text \<open>A definition that validates always generates: nothing throws, the manifest names the definition's type,
  version 1 and the requested network, the hash is that of the stored definition, and exactly the three
  contract-enforced types carry constructor arguments, which are within the bounds the contracts state
  (positive cap, 24 hour window, at most 8 rules without duplicates; a base-unit budget in the i128
  range; the pinned registry and at most 16 distinct publishers).\<close>

theorem validated_definition_generates:
  assumes "validateDefinition continues (publisherIdFor h u) d None = Valid"
  shows "\<exists>g. generatePolicy (publisherIdFor h u) sha pr d net = Inr g
     \<and> str_fld d ''type'' = Some (manifest_template g) \<and> manifest_schemaVersion g = 1 \<and> manifest_network g = net
     \<and> policy_hash g = policyHash sha pr (definition_of g)
     \<and> (case manifest_enforcement g of
          Policy_contract _ args \<Rightarrow> manifest_template g \<in> set contract_enforced
            \<and> (case args of None \<Rightarrow> False | Some a \<Rightarrow> constructor_ok a)
        | _ \<Rightarrow> manifest_template g \<notin> set contract_enforced)"
proof -
  let ?p = "publisherIdFor h u"
  from valid_definition [OF assms] obtain t where t: "t \<in> set templates" and ty: "str_fld d ''type'' = Some (t_type t)"
    and sch: "t_schema t ?p d" and v: "case num_fld d ''schemaVersion'' of None \<Rightarrow> True | Some v \<Rightarrow> v = 1" by blast
  have gt: "getTemplate (t_type t) (Some (case num_fld d ''schemaVersion'' of None \<Rightarrow> 1 | Some v \<Rightarrow> v)) = Some t"
    using v getTemplate_member [OF t] by (auto split: option.splits)
  note gen = generatePolicy_def Let_def ty the_str_def option.simps gt template_versions [OF t]
  from t consider "t = spending_limit" | "t = token_spending_limit" | "t = verified_only"
    | "t_type t \<notin> set contract_enforced" "\<forall>x y. t_enforcement t \<noteq> Policy_contract x y"
    by (auto simp: set_templates contract_enforced_def single_owner_def multisig_threshold_def contract_allowlist_def timelock_def)
  then show ?thesis
  proof cases
    case 1
    with spending_args_ok sch obtain c where "deriveSpendingConstructor d = Inr c" "constructor_ok (Spending_args c)" by blast
    then show ?thesis by (simp only: gen) (simp add: 1 spending_limit_def constructor_for_def contract_enforced_def)
  next
    case 2
    with token_args_ok sch obtain c where "deriveTokenSpendingConstructor d = Inr c" "constructor_ok (Token_args c)" by blast
    then show ?thesis by (simp only: gen) (simp add: 2 token_spending_limit_def constructor_for_def contract_enforced_def)
  next
    case 3
    with recipient_args_ok sch obtain c where "deriveVerifiedRecipientConstructor ?p d = Inr c" "constructor_ok (Recipient_args c)" by blast
    then show ?thesis by (simp only: gen) (simp add: 3 verified_only_def constructor_for_def contract_enforced_def)
  next
    case 4
    then show ?thesis by (simp only: gen) (cases "t_enforcement t"; simp)
  qed
qed

definition example_address :: string where
  "example_address = CHR ''C'' # replicate 55 CHR ''A''"

definition example_definition :: "string \<Rightarrow> json" where
  "example_definition cap = JObj [(''version'', JStr ''1''), (''type'', JStr ''spending_limit''),
     (''owners'', JArr [JStr example_address]), (''spendingLimits'', JObj [(''dailyXlm'', JStr cap)])]"

lemma base32_replicate [simp]: "list_all base32_char (replicate n CHR ''A'')"
  by (simp add: list_all_iff base32_char_def)

lemmas example_eval = example_definition_def example_address_def validateDefinition_def Let_def schema_defs getTemplate_def
  templates_def single_owner_def multisig_threshold_def spending_limit_def token_spending_limit_def contract_allowlist_def
  verified_only_def timelock_def parse_template_def base_schema_def strict_def owners_ok_def address_def strkey_def
  base32_char_def spendingLimitsSchema_def spendingLimits_throws_def per_tx_within_daily_def positiveXlmAmount_def
  decimal_amount_def digits_def is_digit_def xlmToStroops_def js_BigInt_def js_trim_def is_space_def starts_with_def
  to_lower_def lower_char_def radix_digits_def parse_nat_def STROOPS_PER_XLM_def

theorem validated_definition_generates_witness:
  "\<exists>g. generatePolicy (publisherIdFor id (\<lambda>_. None)) id (\<lambda>_. ''0'') (example_definition ''12.5'') Testnet = Inr g
     \<and> manifest_template g = ''spending_limit''"
proof -
  have "validateDefinition True (publisherIdFor id (\<lambda>_. None)) (example_definition ''12.5'') None = Valid"
    by (simp add: example_eval)
  from validated_definition_generates [OF this, of id "\<lambda>_. ''0''" Testnet]
  show ?thesis by (auto simp: example_definition_def str_fld_def)
qed

text \<open>A definition whose limits are both set and one of them malformed makes the validation throw
  instead of answering with errors, when refinements run after a failed string check.\<close>

theorem malformed_limit_throws:
  "validateDefinition True pubid
     (JObj [(''version'', JStr ''1''), (''type'', JStr ''spending_limit''), (''owners'', JArr [JStr example_address]),
            (''spendingLimits'', JObj [(''dailyXlm'', JStr ''abc''), (''perTxXlm'', JStr ''1'')])]) None = Throws"
  by (simp add: example_eval)

subsection \<open>Amounts\<close>

text \<open>The value a decimal amount denotes.\<close>

definition decimal_value :: "string \<Rightarrow> rat" where
  "decimal_value s =
     (case split_on CHR ''.'' s of
        [w, f] \<Rightarrow> of_nat (parse_nat w) + of_nat (parse_nat f) / 10 ^ length f
      | _ \<Rightarrow> of_nat (parse_nat s))"

lemma foldl_digits: "foldl (\<lambda>n c. 10 * n + (of_char c - 48)) a s = a * 10 ^ length s + parse_nat s" for a :: nat
proof (induction s arbitrary: a)
  case (Cons c s)
  from Cons [of "10 * a + (of_char c - 48)"] Cons [of "of_char c - 48"] show ?case
    by (simp add: parse_nat_def algebra_simps)
qed (simp add: parse_nat_def)

lemma parse_nat_append: "parse_nat (s @ t) = parse_nat s * 10 ^ length t + parse_nat t"
  using foldl_digits [of "parse_nat s" t] by (simp add: parse_nat_def)

lemma parse_nat_zeros: "parse_nat (replicate k CHR ''0'') = 0"
proof (induction k)
  case (Suc k)
  have "replicate (Suc k) CHR ''0'' = [CHR ''0''] @ replicate k CHR ''0''" by simp
  with Suc show ?case by (simp only: parse_nat_append) (simp add: parse_nat_def)
qed (simp add: parse_nat_def)

lemma split_on_single: "split_on d s = [w] \<Longrightarrow> w = s"
proof (induction s arbitrary: w)
  case (Cons c s)
  then show ?case by (cases "split_on d s") (auto split: if_splits)
qed simp

text \<open>Every amount the schema accepts is converted to stroops exactly: no rounding and no throw, for whole
  amounts and for up to seven decimals.\<close>

theorem xlmToStroops_exact:
  assumes "decimal_amount s"
  shows "\<exists>n. xlmToStroops s = Some n \<and> of_int n = decimal_value s * 10000000"
proof -
  have zeros: "''0000000'' = replicate 7 CHR ''0''" by (simp add: numeral_eq_Suc)
  have pad: "take 7 (f @ ''0000000'') = f @ replicate (7 - length f) CHR ''0''" if "length f \<le> 7" for f
    using that by (simp only: zeros take_append take_all) (simp add: take_replicate min_def)
  have big: "js_BigInt (f @ replicate k CHR ''0'') = Some (int (parse_nat f * 10 ^ k))" if "digits f" for f k
  proof -
    have "list_all is_digit (f @ replicate k CHR ''0'')" using that
      by (auto simp: digits_def list_all_iff is_digit_def)
    with that show ?thesis
      by (simp add: js_BigInt_digits digits_def parse_nat_append parse_nat_zeros)
  qed
  from assms consider w where "split_on CHR ''.'' s = [w]" "digits w"
    | w f where "split_on CHR ''.'' s = [w, f]" "digits w" "digits f" "length f \<le> 7"
    by (auto simp: decimal_amount_def split: list.splits)
  then show ?thesis
  proof cases
    case (1 w)
    have "take 7 ([] @ ''0000000'') = ''0000000''" by simp
    moreover have "js_BigInt ''0000000'' = Some 0" using js_BigInt_digits [of "''0000000''"]
      by (simp add: is_digit_def parse_nat_def)
    ultimately show ?thesis using 1 big [of w 0] split_on_single [OF 1(1)]
      by (simp add: xlmToStroops_def decimal_value_def STROOPS_PER_XLM_def)
  next
    case (2 w f)
    define k where "k = 7 - length f"
    have "take 7 (f @ ''0000000'') = f @ replicate k CHR ''0''" using pad [OF 2(4)] by (simp add: k_def)
    then have x: "xlmToStroops s = Some (int (parse_nat w) * 10000000 + int (parse_nat f * 10 ^ k))"
      using 2 big [of f k] big [of w 0] by (simp add: xlmToStroops_def STROOPS_PER_XLM_def)
    have "(10::rat) ^ 7 = 10 ^ length f * 10 ^ k" using 2(4) by (simp add: k_def flip: power_add)
    then have "(10000000 :: rat) = 10 ^ length f * 10 ^ k" by simp
    with x 2(1) show ?thesis by (auto simp: decimal_value_def field_simps)
  qed
qed

theorem xlmToStroops_exact_witness: "\<exists>n. xlmToStroops ''12.5'' = Some n \<and> of_int n = decimal_value ''12.5'' * 10000000"
  by (rule xlmToStroops_exact) (simp add: decimal_amount_def digits_def is_digit_def)

text \<open>The schema bounds token amounts by the i128 range of the contracts but not the XLM caps: a spending
  limit beyond it validates and is generated.\<close>

theorem validated_cap_exceeds_i128:
  "validateDefinition continues pubid (example_definition ''99999999999999999999999999999999'') None = Valid
   \<and> (case deriveSpendingConstructor (example_definition ''99999999999999999999999999999999'') of
        Inl _ \<Rightarrow> False | Inr c \<Rightarrow> i128_max < parse_nat (dailyLimitStroops c))"
proof
  show "validateDefinition continues pubid (example_definition ''99999999999999999999999999999999'') None = Valid"
    by (simp add: example_eval)
  have x: "xlmToStroops ''99999999999999999999999999999999'' = Some 999999999999999999999999999999990000000"
    by (simp add: example_eval)
  have "deriveSpendingConstructor (example_definition ''99999999999999999999999999999999'')
      = Inr \<lparr>dailyLimitStroops = show_int 999999999999999999999999999999990000000,
             sp_windowSeconds = DEFAULT_WINDOW_SECONDS, rules = None\<rparr>"
    by (simp add: deriveSpendingConstructor_def example_definition_def schema_defs x deriveSafetyRules_def)
  moreover have "i128_max < parse_nat (show_int 999999999999999999999999999999990000000)"
    by (simp add: show_int_def parse_show_nat i128_max_def)
  ultimately show "case deriveSpendingConstructor (example_definition ''99999999999999999999999999999999'') of
        Inl _ \<Rightarrow> False | Inr c \<Rightarrow> i128_max < parse_nat (dailyLimitStroops c)"
    by simp
qed

subsection \<open>The policy hash\<close>

text \<open>Two definitions have the same policy hash exactly when they are equal up to the order of object keys,
  provided the digest has no collision and numbers print faithfully: no part of a policy is invisible
  to its hash.\<close>

theorem policyHash_determines_definition:
  assumes "inj sha" "number_printer pr"
  shows "policyHash sha pr a = policyHash sha pr b \<longleftrightarrow> normalize a = normalize b"
  by (simp only: policyHash_def inj_eq [OF assms(1)] canonicalize_eq_iff [OF assms(2)])

definition show_rat :: "rat \<Rightarrow> string" where
  "show_rat r = show_int (fst (quotient_of r)) @ CHR ''e'' # show_nat (nat (snd (quotient_of r)))"

lemma show_rat_printer: "number_printer show_rat"
proof -
  have e: "CHR ''e'' \<notin> set (show_int i)" for i using show_int_chars [of "CHR ''e''" i] by (auto simp: is_digit_def)
  have "r = s" if eq: "show_rat r = show_rat s" for r s
  proof -
    have tw: "takeWhile (\<lambda>c. c \<noteq> CHR ''e'') (show_int i @ CHR ''e'' # z) = show_int i
            \<and> dropWhile (\<lambda>c. c \<noteq> CHR ''e'') (show_int i @ CHR ''e'' # z) = CHR ''e'' # z" for i z
      using e [of i] by (auto simp: takeWhile_append dropWhile_append)
    from eq tw have "show_int (fst (quotient_of r)) = show_int (fst (quotient_of s))"
      "show_nat (nat (snd (quotient_of r))) = show_nat (nat (snd (quotient_of s)))"
      unfolding show_rat_def by (metis, metis list.inject)
    then have "fst (quotient_of r) = fst (quotient_of s)" "nat (snd (quotient_of r)) = nat (snd (quotient_of s))"
      by (simp add: show_int_inj) (metis parse_show_nat \<open>show_nat _ = show_nat _\<close>)
    then show ?thesis using quotient_of_denom_pos' [of r] quotient_of_denom_pos' [of s]
      by (intro quotient_of_inject) (auto simp: prod_eq_iff)
  qed
  moreover have "show_rat r \<noteq> [] \<and> list_all number_char (show_rat r) \<and> hd (show_rat r) \<noteq> CHR ''e''" for r
  proof -
    have "show_int i \<noteq> []" for i using show_nat_digits by (auto simp: show_int_def)
    then have "hd (show_rat r) \<in> set (show_int (fst (quotient_of r)))" by (simp add: show_rat_def)
    moreover have "list_all number_char (show_rat r)"
      using show_nat_digits [of "nat (snd (quotient_of r))"]
      by (auto simp: show_rat_def list_all_iff number_char_def dest: show_int_chars)
    ultimately show ?thesis using e by (auto simp: show_rat_def)
  qed
  ultimately show ?thesis by (auto simp: number_printer_def intro: injI)
qed

theorem policyHash_determines_definition_witness:
  "policyHash id show_rat (JObj [(''a'', JNum 1), (''b'', JNull)]) = policyHash id show_rat (JObj [(''b'', JNull), (''a'', JNum 1)])
   \<and> policyHash id show_rat (JObj [(''a'', JNum 1)]) \<noteq> policyHash id show_rat (JObj [(''a'', JNum 2)])"
  unfolding policyHash_determines_definition [OF inj_on_id show_rat_printer] by (simp add: sort_key_def)

end
