(* ===== verification/PolicyDeploy.thy ===== *)
theory PolicyDeploy
  imports PolicyTemplates
begin

text \<open>
  Building and submitting the instance of a policy contract: \<open>services/policy-service/src/deploy.ts\<close>.
  What the Stellar SDK decides is the argument \<open>sdk\<close>: the raw bytes of an address (none when it does not
  decode) and which numbers fit an i128 or a u64.  The answers of the RPC node are arguments too: every
  call may time out, fail or answer, and the polls are the list of answers with the clock after each.
  The salt and the signature of the transaction are not modelled.
\<close>

subsection \<open>Constructor arguments\<close>

datatype scval =
    ScAddress string
  | ScI128 int
  | ScU64 rat
  | ScBytes "nat list"
  | ScSymbol string
  | ScVoid
  | ScVec "scval list"
  | ScMap "(scval \<times> scval) list"

record sdk =
  addr_bytes :: "string \<Rightarrow> nat list option"
  i128_ok :: "int \<Rightarrow> bool"
  u64_ok :: "rat \<Rightarrow> bool"

text \<open>\<open>None\<close> is a thrown error.\<close>

definition addressVal :: "sdk \<Rightarrow> string \<Rightarrow> scval option" where
  "addressVal S a = (case addr_bytes S a of None \<Rightarrow> None | Some _ \<Rightarrow> Some (ScAddress a))"

definition i128Val :: "sdk \<Rightarrow> string \<Rightarrow> scval option" where
  "i128Val S amount =
     (case js_BigInt amount of None \<Rightarrow> None | Some n \<Rightarrow> if i128_ok S n then Some (ScI128 n) else None)"

definition u64Val :: "sdk \<Rightarrow> rat \<Rightarrow> scval option" where
  "u64Val S n = (if u64_ok S n then Some (ScU64 n) else None)"

fun all_or_throw :: "('a \<Rightarrow> 'b option) \<Rightarrow> 'a list \<Rightarrow> 'b list option" where
  "all_or_throw f [] = Some []"
| "all_or_throw f (x # xs) =
     (case f x of None \<Rightarrow> None | Some y \<Rightarrow> (case all_or_throw f xs of None \<Rightarrow> None | Some ys \<Rightarrow> Some (y # ys)))"

definition sortedByContractId :: "sdk \<Rightarrow> (string \<times> string) list \<Rightarrow> (string \<times> string) list" where
  "sortedByContractId S xs = sort_key (\<lambda>e. the (addr_bytes S (fst e))) xs"

definition cap_entry :: "sdk \<Rightarrow> string \<times> string \<Rightarrow> (scval \<times> scval) option" where
  "cap_entry S = (\<lambda>(tok, amount).
     (case (addressVal S tok, i128Val S amount) of (Some k, Some v) \<Rightarrow> Some (k, v) | _ \<Rightarrow> None))"

definition safetyRulesScVal :: "sdk \<Rightarrow> safety_rules option \<Rightarrow> scval option" where
  "safetyRulesScVal S r =
     (let caps = (case r of None \<Rightarrow> [] | Some rs \<Rightarrow> maxSingleTransfer rs);
          allowed = (case r of None \<Rightarrow> None | Some rs \<Rightarrow> allowedTokens rs)
      in case (case allowed of
                 None \<Rightarrow> Some ScVoid
               | Some ts \<Rightarrow> map_option ScVec (all_or_throw (addressVal S) ts)) of
           None \<Rightarrow> None
         | Some al \<Rightarrow>
             (case all_or_throw (cap_entry S) (sortedByContractId S caps) of
                None \<Rightarrow> None
              | Some es \<Rightarrow> Some (ScMap [(ScSymbol ''allowed_tokens'', al),
                                     (ScSymbol ''max_single_transfer'', ScMap es)])))"

definition publisher_bytes :: "string \<Rightarrow> scval option" where
  "publisher_bytes h = (let bytes = hex_decode h in if length bytes \<noteq> 32 then None else Some (ScBytes bytes))"

definition provenanceModeScVal :: "verified_recipient_constructor \<Rightarrow> scval option" where
  "provenanceModeScVal args =
     (if provenance_mode args = Trusted_publishers then
        map_option (\<lambda>ids. ScVec [ScSymbol ''TrustedPublishers'', ScVec ids])
          (all_or_throw publisher_bytes (case trustedPublisherIds args of None \<Rightarrow> [] | Some ids \<Rightarrow> ids))
      else Some (ScVec [ScSymbol ''Strict'']))"

definition constructorScVals :: "sdk \<Rightarrow> string \<Rightarrow> constructor_args \<Rightarrow> scval list option" where
  "constructorScVals S wallet args =
     (case addressVal S wallet of
        None \<Rightarrow> None
      | Some w \<Rightarrow>
          map_option (Cons w)
            (case args of
               Recipient_args c \<Rightarrow>
                 (case (addressVal S (registry_id c), provenanceModeScVal c) of
                    (Some r, Some m) \<Rightarrow> Some [r, m] | _ \<Rightarrow> None)
             | Token_args c \<Rightarrow>
                 (case (addressVal S (token c), i128Val S (dailyLimitBaseUnits c), u64Val S (tk_windowSeconds c)) of
                    (Some t, Some l, Some w) \<Rightarrow> Some [t, l, w] | _ \<Rightarrow> None)
             | Spending_args c \<Rightarrow>
                 (case (i128Val S (dailyLimitStroops c), u64Val S (sp_windowSeconds c), safetyRulesScVal S (rules c)) of
                    (Some l, Some w, Some r) \<Rightarrow> Some [l, w, r] | _ \<Rightarrow> None)))"

subsection \<open>Submission\<close>

text \<open>\<open>PolicyDeployError\<close> with its code, or another error.\<close>

datatype deploy_error = PolicyDeployError string | OtherError

datatype 'a reply = TimedOut | CallFailed | Answer 'a

definition withTimeoutError :: "'a reply \<Rightarrow> string \<Rightarrow> deploy_error + 'a" where
  "withTimeoutError r code =
     (case r of
        TimedOut \<Rightarrow> Inl (PolicyDeployError ''deploy_rpc_timeout'')
      | CallFailed \<Rightarrow> Inl (PolicyDeployError code)
      | Answer a \<Rightarrow> Inr a)"

datatype tx_status = Tx_success "string option" | Tx_failed | Tx_pending

record rpc_answers =
  getAccount :: "unit reply"
  simulateTransaction :: "(string + string) reply"
  prepareTransaction :: "unit reply"
  sendTransaction :: "(bool \<times> string) reply"
  getTransaction :: "(tx_status reply \<times> instant) list"

definition buildDeployTx :: "sdk \<Rightarrow> rpc_answers \<Rightarrow> string \<Rightarrow> constructor_args \<Rightarrow> deploy_error + scval list" where
  "buildDeployTx S rpc wallet args =
     res_bind (withTimeoutError (getAccount rpc) ''sponsor_load_failed'') (\<lambda>_.
       (case constructorScVals S wallet args of None \<Rightarrow> Inl OtherError | Some vs \<Rightarrow> Inr vs))"

record simulate_result =
  sim_ok :: bool
  minResourceFee :: "string option"

definition simulateInstance ::
  "sdk \<Rightarrow> rpc_answers \<Rightarrow> string \<Rightarrow> constructor_args \<Rightarrow> deploy_error + simulate_result" where
  "simulateInstance S rpc wallet args =
     (case buildDeployTx S rpc wallet args of
        Inl _ \<Rightarrow> Inr \<lparr>sim_ok = False, minResourceFee = None\<rparr>
      | Inr _ \<Rightarrow>
          res_bind (withTimeoutError (simulateTransaction rpc) ''deploy_simulation_rpc_failed'') (\<lambda>sim.
            (case sim of
               Inl _ \<Rightarrow> Inr \<lparr>sim_ok = False, minResourceFee = None\<rparr>
             | Inr fee \<Rightarrow> Inr \<lparr>sim_ok = True, minResourceFee = Some fee\<rparr>)))"

text \<open>The poll loop; \<open>None\<close> when the listed answers run out while it still waits.\<close>

fun poll :: "instant \<Rightarrow> string \<Rightarrow> (tx_status reply \<times> instant) list \<Rightarrow> (deploy_error + string \<times> string) option" where
  "poll deadline hash [] = None"
| "poll deadline hash ((r, now) # rest) =
     (case withTimeoutError r ''deploy_status_rpc_failed'' of
        Inl e \<Rightarrow> Some (Inl e)
      | Inr status \<Rightarrow>
          (case status of
             Tx_success cid \<Rightarrow>
               (case cid of
                  None \<Rightarrow> Some (Inl (PolicyDeployError ''deploy_no_contract_id''))
                | Some c \<Rightarrow> Some (Inr (c, hash)))
           | Tx_failed \<Rightarrow> Some (Inl (PolicyDeployError ''deploy_failed''))
           | Tx_pending \<Rightarrow>
               (if now > deadline then Some (Inl (PolicyDeployError ''deploy_timeout''))
                else poll deadline hash rest)))"

definition deployInstance ::
  "sdk \<Rightarrow> int \<Rightarrow> rpc_answers \<Rightarrow> instant \<Rightarrow> string \<Rightarrow> constructor_args \<Rightarrow> (deploy_error + string \<times> string) option" where
  "deployInstance S pollTimeoutMs rpc now wallet args =
     (case buildDeployTx S rpc wallet args of
        Inl e \<Rightarrow> Some (Inl e)
      | Inr _ \<Rightarrow>
          (case withTimeoutError (prepareTransaction rpc) ''deploy_simulation_failed'' of
             Inl e \<Rightarrow> Some (Inl e)
           | Inr _ \<Rightarrow>
               (case withTimeoutError (sendTransaction rpc) ''deploy_submit_rpc_failed'' of
                  Inl e \<Rightarrow> Some (Inl e)
                | Inr (err, hash) \<Rightarrow>
                    (if err then Some (Inl (PolicyDeployError ''deploy_submit_failed''))
                     else poll (now + pollTimeoutMs) hash (getTransaction rpc)))))"

subsection \<open>The encoded rules\<close>

lemma all_or_throw_eq:
  "all_or_throw f xs = (if \<forall>x\<in>set xs. f x \<noteq> None then Some (map (\<lambda>x. the (f x)) xs) else None)"
  by (induction xs) (auto split: option.splits)

lemma all_or_throw_Some: "all_or_throw f xs = Some ys \<longleftrightarrow> (\<forall>x\<in>set xs. f x \<noteq> None) \<and> ys = map (\<lambda>x. the (f x)) xs"
  by (auto simp: all_or_throw_eq)

definition key_bytes :: "sdk \<Rightarrow> scval \<Rightarrow> nat list" where
  "key_bytes S k = (case k of ScAddress a \<Rightarrow> the (addr_bytes S a) | _ \<Rightarrow> [])"

lemma cap_entry_Some:
  "cap_entry S e = Some kv \<longleftrightarrow>
     addr_bytes S (fst e) \<noteq> None \<and> (\<exists>n. js_BigInt (snd e) = Some n \<and> i128_ok S n \<and> kv = (ScAddress (fst e), ScI128 n))"
  by (cases e) (auto simp: cap_entry_def addressVal_def i128Val_def split: option.splits if_splits)

text \<open>The caps of the safety rules are encoded as a map whose keys ascend strictly by raw address bytes, as
  the host requires, with exactly one entry per rule carrying its token and amount.\<close>

theorem safety_rules_encoded_sorted:
  assumes "rules_ok r" and "inj_on (addr_bytes S) (fst ` set (maxSingleTransfer r))"
    and "safetyRulesScVal S (Some r) = Some v"
  shows "\<exists>al es. v = ScMap [(ScSymbol ''allowed_tokens'', al), (ScSymbol ''max_single_transfer'', ScMap es)]
     \<and> sorted_wrt (<) (map (\<lambda>e. key_bytes S (fst e)) es)
     \<and> set es = (\<lambda>c. (ScAddress (fst c), ScI128 (int (parse_nat (snd c))))) ` set (maxSingleTransfer r)"
proof -
  let ?caps = "maxSingleTransfer r" and ?key = "\<lambda>e. the (addr_bytes S (fst e))"
  from assms(3) obtain al es where v: "v = ScMap [(ScSymbol ''allowed_tokens'', al), (ScSymbol ''max_single_transfer'', ScMap es)]"
    and e: "\<forall>c \<in> set ?caps. cap_entry S c \<noteq> None" "es = map (\<lambda>c. the (cap_entry S c)) (sort_key ?key ?caps)"
    by (auto simp: safetyRulesScVal_def Let_def sortedByContractId_def all_or_throw_Some split: option.splits)
  have big: "js_BigInt (snd c) = Some (int (parse_nat (snd c)))" if "c \<in> set ?caps" for c
    using assms(1) that js_BigInt_digits [of "snd c"] by (auto simp: rules_ok_def list_all_iff baseUnits_def digits_def)
  have dec: "\<exists>b. addr_bytes S (fst c) = Some b" and ent: "cap_entry S c = Some (ScAddress (fst c), ScI128 (int (parse_nat (snd c))))"
    if "c \<in> set ?caps" for c
    using bspec [OF e(1) that] big [OF that] by (auto simp: cap_entry_Some)
  have es: "es = map (\<lambda>c. (ScAddress (fst c), ScI128 (int (parse_nat (snd c))))) (sort_key ?key ?caps)"
    unfolding e(2) by (rule map_cong) (simp_all add: ent)
  have "distinct (map fst ?caps)" using assms(1) by (simp add: rules_ok_def)
  then have d: "distinct ?caps" "inj_on fst (set ?caps)" by (simp_all add: distinct_map)
  have "inj_on ?key (set ?caps)"
  proof (rule inj_onI)
    fix x y assume x: "x \<in> set ?caps" and y: "y \<in> set ?caps" and "?key x = ?key y"
    with dec [OF x] dec [OF y] have "addr_bytes S (fst x) = addr_bytes S (fst y)" by auto
    with assms(2) x y have "fst x = fst y" by (auto dest: inj_onD)
    with d(2) x y show "x = y" by (auto dest: inj_onD)
  qed
  with d(1) have "distinct (map ?key (sort_key ?key ?caps))" by (simp add: distinct_map)
  moreover have "sorted (map ?key (sort_key ?key ?caps))" by simp
  ultimately have "sorted_wrt (<) (map ?key (sort_key ?key ?caps))" by (simp add: strict_sorted_iff)
  then have "sorted_wrt (<) (map (\<lambda>e. key_bytes S (fst e)) es)"
    by (simp add: es key_bytes_def o_def)
  with v es show ?thesis by auto
qed

definition example_sdk :: sdk where
  "example_sdk = \<lparr>addr_bytes = (\<lambda>a. Some (map of_char a)), i128_ok = (\<lambda>n. n < 2 ^ 127), u64_ok = (\<lambda>_. True)\<rparr>"

definition example_rules :: safety_rules where
  "example_rules = \<lparr>maxSingleTransfer = [(CHR ''C'' # replicate 55 CHR ''B'', ''7''), (example_address, ''5'')],
                    allowedTokens = None\<rparr>"

theorem safety_rules_encoded_sorted_witness:
  "\<exists>v al es. safetyRulesScVal example_sdk (Some example_rules) = Some v
     \<and> v = ScMap [(ScSymbol ''allowed_tokens'', al), (ScSymbol ''max_single_transfer'', ScMap es)]
     \<and> sorted_wrt (<) (map (\<lambda>e. key_bytes example_sdk (fst e)) es)"
proof -
  have b32: "list_all base32_char (replicate n CHR ''B'')" for n by (simp add: list_all_iff base32_char_def)
  have ne: "replicate 55 CHR ''B'' \<noteq> replicate 55 CHR ''A''" by (simp add: numeral_eq_Suc)
  have ok: "rules_ok example_rules"
    using ne by (simp add: rules_ok_def example_rules_def example_address_def MAX_RULE_ENTRIES_def strkey_def b32
        baseUnits_def digits_def is_digit_def parse_nat_def i128_max_def)
  have "inj (of_char :: char \<Rightarrow> nat)" by (metis injI char_of_char)
  then have inj: "inj_on (addr_bytes example_sdk) (fst ` set (maxSingleTransfer example_rules))"
    by (auto simp: inj_on_def example_sdk_def dest: map_injective)
  have "cap_entry example_sdk c \<noteq> None" if "c \<in> set (maxSingleTransfer example_rules)" for c
    using that js_BigInt_digits [of "''7''"] js_BigInt_digits [of "''5''"]
    by (auto simp: cap_entry_def addressVal_def i128Val_def example_sdk_def example_rules_def is_digit_def parse_nat_def)
  moreover have al: "allowedTokens example_rules = None" by (simp add: example_rules_def)
  ultimately have "\<exists>v. safetyRulesScVal example_sdk (Some example_rules) = Some v"
    using al by (simp add: safetyRulesScVal_def sortedByContractId_def all_or_throw_eq Let_def)
  with safety_rules_encoded_sorted [OF ok inj] show ?thesis by blast
qed

subsection \<open>The poll loop ends\<close>

text \<open>The clock at each poll, given that the loop sleeps two seconds between polls.\<close>

fun paced :: "instant \<Rightarrow> ('a \<times> instant) list \<Rightarrow> bool" where
  "paced t [] = True"
| "paced t ((r, now) # rest) = (t \<le> now \<and> paced (now + 2000) rest)"

lemma poll_ends:
  "paced t polls \<Longrightarrow> t \<le> deadline + 2000 \<Longrightarrow> deadline - t + 2000 < int (length polls) * 2000 \<Longrightarrow> poll deadline hash polls \<noteq> None"
proof (induction polls arbitrary: t)
  case Nil
  then show ?case by simp
next
  case (Cons p rest)
  obtain r now where p: "p = (r, now)" by (cases p)
  show ?case
  proof (cases "now > deadline")
    case True
    then show ?thesis by (simp add: p split: sum.split tx_status.split option.split)
  next
    case False
    with Cons.prems p have "deadline - (now + 2000) + 2000 < int (length rest) * 2000"
      "now + 2000 \<le> deadline + 2000" "paced (now + 2000) rest" by auto
    then have "poll deadline hash rest \<noteq> None" by (intro Cons.IH)
    then show ?thesis by (simp add: p split: sum.split tx_status.split option.split)
  qed
qed

text \<open>\<open>deployInstance\<close> always settles: once the node has answered as many polls as the poll budget has two
  second pauses, plus two, the result is there, whatever the answers were.\<close>

theorem deployInstance_settles:
  assumes "paced now (getTransaction rpc)" and "0 \<le> pollTimeoutMs"
    and "pollTimeoutMs div 2000 + 2 \<le> int (length (getTransaction rpc))"
  shows "deployInstance S pollTimeoutMs rpc now wallet args \<noteq> None"
proof -
  have "(now + pollTimeoutMs) - now + 2000 < int (length (getTransaction rpc)) * 2000" using assms(2,3) by linarith
  moreover have "now \<le> (now + pollTimeoutMs) + 2000" using assms(2) by simp
  ultimately show ?thesis
    using poll_ends [OF assms(1)] by (simp add: deployInstance_def split: sum.split prod.split)
qed

definition example_answers :: rpc_answers where
  "example_answers = \<lparr>getAccount = Answer (), simulateTransaction = TimedOut, prepareTransaction = Answer (),
     sendTransaction = Answer (False, ''tx''), getTransaction = [(Answer Tx_pending, 10), (Answer Tx_pending, 2010)]\<rparr>"

theorem deployInstance_settles_witness:
  "deployInstance example_sdk 0 example_answers 10 example_address
     (Recipient_args \<lparr>registry_id = ''R'', provenance_mode = Strict, trustedPublisherIds = None\<rparr>) \<noteq> None"
  by (rule deployInstance_settles) (simp_all add: example_answers_def)

end
