(* ===== verification/PolicyDeployment.thy ===== *)
theory PolicyDeployment
  imports PolicyDeploy SpendBudget
begin

text \<open>
  Deploying and attaching a policy: the attach check of \<open>verify-attach.ts\<close>, the orchestration of
  \<open>deployment.ts\<close>, the state checks of \<open>validation.ts\<close> and the deploy routes of \<open>server.ts\<close>, all in
  \<open>services/policy-service/src\<close>.  The XDR decoding of the Stellar SDK is an argument.  What the deployer
  settles to and whether the repository accepts an update are arguments of each call; the calls of the
  deployer are recorded in \<open>deploy_calls\<close>.  A budget that throws is one that refuses, as the code has it.
\<close>

subsection \<open>Records\<close>

datatype policy_status = Generated | Instance_deployed | Deployed

record policy_instance =
  inst_contractId :: string
  inst_wallet :: string
  inst_txHash :: string
  inst_deployedAt :: instant

record policy_deployment =
  dep_contractId :: "string option"
  dep_txHash :: string
  dep_deployedAt :: instant

record policy_record = generated_policy +
  pol_id :: string
  pol_createdAt :: instant
  pol_status :: policy_status
  pol_instance :: "policy_instance option"
  pol_deployment :: "policy_deployment option"

record 'b policy_service =
  policies :: "(string, policy_record) js_map"
  budget :: 'b
  deploy_calls :: "(string \<times> constructor_args) list"

subsection \<open>State checks\<close>

definition validatePolicyForDeployment :: "policy_record \<Rightarrow> string + constructor_args" where
  "validatePolicyForDeployment r =
     (case manifest_enforcement r of
        Policy_contract _ args \<Rightarrow>
          (case args of
             None \<Rightarrow> Inl ''policy contract enforcement is missing constructor args''
           | Some a \<Rightarrow> Inr a)
      | _ \<Rightarrow> Inl ''this policy is enforced without a deployed contract instance'')"

definition validatePolicyInstance :: "policy_record \<Rightarrow> bool" where
  "validatePolicyInstance r = (pol_instance r \<noteq> None)"

subsection \<open>Attach verification\<close>

datatype attach_error = AttachUnconfirmedError | AttachTimeoutError | AttachMismatchError

datatype tx_lookup_status = SUCCESS | NOT_FOUND | FAILED

record tx_result =
  tx_result_status :: tx_lookup_status
  envelopeXdr :: "string option"

datatype operation =
    InvokeContract string string "scval list"
  | OtherHostFunction
  | OtherOperation

lemma size_entry: "e \<in> set es \<Longrightarrow> size (fst e) < size (ScMap es) \<and> size (snd e) < size (ScMap es)"
  by (induction es) (auto simp: less_Suc_eq_le)

text \<open>Every address in an argument, also one nested in a vector or a map.\<close>

function collectAddresses :: "scval \<Rightarrow> string list" where
  "collectAddresses (ScAddress a) = [a]"
| "collectAddresses (ScVec vs) = concat (map collectAddresses vs)"
| "collectAddresses (ScMap es) = concat (map (\<lambda>e. collectAddresses (fst e) @ collectAddresses (snd e)) es)"
| "collectAddresses (ScI128 n) = []"
| "collectAddresses (ScU64 m) = []"
| "collectAddresses (ScBytes b) = []"
| "collectAddresses (ScSymbol s) = []"
| "collectAddresses ScVoid = []"
  by pat_completeness auto

termination
proof (relation "measure size", goal_cases)
  case (2 vs v)
  then show ?case by (auto simp: less_Suc_eq_le size_list_estimation')
next
  case (3 es e)
  then show ?case using size_entry [of e es] by simp
next
  case (4 es e)
  then show ?case using size_entry [of e es] by simp
qed simp

definition ADD_POLICY_FNS :: "string list" where
  "ADD_POLICY_FNS = [''add_signer'', ''update_signer'']"

definition verifyAttachTx ::
  "(string \<Rightarrow> operation list option) \<Rightarrow> tx_result reply \<Rightarrow> string \<Rightarrow> string \<Rightarrow> attach_error + unit" where
  "verifyAttachTx fromXDR answer wallet policyContractId =
     (case answer of
        TimedOut \<Rightarrow> Inl AttachTimeoutError
      | CallFailed \<Rightarrow> Inl AttachUnconfirmedError
      | Answer res \<Rightarrow>
          (if tx_result_status res = NOT_FOUND then Inl AttachUnconfirmedError
           else if tx_result_status res = FAILED \<or> \<not> truthy (envelopeXdr res) then Inl AttachMismatchError
           else
             (case fromXDR (the (envelopeXdr res)) of
                None \<Rightarrow> Inl AttachMismatchError
              | Some operations \<Rightarrow>
                  (case operations of
                     [op] \<Rightarrow>
                       (case op of
                          InvokeContract invoked fn args \<Rightarrow>
                            (if invoked \<noteq> wallet then Inl AttachMismatchError
                             else if fn \<notin> set ADD_POLICY_FNS then Inl AttachMismatchError
                             else if policyContractId \<notin> set (concat (map collectAddresses args))
                             then Inl AttachMismatchError
                             else Inr ())
                        | _ \<Rightarrow> Inl AttachMismatchError)
                   | _ \<Rightarrow> Inl AttachMismatchError))))"

subsection \<open>Orchestration\<close>

definition DEPLOY_FEE :: int where "DEPLOY_FEE = 10000000"

datatype deploy_failure =
    NotContractEnforced
  | BudgetExceeded
  | DeployFailed deploy_error
  | DeploymentCommitError string string string

type_synonym 'b gate = "'b \<Rightarrow> 'b \<times> consume_result"

definition deployed_instance :: "string \<times> string \<Rightarrow> string \<Rightarrow> instant \<Rightarrow> policy_instance" where
  "deployed_instance res wallet now =
     \<lparr>inst_contractId = fst res, inst_wallet = wallet, inst_txHash = snd res, inst_deployedAt = now\<rparr>"

definition deployPolicyInstance ::
  "'b gate option \<Rightarrow> deploy_error + string \<times> string \<Rightarrow> bool \<Rightarrow> instant \<Rightarrow> policy_record \<Rightarrow> string \<Rightarrow> 'b policy_service
     \<Rightarrow> 'b policy_service \<times> (deploy_failure + policy_record \<times> string)" where
  "deployPolicyInstance gate result committed now r wallet s =
     (case validatePolicyForDeployment r of
        Inl _ \<Rightarrow> (s, Inl NotContractEnforced)
      | Inr args \<Rightarrow>
          (let (b, allowed) = (case gate of None \<Rightarrow> (budget s, Consumed) | Some g \<Rightarrow> g (budget s));
               s1 = s\<lparr>budget := b\<rparr>
           in if allowed \<noteq> Consumed then (s1, Inl BudgetExceeded)
              else
                (let s2 = s1\<lparr>deploy_calls := deploy_calls s1 @ [(wallet, args)]\<rparr>
                 in case result of
                      Inl e \<Rightarrow> (s2, Inl (DeployFailed e))
                    | Inr res \<Rightarrow>
                        (let r' = r\<lparr>pol_status := Instance_deployed,
                                    pol_instance := Some (deployed_instance res wallet now)\<rparr>
                         in if \<not> committed then (s2, Inl (DeploymentCommitError (fst res) (snd res) wallet))
                            else (s2\<lparr>policies := js_set (pol_id r') r' (policies s2)\<rparr>, Inr (r', fst res))))))"

definition reconcileOrphanedDeployment ::
  "instant \<Rightarrow> string \<Rightarrow> string \<times> string \<times> string \<Rightarrow> 'b policy_service
     \<Rightarrow> 'b policy_service \<times> (string + policy_record \<times> bool)" where
  "reconcileOrphanedDeployment now policyId = (\<lambda>(contractId, txHash, wallet) s.
     (case js_get (policies s) policyId of
        None \<Rightarrow> (s, Inl ''Policy record not found'')
      | Some r \<Rightarrow>
          (if (pol_status r = Instance_deployed \<or> pol_status r = Deployed)
              \<and> (map_option inst_contractId (pol_instance r) = Some contractId
                 \<or> Option.bind (pol_deployment r) dep_contractId = Some contractId)
           then (s, Inr (r, False))
           else
             (let r' = r\<lparr>pol_status := Instance_deployed,
                         pol_instance := Some \<lparr>inst_contractId = contractId, inst_wallet = wallet, inst_txHash = txHash,
                           inst_deployedAt = (case pol_instance r of None \<Rightarrow> now | Some i \<Rightarrow> inst_deployedAt i)\<rparr>\<rparr>
              in (s\<lparr>policies := js_set (pol_id r') r' (policies s)\<rparr>, Inr (r', True))))))"

datatype attach_failure = NoInstance | AttachFailed attach_error

text \<open>\<open>verify\<close> is \<open>deps.verifyAttach\<close>, bound to its lookup: what the check of a transaction settles to.\<close>

definition verifyAndRecordAttach ::
  "(string \<Rightarrow> string \<Rightarrow> string \<Rightarrow> attach_error + unit) option \<Rightarrow> instant \<Rightarrow> policy_record \<Rightarrow> string \<Rightarrow> string option
     \<Rightarrow> 'b policy_service \<Rightarrow> 'b policy_service \<times> (attach_failure + policy_record)" where
  "verifyAndRecordAttach verify now r txHash contractId s =
     (case (case verify of
              None \<Rightarrow> Inr ()
            | Some v \<Rightarrow>
                (case pol_instance r of
                   None \<Rightarrow> Inl NoInstance
                 | Some i \<Rightarrow>
                     (case v txHash (inst_wallet i) (inst_contractId i) of Inl e \<Rightarrow> Inl (AttachFailed e) | Inr _ \<Rightarrow> Inr ()))) of
        Inl e \<Rightarrow> (s, Inl e)
      | Inr _ \<Rightarrow>
          (let r' = r\<lparr>pol_status := Deployed,
                      pol_deployment := Some \<lparr>dep_contractId = contractId, dep_txHash = txHash, dep_deployedAt = now\<rparr>\<rparr>
           in (s\<lparr>policies := js_set (pol_id r') r' (policies s)\<rparr>, Inr r')))"

subsection \<open>Routes\<close>

datatype http_reply = Http nat string | PolicyReply policy_record "string option"

text \<open>A record as it is first stored.\<close>

definition new_record :: "generated_policy \<Rightarrow> string \<Rightarrow> instant \<Rightarrow> policy_record" where
  "new_record g i now = generated_policy.extend g
     \<lparr>pol_id = i, pol_createdAt = now, pol_status = Generated, pol_instance = None, pol_deployment = None\<rparr>"

definition generate_route ::
  "verdict \<Rightarrow> generate_error + generated_policy \<Rightarrow> string \<Rightarrow> instant \<Rightarrow> 'b policy_service \<Rightarrow> 'b policy_service \<times> http_reply" where
  "generate_route validation generated freshId now s =
     (case validation of
        Throws \<Rightarrow> (s, Http 500 [])
      | Invalid _ \<Rightarrow> (s, Http 422 ''invalid_policy'')
      | Valid \<Rightarrow>
          (case generated of
             Inl _ \<Rightarrow> (s, Http 500 [])
           | Inr g \<Rightarrow> (s\<lparr>policies := js_set freshId (new_record g freshId now) (policies s)\<rparr>,
                      PolicyReply (new_record g freshId now) None)))"

definition deploy_instance_route ::
  "'b gate option \<Rightarrow> (deploy_error + string \<times> string) option \<Rightarrow> bool \<Rightarrow> instant \<Rightarrow> string \<Rightarrow> string option
     \<Rightarrow> 'b policy_service \<Rightarrow> 'b policy_service \<times> http_reply" where
  "deploy_instance_route gate deployer committed now i wallet s =
     (case deployer of
        None \<Rightarrow> (s, Http 503 ''deploy_unavailable'')
      | Some result \<Rightarrow>
          (case wallet of
             None \<Rightarrow> (s, Http 400 ''invalid_body'')
           | Some w \<Rightarrow>
               (if \<not> strkey ''C'' w then (s, Http 400 ''invalid_body'')
                else
                  (case js_get (policies s) i of
                     None \<Rightarrow> (s, Http 404 ''policy_not_found'')
                   | Some r \<Rightarrow>
                       (case pol_instance r of
                          Some inst \<Rightarrow> (s, PolicyReply r (Some (inst_contractId inst)))
                        | None \<Rightarrow>
                            (case validatePolicyForDeployment r of
                               Inl reason \<Rightarrow> (s, Http 422 ''not_deployable'')
                             | Inr _ \<Rightarrow>
                                 (case deployPolicyInstance gate result committed now r w s of
                                    (s', Inr (r', c)) \<Rightarrow> (s', PolicyReply r' (Some c))
                                  | (s', Inl e) \<Rightarrow>
                                      (s', (case e of
                                              DeployFailed (PolicyDeployError code) \<Rightarrow> Http 502 code
                                            | BudgetExceeded \<Rightarrow> Http 503 ''deploy_budget_exceeded''
                                            | _ \<Rightarrow> Http 500 ''deploy_failed'')))))))))"

record deploy_body =
  body_policyId :: string
  body_txHash :: string
  body_contractId :: "string option"

definition body_ok :: "deploy_body \<Rightarrow> bool" where
  "body_ok b \<longleftrightarrow> body_policyId b \<noteq> [] \<and> body_txHash b \<noteq> []"

definition deploy_route ::
  "(string \<Rightarrow> string \<Rightarrow> string \<Rightarrow> attach_error + unit) option \<Rightarrow> instant \<Rightarrow> deploy_body
     \<Rightarrow> 'b policy_service \<Rightarrow> 'b policy_service \<times> http_reply" where
  "deploy_route verify now b s =
     (if \<not> body_ok b then (s, Http 400 ''invalid_body'')
      else
        (case js_get (policies s) (body_policyId b) of
           None \<Rightarrow> (s, Http 404 ''policy_not_found'')
         | Some r \<Rightarrow>
             (if verify \<noteq> None \<and> \<not> validatePolicyInstance r then (s, Http 422 ''no_instance'')
              else
                (case verifyAndRecordAttach verify now r (body_txHash b) (body_contractId b) s of
                   (s', Inr r') \<Rightarrow> (s', PolicyReply r' None)
                 | (s', Inl e) \<Rightarrow>
                     (s', (case e of
                             AttachFailed AttachUnconfirmedError \<Rightarrow> Http 503 ''attach_unconfirmed''
                           | AttachFailed AttachMismatchError \<Rightarrow> Http 422 ''attach_mismatch''
                           | AttachFailed AttachTimeoutError \<Rightarrow> Http 500 []
                           | NoInstance \<Rightarrow> Http 422 ''no_instance''))))))"

text \<open>The dry run: \<open>result\<close> is what the deployer's simulation settles to.\<close>

definition simulatePolicyDeploy ::
  "deploy_error + simulate_result \<Rightarrow> policy_record \<Rightarrow> deploy_failure + simulate_result" where
  "simulatePolicyDeploy result r =
     (case validatePolicyForDeployment r of
        Inl _ \<Rightarrow> Inl NotContractEnforced
      | Inr _ \<Rightarrow> (case result of Inl e \<Rightarrow> Inl (DeployFailed e) | Inr x \<Rightarrow> Inr x))"

definition simulate_route ::
  "(deploy_error + simulate_result) option \<Rightarrow> string \<Rightarrow> string option \<Rightarrow> 'b policy_service
     \<Rightarrow> http_reply + simulate_result" where
  "simulate_route deployer i wallet s =
     (case deployer of
        None \<Rightarrow> Inl (Http 503 ''deploy_unavailable'')
      | Some result \<Rightarrow>
          (case wallet of
             None \<Rightarrow> Inl (Http 400 ''invalid_body'')
           | Some w \<Rightarrow>
               (if \<not> strkey ''C'' w then Inl (Http 400 ''invalid_body'')
                else
                  (case js_get (policies s) i of
                     None \<Rightarrow> Inl (Http 404 ''policy_not_found'')
                   | Some r \<Rightarrow>
                       (case validatePolicyForDeployment r of
                          Inl reason \<Rightarrow> Inl (Http 422 ''not_deployable'')
                        | Inr _ \<Rightarrow>
                            (case simulatePolicyDeploy result r of
                               Inr x \<Rightarrow> Inr x | Inl _ \<Rightarrow> Inl (Http 500 ''simulate_failed'')))))))"

text \<open>The routes of the admin surface.\<close>

definition admin_deploy_instance_route ::
  "(deploy_error + string \<times> string) option \<Rightarrow> instant \<Rightarrow> string \<Rightarrow> string option
     \<Rightarrow> 'b policy_service \<Rightarrow> 'b policy_service \<times> http_reply" where
  "admin_deploy_instance_route deployer now i wallet s =
     (case deployer of
        None \<Rightarrow> (s, Http 503 ''deploy_unavailable'')
      | Some result \<Rightarrow>
          (case wallet of
             None \<Rightarrow> (s, Http 400 ''invalid_body'')
           | Some w \<Rightarrow>
               (if \<not> strkey ''C'' w then (s, Http 400 ''invalid_body'')
                else
                  (case js_get (policies s) i of
                     None \<Rightarrow> (s, Http 404 ''policy_not_found'')
                   | Some r \<Rightarrow>
                       (case pol_instance r of
                          Some inst \<Rightarrow> (s, PolicyReply r (Some (inst_contractId inst)))
                        | None \<Rightarrow>
                            (case validatePolicyForDeployment r of
                               Inl reason \<Rightarrow> (s, Http 422 ''not_deployable'')
                             | Inr args \<Rightarrow>
                                 (let s2 = s\<lparr>deploy_calls := deploy_calls s @ [(w, args)]\<rparr>
                                  in case result of
                                       Inl (PolicyDeployError code) \<Rightarrow> (s2, Http 502 code)
                                     | Inl OtherError \<Rightarrow> (s2, Http 500 [])
                                     | Inr res \<Rightarrow>
                                         (let r' = r\<lparr>pol_status := Instance_deployed,
                                                     pol_instance := Some (deployed_instance res w now)\<rparr>
                                          in (s2\<lparr>policies := js_set (pol_id r') r' (policies s2)\<rparr>,
                                              PolicyReply r' (Some (fst res)))))))))))"

definition admin_deploy_route ::
  "instant \<Rightarrow> deploy_body \<Rightarrow> 'b policy_service \<Rightarrow> 'b policy_service \<times> http_reply" where
  "admin_deploy_route now b s =
     (if \<not> body_ok b then (s, Http 400 ''invalid_body'')
      else
        (case js_get (policies s) (body_policyId b) of
           None \<Rightarrow> (s, Http 404 ''policy_not_found'')
         | Some r \<Rightarrow>
             (let r' = r\<lparr>pol_status := Deployed,
                         pol_deployment := Some \<lparr>dep_contractId = body_contractId b, dep_txHash = body_txHash b,
                                                  dep_deployedAt = now\<rparr>\<rparr>
              in (s\<lparr>policies := js_set (pol_id r') r' (policies s)\<rparr>, PolicyReply r' None))))"

subsection \<open>The attach check\<close>

text \<open>The attach check passes exactly when the node reports the transaction as successful and its envelope
  decodes to a single call of add_signer or update_signer on the wallet whose arguments contain, at some
  depth, the address of the policy contract.\<close>

theorem attach_check_iff:
  "verifyAttachTx fromXDR answer wallet policy = Inr () \<longleftrightarrow>
     (\<exists>env fn args. answer = Answer \<lparr>tx_result_status = SUCCESS, envelopeXdr = Some env\<rparr> \<and> env \<noteq> []
        \<and> fromXDR env = Some [InvokeContract wallet fn args] \<and> (fn = ''add_signer'' \<or> fn = ''update_signer'')
        \<and> (\<exists>a \<in> set args. policy \<in> set (collectAddresses a)))"
proof (cases answer)
  case (Answer res)
  obtain st envx where res: "res = \<lparr>tx_result_status = st, envelopeXdr = envx\<rparr>" by (cases res)
  show ?thesis
  proof (cases "st = SUCCESS \<and> truthy envx")
    case False
    then show ?thesis by (cases st; cases envx) (auto simp: verifyAttachTx_def Answer res)
  next
    case True
    then obtain env where env: "envx = Some env" "env \<noteq> []" by (cases envx) auto
    then show ?thesis using True
      by (auto simp: verifyAttachTx_def Answer res ADD_POLICY_FNS_def split: option.splits list.splits operation.splits)
  qed
qed (auto simp: verifyAttachTx_def)

subsection \<open>Runs of the public routes\<close>

text \<open>
  The service with sponsor budget and attach check configured, as \<open>index.ts\<close> does.  \<open>v\<close> is what the check of
  a transaction settles to; \<open>consume\<close> the budget, asked with a request of \<open>fees\<close>.
\<close>

inductive public_step ::
  "('r \<Rightarrow> 'b gate) \<Rightarrow> ('r \<Rightarrow> bool) \<Rightarrow> (string \<Rightarrow> string \<Rightarrow> string \<Rightarrow> attach_error + unit)
     \<Rightarrow> 'b policy_service \<Rightarrow> 'b policy_service \<Rightarrow> bool"
  for consume fees v where
  generate: "js_get (policies s) i = None \<Longrightarrow>
     public_step consume fees v s (fst (generate_route validation generated i now s))"
| deploy_instance: "fees q \<Longrightarrow>
     public_step consume fees v s (fst (deploy_instance_route (Some (consume q)) deployer committed now i wallet s))"
| attach: "public_step consume fees v s (fst (deploy_route (Some v) now b s))"

inductive public_run ::
  "('r \<Rightarrow> 'b gate) \<Rightarrow> ('r \<Rightarrow> bool) \<Rightarrow> (string \<Rightarrow> string \<Rightarrow> string \<Rightarrow> attach_error + unit)
     \<Rightarrow> 'b policy_service \<Rightarrow> 'b policy_service \<Rightarrow> bool"
  for consume fees v s0 where
  start: "public_run consume fees v s0 s0"
| step: "public_run consume fees v s0 s \<Longrightarrow> public_step consume fees v s t \<Longrightarrow> public_run consume fees v s0 t"

lemmas deployPolicyInstance_defs = deployPolicyInstance_def validatePolicyForDeployment_def Let_def

lemma deploy_gate_cases:
  assumes "g (budget s) = (b, c)"
  shows "deployPolicyInstance (Some g) result committed now r w s =
     (case validatePolicyForDeployment r of
        Inl _ \<Rightarrow> (s, Inl NotContractEnforced)
      | Inr args \<Rightarrow>
          (if c \<noteq> Consumed then (s\<lparr>budget := b\<rparr>, Inl BudgetExceeded)
           else deployPolicyInstance None result committed now r w (s\<lparr>budget := b\<rparr>)))"
  by (simp add: deployPolicyInstance_def Let_def assms split: sum.split)

lemma deploy_without_gate:
  "budget (fst (deployPolicyInstance None result committed now r w s)) = budget s
   \<and> deploy_calls (fst (deployPolicyInstance None result committed now r w s)) =
       deploy_calls s @ (case validatePolicyForDeployment r of Inl _ \<Rightarrow> [] | Inr args \<Rightarrow> [(w, args)])"
  by (simp add: deployPolicyInstance_def Let_def split: sum.split)

text \<open>
  The budget in front of the deployer, for any gate that records what it accepts: along every run of the
  public routes the budget grows by the fee of each call of the deployer, and by nothing else.
\<close>

context spend_gate
begin

lemma deploy_charges:
  assumes "amount q = DEPLOY_FEE"
  shows "spent (budget (fst (deployPolicyInstance (Some (consume q)) result committed now r w s))) - spent (budget s)
     = DEPLOY_FEE * (int (length (deploy_calls (fst (deployPolicyInstance (Some (consume q)) result committed now r w s))))
                     - int (length (deploy_calls s)))"
proof -
  obtain b c where g: "consume q (budget s) = (b, c)" by (cases "consume q (budget s)")
  show ?thesis
  proof (cases c)
    case Consumed
    with g assms have "spent b = spent (budget s) + DEPLOY_FEE" using accept_records by auto
    with Consumed show ?thesis
      by (auto simp: deploy_gate_cases [of "consume q" s, OF g] deploy_without_gate split: sum.split)
  next
    case (Refused why)
    with g have "b = budget s" using refuse_keeps by auto
    with Refused show ?thesis by (simp add: deploy_gate_cases [of "consume q" s, OF g] split: sum.split)
  qed
qed

lemma step_charges:
  assumes "public_step consume (\<lambda>q. amount q = DEPLOY_FEE) v s t"
  shows "spent (budget t) - spent (budget s) = DEPLOY_FEE * (int (length (deploy_calls t)) - int (length (deploy_calls s)))"
  using assms
proof cases
  case (deploy_instance q deployer committed now i wallet)
  show ?thesis
  proof (cases "t = s")
    case False
    with deploy_instance obtain result r w where
      "t = fst (deployPolicyInstance (Some (consume q)) result committed now r w s)"
      by (auto simp: deploy_instance_route_def split: option.splits sum.splits prod.splits if_splits)
         (metis fst_conv)+
    with deploy_charges [OF deploy_instance(2)] show ?thesis by simp
  qed simp
qed (auto simp: generate_route_def deploy_route_def verifyAndRecordAttach_def Let_def
       split: option.splits sum.splits prod.splits if_splits verdict.splits)

lemma run_charges:
  "public_run consume (\<lambda>q. amount q = DEPLOY_FEE) v s0 s \<Longrightarrow>
     spent (budget s) = spent (budget s0) + DEPLOY_FEE * (int (length (deploy_calls s)) - int (length (deploy_calls s0)))"
proof (induction rule: public_run.induct)
  case (step s t)
  with step_charges [OF step.hyps(2)] show ?case by (simp add: right_diff_distrib)
qed simp

end


subsection \<open>What the status of a record says\<close>

definition attach_confirmed ::
  "(string \<Rightarrow> string \<Rightarrow> string \<Rightarrow> attach_error + unit) \<Rightarrow> policy_record \<Rightarrow> bool" where
  "attach_confirmed v r =
     (case (pol_instance r, pol_deployment r) of
        (Some i, Some d) \<Rightarrow> v (dep_txHash d) (inst_wallet i) (inst_contractId i) = Inr ()
      | _ \<Rightarrow> False)"

definition status_ok ::
  "(string \<Rightarrow> string \<Rightarrow> string \<Rightarrow> attach_error + unit) \<Rightarrow> policy_record \<Rightarrow> bool" where
  "status_ok v r =
     (case pol_status r of
        Generated \<Rightarrow> pol_instance r = None \<and> pol_deployment r = None
      | Instance_deployed \<Rightarrow> pol_instance r \<noteq> None \<and> pol_deployment r = None \<and> is_ok (validatePolicyForDeployment r)
      | Deployed \<Rightarrow> attach_confirmed v r)"

definition service_ok ::
  "(string \<Rightarrow> string \<Rightarrow> string \<Rightarrow> attach_error + unit) \<Rightarrow> 'b policy_service \<Rightarrow> bool" where
  "service_ok v s \<longleftrightarrow> (\<forall>i r. js_get (policies s) i = Some r \<longrightarrow> pol_id r = i \<and> status_ok v r)"

lemma status_Generated: "status_ok v r \<Longrightarrow> pol_instance r = None \<Longrightarrow> pol_deployment r = None"
  by (cases "pol_status r") (auto simp: status_ok_def attach_confirmed_def split: option.splits)

lemma service_ok_set:
  "service_ok v s \<Longrightarrow> status_ok v r \<Longrightarrow> policies t = js_set (pol_id r) r (policies s) \<Longrightarrow> service_ok v t"
  by (simp add: service_ok_def)

lemma service_ok_same: "service_ok v s \<Longrightarrow> policies t = policies s \<Longrightarrow> service_ok v t"
  by (simp add: service_ok_def)

lemma deploy_keeps_ok:
  assumes ok: "service_ok v s" and r: "js_get (policies s) i = Some r" "pol_instance r = None"
  shows "service_ok v (fst (deployPolicyInstance gate result committed now r w s))"
proof -
  from ok r have dep: "pol_deployment r = None" by (auto simp: service_ok_def dest: status_Generated)
  let ?t = "fst (deployPolicyInstance gate result committed now r w s)"
  have "policies ?t = policies s
     \<or> (\<exists>args res. validatePolicyForDeployment r = Inr args
          \<and> policies ?t = js_set (pol_id r) (r\<lparr>pol_status := Instance_deployed,
                pol_instance := Some (deployed_instance res w now)\<rparr>) (policies s))"
    by (auto simp: deployPolicyInstance_def Let_def split: sum.split prod.split)
  then consider "policies ?t = policies s"
    | args res where "validatePolicyForDeployment r = Inr args"
        "policies ?t = js_set (pol_id r) (r\<lparr>pol_status := Instance_deployed,
            pol_instance := Some (deployed_instance res w now)\<rparr>) (policies s)"
    by blast
  then show ?thesis
  proof cases
    case 1
    with ok show ?thesis by (rule service_ok_same)
  next
    case (2 args res)
    let ?r = "r\<lparr>pol_status := Instance_deployed, pol_instance := Some (deployed_instance res w now)\<rparr>"
    have "status_ok v ?r" using 2(1) dep by (simp add: status_ok_def validatePolicyForDeployment_def)
    from service_ok_set [OF ok this] 2(2) show ?thesis by simp
  qed
qed

lemma attach_keeps_ok:
  assumes ok: "service_ok v s" and r: "js_get (policies s) i = Some r"
  shows "service_ok v (fst (verifyAndRecordAttach (Some v) now r tx cid s))"
proof (cases "pol_instance r")
  case None
  with ok show ?thesis by (simp add: verifyAndRecordAttach_def)
next
  case (Some inst)
  show ?thesis
  proof (cases "v tx (inst_wallet inst) (inst_contractId inst)")
    case (Inl e)
    with ok Some show ?thesis by (simp add: verifyAndRecordAttach_def)
  next
    case (Inr u)
    let ?r = "r\<lparr>pol_status := Deployed, pol_deployment := Some \<lparr>dep_contractId = cid, dep_txHash = tx, dep_deployedAt = now\<rparr>\<rparr>"
    have "status_ok v ?r" using Some Inr by (simp add: status_ok_def attach_confirmed_def)
    with ok Some Inr show ?thesis
      by (simp add: verifyAndRecordAttach_def Let_def service_ok_set [where s = s and r = ?r])
  qed
qed

lemma public_step_ok:
  assumes "public_step consume fees v s t" and ok: "service_ok v s"
  shows "service_ok v t"
  using assms(1)
proof cases
  case (generate i validation generated now)
  with ok show ?thesis
    by (auto simp: generate_route_def service_ok_def new_record_def generated_policy.defs status_ok_def
          split: verdict.splits sum.splits)
next
  case (deploy_instance q deployer committed now i wallet)
  with ok show ?thesis using deploy_keeps_ok [OF ok]
    by (auto simp: deploy_instance_route_def split: option.splits sum.splits prod.splits if_splits) (metis fst_conv)+
next
  case (attach now b)
  with ok show ?thesis using attach_keeps_ok [OF ok]
    by (auto simp: deploy_route_def split: option.splits sum.splits prod.splits if_splits) (metis fst_conv)+
qed

text \<open>C11: In every state reached from an empty store through the public routes, each record is filed under its
  id and its status is truthful: a generated record has neither instance nor attach, an instance is only
  deployed for a contract-enforced policy, and a record is deployed only when the recorded transaction was
  confirmed to attach the recorded instance to its wallet.\<close>

theorem public_status_truthful:
  assumes "public_run consume fees v s0 s" and "policies s0 = []"
  shows "service_ok v s"
  using assms(1)
proof (induction rule: public_run.induct)
  case start
  from assms(2) show ?case by (simp add: service_ok_def)
next
  case (step s t)
  then show ?case by (blast intro: public_step_ok)
qed

subsection \<open>Recovery after a failed commit\<close>

text \<open>When the instance was deployed but the record could not be saved, reconciling with the ids the error
  carries stores exactly the record that a successful save would have stored, and reconciling again
  changes nothing.\<close>

theorem commit_failure_reconciled:
  assumes "js_get (policies s) (pol_id r) = Some r" and "pol_instance r = None" and "pol_deployment r = None"
    and "snd (deployPolicyInstance gate (Inr (cid, h)) False t1 r w s) = Inl (DeploymentCommitError cid h w)"
  shows "\<exists>s2 r2. reconcileOrphanedDeployment t2 (pol_id r) (cid, h, w) (fst (deployPolicyInstance gate (Inr (cid, h)) False t1 r w s))
        = (s2, Inr (r2, True))
     \<and> s2 = fst (deployPolicyInstance gate (Inr (cid, h)) True t2 r w s)
     \<and> reconcileOrphanedDeployment t3 (pol_id r) (cid, h, w) s2 = (s2, Inr (r2, False))"
proof -
  obtain b c where g: "(case gate of None \<Rightarrow> (budget s, Consumed) | Some g \<Rightarrow> g (budget s)) = (b, c)" by fastforce
  from assms(4) g obtain args where v: "validatePolicyForDeployment r = Inr args" "c = Consumed"
    by (auto simp: deployPolicyInstance_def Let_def split: sum.splits if_splits)
  let ?s = "s\<lparr>budget := b, deploy_calls := deploy_calls s @ [(w, args)]\<rparr>"
  let ?r = "r\<lparr>pol_status := Instance_deployed, pol_instance := Some (deployed_instance (cid, h) w t2)\<rparr>"
  have "fst (deployPolicyInstance gate (Inr (cid, h)) False t1 r w s) = ?s"
    and ok: "fst (deployPolicyInstance gate (Inr (cid, h)) True t2 r w s) = ?s\<lparr>policies := js_set (pol_id r) ?r (policies s)\<rparr>"
    using v by (simp_all add: deployPolicyInstance_def g Let_def)
  moreover have "reconcileOrphanedDeployment t2 (pol_id r) (cid, h, w) ?s
      = (?s\<lparr>policies := js_set (pol_id r) ?r (policies s)\<rparr>, Inr (?r, True))"
    using assms(1-3) by (simp add: reconcileOrphanedDeployment_def Let_def deployed_instance_def)
  moreover have "reconcileOrphanedDeployment t3 (pol_id r) (cid, h, w) (?s\<lparr>policies := js_set (pol_id r) ?r (policies s)\<rparr>)
      = (?s\<lparr>policies := js_set (pol_id r) ?r (policies s)\<rparr>, Inr (?r, False))"
    by (simp add: reconcileOrphanedDeployment_def deployed_instance_def)
  ultimately show ?thesis by (simp only:) blast
qed

subsection \<open>The admin surface\<close>

text \<open>The admin routes do neither check: a deploy calls the deployer without asking the budget, and an attach
  marks any stored record deployed, here one without an instance, on the transaction hash of the request
  alone.\<close>

theorem admin_routes_unchecked:
  assumes "js_get (policies s) i = Some r" and "pol_instance r = None" and "validatePolicyForDeployment r = Inr args"
    and "strkey ''C'' w" and "i \<noteq> []" and "h \<noteq> []"
  shows "budget (fst (admin_deploy_instance_route (Some result) now i (Some w) s)) = budget s
     \<and> deploy_calls (fst (admin_deploy_instance_route (Some result) now i (Some w) s)) = deploy_calls s @ [(w, args)]
     \<and> (\<exists>r'. snd (admin_deploy_route now \<lparr>body_policyId = i, body_txHash = h, body_contractId = cid\<rparr> s) = PolicyReply r' None
          \<and> pol_status r' = Deployed \<and> pol_instance r' = None)"
  using assms
  by (auto simp: admin_deploy_instance_route_def admin_deploy_route_def body_ok_def Let_def split: sum.split deploy_error.split)

subsection \<open>A run\<close>

definition example_record :: policy_record where
  "example_record = new_record \<lparr>definition_of = JNull, policy_hash = [], manifest_template = ''verified_only'',
     manifest_schemaVersion = 1,
     manifest_enforcement = Policy_contract ''w'' (Some (Recipient_args
        \<lparr>registry_id = ''R'', provenance_mode = Strict, trustedPublisherIds = None\<rparr>)),
     manifest_network = Testnet\<rparr> ''p'' 0"

definition example_service :: "ledger_row list policy_service" where
  "example_service = \<lparr>policies = [(''p'', example_record)], budget = [], deploy_calls = []\<rparr>"

definition example_budget :: budget_config where
  "example_budget = \<lparr>windowMs = 1000, limits = (\<lambda>_. \<lparr>maxStroops = None, maxCount = 3\<rparr>)\<rparr>"

definition example_fee :: "instant \<times> instant \<times> consume_request" where
  "example_fee = (5, 6, \<lparr>req_line = Deploy_line, req_network = Testnet, req_stroops = DEPLOY_FEE, req_count = None\<rparr>)"

lemmas example_defs = example_service_def example_record_def new_record_def generated_policy.defs policy_record.defs
  example_address_def strkey_def validatePolicyForDeployment_def

lemma example_fields:
  "js_get (policies example_service) ''p'' = Some example_record" "pol_instance example_record = None"
  "pol_deployment example_record = None" "pol_id example_record = ''p''" "strkey ''C'' example_address"
  "validatePolicyForDeployment example_record
     = Inr (Recipient_args \<lparr>registry_id = ''R'', provenance_mode = Strict, trustedPublisherIds = None\<rparr>)"
  "budget example_service = []" "deploy_calls example_service = []"
  by (simp_all add: example_defs)


theorem public_status_truthful_witness:
  "\<exists>s. policies s \<noteq> [] \<and> service_ok (\<lambda>_ _ _. Inr ()) (s :: unit policy_service)"
proof -
  let ?s0 = "\<lparr>policies = [], budget = (), deploy_calls = []\<rparr> :: unit policy_service"
  let ?g = "\<lparr>definition_of = JNull, policy_hash = [], manifest_template = ''timelock'', manifest_schemaVersion = 1,
     manifest_enforcement = Custom_contract_pending, manifest_network = Testnet\<rparr> :: generated_policy"
  have run: "public_run (\<lambda>_ b. (b, Consumed)) (\<lambda>_. True) (\<lambda>_ _ _. Inr ()) ?s0 (fst (generate_route Valid (Inr ?g) ''p'' 3 ?s0))"
    by (rule public_run.step [OF public_run.start], rule public_step.generate) simp
  from public_status_truthful [OF run] show ?thesis
    by (intro exI [of _ "fst (generate_route Valid (Inr ?g) ''p'' 3 ?s0)"]) (simp add: generate_route_def)
qed

theorem commit_failure_reconciled_witness:
  "\<exists>s2 r2. reconcileOrphanedDeployment 9 ''p'' (''c'', ''h'', example_address)
     (fst (deployPolicyInstance None (Inr (''c'', ''h'')) False 5 example_record example_address example_service)) = (s2, Inr (r2, True))"
proof -
  have "snd (deployPolicyInstance None (Inr (''c'', ''h'')) False 5 example_record example_address example_service)
      = Inl (DeploymentCommitError ''c'' ''h'' example_address)"
    by (simp add: deployPolicyInstance_def example_fields)
  from commit_failure_reconciled [OF _ example_fields(2,3) this, where ?t2.0 = 9 and ?t3.0 = 10] show ?thesis
    by (auto simp: example_fields)
qed

theorem admin_routes_unchecked_witness:
  "deploy_calls (fst (admin_deploy_instance_route (Some (Inr (''c'', ''h''))) 1 ''p'' (Some example_address) example_service)) \<noteq> []"
  using admin_routes_unchecked [OF example_fields(1,2,6,5), of "''h''" "Inr (''c'', ''h'')" 1 None] by simp

end
