(* ===== verification/DeployDlq.thy ===== *)
theory DeployDlq
  imports PolicyDeployment
begin

text \<open>
  Deployment jobs and their dead letters, in \<open>services/policy-service/src\<close>: the store of \<open>dlq-store.ts\<close>, the
  job store and worker of \<open>policy-deploy-worker.ts\<close> and the admin operations of \<open>admin-dlq.ts\<close>.  Random
  ids and the clock are arguments.  The redaction of errors (regular expressions) is an argument, the
  truncation is written out.  Metrics are not modelled.
\<close>

subsection \<open>The dead-letter store\<close>

record dlq_payload =
  pay_wallet :: string
  pay_network :: network
  pay_policy_id :: string
  pay_terminal :: bool

record dlq_record =
  dlq_id :: string
  original_job_id :: string
  dlq_policy_id :: string
  dlq_payload :: dlq_payload
  dlq_last_error :: string
  failure_count :: int
  dlq_first_failed_at :: instant
  dlq_last_failed_at :: instant
  archived :: bool
  requeue_count :: int
  requeue_in_progress :: bool
  last_requeued_at :: "instant option"
  last_requeued_by :: "string option"
  dlq_created_at :: instant
  dlq_updated_at :: instant

datatype audit_type = Dlq_move | Dlq_requeue | Dlq_requeue_failed | Dlq_archived

record audit_event =
  audit_dlq_id :: string
  event_type :: audit_type
  audit_actor :: "string option"
  audit_created_at :: instant

record dlq_store =
  dlq_records :: "(string, dlq_record) js_map"
  auditLog :: "audit_event list"

definition dlq_insert ::
  "string \<Rightarrow> instant \<Rightarrow> string \<Rightarrow> string \<Rightarrow> dlq_payload \<Rightarrow> string \<Rightarrow> int \<Rightarrow> instant \<Rightarrow> instant \<Rightarrow> dlq_store
     \<Rightarrow> dlq_store \<times> dlq_record" where
  "dlq_insert i now jobId policyId pay err failures firstAt lastAt st =
     (let r = \<lparr>dlq_id = i, original_job_id = jobId, dlq_policy_id = policyId, dlq_payload = pay, dlq_last_error = err,
               failure_count = failures, dlq_first_failed_at = firstAt, dlq_last_failed_at = lastAt, archived = False,
               requeue_count = 0, requeue_in_progress = False, last_requeued_at = None, last_requeued_by = None,
               dlq_created_at = now, dlq_updated_at = now\<rparr>
      in (st\<lparr>dlq_records := js_set i r (dlq_records st)\<rparr>, r))"

definition dlq_find :: "string \<Rightarrow> bool \<Rightarrow> dlq_store \<Rightarrow> dlq_record option" where
  "dlq_find i includeArchived st =
     (case js_get (dlq_records st) i of
        None \<Rightarrow> None
      | Some r \<Rightarrow> if archived r \<and> \<not> includeArchived then None else Some r)"

text \<open>An offset or limit of 0 is falsy and leaves the list as it is.\<close>

definition dlq_list :: "string option \<Rightarrow> nat option \<Rightarrow> nat option \<Rightarrow> bool \<Rightarrow> dlq_store \<Rightarrow> dlq_record list \<times> nat" where
  "dlq_list jobType limit offset includeArchived st =
     (let es0 = filter (\<lambda>e. \<not> truthy jobType \<or> jobType = Some ''policy_deploy'') (js_values (dlq_records st));
          es = filter (\<lambda>e. includeArchived \<or> \<not> archived e) es0;
          es1 = (case offset of None \<Rightarrow> es | Some n \<Rightarrow> if n = 0 then es else drop n es);
          es2 = (case limit of None \<Rightarrow> es1 | Some n \<Rightarrow> if n = 0 then es1 else take n es1)
      in (es2, length es))"

definition dlq_depth :: "dlq_store \<Rightarrow> nat" where
  "dlq_depth st = length (filter (\<lambda>e. \<not> archived e) (js_values (dlq_records st)))"

text \<open>\<open>None\<close> when the entry does not exist and the update throws.\<close>

definition dlq_update :: "string \<Rightarrow> instant \<Rightarrow> (dlq_record \<Rightarrow> dlq_record) \<Rightarrow> dlq_store \<Rightarrow> dlq_store option" where
  "dlq_update i now f st =
     (case js_get (dlq_records st) i of
        None \<Rightarrow> None
      | Some r \<Rightarrow> Some (st\<lparr>dlq_records := js_modify i (\<lambda>r. (f r)\<lparr>dlq_updated_at := now\<rparr>) (dlq_records st)\<rparr>))"

definition recordAudit :: "string \<Rightarrow> audit_type \<Rightarrow> string option \<Rightarrow> instant \<Rightarrow> dlq_store \<Rightarrow> dlq_store" where
  "recordAudit i ty who now st =
     st\<lparr>auditLog := auditLog st @ [\<lparr>audit_dlq_id = i, event_type = ty, audit_actor = who, audit_created_at = now\<rparr>]\<rparr>"

definition getAuditTrail :: "string \<Rightarrow> nat \<Rightarrow> dlq_store \<Rightarrow> audit_event list" where
  "getAuditTrail i limit st =
     take limit (sort_key (\<lambda>e. - audit_created_at e) (filter (\<lambda>e. audit_dlq_id e = i) (auditLog st)))"

definition summarizeError :: "(string \<Rightarrow> string) \<Rightarrow> nat \<Rightarrow> string \<Rightarrow> string" where
  "summarizeError redact maxLength msg =
     (let m = redact msg in if length m > maxLength then take (maxLength - 3) m @ ''...'' else m)"

subsection \<open>Jobs\<close>

datatype job_status = Job_pending | Job_in_progress | Job_completed | Job_failed | Job_dead

record deploy_job =
  job_id :: string
  job_policy_id :: string
  job_wallet :: string
  job_network :: network
  job_status :: job_status
  retry_count :: int
  max_attempts :: "int option"
  job_last_error :: "string option"
  job_last_failed_at :: "instant option"
  job_first_failed_at :: "instant option"
  job_created_at :: instant
  job_updated_at :: instant

record deploy_jobs =
  jobs :: "(string, deploy_job) js_map"
  store_maxAttempts :: "int option"
  store_dlqThreshold :: int

record job_error =
  err_isTerminal :: bool
  err_message :: string

text \<open>\<open>/schema version .* does not exist/\<close> on a lower-case message.\<close>

fun schema_version_missing :: "string \<Rightarrow> bool" where
  "schema_version_missing [] = False"
| "schema_version_missing (c # s) =
     (starts_with (c # s) ''schema version ''
        \<and> str_includes (takeWhile (\<lambda>d. d \<noteq> CHR 0x0A) (drop 15 (c # s))) '' does not exist''
      \<or> schema_version_missing s)"

definition isTerminalFailure :: "job_error \<Rightarrow> bool" where
  "isTerminalFailure e =
     (if err_isTerminal e then True
      else
        (let m = to_lower (err_message e) in
         list_ex (str_includes m) [''policy not found'', ''not contract-enforced'', ''invalid template'',
           ''unknown policy type'', ''missing constructor args'', ''unattributable publisher'', ''terminal'']
         \<or> schema_version_missing m))"

text \<open>\<open>claim\<close>: the first pending job in insertion order.\<close>

definition job_claim :: "instant \<Rightarrow> deploy_jobs \<Rightarrow> deploy_jobs \<times> deploy_job option" where
  "job_claim now st =
     (case find (\<lambda>j. job_status j = Job_pending) (js_values (jobs st)) of
        None \<Rightarrow> (st, None)
      | Some j \<Rightarrow>
          (let j' = j\<lparr>job_status := Job_in_progress, job_updated_at := now\<rparr>
           in (st\<lparr>jobs := js_set (job_id j) j' (jobs st)\<rparr>, Some j')))"

definition markCompleted :: "instant \<Rightarrow> string \<Rightarrow> deploy_jobs \<Rightarrow> deploy_jobs option" where
  "markCompleted now i st =
     (case js_get (jobs st) i of
        None \<Rightarrow> None
      | Some j \<Rightarrow> Some (st\<lparr>jobs := js_set i (j\<lparr>job_status := Job_completed, job_updated_at := now\<rparr>) (jobs st)\<rparr>))"

definition failed_job :: "(string \<Rightarrow> string) \<Rightarrow> instant \<Rightarrow> job_error \<Rightarrow> deploy_job \<Rightarrow> deploy_job" where
  "failed_job redact now e j =
     j\<lparr>retry_count := retry_count j + 1, job_last_error := Some (summarizeError redact 200 (err_message e)),
       job_last_failed_at := Some now,
       job_first_failed_at := Some (case job_first_failed_at j of None \<Rightarrow> now | Some t \<Rightarrow> t), job_updated_at := now\<rparr>"

definition attempts_limit :: "int option \<Rightarrow> deploy_job \<Rightarrow> deploy_jobs \<Rightarrow> int option" where
  "attempts_limit opt j st =
     (case opt of Some m \<Rightarrow> Some m | None \<Rightarrow> (case max_attempts j of Some m \<Rightarrow> Some m | None \<Rightarrow> store_maxAttempts st))"

definition gives_up :: "int option \<Rightarrow> int option \<Rightarrow> job_error \<Rightarrow> deploy_job \<Rightarrow> deploy_jobs \<Rightarrow> bool" where
  "gives_up optMax optThreshold e j st \<longleftrightarrow>
     isTerminalFailure e
     \<or> (case attempts_limit optMax j st of None \<Rightarrow> False | Some m \<Rightarrow> retry_count j \<ge> m)
     \<or> retry_count j > (case optThreshold of None \<Rightarrow> store_dlqThreshold st | Some t \<Rightarrow> t)"

definition handleFailure ::
  "(string \<Rightarrow> string) \<Rightarrow> string \<Rightarrow> instant \<Rightarrow> int option \<Rightarrow> int option \<Rightarrow> string \<Rightarrow> job_error
     \<Rightarrow> deploy_jobs \<times> dlq_store \<Rightarrow> (deploy_jobs \<times> dlq_store) option" where
  "handleFailure redact dlqId now optMax optThreshold i e = (\<lambda>(st, dlq).
     (case js_get (jobs st) i of
        None \<Rightarrow> None
      | Some j0 \<Rightarrow>
          (let j = failed_job redact now e j0 in
           if gives_up optMax optThreshold e j st then
             (let (dlq1, r) = dlq_insert dlqId now i (job_policy_id j)
                    \<lparr>pay_wallet = job_wallet j, pay_network = job_network j, pay_policy_id = job_policy_id j,
                     pay_terminal = isTerminalFailure e\<rparr>
                    (the (job_last_error j)) (retry_count j) (the (job_first_failed_at j)) (the (job_last_failed_at j)) dlq
              in Some (st\<lparr>jobs := js_set i (j\<lparr>job_status := Job_dead\<rparr>) (jobs st)\<rparr>,
                       recordAudit (dlq_id r) Dlq_move None now dlq1))
           else Some (st\<lparr>jobs := js_set i (j\<lparr>job_status := Job_pending\<rparr>) (jobs st)\<rparr>, dlq))))"

definition addJob :: "deploy_job \<Rightarrow> deploy_jobs \<Rightarrow> deploy_jobs" where
  "addJob j st = st\<lparr>jobs := js_set (job_id j) j (jobs st)\<rparr>"

text \<open>
  One round of the worker: \<open>deploy\<close> is what the deployer settles to for the wallet and the arguments.  The
  policy store is only read.  The answer says whether there was a job; \<open>None\<close> when the round rejects.
\<close>

definition job_run ::
  "(string, policy_record) js_map \<Rightarrow> (string \<Rightarrow> constructor_args \<Rightarrow> job_error + string \<times> string) \<Rightarrow> deploy_job
     \<Rightarrow> job_error + string \<times> string" where
  "job_run pols deploy j =
     (case js_get pols (job_policy_id j) of
        None \<Rightarrow> Inl \<lparr>err_isTerminal = True, err_message = ''Policy not found: '' @ job_policy_id j\<rparr>
      | Some p \<Rightarrow>
          (case manifest_enforcement p of
             Policy_contract h args \<Rightarrow>
               (case args of
                  None \<Rightarrow> Inl \<lparr>err_isTerminal = True, err_message = ''Policy is not contract-enforced: '' @ job_policy_id j\<rparr>
                | Some a \<Rightarrow> deploy (job_wallet j) a)
           | _ \<Rightarrow> Inl \<lparr>err_isTerminal = True, err_message = ''Policy is not contract-enforced: '' @ job_policy_id j\<rparr>))"

definition processDeploymentJob ::
  "(string \<Rightarrow> string) \<Rightarrow> string \<Rightarrow> instant \<Rightarrow> (string, policy_record) js_map
     \<Rightarrow> (string \<Rightarrow> constructor_args \<Rightarrow> job_error + string \<times> string)
     \<Rightarrow> deploy_jobs \<times> dlq_store \<Rightarrow> (deploy_jobs \<times> dlq_store) \<times> bool option" where
  "processDeploymentJob redact dlqId now pols deploy = (\<lambda>(st, dlq).
     (case job_claim now st of
        (st1, None) \<Rightarrow> ((st1, dlq), Some False)
      | (st1, Some j) \<Rightarrow>
          (let fail = (\<lambda>e. case handleFailure redact dlqId now None None (job_id j) e (st1, dlq) of
                             Some s \<Rightarrow> (s, Some True) | None \<Rightarrow> ((st1, dlq), None))
           in case job_run pols deploy j of
                Inr res \<Rightarrow>
                  (case markCompleted now (job_id j) st1 of
                     Some st2 \<Rightarrow> ((st2, dlq), Some True)
                   | None \<Rightarrow> fail \<lparr>err_isTerminal = False, err_message = ''Job not found: '' @ job_id j\<rparr>)
              | Inl e \<Rightarrow> fail e)))"

subsection \<open>Admin operations\<close>

text \<open>Without an extractor everyone is \<open>default-admin\<close>; with one an empty answer is refused.\<close>

definition requireAdmin :: "string option option \<Rightarrow> string option" where
  "requireAdmin user = (case user of None \<Rightarrow> Some ''default-admin'' | Some u \<Rightarrow> if truthy u then u else None)"

definition requeued_job :: "string \<Rightarrow> instant \<Rightarrow> dlq_record \<Rightarrow> deploy_job" where
  "requeued_job i now r =
     \<lparr>job_id = i, job_policy_id = dlq_policy_id r, job_wallet = pay_wallet (dlq_payload r),
      job_network = pay_network (dlq_payload r), job_status = Job_pending, retry_count = 0, max_attempts = None,
      job_last_error = None, job_last_failed_at = None, job_first_failed_at = None,
      job_created_at = now, job_updated_at = now\<rparr>"

lemma requeued_job_fields [simp]:
  "job_id (requeued_job i now r) = i" "job_status (requeued_job i now r) = Job_pending"
  "retry_count (requeued_job i now r) = 0"
  by (simp_all add: requeued_job_def)

text \<open>\<open>audit_ok\<close> says whether the audit write of a requeue succeeds.\<close>

definition requeue_route ::
  "string option option \<Rightarrow> bool \<Rightarrow> string \<Rightarrow> instant \<Rightarrow> string \<Rightarrow> deploy_jobs \<times> dlq_store
     \<Rightarrow> (deploy_jobs \<times> dlq_store) \<times> http_reply" where
  "requeue_route user audit_ok newJobId now i = (\<lambda>(st, dlq).
     (case requireAdmin user of
        None \<Rightarrow> ((st, dlq), Http 403 ''unauthorized'')
      | Some who \<Rightarrow>
          (case dlq_find i True dlq of
             None \<Rightarrow> ((st, dlq), Http 404 ''not_found'')
           | Some r \<Rightarrow>
               (if archived r then ((st, dlq), Http 409 ''archived'')
                else if requeue_in_progress r then ((st, dlq), Http 409 ''in_progress'')
                else
                  (let dlq1 = the (dlq_update i now (\<lambda>r. r\<lparr>requeue_in_progress := True\<rparr>) dlq);
                       st1 = addJob (requeued_job newJobId now r) st;
                       dlq2 = the (dlq_update i now (\<lambda>r'. r'\<lparr>requeue_count := requeue_count r + 1,
                                last_requeued_at := Some now, last_requeued_by := Some who,
                                requeue_in_progress := False\<rparr>) dlq1)
                   in if audit_ok then ((st1, recordAudit i Dlq_requeue (Some who) now dlq2), Http 201 newJobId)
                      else ((st1, recordAudit i Dlq_requeue_failed (Some who) now
                                    (the (dlq_update i now (\<lambda>r. r\<lparr>requeue_in_progress := False\<rparr>) dlq2))),
                            Http 500 ''requeue_failed''))))))"

definition archive_route ::
  "string option option \<Rightarrow> instant \<Rightarrow> string \<Rightarrow> dlq_store \<Rightarrow> dlq_store \<times> http_reply" where
  "archive_route user now i dlq =
     (case requireAdmin user of
        None \<Rightarrow> (dlq, Http 403 ''unauthorized'')
      | Some who \<Rightarrow>
          (case dlq_find i True dlq of
             None \<Rightarrow> (dlq, Http 404 ''not_found'')
           | Some r \<Rightarrow>
               (if archived r then (dlq, Http 409 ''already_archived'')
                else (recordAudit i Dlq_archived (Some who) now
                        (the (dlq_update i now (\<lambda>r. r\<lparr>archived := True\<rparr>) dlq)), Http 204 []))))"

subsection \<open>Dead jobs and their entries\<close>

definition originals :: "dlq_store \<Rightarrow> string list" where
  "originals dlq = map original_job_id (js_values (dlq_records dlq))"

lemma js_values_set_fresh: "js_get m k = None \<Longrightarrow> js_values (js_set k v m) = js_values m @ [v]"
  by (induction k v m rule: js_set.induct) (auto simp: js_values_def split: if_splits)

lemma originals_insert:
  "js_get (dlq_records dlq) i = None \<Longrightarrow>
     originals (fst (dlq_insert i now jid pid pay err n t1 t2 dlq)) = originals dlq @ [jid]"
  by (simp add: originals_def dlq_insert_def Let_def js_values_set_fresh)

lemma originals_audit [simp]: "originals (recordAudit i ty who now dlq) = originals dlq"
  by (simp add: originals_def recordAudit_def)

lemma originals_update:
  assumes "dlq_update i now f dlq = Some dlq'" and "\<And>r. original_job_id (f r) = original_job_id r"
  shows "originals dlq' = originals dlq"
proof -
  have "map original_job_id (js_values (js_modify i (\<lambda>r. (f r)\<lparr>dlq_updated_at := now\<rparr>) m))
      = map original_job_id (js_values m)" for m
    using assms(2) by (auto simp: js_modify_def js_values_def)
  with assms(1) show ?thesis by (auto simp: dlq_update_def originals_def split: option.splits)
qed

lemma dlq_update_Some: "dlq_find i a dlq = Some r \<Longrightarrow> \<exists>dlq'. dlq_update i now f dlq = Some dlq' \<and> (\<exists>r'. dlq_find i True dlq' = Some r')"
  by (auto simp: dlq_find_def dlq_update_def split: option.splits if_splits)

text \<open>
  The invariant: jobs are filed under their id, every dead job has exactly one dead-letter entry and no other job has
  one, and a job that may still run has failed at most \<open>dlqThreshold\<close> times and fewer times than its limit
  of attempts.
\<close>

definition job_ok :: "deploy_jobs \<Rightarrow> deploy_job \<Rightarrow> bool" where
  "job_ok st j \<longleftrightarrow>
     0 \<le> retry_count j \<and> retry_count j \<le> max 0 (store_dlqThreshold st) + 1
     \<and> (job_status j \<in> {Job_pending, Job_in_progress} \<longrightarrow>
          retry_count j \<le> max 0 (store_dlqThreshold st)
          \<and> (retry_count j = 0 \<or> (case attempts_limit None j st of None \<Rightarrow> True | Some m \<Rightarrow> retry_count j < m)))"

definition dlq_inv :: "deploy_jobs \<times> dlq_store \<Rightarrow> bool" where
  "dlq_inv = (\<lambda>(st, dlq). js_ok (jobs st) \<and>
     (\<forall>i. case js_get (jobs st) i of
            None \<Rightarrow> count_list (originals dlq) i = 0
          | Some j \<Rightarrow> job_id j = i \<and> job_ok st j
              \<and> count_list (originals dlq) i = (if job_status j = Job_dead then 1 else 0)))"

inductive dlq_step :: "(string \<Rightarrow> string) \<Rightarrow> deploy_jobs \<times> dlq_store \<Rightarrow> deploy_jobs \<times> dlq_store \<Rightarrow> bool"
  for redact where
  add: "js_get (jobs st) (job_id j) = None \<Longrightarrow> job_status j = Job_pending \<Longrightarrow> retry_count j = 0 \<Longrightarrow>
     dlq_step redact (st, dlq) (addJob j st, dlq)"
| process: "js_get (dlq_records dlq) dlqId = None \<Longrightarrow>
     dlq_step redact (st, dlq) (fst (processDeploymentJob redact dlqId now pols deploy (st, dlq)))"
| requeue: "js_get (jobs st) newId = None \<Longrightarrow>
     dlq_step redact (st, dlq) (fst (requeue_route user audit_ok newId now i (st, dlq)))"
| archive: "dlq_step redact (st, dlq) (st, fst (archive_route user now i dlq))"

inductive dlq_run :: "(string \<Rightarrow> string) \<Rightarrow> deploy_jobs \<times> dlq_store \<Rightarrow> deploy_jobs \<times> dlq_store \<Rightarrow> bool"
  for redact s0 where
  start: "dlq_run redact s0 s0"
| step: "dlq_run redact s0 s \<Longrightarrow> dlq_step redact s t \<Longrightarrow> dlq_run redact s0 t"

lemma dlq_inv_set_job:
  assumes "dlq_inv (st, dlq)" and "job_id j = i" and "job_ok st j"
    and "originals dlq' = originals dlq @ new"
    and "count_list new i = (if job_status j = Job_dead then 1 else 0)"
    and "\<And>k. k \<noteq> i \<Longrightarrow> count_list new k = 0"
    and "case js_get (jobs st) i of None \<Rightarrow> True | Some j0 \<Rightarrow> job_status j0 \<noteq> Job_dead"
  shows "dlq_inv (st\<lparr>jobs := js_set i j (jobs st)\<rparr>, dlq')"
  unfolding dlq_inv_def case_prod_conv
proof (intro conjI allI)
  show "js_ok (jobs (st\<lparr>jobs := js_set i j (jobs st)\<rparr>))" using assms(1) by (simp add: dlq_inv_def)
next
  fix k
  have ok: "job_ok (st\<lparr>jobs := m\<rparr>) x = job_ok st x" for m x
    by (simp add: job_ok_def attempts_limit_def cong: option.case_cong)
  have inv: "case js_get (jobs st) k of None \<Rightarrow> count_list (originals dlq) k = 0
     | Some j \<Rightarrow> job_id j = k \<and> job_ok st j \<and> count_list (originals dlq) k = (if job_status j = Job_dead then 1 else 0)"
    using assms(1) by (simp add: dlq_inv_def)
  show "case js_get (jobs (st\<lparr>jobs := js_set i j (jobs st)\<rparr>)) k of None \<Rightarrow> count_list (originals dlq') k = 0
     | Some x \<Rightarrow> job_id x = k \<and> job_ok (st\<lparr>jobs := js_set i j (jobs st)\<rparr>) x
         \<and> count_list (originals dlq') k = (if job_status x = Job_dead then 1 else 0)"
  proof (cases "k = i")
    case True
    with inv assms show ?thesis by (auto simp: ok split: option.splits)
  next
    case False
    with inv assms(4,6) show ?thesis by (auto simp: ok split: option.splits)
  qed
qed

lemma dlq_inv_same_originals: "dlq_inv (st, dlq) \<Longrightarrow> originals dlq' = originals dlq \<Longrightarrow> dlq_inv (st, dlq')"
  by (simp add: dlq_inv_def cong: option.case_cong)

lemma gives_up_bounds:
  "\<not> gives_up None None e j st \<Longrightarrow>
     retry_count j \<le> store_dlqThreshold st \<and> (case attempts_limit None j st of None \<Rightarrow> True | Some m \<Rightarrow> retry_count j < m)"
  by (auto simp: gives_up_def split: option.splits)

lemma failed_job_fields [simp]:
  "job_id (failed_job redact now e j) = job_id j" "retry_count (failed_job redact now e j) = retry_count j + 1"
  "attempts_limit opt (failed_job redact now e j) st = attempts_limit opt j st"
  by (simp_all add: failed_job_def attempts_limit_def cong: option.case_cong)

lemma claim_inv:
  assumes "dlq_inv (st, dlq)" and "job_claim now st = (st1, jo)"
  shows "dlq_inv (st1, dlq) \<and> (case jo of None \<Rightarrow> True
     | Some j \<Rightarrow> js_get (jobs st1) (job_id j) = Some j \<and> job_status j = Job_in_progress)"
proof (cases "find (\<lambda>j. job_status j = Job_pending) (js_values (jobs st))")
  case None
  with assms show ?thesis by (simp add: job_claim_def)
next
  case (Some j)
  then have pend: "job_status j = Job_pending" and "j \<in> set (js_values (jobs st))"
    by (auto simp: find_Some_iff)
  moreover have ok: "js_ok (jobs st)" using assms(1) by (simp add: dlq_inv_def)
  ultimately obtain i where i: "js_get (jobs st) i = Some j" by (auto simp: js_values_iff)
  with assms(1) have ji: "job_id j = i" "job_ok st j" by (auto simp: dlq_inv_def split: option.splits dest!: spec [of _ i])
  let ?j = "j\<lparr>job_status := Job_in_progress, job_updated_at := now\<rparr>"
  have st1: "st1 = st\<lparr>jobs := js_set i ?j (jobs st)\<rparr>" and jo: "jo = Some ?j"
    using assms(2) Some ji by (auto simp: job_claim_def Let_def)
  have "attempts_limit None ?j st = attempts_limit None j st" by (simp add: attempts_limit_def cong: option.case_cong)
  then have okj: "job_ok st ?j" using ji pend by (cases "attempts_limit None j st") (auto simp: job_ok_def)
  have "dlq_inv (st\<lparr>jobs := js_set i ?j (jobs st)\<rparr>, dlq)"
    by (rule dlq_inv_set_job [OF assms(1) _ okj, where new = "[]"]) (use ji i pend in simp_all)
  with st1 jo ji show ?thesis by simp
qed

lemma handleFailure_inv:
  assumes inv: "dlq_inv (st, dlq)" and j: "js_get (jobs st) i = Some j" "job_status j = Job_in_progress"
    and fresh: "js_get (dlq_records dlq) dlqId = None"
    and res: "handleFailure redact dlqId now None None i e (st, dlq) = Some s"
  shows "dlq_inv s"
proof -
  from inv have "case js_get (jobs st) i of None \<Rightarrow> count_list (originals dlq) i = 0
     | Some j \<Rightarrow> job_id j = i \<and> job_ok st j \<and> count_list (originals dlq) i = (if job_status j = Job_dead then 1 else 0)"
    by (simp add: dlq_inv_def)
  with j have ji: "job_id j = i" "job_ok st j" by auto
  let ?j = "failed_job redact now e j"
  show ?thesis
  proof (cases "gives_up None None e ?j st")
    case True
    let ?d = "?j\<lparr>job_status := Job_dead\<rparr>"
    have ok: "job_ok st ?d" using ji(2) j(2) by (simp add: job_ok_def)
    have jd: "job_id ?d = i" and js: "job_status ?d = Job_dead" using ji by simp_all
    from True res j fresh obtain dlq' where s: "s = (st\<lparr>jobs := js_set i ?d (jobs st)\<rparr>, dlq')"
      and o: "originals dlq' = originals dlq @ [i]"
      by (auto simp: handleFailure_def Let_def originals_insert split: prod.splits dest!: arg_cong [where f = fst])
    from dlq_inv_set_job [OF inv jd ok o] js j show ?thesis by (simp add: s)
  next
    case False
    let ?p = "?j\<lparr>job_status := Job_pending\<rparr>"
    have "attempts_limit None ?p st = attempts_limit None ?j st" by (simp add: attempts_limit_def cong: option.case_cong)
    then have ok: "job_ok st ?p" using ji(2) j(2) gives_up_bounds [OF False]
      by (cases "attempts_limit None j st") (auto simp: job_ok_def)
    from False res j have s: "s = (st\<lparr>jobs := js_set i ?p (jobs st)\<rparr>, dlq)" by (simp add: handleFailure_def Let_def)
    have "dlq_inv (st\<lparr>jobs := js_set i ?p (jobs st)\<rparr>, dlq)"
      by (rule dlq_inv_set_job [OF inv _ ok, where new = "[]"]) (use ji j in simp_all)
    then show ?thesis by (simp add: s)
  qed
qed

lemma worker_round_inv:
  assumes inv: "dlq_inv (st, dlq)" and fresh: "js_get (dlq_records dlq) dlqId = None"
  shows "dlq_inv (fst (processDeploymentJob redact dlqId now pols deploy (st, dlq)))"
proof -
  obtain st1 jo where cl: "job_claim now st = (st1, jo)" by (cases "job_claim now st")
  note c = claim_inv [OF inv cl]
  show ?thesis
  proof (cases jo)
    case None
    with c cl show ?thesis by (simp add: processDeploymentJob_def)
  next
    case (Some j)
    with c have inv1: "dlq_inv (st1, dlq)" and j: "js_get (jobs st1) (job_id j) = Some j" "job_status j = Job_in_progress" by auto
    have f: "dlq_inv s" if "handleFailure redact dlqId now None None (job_id j) e (st1, dlq) = Some s" for e s
      using handleFailure_inv [OF inv1 j fresh that] .
    show ?thesis
    proof (cases "job_run pols deploy j")
      case (Inl e)
      with cl Some f inv1 show ?thesis by (auto simp: processDeploymentJob_def Let_def split: option.splits)
    next
      case (Inr r)
      let ?j = "j\<lparr>job_status := Job_completed, job_updated_at := now\<rparr>"
      have "job_ok st1 j" using inv1 j by (auto simp: dlq_inv_def split: option.splits dest!: spec [of _ "job_id j"])
      then have ok: "job_ok st1 ?j" by (simp add: job_ok_def)
      have "dlq_inv (st1\<lparr>jobs := js_set (job_id j) ?j (jobs st1)\<rparr>, dlq)"
        by (rule dlq_inv_set_job [OF inv1 _ ok, where new = "[]"]) (use j in simp_all)
      with cl Some Inr j show ?thesis by (simp add: processDeploymentJob_def markCompleted_def Let_def)
    qed
  qed
qed

lemma add_inv:
  assumes "dlq_inv (st, dlq)" and "js_get (jobs st) (job_id j) = None" and "job_status j = Job_pending" and "retry_count j = 0"
  shows "dlq_inv (addJob j st, dlq)"
  unfolding addJob_def
  by (rule dlq_inv_set_job [OF assms(1), where new = "[]"]) (use assms in \<open>simp_all add: job_ok_def\<close>)

lemma requeue_inv:
  assumes inv: "dlq_inv (st, dlq)" and fresh: "js_get (jobs st) newId = None"
  shows "dlq_inv (fst (requeue_route user audit_ok newId now i (st, dlq)))"
proof (cases "requireAdmin user = None \<or> dlq_find i True dlq = None")
  case True
  with inv show ?thesis by (auto simp: requeue_route_def split: option.splits)
next
  case False
  then obtain who r where w: "requireAdmin user = Some who" and r: "dlq_find i True dlq = Some r" by auto
  show ?thesis
  proof (cases "archived r \<or> requeue_in_progress r")
    case True
    with inv w r show ?thesis by (auto simp: requeue_route_def)
  next
    case False
    have step: "originals (the (dlq_update i now f d)) = originals d \<and> (\<exists>r'. dlq_find i True (the (dlq_update i now f d)) = Some r')"
      if "dlq_find i True d = Some x" "\<And>r. original_job_id (f r) = original_job_id r" for f d x
      using dlq_update_Some [OF that(1), of now f] originals_update [OF _ that(2), of i now d] by fastforce
    let ?d1 = "the (dlq_update i now (\<lambda>r. r\<lparr>requeue_in_progress := True\<rparr>) dlq)"
    let ?d2 = "the (dlq_update i now (\<lambda>r'. r'\<lparr>requeue_count := requeue_count r + 1, last_requeued_at := Some now,
                 last_requeued_by := Some who, requeue_in_progress := False\<rparr>) ?d1)"
    from step [OF r, of "\<lambda>r. r\<lparr>requeue_in_progress := True\<rparr>"] obtain r1 where o1: "originals ?d1 = originals dlq"
      and r1: "dlq_find i True ?d1 = Some r1" by auto
    from step [OF r1, of "\<lambda>r'. r'\<lparr>requeue_count := requeue_count r + 1, last_requeued_at := Some now,
                 last_requeued_by := Some who, requeue_in_progress := False\<rparr>"] obtain r2
      where o2: "originals ?d2 = originals dlq" and r2: "dlq_find i True ?d2 = Some r2" using o1 by auto
    from step [OF r2, of "\<lambda>r. r\<lparr>requeue_in_progress := False\<rparr>"]
    have o3: "originals (the (dlq_update i now (\<lambda>r. r\<lparr>requeue_in_progress := False\<rparr>) ?d2)) = originals dlq" using o2 by simp
    obtain dlq' j where t: "fst (requeue_route user audit_ok newId now i (st, dlq)) = (addJob j st, dlq')"
      and o: "originals dlq' = originals dlq" and j: "job_id j = newId" "job_status j = Job_pending" "retry_count j = 0"
      using w r False o2 o3 by (simp add: requeue_route_def Let_def) (cases audit_ok; fastforce)
    from add_inv [OF inv, of j] fresh j have "dlq_inv (addJob j st, dlq)" by simp
    with o t show ?thesis using dlq_inv_same_originals by metis
  qed
qed

lemma archive_inv: "dlq_inv (st, dlq) \<Longrightarrow> dlq_inv (st, fst (archive_route user now i dlq))"
  using originals_update [of i now "\<lambda>r. r\<lparr>archived := True\<rparr>" dlq]
  by (auto simp: archive_route_def dlq_find_def dlq_update_def split: option.split intro: dlq_inv_same_originals)

text \<open>Starting from empty stores, after any sequence of added jobs, worker rounds, requeues and archivings: a job
  is dead exactly when the dead-letter store has one entry for it, no job ever gets a second entry, and a
  job that can still run has failed at most \<open>dlqThreshold\<close> times and fewer times than its attempt limit.\<close>

theorem dead_jobs_have_one_entry:
  assumes "dlq_run redact s0 (st, dlq)" and "s0 = (\<lparr>jobs = [], store_maxAttempts = m, store_dlqThreshold = n\<rparr>, \<lparr>dlq_records = [], auditLog = []\<rparr>)"
  shows "dlq_inv (st, dlq)"
proof -
  have "dlq_inv s" if "dlq_run redact s0 s" for s
    using that
  proof (induction rule: dlq_run.induct)
    case start
    with assms(2) show ?case by (simp add: dlq_inv_def originals_def js_values_def)
  next
    case (step s t)
    from step.hyps(2) step.IH show ?case
      by cases (auto intro: add_inv worker_round_inv requeue_inv archive_inv)
  qed
  from this [OF assms(1)] show ?thesis .
qed

definition example_job :: deploy_job where
  "example_job = \<lparr>job_id = ''j'', job_policy_id = ''p'', job_wallet = example_address, job_network = Testnet,
     job_status = Job_pending, retry_count = 0, max_attempts = None, job_last_error = None, job_last_failed_at = None,
     job_first_failed_at = None, job_created_at = 1, job_updated_at = 1\<rparr>"

definition example_stores :: "deploy_jobs \<times> dlq_store" where
  "example_stores = (\<lparr>jobs = [], store_maxAttempts = None, store_dlqThreshold = 5\<rparr>, \<lparr>dlq_records = [], auditLog = []\<rparr>)"

text \<open>The job of an unknown policy dies in its first round.\<close>

theorem dead_jobs_have_one_entry_witness:
  "\<exists>st dlq. count_list (originals dlq) ''j'' = 1 \<and> dlq_inv (st, dlq)"
proof -
  let ?s1 = "(addJob example_job (fst example_stores), snd example_stores)"
  let ?s2 = "fst (processDeploymentJob id ''d'' 2 [] (\<lambda>_ _. Inr (''c'', ''h'')) ?s1)"
  have r1: "dlq_run id example_stores ?s1"
    using dlq_run.step [OF dlq_run.start dlq_step.add [of "fst example_stores" example_job id "snd example_stores"]]
    by (simp add: example_stores_def example_job_def)
  have r2: "dlq_run id example_stores ?s2"
    by (rule dlq_run.step [OF r1], rule dlq_step.process) (simp add: example_stores_def)
  obtain st dlq where s2: "?s2 = (st, dlq)" by (cases ?s2)
  have "count_list (originals (snd ?s2)) ''j'' = 1"
    by (simp add: processDeploymentJob_def job_claim_def example_stores_def example_job_def addJob_def js_values_def
        job_run_def handleFailure_def failed_job_def gives_up_def isTerminalFailure_def dlq_insert_def originals_def
        recordAudit_def Let_def)
  moreover have "dlq_inv (st, dlq)"
    using r2 unfolding s2 by (rule dead_jobs_have_one_entry) (rule example_stores_def)
  ultimately show ?thesis using s2 by (intro exI [of _ st] exI [of _ dlq]) simp
qed

subsection \<open>Requeueing\<close>

lemma dlq_update_get:
  "js_get (dlq_records dlq) i = Some r \<Longrightarrow>
     \<exists>dlq'. dlq_update i now f dlq = Some dlq' \<and> js_get (dlq_records dlq') i = Some ((f r)\<lparr>dlq_updated_at := now\<rparr>)"
  by (simp add: dlq_update_def)

lemma js_get_audit [simp]: "dlq_records (recordAudit i ty who now dlq) = dlq_records dlq"
  by (simp add: recordAudit_def)

text \<open>A requeue whose audit write fails answers with an error although its job was added; repeating the request,
  as the answer suggests, adds a second job for the same entry.\<close>

theorem requeue_not_idempotent:
  assumes "js_get (dlq_records dlq) i = Some r" and "\<not> archived r" and "\<not> requeue_in_progress r"
    and "requireAdmin user = Some who" and "n1 \<noteq> n2"
    and "requeue_route user False n1 t1 i (st, dlq) = (s1, rep1)"
    and "requeue_route user True n2 t2 i s1 = ((st2, dlq2), rep2)"
  shows "rep1 = Http 500 ''requeue_failed'' \<and> rep2 = Http 201 n2 \<and> js_has (jobs st2) n1 \<and> js_has (jobs st2) n2"
proof -
  let ?f1 = "\<lambda>r. r\<lparr>requeue_in_progress := True\<rparr>" and ?f3 = "\<lambda>r. r\<lparr>requeue_in_progress := False\<rparr>"
  let ?f2 = "\<lambda>r'. r'\<lparr>requeue_count := requeue_count r + 1, last_requeued_at := Some t1, last_requeued_by := Some who,
                 requeue_in_progress := False\<rparr>"
  from dlq_update_get [OF assms(1), of t1 ?f1] obtain d1 r1 where d1: "dlq_update i t1 ?f1 dlq = Some d1"
    "js_get (dlq_records d1) i = Some r1" "archived r1 = archived r" by auto
  from dlq_update_get [OF d1(2), of t1 ?f2] obtain d2 r2 where d2: "dlq_update i t1 ?f2 d1 = Some d2"
    "js_get (dlq_records d2) i = Some r2" "archived r2 = archived r" using d1(3) by auto
  from dlq_update_get [OF d2(2), of t1 ?f3] obtain d3 r3 where d3: "dlq_update i t1 ?f3 d2 = Some d3"
    "js_get (dlq_records d3) i = Some r3" "archived r3 = archived r" "\<not> requeue_in_progress r3" using d2(3) by auto
  let ?j1 = "requeued_job n1 t1 r" and ?j2 = "requeued_job n2 t2 r3"
  have one: "s1 = (addJob ?j1 st, recordAudit i Dlq_requeue_failed (Some who) t1 d3) \<and> rep1 = Http 500 ''requeue_failed''"
    using assms(1-4,6) d1 d2 d3 by (simp add: requeue_route_def dlq_find_def Let_def)
  then have "st2 = addJob ?j2 (addJob ?j1 st) \<and> rep2 = Http 201 n2"
    using assms(2,4,7) d3 by (simp add: requeue_route_def dlq_find_def Let_def)
  with one assms(5) show ?thesis by (simp add: addJob_def js_has_def)
qed

definition example_entry :: dlq_record where
  "example_entry = snd (dlq_insert ''d'' 1 ''j'' ''p''
     \<lparr>pay_wallet = ''w'', pay_network = Testnet, pay_policy_id = ''p'', pay_terminal = True\<rparr> ''e'' 1 1 1 (snd example_stores))"

theorem requeue_not_idempotent_witness:
  "\<exists>st2 :: deploy_jobs. js_has (jobs st2) ''n1'' \<and> js_has (jobs st2) ''n2''"
proof -
  let ?s = "(fst example_stores, \<lparr>dlq_records = [(''d'', example_entry)], auditLog = []\<rparr>)"
  obtain s1 rep1 where a: "requeue_route None False ''n1'' 2 ''d'' ?s = (s1, rep1)" by fastforce
  obtain s2 rep2 where b: "requeue_route None True ''n2'' 3 ''d'' s1 = (s2, rep2)" by fastforce
  obtain st2 dlq2 where c: "s2 = (st2, dlq2)" by (cases s2)
  show ?thesis
    using requeue_not_idempotent [OF _ _ _ _ _ a b [unfolded c], of example_entry "''default-admin''"]
    by (auto simp: example_entry_def dlq_insert_def requireAdmin_def Let_def)
qed

end
