(* ===== verification/Csrf.thy ===== *)
theory Csrf
  imports Json
begin

text \<open>
  CSRF tokens of the policy service: \<open>services/policy-service/src/csrf.ts\<close>.  The HMAC (as lower-case hex)
  and the random nonce are arguments.  Numbers beyond the exact range of doubles are not rounded.
\<close>

definition DEFAULT_CSRF_TTL_MS :: rat where
  "DEFAULT_CSRF_TTL_MS = 60 * 60 * 1000"

datatype csrf_reason = Missing | Malformed | Expired | Invalid_signature

text \<open>\<open>Number(s)\<close> of a string without a dot: the integer literals, or digits with an exponent; \<open>None\<close> when the
  result is not finite.\<close>

definition signed_digits :: "string \<Rightarrow> int option" where
  "signed_digits s =
     (case s of
        [] \<Rightarrow> None
      | c # r \<Rightarrow>
          (let dec = (\<lambda>u. if u \<noteq> [] \<and> list_all is_digit u then Some (int (parse_nat u)) else None)
           in if c = CHR ''-'' then map_option uminus (dec r) else if c = CHR ''+'' then dec r else dec s))"

definition exponent_number :: "string \<Rightarrow> rat option" where
  "exponent_number s =
     (let t = to_lower (js_trim s) in
      case split_on CHR ''e'' t of
        [m, e] \<Rightarrow>
          (case (signed_digits m, signed_digits e) of
             (Some a, Some b) \<Rightarrow> Some (if b \<ge> 0 then of_int a * 10 ^ nat b else of_int a / 10 ^ nat (- b))
           | _ \<Rightarrow> None)
      | _ \<Rightarrow> None)"

definition js_Number :: "string \<Rightarrow> rat option" where
  "js_Number s =
     (case (case js_BigInt s of Some n \<Rightarrow> Some (of_int n) | None \<Rightarrow> exponent_number s) of
        None \<Rightarrow> None
      | Some r \<Rightarrow> if \<bar>r\<bar> < 2 ^ 1024 then Some r else None)"

definition token_data :: "string \<Rightarrow> string \<Rightarrow> string" where
  "token_data nonce ts = nonce @ CHR ''.'' # ts"

definition generateCsrfToken :: "(string \<Rightarrow> string \<Rightarrow> string) \<Rightarrow> string \<Rightarrow> string \<Rightarrow> nat \<Rightarrow> string" where
  "generateCsrfToken hmac secret nonce nowMs =
     (let data = token_data nonce (show_nat nowMs) in data @ CHR ''.'' # hmac secret data)"

definition verifyCsrfToken ::
  "(string \<Rightarrow> string \<Rightarrow> string) \<Rightarrow> string option \<Rightarrow> string \<Rightarrow> rat \<Rightarrow> rat option \<Rightarrow> csrf_reason + unit" where
  "verifyCsrfToken hmac tok secret nowMs ttl =
     (case tok of
        None \<Rightarrow> Inl Missing
      | Some t \<Rightarrow>
          (if js_trim t = [] then Inl Malformed
           else
             (case split_on CHR ''.'' (js_trim t) of
                [nonce, ts, sig] \<Rightarrow>
                  (if nonce = [] \<or> ts = [] \<or> sig = [] then Inl Malformed
                   else
                     (case js_Number ts of
                        None \<Rightarrow> Inl Malformed
                      | Some stamp \<Rightarrow>
                          (if stamp \<le> 0 then Inl Malformed
                           else
                             (let ttlMs = (case ttl of None \<Rightarrow> DEFAULT_CSRF_TTL_MS | Some x \<Rightarrow> x) in
                              if nowMs - stamp > ttlMs \<or> stamp > nowMs + 60000 then Inl Expired
                              else if hex_decode sig \<noteq> hex_decode (hmac secret (token_data nonce ts))
                              then Inl Invalid_signature
                              else Inr ()))))
              | _ \<Rightarrow> Inl Malformed)))"

definition is_mutation :: "string \<Rightarrow> bool" where
  "is_mutation method \<longleftrightarrow> method \<in> {''POST'', ''PUT'', ''PATCH'', ''DELETE''}"

text \<open>The pre-handler: \<open>None\<close> lets the request through, otherwise the error of the 403.\<close>

definition csrfPreHandler ::
  "(string \<Rightarrow> string \<Rightarrow> string) \<Rightarrow> string \<Rightarrow> string option \<Rightarrow> string option \<Rightarrow> string \<Rightarrow> rat \<Rightarrow> rat option \<Rightarrow> string option" where
  "csrfPreHandler hmac method xCsrf csrf secret nowMs ttl =
     (if \<not> is_mutation method then None
      else
        (case (case xCsrf of Some t \<Rightarrow> Some t | None \<Rightarrow> csrf) of
           None \<Rightarrow> Some ''csrf_token_missing''
         | Some t \<Rightarrow>
             (case verifyCsrfToken hmac (Some t) secret nowMs ttl of
                Inl _ \<Rightarrow> Some ''csrf_token_invalid'' | Inr _ \<Rightarrow> None)))"

subsection \<open>Round trip\<close>

definition hex_string :: "string \<Rightarrow> bool" where
  "hex_string s \<longleftrightarrow> s \<noteq> [] \<and> list_all (\<lambda>c. digit_val c \<noteq> None) s"

definition nonce_ok :: "string \<Rightarrow> bool" where
  "nonce_ok s \<longleftrightarrow> s \<noteq> [] \<and> list_all (\<lambda>c. digit_val c \<noteq> None \<or> c = CHR ''-'') s"

lemma trim_no_space: "list_all (\<lambda>c. \<not> is_space c) s \<Longrightarrow> js_trim s = s"
proof -
  have "dropWhile is_space t = t" if "list_all (\<lambda>c. \<not> is_space c) t" for t
    using that by (cases t) auto
  moreover assume "list_all (\<lambda>c. \<not> is_space c) s"
  ultimately show ?thesis by (simp add: js_trim_def)
qed

lemma digit_val_char: "digit_val c \<noteq> None \<Longrightarrow> \<not> is_space c \<and> c \<noteq> CHR ''.''"
  by (auto simp: digit_val_def is_space_def lower_char_def Let_def split: if_splits)

lemma split_dot_free: "CHR ''.'' \<notin> set w \<Longrightarrow> split_on CHR ''.'' w = [w]"
  by (induction w) auto

lemma split_dot_join: "CHR ''.'' \<notin> set w \<Longrightarrow> split_on CHR ''.'' (w @ CHR ''.'' # rest) = w # split_on CHR ''.'' rest"
  by (induction w) auto

lemma show_nat_chars: "c \<in> set (show_nat n) \<Longrightarrow> \<not> is_space c \<and> c \<noteq> CHR ''.''"
  using show_nat_digits [of n] by (auto simp: list_all_iff is_digit_def is_space_def Let_def)

text \<open>A generated token verifies under the same secret exactly while it is fresh: not older than the time to live
  and not more than a minute in the future.\<close>

theorem generated_token_verifies:
  assumes "nonce_ok nonce" and "\<And>k d. hex_string (hmac k d)" and "0 < issued" and "issued < 2 ^ 53"
  shows "verifyCsrfToken hmac (Some (generateCsrfToken hmac secret nonce issued)) secret nowMs (Some ttl) =
     (if nowMs - of_nat issued > ttl \<or> of_nat issued > nowMs + 60000 then Inl Expired else Inr ())"
proof -
  let ?ts = "show_nat issued" and ?sig = "hmac secret (token_data nonce (show_nat issued))"
  have sig: "?sig \<noteq> []" "CHR ''.'' \<notin> set ?sig" and nonce: "nonce \<noteq> []" "CHR ''.'' \<notin> set nonce"
    and ts: "?ts \<noteq> []" "CHR ''.'' \<notin> set ?ts"
    using assms(1) assms(2) [of secret "token_data nonce ?ts"] digit_val_char show_nat_digits [of issued] show_nat_chars
    by (fastforce simp: hex_string_def nonce_ok_def list_all_iff)+
  have sp: "list_all (\<lambda>c. \<not> is_space c) (generateCsrfToken hmac secret nonce issued)"
    using assms(1) assms(2) [of secret "token_data nonce ?ts"] digit_val_char show_nat_chars
    by (fastforce simp: generateCsrfToken_def token_data_def hex_string_def nonce_ok_def list_all_iff Let_def is_space_def)
  have parts: "split_on CHR ''.'' (generateCsrfToken hmac secret nonce issued) = [nonce, ?ts, ?sig]"
    using sig nonce ts by (simp add: generateCsrfToken_def token_data_def Let_def split_dot_join split_dot_free)
  have "js_BigInt ?ts = Some (int issued)"
    using show_nat_digits [of issued] js_BigInt_digits [of ?ts] by (simp add: parse_show_nat)
  moreover have "(of_nat issued :: rat) < 2 ^ 1024"
  proof -
    have "issued < (2::nat) ^ 1024" using assms(4) by (rule less_trans) simp
    then show ?thesis using of_nat_less_iff [where 'a = rat, of issued "2 ^ 1024"] by simp
  qed
  ultimately have "js_Number ?ts = Some (of_nat issued)" by (simp add: js_Number_def)
  moreover have "generateCsrfToken hmac secret nonce issued \<noteq> []" by (simp add: generateCsrfToken_def token_data_def Let_def)
  ultimately show ?thesis using parts sig nonce ts assms(3) trim_no_space [OF sp]
    by (simp add: verifyCsrfToken_def Let_def token_data_def)
qed

theorem generated_token_verifies_witness:
  "verifyCsrfToken (\<lambda>_ _. ''ab'') (Some (generateCsrfToken (\<lambda>_ _. ''ab'') ''k'' ''1-2'' 5000)) ''k'' 6000 (Some 1000) = Inr ()"
  by (subst generated_token_verifies)
     (simp_all add: nonce_ok_def hex_string_def digit_val_def lower_char_def)

end
