(* ===== verification/TxScope.thy ===== *)
theory TxScope
  imports Prelude
begin

text \<open>
  Which submissions the wallet service funds, and at most once: the credential scope of
  \<open>services/wallet-service/src/scope.ts\<close>, the replay keys and guards of \<open>replay.ts\<close> and
  \<open>db/pg-replay.ts\<close>, the derivation gate of \<open>derivation.ts\<close> and the in-flight tracker of
  \<open>in-flight.ts\<close>.

  The Stellar SDK is a parameter: \<open>parse\<close> is \<open>TransactionBuilder.fromXDR\<close> (\<open>None\<close> when it throws)
  and an \<open>envelope\<close> is the part of the parsed transaction the code reads.  The derivation function
  of passkey-kit is a parameter as well.
\<close>

subsection \<open>Transactions and their credentials\<close>

record address_credentials =
  cred_address :: string
  cred_nonce :: int
  cred_expiration :: nat

datatype credentials =
    SourceAccount
  | AddressV1 address_credentials
  | AddressV2 address_credentials
  | AddressWithDelegates address_credentials

datatype operation =
    InvokeHostFunction string "credentials list option"
  | OtherOperation string

datatype envelope = Transaction "operation list" | FeeBump

type_synonym tx_parser = "string \<Rightarrow> string \<Rightarrow> envelope option"

definition addressCredentials :: "credentials \<Rightarrow> address_credentials option" where
  "addressCredentials creds =
     (case creds of
        AddressV1 a \<Rightarrow> Some a
      | AddressV2 a \<Rightarrow> Some a
      | AddressWithDelegates a \<Rightarrow> Some a
      | SourceAccount \<Rightarrow> None)"

fun auth_of :: "operation \<Rightarrow> credentials list" where
  "auth_of (InvokeHostFunction func (Some auth)) = auth"
| "auth_of (InvokeHostFunction func None) = []"
| "auth_of (OtherOperation ty) = []"

definition bound_credentials :: "operation list \<Rightarrow> address_credentials list" where
  "bound_credentials ops = List.map_filter addressCredentials (concat (map auth_of ops))"

definition extractAddressAuthSubjects :: "tx_parser \<Rightarrow> string \<Rightarrow> string \<Rightarrow> string list" where
  "extractAddressAuthSubjects parse signedXdr networkPassphrase =
     (case parse signedXdr networkPassphrase of
        None \<Rightarrow> []
      | Some FeeBump \<Rightarrow> []
      | Some (Transaction ops) \<Rightarrow> map cred_address (bound_credentials ops))"

datatype scope_error = No_wallet_subject | Unknown_wallet_subject string | Unguarded_mutating_route string

definition scope_code :: "scope_error \<Rightarrow> string" where
  "scope_code e =
     (case e of
        No_wallet_subject \<Rightarrow> ''no_wallet_subject''
      | Unknown_wallet_subject _ \<Rightarrow> ''unknown_wallet_subject''
      | Unguarded_mutating_route _ \<Rightarrow> ''unguarded_mutating_route'')"

text \<open>
  \<open>isKnownWallet\<close> is a database lookup: \<open>None\<close> is its rejection, which the code passes on.  The
  subjects are looked up one after the other and the first failure decides.
\<close>

datatype scope_failure = Scope scope_error | Lookup_failed

fun check_subjects :: "(string \<Rightarrow> bool option) \<Rightarrow> string list \<Rightarrow> scope_failure + unit" where
  "check_subjects isKnownWallet [] = Inr ()"
| "check_subjects isKnownWallet (s # ss) =
     (case isKnownWallet s of
        None \<Rightarrow> Inl Lookup_failed
      | Some True \<Rightarrow> check_subjects isKnownWallet ss
      | Some False \<Rightarrow> Inl (Scope (Unknown_wallet_subject s)))"

definition assertScopedToKnownWallets ::
  "tx_parser \<Rightarrow> string \<Rightarrow> string \<Rightarrow> (string \<Rightarrow> bool option) \<Rightarrow> scope_failure + unit" where
  "assertScopedToKnownWallets parse signedXdr networkPassphrase isKnownWallet =
     (let subjects = extractAddressAuthSubjects parse signedXdr networkPassphrase in
      if subjects = [] then Inl (Scope No_wallet_subject)
      else check_subjects isKnownWallet subjects)"

lemma check_subjects_ok: "check_subjects known ss = Inr () \<longleftrightarrow> (\<forall>s\<in>set ss. known s = Some True)"
  by (induction ss) (auto split: option.splits bool.splits)

lemma scope_accepts_iff:
  "assertScopedToKnownWallets parse xdr pass known = Inr ()
   \<longleftrightarrow> extractAddressAuthSubjects parse xdr pass \<noteq> []
     \<and> (\<forall>s\<in>set (extractAddressAuthSubjects parse xdr pass). known s = Some True)"
  by (simp add: assertScopedToKnownWallets_def Let_def check_subjects_ok)

text \<open>C29: A submission passes the credential scope exactly when the transaction parses, is not a fee
  bump, binds at least one address credential of any of the three address-bound kinds in an
  invoke-host-function operation, and the wallet repository recognises the subject of every one of
  them; in particular an unreadable repository, a source-account-only transaction and one foreign
  credential among known ones are all refused.\<close>

theorem scope_covers_every_credential:
  "assertScopedToKnownWallets parse xdr pass known = Inr ()
   \<longleftrightarrow> (\<exists>ops. parse xdr pass = Some (Transaction ops)
        \<and> (\<exists>op\<in>set ops. \<exists>c\<in>set (auth_of op). addressCredentials c \<noteq> None)
        \<and> (\<forall>op\<in>set ops. \<forall>c\<in>set (auth_of op). \<forall>a. addressCredentials c = Some a \<longrightarrow> known (cred_address a) = Some True))"
proof -
  have sub: "set (bound_credentials ops) = {a. \<exists>op\<in>set ops. \<exists>c\<in>set (auth_of op). addressCredentials c = Some a}" for ops
    by (force simp: bound_credentials_def List.map_filter_def image_iff)
  have nil: "bound_credentials ops = [] \<longleftrightarrow> (\<forall>op\<in>set ops. \<forall>c\<in>set (auth_of op). addressCredentials c = None)" for ops
    by (auto simp: bound_credentials_def List.map_filter_def filter_empty_conv)
  show ?thesis
  proof (cases "parse xdr pass")
    case None
    then show ?thesis by (simp add: scope_accepts_iff extractAddressAuthSubjects_def)
  next
    case (Some e)
    show ?thesis
    proof (cases e)
      case (Transaction ops)
      with Some show ?thesis
        by (auto simp: scope_accepts_iff extractAddressAuthSubjects_def sub nil)
    next
      case FeeBump
      with Some show ?thesis by (simp add: scope_accepts_iff extractAddressAuthSubjects_def)
    qed
  qed
qed

definition example_creds :: "string \<Rightarrow> int \<Rightarrow> address_credentials" where
  "example_creds a n = \<lparr>cred_address = a, cred_nonce = n, cred_expiration = 100\<rparr>"

definition example_parse :: tx_parser where
  "example_parse xdr pass =
     (if xdr = ''good'' then Some (Transaction [InvokeHostFunction ''f'' (Some [AddressV2 (example_creds ''CA'' 7)])])
      else if xdr = ''mixed'' then
        Some (Transaction [InvokeHostFunction ''f'' (Some [AddressV1 (example_creds ''CA'' 7), AddressV2 (example_creds ''CX'' 8)])])
      else None)"

theorem scope_covers_every_credential_witness:
  "(\<exists>ops. example_parse ''good'' ''p'' = Some (Transaction ops)
        \<and> (\<exists>op\<in>set ops. \<exists>c\<in>set (auth_of op). addressCredentials c \<noteq> None)
        \<and> (\<forall>op\<in>set ops. \<forall>c\<in>set (auth_of op). \<forall>a. addressCredentials c = Some a
              \<longrightarrow> (\<lambda>s. Some (s = ''CA'')) (cred_address a) = Some True))
   \<and> assertScopedToKnownWallets example_parse ''mixed'' ''p'' (\<lambda>s. Some (s = ''CA''))
       = Inl (Scope (Unknown_wallet_subject ''CX''))"
proof
  show "\<exists>ops. example_parse ''good'' ''p'' = Some (Transaction ops)
        \<and> (\<exists>op\<in>set ops. \<exists>c\<in>set (auth_of op). addressCredentials c \<noteq> None)
        \<and> (\<forall>op\<in>set ops. \<forall>c\<in>set (auth_of op). \<forall>a. addressCredentials c = Some a
              \<longrightarrow> (\<lambda>s. Some (s = ''CA'')) (cred_address a) = Some True)"
    using scope_covers_every_credential [of example_parse "''good''" "''p''" "\<lambda>s. Some (s = ''CA'')"]
    by (simp add: scope_accepts_iff extractAddressAuthSubjects_def example_parse_def bound_credentials_def
        addressCredentials_def example_creds_def List.map_filter_def)
  show "assertScopedToKnownWallets example_parse ''mixed'' ''p'' (\<lambda>s. Some (s = ''CA''))
       = Inl (Scope (Unknown_wallet_subject ''CX''))"
    by (simp add: assertScopedToKnownWallets_def extractAddressAuthSubjects_def example_parse_def bound_credentials_def
        addressCredentials_def example_creds_def List.map_filter_def)
qed

subsection \<open>The registry of mutating routes\<close>

datatype gate = Credential_scope | Derivation_gate | Session_capability | Public_auth | Worker_internal

definition MUTATING_ROUTES_REGISTRY :: "(string \<times> gate) list" where
  "MUTATING_ROUTES_REGISTRY =
     [(''POST /wallet/create'', Derivation_gate),
      (''POST /wallet/connect'', Public_auth),
      (''POST /wallet/submit'', Credential_scope),
      (''POST /wallet/jobs'', Worker_internal),
      (''POST /wallet/sessions/revoke'', Session_capability),
      (''POST /wallet/policy/update'', Session_capability),
      (''POST /wallet/account/merge'', Session_capability),
      (''POST /wallet/key/rotate'', Session_capability),
      (''POST /wallet/threshold/update'', Session_capability),
      (''POST /wallet/signer/manage'', Session_capability)]"

definition upper_char :: "char \<Rightarrow> char" where
  "upper_char c = (let n = of_char c :: nat in if 97 \<le> n \<and> n \<le> 122 then char_of (n - 32) else c)"

definition assertRouteCoveredInRegistry :: "string \<Rightarrow> string \<Rightarrow> scope_error + gate" where
  "assertRouteCoveredInRegistry meth path =
     (let key = map upper_char meth @ '' '' @ path in
      case js_get MUTATING_ROUTES_REGISTRY key of
        None \<Rightarrow> Inl (Unguarded_mutating_route key)
      | Some g \<Rightarrow> Inr g)"

text \<open>The mutating routes that \<open>server.ts\<close> registers, in order.\<close>

definition server_mutating_routes :: "(string \<times> string) list" where
  "server_mutating_routes =
     [(''POST'', ''/wallet/create''), (''POST'', ''/wallet/connect''), (''POST'', ''/wallet/submit''),
      (''POST'', ''/wallet/jobs''), (''PATCH'', ''/wallet/jobs/:recordId''), (''POST'', ''/wallet/sessions/revoke''),
      (''POST'', ''/wallet/policy/update''), (''POST'', ''/wallet/account/merge''), (''POST'', ''/wallet/key/rotate''),
      (''POST'', ''/wallet/threshold/update''), (''POST'', ''/wallet/signer/manage'')]"

text \<open>The job status transition is the one mutating route outside the registry.\<close>

lemma unregistered_mutating_routes:
  "filter (\<lambda>(m, p). \<not> is_ok (assertRouteCoveredInRegistry m p)) server_mutating_routes
   = [(''PATCH'', ''/wallet/jobs/:recordId'')]"
  by (simp add: assertRouteCoveredInRegistry_def server_mutating_routes_def MUTATING_ROUTES_REGISTRY_def upper_char_def Let_def)

subsection \<open>The derivation gate\<close>

record derivation_config =
  deployerPublicKey :: "string option"
  networkPassphrase :: string

text \<open>
  \<open>derive\<close> is \<open>deriveContractAddress\<close> of passkey-kit on the decoded credential id,
  \<open>decode\<close> is \<open>Buffer.from(keyId, "base64url")\<close> and \<open>dflt\<close> the canonical deployer key.
\<close>

definition deriveWalletContractId ::
  "(nat list \<Rightarrow> string \<Rightarrow> string \<Rightarrow> string) \<Rightarrow> (string \<Rightarrow> nat list) \<Rightarrow> string \<Rightarrow> string \<Rightarrow> derivation_config \<Rightarrow> string" where
  "deriveWalletContractId derive decode dflt keyIdBase64 config =
     derive (decode keyIdBase64)
       (case deployerPublicKey config of None \<Rightarrow> dflt | Some k \<Rightarrow> k) (networkPassphrase config)"

definition assertDerivedContractId ::
  "(nat list \<Rightarrow> string \<Rightarrow> string \<Rightarrow> string) \<Rightarrow> (string \<Rightarrow> nat list) \<Rightarrow> string \<Rightarrow> string \<Rightarrow> string \<Rightarrow> derivation_config
   \<Rightarrow> string + unit" where
  "assertDerivedContractId derive decode dflt keyIdBase64 claimedContractId config =
     (let expected = deriveWalletContractId derive decode dflt keyIdBase64 config in
      if expected \<noteq> claimedContractId then Inl ''contract_id_mismatch'' else Inr ())"

lemma derivation_gate_iff:
  "assertDerivedContractId derive decode dflt keyId claimed config = Inr ()
   \<longleftrightarrow> claimed = deriveWalletContractId derive decode dflt keyId config"
  by (auto simp: assertDerivedContractId_def Let_def)

subsection \<open>In-flight submissions\<close>

text \<open>
  The tracker's map, and the release callbacks as values: a callback is the wallet it was made for
  with its \<open>ended\<close> flag.
\<close>

type_synonym in_flight = "(string, int) js_map"

definition hasInFlight :: "in_flight \<Rightarrow> string \<Rightarrow> bool" where
  "hasInFlight m w = ((case js_get m w of None \<Rightarrow> 0 | Some n \<Rightarrow> n) > 0)"

definition start_flight :: "string \<Rightarrow> in_flight \<Rightarrow> in_flight" where
  "start_flight w m = js_set w ((case js_get m w of None \<Rightarrow> 0 | Some n \<Rightarrow> n) + 1) m"

definition end_flight :: "string \<Rightarrow> bool \<Rightarrow> in_flight \<Rightarrow> in_flight \<times> bool" where
  "end_flight w ended m =
     (if ended then (m, True)
      else
        (let current = (case js_get m w of None \<Rightarrow> 1 | Some n \<Rightarrow> n) - 1 in
         ((if current \<le> 0 then js_delete w m else js_set w current m), True)))"

text \<open>The tracker counts: the entry of a wallet is the number of its open flights, absent when none.\<close>

definition counts_flights :: "string list \<Rightarrow> in_flight \<Rightarrow> bool" where
  "counts_flights open_flights m \<longleftrightarrow>
     (\<forall>w. js_get m w = (if w \<in> set open_flights then Some (int (count_list open_flights w)) else None))"

lemma hasInFlight_iff: "counts_flights fs m \<Longrightarrow> hasInFlight m w \<longleftrightarrow> w \<in> set fs"
  by (auto simp: counts_flights_def hasInFlight_def count_list_0_iff)
     (metis count_notin gr0I of_nat_0_less_iff count_list_0_iff)

lemma start_flight_counts: "counts_flights fs m \<Longrightarrow> counts_flights (w # fs) (start_flight w m)"
  by (auto simp: counts_flights_def start_flight_def count_list_0_iff)

lemma count_list_remove1: "count_list (remove1 x xs) y = (if y = x then count_list xs y - 1 else count_list xs y)"
  by (induction xs) (auto simp: count_list_0_iff Suc_diff_Suc)

lemma in_set_remove1_count: "y \<in> set (remove1 x xs) \<longleftrightarrow> (if y = x then count_list xs y > 1 else y \<in> set xs)"
  by (metis count_list_0_iff count_list_remove1 zero_less_diff gr0I less_irrefl)

lemma end_flight_counts:
  assumes "counts_flights fs m" and "w \<in> set fs"
  shows "counts_flights (remove1 w fs) (fst (end_flight w False m))"
proof -
  have pos: "0 < count_list fs w" using assms(2) count_list_0_iff by (metis gr0I)
  have at_w: "js_get m w = Some (int (count_list fs w))" using assms by (simp add: counts_flights_def)
  have others: "js_get m w' = (if w' \<in> set fs then Some (int (count_list fs w')) else None)" for w'
    using assms(1) by (simp add: counts_flights_def)
  show ?thesis
    unfolding counts_flights_def
  proof
    fix w'
    show "js_get (fst (end_flight w False m)) w' =
        (if w' \<in> set (remove1 w fs) then Some (int (count_list (remove1 w fs) w')) else None)"
      using pos by (cases "w' = w")
        (auto simp: end_flight_def Let_def at_w others count_list_remove1 in_set_remove1_count)
  qed
qed

lemma end_flight_once: "end_flight w True m = (m, True)"
  by (simp add: end_flight_def)

subsection \<open>Replay keys\<close>

record replay_key =
  rk_address :: string
  rk_nonce :: string
  signatureExpirationLedger :: nat

definition key_id :: "replay_key \<Rightarrow> string" where
  "key_id k = rk_address k @ '':'' @ rk_nonce k"

definition replay_key_of :: "address_credentials \<Rightarrow> replay_key" where
  "replay_key_of c =
     \<lparr>rk_address = cred_address c, rk_nonce = show_int (cred_nonce c), signatureExpirationLedger = cred_expiration c\<rparr>"

definition extractReplayKeys :: "tx_parser \<Rightarrow> string \<Rightarrow> string \<Rightarrow> replay_key list" where
  "extractReplayKeys parse signedXdr pass =
     (case parse signedXdr pass of
        None \<Rightarrow> []
      | Some FeeBump \<Rightarrow> []
      | Some (Transaction ops) \<Rightarrow>
          js_values (fold (\<lambda>c. js_set (key_id (replay_key_of c)) (replay_key_of c)) (bound_credentials ops) []))"

lemma is_digit_no_colon: "list_all is_digit s \<Longrightarrow> CHR '':'' \<notin> set s"
  by (auto simp: list_all_iff is_digit_def Let_def)

lemma show_int_no_colon: "CHR '':'' \<notin> set (show_int n)"
  using show_nat_digits is_digit_no_colon by (auto simp: show_int_def)

lemma split_at_last_colon:
  "xs @ CHR '':'' # ys = xs' @ CHR '':'' # ys' \<Longrightarrow> CHR '':'' \<notin> set ys \<Longrightarrow> CHR '':'' \<notin> set ys' \<Longrightarrow> xs = xs' \<and> ys = ys'"
  by (auto simp: append_eq_append_conv2 Cons_eq_append_conv append_eq_Cons_conv)

lemma key_id_eq_iff:
  "key_id (replay_key_of c) = key_id (replay_key_of d)
   \<longleftrightarrow> cred_address c = cred_address d \<and> cred_nonce c = cred_nonce d"
proof
  assume "key_id (replay_key_of c) = key_id (replay_key_of d)"
  then have "cred_address c @ CHR '':'' # show_int (cred_nonce c) = cred_address d @ CHR '':'' # show_int (cred_nonce d)"
    by (simp add: key_id_def replay_key_of_def)
  from split_at_last_colon [OF this show_int_no_colon show_int_no_colon]
  show "cred_address c = cred_address d \<and> cred_nonce c = cred_nonce d" by (auto simp: show_int_inj)
qed (simp add: key_id_def replay_key_of_def)

definition keyed_by_id :: "(string, replay_key) js_map \<Rightarrow> bool" where
  "keyed_by_id m \<longleftrightarrow> js_ok m \<and> map fst m = map key_id (js_values m)"

lemma keyed_by_id_Nil [simp]: "keyed_by_id []"
  by (simp add: keyed_by_id_def js_values_def)

lemma keyed_by_id_set: "keyed_by_id m \<Longrightarrow> keyed_by_id (js_set (key_id k) k m)"
proof -
  have "map fst m = map key_id (js_values m) \<Longrightarrow>
      map fst (js_set (key_id k) k m) = map key_id (js_values (js_set (key_id k) k m))"
    by (induction "key_id k" k m rule: js_set.induct) (auto simp: js_values_def)
  then show "keyed_by_id m \<Longrightarrow> keyed_by_id (js_set (key_id k) k m)" by (simp add: keyed_by_id_def)
qed

lemma fold_replay_keys:
  "keyed_by_id m \<Longrightarrow>
     keyed_by_id (fold (\<lambda>c. js_set (key_id (replay_key_of c)) (replay_key_of c)) cs m)
     \<and> fst ` set (fold (\<lambda>c. js_set (key_id (replay_key_of c)) (replay_key_of c)) cs m)
       = fst ` set m \<union> (\<lambda>c. key_id (replay_key_of c)) ` set cs"
  by (induction cs arbitrary: m) (auto simp: keyed_by_id_set fst_set_js_set)

text \<open>The keys of a transaction are exactly those of its bound credentials, without duplicates.\<close>

lemma extractReplayKeys_ids:
  assumes "parse xdr pass = Some (Transaction ops)"
  shows "key_id ` set (extractReplayKeys parse xdr pass) = (\<lambda>c. key_id (replay_key_of c)) ` set (bound_credentials ops)"
    and "distinct (map key_id (extractReplayKeys parse xdr pass))"
proof -
  define m where "m = fold (\<lambda>c. js_set (key_id (replay_key_of c)) (replay_key_of c)) (bound_credentials ops) []"
  have k: "keyed_by_id m" and ids: "set (map fst m) = (\<lambda>c. key_id (replay_key_of c)) ` set (bound_credentials ops)"
    using fold_replay_keys [of "[]" "bound_credentials ops"] by (simp_all add: m_def)
  have ex: "map key_id (extractReplayKeys parse xdr pass) = map fst m"
    using assms k by (simp add: extractReplayKeys_def m_def keyed_by_id_def)
  show "distinct (map key_id (extractReplayKeys parse xdr pass))"
    using k ex by (metis js_ok_def keyed_by_id_def)
  show "key_id ` set (extractReplayKeys parse xdr pass) = (\<lambda>c. key_id (replay_key_of c)) ` set (bound_credentials ops)"
    using ids ex by (metis list.set_map)
qed

end
