(* ===== verification/ReplayGuard.thy ===== *)
theory ReplayGuard
  imports TxScope
begin

text \<open>
  The replay reservations of \<open>services/wallet-service/src/replay.ts\<close> (in-memory guard, fingerprint,
  releasable codes) and \<open>db/pg-replay.ts\<close> (Postgres guard), with the interface the submit route relies
  on as a locale and both guards as its instances.
\<close>

datatype reserve_result = Reserved | Replayed | Store_failed

definition RELEASABLE_SUBMISSION_CODES :: "string list" where
  "RELEASABLE_SUBMISSION_CODES =
     [''relayer_not_configured'', ''circuit_breaker_open'', ''sponsor_bad_tx'', ''sponsor_simulation_failed'',
      ''sponsor_fee_too_high'', ''sponsor_budget_exceeded'']"

text \<open>The fingerprint: \<open>hash\<close> is the truncated SHA-256 of the canonical text.\<close>

fun join_bar :: "string list \<Rightarrow> string" where
  "join_bar [] = []"
| "join_bar [s] = s"
| "join_bar (s # t # ss) = s @ ''|'' @ join_bar (t # ss)"

definition replayFingerprint :: "(string \<Rightarrow> string) \<Rightarrow> (string list \<Rightarrow> string list) \<Rightarrow> replay_key list \<Rightarrow> string" where
  "replayFingerprint hash sort_js keys = hash (join_bar (sort_js (map key_id keys)))"

subsection \<open>The interface\<close>

text \<open>
  What the route relies on: a reservation takes all keys of the request or none, is refused as a
  replay only when one of them is held, and a release gives back exactly the keys of the request.
  \<open>idents\<close> are the identities of a request's keys; a request is \<open>proper\<close> when it has no duplicate key.
\<close>

datatype 'q guard_call = Reserve 'q | Release 'q

locale replay_guard =
  fixes reserve :: "'q \<Rightarrow> 's \<Rightarrow> 's \<times> reserve_result"
    and release :: "'q \<Rightarrow> 's \<Rightarrow> 's"
    and held :: "'s \<Rightarrow> 'i set"
    and idents :: "'q \<Rightarrow> 'i set"
    and proper :: "'q \<Rightarrow> bool"
  assumes reserve_free: "reserve q s = (s', Reserved) \<Longrightarrow> idents q \<inter> held s = {}"
    and reserve_takes: "reserve q s = (s', Reserved) \<Longrightarrow> held s' = held s \<union> idents q"
    and reserve_all_or_none: "reserve q s = (s', r) \<Longrightarrow> r \<noteq> Reserved \<Longrightarrow> held s' = held s"
    and replay_has_cause: "proper q \<Longrightarrow> reserve q s = (s', Replayed) \<Longrightarrow> idents q \<inter> held s \<noteq> {}"
    and release_gives_back: "held (release q s) = held s - idents q"
begin

fun guard_run :: "'q guard_call list \<Rightarrow> 's \<Rightarrow> 's" where
  "guard_run [] s = s"
| "guard_run (Reserve q # cs) s = guard_run cs (fst (reserve q s))"
| "guard_run (Release q # cs) s = guard_run cs (release q s)"

text \<open>How often the identity was granted, and how often it was given back, along the calls.\<close>

fun grants :: "'i \<Rightarrow> 'q guard_call list \<Rightarrow> 's \<Rightarrow> nat" where
  "grants i [] s = 0"
| "grants i (Reserve q # cs) s =
     (if snd (reserve q s) = Reserved \<and> i \<in> idents q then 1 else 0) + grants i cs (fst (reserve q s))"
| "grants i (Release q # cs) s = grants i cs (release q s)"

fun returns :: "'i \<Rightarrow> 'q guard_call list \<Rightarrow> 's \<Rightarrow> nat" where
  "returns i [] s = 0"
| "returns i (Reserve q # cs) s = returns i cs (fst (reserve q s))"
| "returns i (Release q # cs) s =
     (if i \<in> idents q \<and> i \<in> held s then 1 else 0) + returns i cs (release q s)"

lemma reserve_held:
  "held (fst (reserve q s)) = (if snd (reserve q s) = Reserved then held s \<union> idents q else held s)"
  by (cases "reserve q s") (auto simp: reserve_takes dest: reserve_all_or_none)

lemma granted_was_free: "snd (reserve q s) = Reserved \<Longrightarrow> idents q \<inter> held s = {}"
  by (cases "reserve q s") (auto dest: reserve_free)

lemma held_is_refused: "idents q \<inter> held s \<noteq> {} \<Longrightarrow> snd (reserve q s) \<noteq> Reserved"
  using granted_was_free by blast

lemma grants_balance:
  "grants i cs s + (if i \<in> held s then 1 else 0) = returns i cs s + (if i \<in> held (guard_run cs s) then 1 else 0)"
proof (induction cs arbitrary: s)
  case Nil
  then show ?case by simp
next
  case (Cons c cs)
  show ?case
  proof (cases c)
    case (Reserve q)
    with Cons.IH [of "fst (reserve q s)"] show ?thesis
      by (cases "snd (reserve q s) = Reserved") (auto simp: reserve_held dest: granted_was_free)
  next
    case (Release q)
    with Cons.IH [of "release q s"] show ?thesis by (auto simp: release_gives_back)
  qed
qed

lemma granted_again_only_after_return: "grants i cs s \<le> 1 + returns i cs s"
  using grants_balance [of i cs s] by (simp split: if_splits)

end

subsection \<open>The in-memory guard\<close>

definition mem_reserve :: "replay_key list \<Rightarrow> string list \<Rightarrow> string list \<times> reserve_result" where
  "mem_reserve keys reserved =
     (if list_ex (\<lambda>k. key_id k \<in> set reserved) keys then (reserved, Replayed)
      else (fold (\<lambda>k s. List.insert (key_id k) s) keys reserved, Reserved))"

definition mem_release :: "replay_key list \<Rightarrow> string list \<Rightarrow> string list" where
  "mem_release keys reserved = fold (\<lambda>k s. removeAll (key_id k) s) keys reserved"

lemma set_fold_insert: "set (fold (\<lambda>k s. List.insert (f k) s) ks s) = set s \<union> f ` set ks"
  by (induction ks arbitrary: s) auto

lemma set_fold_removeAll: "set (fold (\<lambda>k s. removeAll (f k) s) ks s) = set s - f ` set ks"
  by (induction ks arbitrary: s) auto

interpretation mem_guard: replay_guard mem_reserve mem_release set "\<lambda>ks. key_id ` set ks" "\<lambda>_. True"
  by unfold_locales
     (auto simp: mem_reserve_def mem_release_def list_ex_iff set_fold_insert set_fold_removeAll split: if_splits)

subsection \<open>The Postgres guard\<close>

record replay_row =
  row_network :: network
  row_address :: string
  row_nonce :: string
  row_expiration :: nat
  reservedAt :: instant

definition primary_key :: "replay_row \<Rightarrow> network \<times> string \<times> string" where
  "primary_key r = (row_network r, row_address r, row_nonce r)"

definition row_of :: "network \<Rightarrow> instant \<Rightarrow> replay_key \<Rightarrow> replay_row" where
  "row_of n now k = \<lparr>row_network = n, row_address = rk_address k, row_nonce = rk_nonce k,
     row_expiration = signatureExpirationLedger k, reservedAt = now\<rparr>"

text \<open>\<open>INSERT ... ON CONFLICT DO NOTHING RETURNING\<close>: the table and the rows that were inserted.\<close>

fun insert_on_conflict :: "replay_row list \<Rightarrow> replay_row list \<Rightarrow> replay_row list \<times> replay_row list" where
  "insert_on_conflict [] table = (table, [])"
| "insert_on_conflict (r # rs) table =
     (if primary_key r \<in> primary_key ` set table then insert_on_conflict rs table
      else (let (t, ins) = insert_on_conflict rs (table @ [r]) in (t, r # ins)))"

text \<open>\<open>down\<close> is a failure of the database transaction, which rolls back.\<close>

definition pg_reserve ::
  "network \<Rightarrow> instant \<Rightarrow> bool \<Rightarrow> replay_key list \<Rightarrow> replay_row list \<Rightarrow> replay_row list \<times> reserve_result" where
  "pg_reserve n now down keys table =
     (if keys = [] then (table, Reserved)
      else if down then (table, Store_failed)
      else
        (let (table', inserted) = insert_on_conflict (map (row_of n now) keys) table in
         if length inserted \<noteq> length keys then (table, Replayed) else (table', Reserved)))"

definition pg_release :: "network \<Rightarrow> replay_key list \<Rightarrow> replay_row list \<Rightarrow> replay_row list" where
  "pg_release n keys table =
     fold (\<lambda>k. filter (\<lambda>r. \<not> (row_network r = n \<and> row_address r = rk_address k \<and> row_nonce r = rk_nonce k))) keys table"

definition purgeExpired :: "network \<Rightarrow> nat \<Rightarrow> replay_row list \<Rightarrow> replay_row list \<times> nat" where
  "purgeExpired n currentLedger table =
     (filter (\<lambda>r. \<not> (row_network r = n \<and> row_expiration r < currentLedger)) table,
      length (filter (\<lambda>r. row_network r = n \<and> row_expiration r < currentLedger) table))"

definition pg_ident :: "replay_key \<Rightarrow> string \<times> string" where
  "pg_ident k = (rk_address k, rk_nonce k)"

definition pg_held :: "network \<Rightarrow> replay_row list \<Rightarrow> (string \<times> string) set" where
  "pg_held n table = (\<lambda>r. (row_address r, row_nonce r)) ` {r \<in> set table. row_network r = n}"

lemma pg_held_iff: "(a, c) \<in> pg_held n table \<longleftrightarrow> (n, a, c) \<in> primary_key ` set table"
  by (auto simp: pg_held_def primary_key_def image_iff)

lemma insert_on_conflict_length: "length (snd (insert_on_conflict rs table)) \<le> length rs"
  by (induction rs table rule: insert_on_conflict.induct) (auto simp: Let_def split: prod.splits)

lemma insert_on_conflict_all:
  "length (snd (insert_on_conflict rs table)) = length rs
     \<longleftrightarrow> distinct (map primary_key rs) \<and> primary_key ` set rs \<inter> primary_key ` set table = {}"
proof (induction rs table rule: insert_on_conflict.induct)
  case (1 table)
  then show ?case by simp
next
  case (2 r rs table)
  then show ?case using insert_on_conflict_length [of rs table]
    by (cases "insert_on_conflict rs (table @ [r])") auto
qed

lemma insert_on_conflict_table:
  "length (snd (insert_on_conflict rs table)) = length rs \<Longrightarrow> fst (insert_on_conflict rs table) = table @ rs"
proof (induction rs table rule: insert_on_conflict.induct)
  case (1 table)
  then show ?case by simp
next
  case (2 r rs table)
  then show ?case using insert_on_conflict_length [of rs table]
    by (cases "insert_on_conflict rs (table @ [r])") (auto split: if_splits)
qed

lemma pg_reserve_cases:
  "pg_reserve n now down ks table =
     (if ks = [] then (table, Reserved)
      else if down then (table, Store_failed)
      else if distinct (map pg_ident ks) \<and> pg_ident ` set ks \<inter> pg_held n table = {}
      then (table @ map (row_of n now) ks, Reserved) else (table, Replayed))"
proof -
  let ?rs = "map (row_of n now) ks"
  have keys: "map primary_key ?rs = map (\<lambda>k. (n, pg_ident k)) ks"
    by (simp add: primary_key_def row_of_def pg_ident_def)
  have d: "distinct (map primary_key ?rs) = distinct (map pg_ident ks)"
    by (simp only: keys) (simp add: distinct_map inj_on_def)
  have "primary_key ` set ?rs = Pair n ` pg_ident ` set ks" using keys by (metis (no_types) list.set_map image_image)
  then have i: "primary_key ` set ?rs \<inter> primary_key ` set table = {} \<longleftrightarrow> pg_ident ` set ks \<inter> pg_held n table = {}"
    using pg_held_iff [of _ _ n table] by (auto simp: disjoint_iff image_iff) 
  show ?thesis
    using insert_on_conflict_all [of ?rs table] insert_on_conflict_table [of ?rs table] d i
    by (cases "insert_on_conflict ?rs table") (auto simp: pg_reserve_def)
qed

lemma pg_held_append: "pg_held n (table @ map (row_of n now) ks) = pg_held n table \<union> pg_ident ` set ks"
proof -
  have "{r \<in> set (table @ map (row_of n now) ks). row_network r = n} = {r \<in> set table. row_network r = n} \<union> row_of n now ` set ks"
    by (auto simp: row_of_def)
  then show ?thesis by (simp add: pg_held_def image_Un image_image pg_ident_def row_of_def)
qed

lemma set_pg_release:
  "set (pg_release n ks table) = {r \<in> set table. \<not> (row_network r = n \<and> (row_address r, row_nonce r) \<in> pg_ident ` set ks)}"
  unfolding pg_release_def pg_ident_def by (induction ks arbitrary: table) auto

lemma pg_held_release: "pg_held n (pg_release n ks table) = pg_held n table - pg_ident ` set ks"
  by (auto simp: pg_held_def set_pg_release)

text \<open>A request of the Postgres guard carries its instant and whether the database fails.\<close>

type_synonym pg_request = "instant \<times> bool \<times> replay_key list"

definition pg_call :: "network \<Rightarrow> pg_request \<Rightarrow> replay_row list \<Rightarrow> replay_row list \<times> reserve_result" where
  "pg_call n = (\<lambda>(now, down, ks). pg_reserve n now down ks)"

definition pg_return :: "network \<Rightarrow> pg_request \<Rightarrow> replay_row list \<Rightarrow> replay_row list" where
  "pg_return n = (\<lambda>(now, down, ks). pg_release n ks)"

definition pg_idents :: "pg_request \<Rightarrow> (string \<times> string) set" where
  "pg_idents = (\<lambda>(now, down, ks). pg_ident ` set ks)"

definition pg_proper :: "pg_request \<Rightarrow> bool" where
  "pg_proper = (\<lambda>(now, down, ks). distinct (map pg_ident ks))"

lemmas pg_defs = pg_call_def pg_return_def pg_idents_def pg_proper_def

lemma pg_call_cases:
  "pg_call n q table =
     (let (now, down, ks) = q in
      if ks = [] then (table, Reserved)
      else if down then (table, Store_failed)
      else if pg_proper q \<and> pg_idents q \<inter> pg_held n table = {} then (table @ map (row_of n now) ks, Reserved)
      else (table, Replayed))"
  by (cases q) (simp add: pg_defs pg_reserve_cases)

interpretation pg_guard: replay_guard "pg_call n" "pg_return n" "pg_held n" pg_idents pg_proper for n
proof unfold_locales
  fix q :: pg_request and s s' :: "replay_row list" and r
  obtain now down ks where q: "q = (now, down, ks)" by (cases q) auto
  have i: "pg_idents q = pg_ident ` set ks" by (simp add: pg_idents_def q)
  show "pg_call n q s = (s', Reserved) \<Longrightarrow> pg_idents q \<inter> pg_held n s = {}"
    by (simp add: pg_call_cases q Let_def pg_idents_def split: if_split_asm)
  show "pg_call n q s = (s', Reserved) \<Longrightarrow> pg_held n s' = pg_held n s \<union> pg_idents q"
    by (auto simp: pg_call_cases q Let_def pg_idents_def pg_held_append split: if_split_asm)
  show "pg_call n q s = (s', r) \<Longrightarrow> r \<noteq> Reserved \<Longrightarrow> pg_held n s' = pg_held n s"
    by (auto simp: pg_call_cases q Let_def split: if_splits)
  show "pg_proper q \<Longrightarrow> pg_call n q s = (s', Replayed) \<Longrightarrow> pg_idents q \<inter> pg_held n s \<noteq> {}"
    by (auto simp: pg_call_cases q Let_def split: if_splits)
  show "pg_held n (pg_return n q s) = pg_held n s - pg_idents q"
    by (simp add: pg_return_def q i [unfolded q] pg_held_release)
qed

text \<open>Along any sequence of reservations, failed or not, and releases, a signed authorisation, its
  address and nonce, is granted by the Postgres guard at most once more than it was given back; the
  expiration ledger and everything of the envelope around it play no part.\<close>

theorem authorisation_granted_at_most_once:
  "pg_guard.grants n i cs table \<le> 1 + pg_guard.returns n i cs table"
  by (rule pg_guard.granted_again_only_after_return)

subsection \<open>Purging\<close>

text \<open>Guard calls interleaved with purges at the ledger of their time.\<close>

datatype pg_event = Guard "pg_request guard_call" | Purge nat

fun pg_events :: "network \<Rightarrow> pg_event list \<Rightarrow> replay_row list \<Rightarrow> replay_row list" where
  "pg_events n [] table = table"
| "pg_events n (Guard (Reserve q) # es) table = pg_events n es (fst (pg_call n q table))"
| "pg_events n (Guard (Release q) # es) table = pg_events n es (pg_return n q table)"
| "pg_events n (Purge ledger # es) table = pg_events n es (fst (purgeExpired n ledger table))"

fun keeps_until :: "nat \<Rightarrow> string \<times> string \<Rightarrow> pg_event list \<Rightarrow> bool" where
  "keeps_until expiry i [] = True"
| "keeps_until expiry i (Guard (Reserve q) # es) = keeps_until expiry i es"
| "keeps_until expiry i (Guard (Release q) # es) = (i \<notin> pg_idents q \<and> keeps_until expiry i es)"
| "keeps_until expiry i (Purge ledger # es) = (ledger \<le> expiry \<and> keeps_until expiry i es)"

definition held_to :: "network \<Rightarrow> nat \<Rightarrow> string \<times> string \<Rightarrow> replay_row list \<Rightarrow> bool" where
  "held_to n expiry i table \<longleftrightarrow>
     (\<exists>r\<in>set table. row_network r = n \<and> (row_address r, row_nonce r) = i \<and> expiry \<le> row_expiration r)"

lemma held_to_held: "held_to n e i table \<Longrightarrow> i \<in> pg_held n table"
  by (auto simp: held_to_def pg_held_def)

lemma held_to_steps:
  "held_to n e i table \<Longrightarrow> held_to n e i (fst (pg_call n q table))"
  "held_to n e i table \<Longrightarrow> i \<notin> pg_idents q \<Longrightarrow> held_to n e i (pg_return n q table)"
  "held_to n e i table \<Longrightarrow> ledger \<le> e \<Longrightarrow> held_to n e i (fst (purgeExpired n ledger table))"
proof -
  obtain now down ks where q: "q = (now, down, ks)" by (cases q) auto
  show "held_to n e i table \<Longrightarrow> held_to n e i (fst (pg_call n q table))"
    by (auto simp: held_to_def pg_call_def pg_reserve_cases q)
  show "held_to n e i table \<Longrightarrow> i \<notin> pg_idents q \<Longrightarrow> held_to n e i (pg_return n q table)"
    by (auto simp: held_to_def pg_return_def set_pg_release pg_idents_def q)
  show "held_to n e i table \<Longrightarrow> ledger \<le> e \<Longrightarrow> held_to n e i (fst (purgeExpired n ledger table))"
    by (force simp: held_to_def purgeExpired_def)
qed

lemma held_to_kept:
  "held_to n e i table \<Longrightarrow> keeps_until e i es \<Longrightarrow> held_to n e i (pg_events n es table)"
  by (induction n es table rule: pg_events.induct) (simp_all add: held_to_steps)


definition example_key :: "string \<Rightarrow> replay_key" where
  "example_key a = \<lparr>rk_address = a, rk_nonce = ''7'', signatureExpirationLedger = 100\<rparr>"


end
