(* ===== verification/Relayer.thy ===== *)
theory Relayer
  imports Complex_Main ErrorClassification TxScope
begin

text \<open>
  The relayer submitter of the wallet service: \<open>services/wallet-service/src/relayer.ts\<close> (errors,
  circuit breaker, back-off, the submit loop) and \<open>relayer-passkey.ts\<close> (local re-simulation of a failed
  submission).  The relayer server, the clock and \<open>Math.random\<close> are parameters.
\<close>

text \<open>What a submission can throw: the project's \<open>SubmissionError\<close> with message and code, another \<open>Error\<close>, or a value that is no error.\<close>

datatype submit_error = Submission_error (sub_message: string) (sub_code: string) | Plain_error js_error | Thrown_value string

definition is_error :: "submit_error \<Rightarrow> bool" where
  "is_error e = (case e of Thrown_value _ \<Rightarrow> False | _ \<Rightarrow> True)"

definition unconfigured_submit :: "string \<Rightarrow> submit_error + string" where
  "unconfigured_submit signedXdr =
     Inl (Submission_error
       ''Relayer is not configured. Set RELAYER_BASE_URL and RELAYER_API_KEY (see .env.example).'' ''relayer_not_configured'')"

subsection \<open>The breaker\<close>

datatype relay_state = CLOSED | OPEN | HALF_OPEN

record relay_breaker =
  failureCount :: nat
  breaker_state :: relay_state
  nextAttemptTime :: instant
  threshold :: nat
  resetTimeoutMs :: int

definition new_breaker :: "nat option \<Rightarrow> int option \<Rightarrow> relay_breaker" where
  "new_breaker thr reset =
     \<lparr>failureCount = 0, breaker_state = CLOSED, nextAttemptTime = 0,
      threshold = (case thr of None \<Rightarrow> 5 | Some n \<Rightarrow> n), resetTimeoutMs = (case reset of None \<Rightarrow> 30000 | Some m \<Rightarrow> m)\<rparr>"

definition canExecute :: "instant \<Rightarrow> relay_breaker \<Rightarrow> relay_breaker \<times> bool" where
  "canExecute now b =
     (if breaker_state b = OPEN then
        (if now \<ge> nextAttemptTime b then (b\<lparr>breaker_state := HALF_OPEN\<rparr>, True) else (b, False))
      else (b, True))"

definition recordSuccess :: "relay_breaker \<Rightarrow> relay_breaker" where
  "recordSuccess b = b\<lparr>failureCount := 0, breaker_state := CLOSED\<rparr>"

definition recordFailure :: "instant \<Rightarrow> relay_breaker \<Rightarrow> relay_breaker" where
  "recordFailure now b =
     (let b1 = b\<lparr>failureCount := failureCount b + 1\<rparr> in
      if failureCount b1 \<ge> threshold b1
      then b1\<lparr>breaker_state := OPEN, nextAttemptTime := now + resetTimeoutMs b1\<rparr> else b1)"

definition reset_breaker :: "relay_breaker \<Rightarrow> relay_breaker" where
  "reset_breaker b = b\<lparr>failureCount := 0, breaker_state := CLOSED, nextAttemptTime := 0\<rparr>"

definition relay_inv :: "relay_breaker \<Rightarrow> bool" where
  "relay_inv b \<longleftrightarrow>
     (case breaker_state b of CLOSED \<Rightarrow> failureCount b < threshold b | _ \<Rightarrow> threshold b \<le> failureCount b)"

lemma relay_inv_new: "0 < threshold (new_breaker thr reset) \<Longrightarrow> relay_inv (new_breaker thr reset)"
  by (simp add: relay_inv_def new_breaker_def)

lemma relay_inv_steps:
  "relay_inv b \<Longrightarrow> relay_inv (fst (canExecute now b))"
  "0 < threshold b \<Longrightarrow> relay_inv (recordSuccess b)"
  "relay_inv b \<Longrightarrow> relay_inv (recordFailure now b)"
  "0 < threshold b \<Longrightarrow> relay_inv (reset_breaker b)"
  by (auto simp: relay_inv_def canExecute_def recordSuccess_def recordFailure_def reset_breaker_def Let_def
      split: relay_state.splits)

lemma threshold_steps [simp]:
  "threshold (fst (canExecute now b)) = threshold b"
  "threshold (recordSuccess b) = threshold b"
  "threshold (recordFailure now b) = threshold b"
  by (simp_all add: canExecute_def recordSuccess_def recordFailure_def Let_def)

subsection \<open>Back-off\<close>

definition calculateBackoffWithJitter :: "nat \<Rightarrow> rat \<Rightarrow> rat \<Rightarrow> rat \<Rightarrow> rat \<Rightarrow> int" where
  "calculateBackoffWithJitter attempt initialDelayMs maxDelayMs backoffFactor rnd =
     (let expDelay = initialDelayMs * backoffFactor ^ attempt;
          cappedDelay = min expDelay maxDelayMs;
          jitter = rnd * (1 / 2) * cappedDelay
      in \<lfloor>cappedDelay + jitter\<rfloor>)"

lemma relay_backoff_bounds:
  assumes "0 \<le> rnd" "rnd < 1" "0 \<le> d" "0 \<le> m" "0 \<le> f"
  shows "\<lfloor>min (d * f ^ n) m\<rfloor> \<le> calculateBackoffWithJitter n d m f rnd"
    and "of_int (calculateBackoffWithJitter n d m f rnd) \<le> 3 / 2 * m"
proof -
  let ?c = "min (d * f ^ n) m"
  have c: "0 \<le> ?c" using assms by simp
  then show "\<lfloor>?c\<rfloor> \<le> calculateBackoffWithJitter n d m f rnd"
    using assms by (simp add: calculateBackoffWithJitter_def Let_def floor_mono)
  have "rnd * ?c \<le> ?c" using mult_left_le_one_le [OF c, of rnd] assms by simp
  then have "?c + rnd * (1 / 2) * ?c \<le> 3 / 2 * ?c" by simp
  also have "\<dots> \<le> 3 / 2 * m" by simp
  finally show "of_int (calculateBackoffWithJitter n d m f rnd) \<le> 3 / 2 * m"
    unfolding calculateBackoffWithJitter_def Let_def by (rule order_trans [OF of_int_floor_le])
qed

subsection \<open>The submit loop\<close>

text \<open>
  What \<open>server.send\<close> settles to: success with a hash, a structured error (code, message and the JSON text
  of its context), or a rejection.
\<close>

datatype send_outcome = Sent_ok string | Sent_error string string "string option" | Send_rejected submit_error

record relay_options =
  maxRetries :: nat
  initialDelayMs :: rat
  maxDelayMs :: rat
  backoffFactor :: rat

definition default_relay_options :: relay_options where
  "default_relay_options = \<lparr>maxRetries = 3, initialDelayMs = 100, maxDelayMs = 3000, backoffFactor = 2\<rparr>"

text \<open>
  The environment of one submission: the outcome of each attempt's send, the random numbers, the time of
  the entry check, of each attempt's failure record and of each attempt's check before the next.
\<close>

record relay_env =
  send_result :: "nat \<Rightarrow> send_outcome"
  rnd :: "nat \<Rightarrow> rat"
  entry_time :: instant
  failure_time :: "nat \<Rightarrow> instant"
  check_time :: "nat \<Rightarrow> instant"

definition attempt_outcome :: "send_outcome \<Rightarrow> submit_error + string" where
  "attempt_outcome r =
     (case r of
        Sent_ok h \<Rightarrow> Inr h
      | Sent_error c m ctx \<Rightarrow> Inl (Submission_error (m @ (case ctx of None \<Rightarrow> [] | Some t \<Rightarrow> '' '' @ t)) c)
      | Send_rejected e \<Rightarrow> Inl e)"

definition final_error :: "submit_error \<Rightarrow> submit_error" where
  "final_error lastError =
     (if is_error lastError then lastError
      else Submission_error ''Transaction submission failed after retries'' ''submission_failed'')"

text \<open>\<open>left\<close> counts the retries after attempt \<open>attempt\<close>; the result holds the number of sends and the sleeps.\<close>

fun relay_loop ::
  "relay_options \<Rightarrow> relay_env \<Rightarrow> nat \<Rightarrow> nat \<Rightarrow> relay_breaker
   \<Rightarrow> relay_breaker \<times> nat \<times> int list \<times> (submit_error + string)" where
  "relay_loop opts env left attempt b =
     (case attempt_outcome (send_result env attempt) of
        Inr h \<Rightarrow> (recordSuccess b, 1, [], Inr h)
      | Inl e \<Rightarrow>
          (let b1 = recordFailure (failure_time env attempt) b in
           case left of
             0 \<Rightarrow> (b1, 1, [], Inl (final_error e))
           | Suc n \<Rightarrow>
               (let (b2, go) = canExecute (check_time env attempt) b1 in
                if go then
                  (let delay = calculateBackoffWithJitter attempt (initialDelayMs opts) (maxDelayMs opts)
                                 (backoffFactor opts) (rnd env attempt);
                       (b3, sends, sleeps, res) = relay_loop opts env n (Suc attempt) b2
                   in (b3, Suc sends, delay # sleeps, res))
                else (b2, 1, [], Inl (final_error e)))))"

declare relay_loop.simps [simp del]

definition breaker_open_error :: submit_error where
  "breaker_open_error = Submission_error ''Circuit breaker open: RPC outage detected'' ''circuit_breaker_open''"

definition relayer_submit ::
  "relay_options \<Rightarrow> relay_env \<Rightarrow> relay_breaker \<Rightarrow> relay_breaker \<times> nat \<times> int list \<times> (submit_error + string)" where
  "relayer_submit opts env b =
     (let (b1, go) = canExecute (entry_time env) b in
      if go then relay_loop opts env (maxRetries opts) 0 b1 else (b1, 0, [], Inl breaker_open_error))"

abbreviation "relay_result \<equiv> \<lambda>r. snd (snd (snd r))"
abbreviation "relay_sends \<equiv> \<lambda>r. fst (snd r)"

subsection \<open>What a submission does\<close>

text \<open>All that one run of the loop guarantees, by induction over the retries that are left.\<close>

definition loop_post :: "relay_env \<Rightarrow> nat \<Rightarrow> nat \<Rightarrow> relay_breaker \<times> nat \<times> int list \<times> (submit_error + string) \<Rightarrow> bool" where
  "loop_post env left attempt r \<longleftrightarrow>
     1 \<le> relay_sends r \<and> relay_sends r \<le> Suc left
     \<and> length (fst (snd (snd r))) = relay_sends r - 1
     \<and> (\<forall>i < relay_sends r - 1. \<not> is_ok (attempt_outcome (send_result env (attempt + i))))
     \<and> (case relay_result r of
          Inr h \<Rightarrow> attempt_outcome (send_result env (attempt + relay_sends r - 1)) = Inr h
                    \<and> breaker_state (fst r) = CLOSED \<and> failureCount (fst r) = 0
        | Inl e \<Rightarrow> (\<exists>e'. attempt_outcome (send_result env (attempt + relay_sends r - 1)) = Inl e' \<and> e = final_error e'))"

lemma relay_loop_post: "loop_post env left attempt (relay_loop opts env left attempt b)"
proof (induction left arbitrary: attempt b)
  case 0
  show ?case
    by (cases "attempt_outcome (send_result env attempt)")
       (simp_all add: relay_loop.simps [of opts env 0] loop_post_def recordSuccess_def Let_def)
next
  case (Suc n)
  show ?case
  proof (cases "attempt_outcome (send_result env attempt)")
    case (Inr h)
    then show ?thesis by (simp add: relay_loop.simps [of opts env "Suc n"] loop_post_def recordSuccess_def)
  next
    case (Inl e)
    obtain b2 go where c: "canExecute (check_time env attempt) (recordFailure (failure_time env attempt) b) = (b2, go)"
      by (cases "canExecute (check_time env attempt) (recordFailure (failure_time env attempt) b)")
    show ?thesis
    proof (cases go)
      case False
      with Inl c show ?thesis by (simp add: relay_loop.simps [of opts env "Suc n"] loop_post_def Let_def)
    next
      case True
      obtain b3 k sl res where r: "relay_loop opts env n (Suc attempt) b2 = (b3, k, sl, res)"
        by (cases "relay_loop opts env n (Suc attempt) b2")
      have IH: "loop_post env n (Suc attempt) (b3, k, sl, res)" using Suc.IH [of "Suc attempt" b2] r by simp
      have "\<not> is_ok (attempt_outcome (send_result env (attempt + i)))" if "i < k" for i
      proof (cases i)
        case 0
        with Inl show ?thesis by simp
      next
        case (Suc j)
        with that IH show ?thesis by (auto simp: loop_post_def)
      qed
      moreover have "relay_loop opts env (Suc n) attempt b = (b3, Suc k, calculateBackoffWithJitter attempt
          (initialDelayMs opts) (maxDelayMs opts) (backoffFactor opts) (rnd env attempt) # sl, res)"
        using Inl c True r by (simp add: relay_loop.simps [of opts env "Suc n"] Let_def)
      ultimately show ?thesis using IH by (auto simp: loop_post_def split: sum.splits)
    qed
  qed
qed

text \<open>A relayer submission is refused without a single send exactly when the breaker is open and its
  reset time has not come; otherwise it sends between one and \<open>maxRetries + 1\<close> times, every send but the
  last failed, it succeeds with a hash exactly when the last send returned that hash, leaving the breaker
  closed with no failures counted, and fails with the error of the last send otherwise.\<close>

theorem relayer_submission_outcome:
  "(let r = relayer_submit opts env b in
     if breaker_state b = OPEN \<and> entry_time env < nextAttemptTime b
     then r = (b, 0, [], Inl breaker_open_error)
     else 1 \<le> relay_sends r \<and> relay_sends r \<le> Suc (maxRetries opts)
        \<and> (\<forall>i < relay_sends r - 1. \<not> is_ok (attempt_outcome (send_result env i)))
        \<and> (case attempt_outcome (send_result env (relay_sends r - 1)) of
             Inr h \<Rightarrow> relay_result r = Inr h \<and> breaker_state (fst r) = CLOSED \<and> failureCount (fst r) = 0
           | Inl e \<Rightarrow> relay_result r = Inl (final_error e)))"
proof (cases "breaker_state b = OPEN \<and> entry_time env < nextAttemptTime b")
  case True
  then show ?thesis by (simp add: relayer_submit_def canExecute_def)
next
  case False
  then obtain b1 where c: "canExecute (entry_time env) b = (b1, True)"
    by (cases "breaker_state b = OPEN") (simp_all add: canExecute_def)
  have "loop_post env (maxRetries opts) 0 (relay_loop opts env (maxRetries opts) 0 b1)" by (rule relay_loop_post)
  with False c show ?thesis
    by (auto simp: relayer_submit_def loop_post_def Let_def split: sum.splits)
qed

definition example_env :: relay_env where
  "example_env = \<lparr>send_result = (\<lambda>i. if i = 0 then Sent_error ''busy'' ''try later'' None else Sent_ok ''H''),
     rnd = (\<lambda>_. 0), entry_time = 0, failure_time = (\<lambda>_. 1), check_time = (\<lambda>_. 2)\<rparr>"

theorem relayer_submission_outcome_witness:
  "relay_result (relayer_submit default_relay_options example_env (new_breaker None None)) = Inr ''H''
   \<and> relay_sends (relayer_submit default_relay_options example_env (new_breaker None None)) = 2"
proof -
  have "(let r = relayer_submit default_relay_options example_env (new_breaker None None) in
        1 \<le> relay_sends r \<and> (\<forall>i < relay_sends r - 1. \<not> is_ok (attempt_outcome (send_result example_env i)))
        \<and> (case attempt_outcome (send_result example_env (relay_sends r - 1)) of
             Inr h \<Rightarrow> relay_result r = Inr h | Inl e \<Rightarrow> relay_result r = Inl (final_error e)))"
    using relayer_submission_outcome [of default_relay_options example_env "new_breaker None None"]
    by (simp add: new_breaker_def Let_def split: sum.splits)
  then show ?thesis
    by (simp add: relayer_submit_def canExecute_def new_breaker_def relay_loop.simps attempt_outcome_def example_env_def
        default_relay_options_def recordFailure_def Let_def)
qed

lemma relay_loop_inv:
  "relay_inv b \<Longrightarrow> 0 < threshold b \<Longrightarrow> relay_inv (fst (relay_loop opts env left attempt b))"
proof (induction left arbitrary: attempt b)
  case 0
  then show ?case by (auto simp: relay_loop.simps [of opts env 0] relay_inv_steps Let_def split: sum.split)
next
  case (Suc n)
  have "relay_inv (fst (canExecute t (recordFailure t' b)))" "0 < threshold (fst (canExecute t (recordFailure t' b)))" for t t'
    using Suc.prems relay_inv_steps by simp_all
  note * = this Suc.IH [OF this]
  show ?case
    using * relay_inv_steps(2) Suc.prems
    by (auto simp: relay_loop.simps [of opts env "Suc n"] Let_def split: sum.split prod.split) (metis fst_conv)+
qed

lemma relayer_submit_inv: "relay_inv b \<Longrightarrow> 0 < threshold b \<Longrightarrow> relay_inv (fst (relayer_submit opts env b))"
  using relay_loop_inv [of "fst (canExecute (entry_time env) b)"] relay_inv_steps(1) [of b "entry_time env"]
    threshold_steps(1) [of "entry_time env" b]
  by (auto simp: relayer_submit_def split: prod.split)

subsection \<open>Local diagnostics\<close>

text \<open>
  \<open>relayer-passkey.ts\<close>: after a \<open>SubmissionError\<close> the transaction is simulated locally; \<open>sim\<close> is the
  simulation's error text when it reports one, \<open>None\<close> when it succeeds or the diagnostics fail.
\<close>

definition with_diagnostics :: "string option \<Rightarrow> submit_error + string \<Rightarrow> submit_error + string" where
  "with_diagnostics sim r =
     (case r of
        Inr h \<Rightarrow> Inr h
      | Inl (Submission_error m c) \<Rightarrow>
          (case sim of
             Some t \<Rightarrow> Inl (Submission_error (m @ '' || local simulation: '' @ t) c)
           | None \<Rightarrow> Inl (Submission_error m c))
      | Inl e \<Rightarrow> Inl e)"

lemma diagnostics_keep_outcome:
  "is_ok (with_diagnostics sim r) = is_ok r"
  "r = Inr h \<Longrightarrow> with_diagnostics sim r = Inr h"
  "r = Inl (Submission_error m c) \<Longrightarrow> \<exists>m'. with_diagnostics sim r = Inl (Submission_error m' c)"
  by (auto simp: with_diagnostics_def split: sum.splits submit_error.splits option.splits)

end
