(* ===== verification/Sponsor.thy ===== *)
theory Sponsor
  imports Relayer ReplayGuard SpendBudget Retry
begin

text \<open>
  Direct fee sponsorship: \<open>services/wallet-service/src/sponsor.ts\<close>, and the hybrid submitter that
  routes between the sponsor and the relayer.  The RPC server and the Stellar SDK are parameters: what
  each call settles to is a field of the environment.  The calls that spend or leave a trace, budget,
  signature, send and polls, are recorded in order.
\<close>

definition SPONSOR_DEFAULT_MAX_FEE_STROOPS :: int where "SPONSOR_DEFAULT_MAX_FEE_STROOPS = 1000000"
definition SPONSOR_DEFAULT_BALANCE_FLOOR_STROOPS :: int where "SPONSOR_DEFAULT_BALANCE_FLOOR_STROOPS = 10000000"

definition enforceBalanceFloor :: "int \<Rightarrow> int \<Rightarrow> submit_error + unit" where
  "enforceBalanceFloor currentBalance floor_stroops =
     (if currentBalance \<le> floor_stroops
      then Inl (Submission_error ''Sponsor account balance is at or below the reserve floor; refusing to sponsor.''
                  ''sponsor_balance_below_floor'')
      else Inr ())"

definition enforceFeeCap :: "int \<Rightarrow> int \<Rightarrow> submit_error + unit" where
  "enforceFeeCap fee max_stroops =
     (if fee > max_stroops
      then Inl (Submission_error ''Sponsor fee exceeds the cap; refusing to sponsor.'' ''sponsor_fee_too_high'')
      else Inr ())"

text \<open>
  The budget of the sponsor line, when one is wired with its network: what \<open>tryConsume\<close> does to the ledger
  for an amount, with a thrown error as \<open>Inl\<close>.
\<close>

type_synonym 'b sponsor_gate = "int \<Rightarrow> 'b \<Rightarrow> 'b \<times> (string + consume_result)"

definition consumeSponsorBudget :: "'b sponsor_gate option \<Rightarrow> int \<Rightarrow> 'b \<Rightarrow> 'b \<times> (submit_error + unit)" where
  "consumeSponsorBudget gate fee ledger =
     (case gate of
        None \<Rightarrow> (ledger, Inr ())
      | Some consume \<Rightarrow>
          (let (ledger', r) = consume fee ledger;
               allowed = (case r of Inl err \<Rightarrow> False | Inr Consumed \<Rightarrow> True | Inr (Refused why) \<Rightarrow> False)
           in (ledger', if allowed then Inr ()
                        else Inl (Submission_error ''Sponsor spend budget reached; try again later.'' ''sponsor_budget_exceeded''))))"

fun address_authorised :: "operation \<Rightarrow> bool" where
  "address_authorised (InvokeHostFunction func (Some auth)) = (auth \<noteq> [] \<and> list_all (\<lambda>c. c \<noteq> SourceAccount) auth)"
| "address_authorised (InvokeHostFunction func None) = False"
| "address_authorised (OtherOperation ty) = False"

definition needsSponsorRebuild :: "tx_parser \<Rightarrow> string \<Rightarrow> string \<Rightarrow> bool" where
  "needsSponsorRebuild parse signedXdr pass =
     (case parse signedXdr pass of Some (Transaction [op]) \<Rightarrow> address_authorised op | _ \<Rightarrow> False)"

subsection \<open>The native balance\<close>

text \<open>
  The balance text of the native line, \<open>"12.5"\<close>, in stroops: the digits before the point times ten million
  plus the first seven digits after it, padded with zeros.
\<close>

definition pad_end :: "nat \<Rightarrow> char \<Rightarrow> string \<Rightarrow> string" where
  "pad_end n c s = s @ replicate (n - length s) c"

definition native_stroops :: "string \<Rightarrow> nat" where
  "native_stroops s =
     (let parts = split_on (CHR ''.'') s;
          whole = (if hd parts = [] then 0 else parse_nat (hd parts)) * 10000000;
          frac = parse_nat (take 7 (pad_end 7 (CHR ''0'') (case tl parts of [] \<Rightarrow> [] | p # _ \<Rightarrow> p)))
      in whole + frac)"

subsection \<open>The submission\<close>

datatype poll_status = Success_status | Failed_status | Pending_status | Poll_error submit_error

datatype send_status = Accepted string | Error_status

datatype sponsor_call = Budget_call int | Signed int | Sent | Polled

text \<open>
  \<open>first_op\<close> is the parse of the transaction and its first operation (\<open>Inl\<close> when \<open>fromXDR\<close> throws);
  \<open>account_balance\<close> is the answer of the account lookup, with the balance in stroops when one is known.
  \<open>simulated_fee\<close> is the fee of the prepared transaction.
\<close>

record sponsor_env =
  first_op :: "submit_error + operation option"
  account_balance :: "submit_error + int option"
  simulated_fee :: "string + int"
  send_answer :: "submit_error + send_status"
  poll_answer :: "nat \<Rightarrow> poll_status"
  poll_options :: "submit_error retry_options"

record sponsor_config =
  max_fee :: "int option"
  balance_floor :: "int option"

definition fee_cap :: "sponsor_config \<Rightarrow> int" where
  "fee_cap cfg = (case max_fee cfg of None \<Rightarrow> SPONSOR_DEFAULT_MAX_FEE_STROOPS | Some m \<Rightarrow> m)"

definition check_floor :: "sponsor_config \<Rightarrow> int option \<Rightarrow> submit_error + unit" where
  "check_floor cfg balance =
     (case balance_floor cfg of
        None \<Rightarrow> Inr ()
      | Some fl \<Rightarrow> (case balance of None \<Rightarrow> Inr () | Some b \<Rightarrow> enforceBalanceFloor b fl))"

text \<open>One poll of the confirmation loop, as the function that \<open>retryWithBackoff\<close> calls.\<close>

definition poll_once :: "string \<Rightarrow> poll_status \<Rightarrow> submit_error + unit" where
  "poll_once h st =
     (case st of
        Success_status \<Rightarrow> Inr ()
      | Failed_status \<Rightarrow> Inl (Submission_error (''Transaction failed on-chain: '' @ h) ''tx_failed'')
      | Pending_status \<Rightarrow> Inl (Plain_error \<lparr>err_name = ''Error'', message = ''tx_pending'', code = None\<rparr>)
      | Poll_error e \<Rightarrow> Inl e)"

definition poll_retryable :: "submit_error \<Rightarrow> bool" where
  "poll_retryable e = (case e of Submission_error _ _ \<Rightarrow> False | _ \<Rightarrow> True)"

definition confirm :: "sponsor_env \<Rightarrow> string \<Rightarrow> submit_error + string" where
  "confirm env h =
     (let opts = (poll_options env)\<lparr>maxAttempts := 20, baseDelayMs := 200, Retry.maxDelayMs := 2000, isRetryable := poll_retryable\<rparr>
      in case snd (retryWithBackoff opts (\<lambda>i. poll_once h (poll_answer env i))) of
           Inr _ \<Rightarrow> Inr h
         | Inl (Rethrown (Submission_error m c)) \<Rightarrow> Inl (Submission_error m c)
         | Inl _ \<Rightarrow> Inl (Submission_error (''Transaction still pending: '' @ h) ''tx_timeout''))"

text \<open>Everything before the budget: the operation, the account, the floor, the simulation and the cap.\<close>

definition simulate :: "sponsor_env \<Rightarrow> submit_error + int" where
  "simulate env =
     (case simulated_fee env of
        Inl reason \<Rightarrow> Inl (Submission_error (''Sponsor simulation failed: '' @ reason) ''sponsor_simulation_failed'')
      | Inr fee \<Rightarrow> Inr fee)"

definition require_invoke :: "operation option \<Rightarrow> submit_error + unit" where
  "require_invoke op =
     (case op of
        Some (InvokeHostFunction func auth) \<Rightarrow> Inr ()
      | _ \<Rightarrow> Inl (Submission_error ''Sponsor path requires an invokeHostFunction tx'' ''sponsor_bad_tx''))"

definition sponsor_fee :: "sponsor_config \<Rightarrow> sponsor_env \<Rightarrow> submit_error + int" where
  "sponsor_fee cfg env =
     res_bind (first_op env) (\<lambda>op.
     res_bind (require_invoke op) (\<lambda>_.
     res_bind (account_balance env) (\<lambda>balance.
     res_bind (check_floor cfg balance) (\<lambda>_.
     res_bind (simulate env) (\<lambda>fee.
     res_bind (enforceFeeCap fee (fee_cap cfg)) (\<lambda>_. Inr fee))))))"

text \<open>Signature, send and confirmation.\<close>

definition sponsor_send :: "sponsor_env \<Rightarrow> sponsor_call list \<times> (submit_error + string)" where
  "sponsor_send env =
     (case send_answer env of
        Inl e \<Rightarrow> ([Sent], Inl e)
      | Inr Error_status \<Rightarrow> ([Sent], Inl (Submission_error ''Sponsor submission failed'' ''sponsor_submit_failed''))
      | Inr (Accepted h) \<Rightarrow> ([Sent, Polled], confirm env h))"

definition sponsor_submit ::
  "'b sponsor_gate option \<Rightarrow> sponsor_config \<Rightarrow> sponsor_env \<Rightarrow> 'b \<Rightarrow> 'b \<times> sponsor_call list \<times> (submit_error + string)" where
  "sponsor_submit gate cfg env ledger =
     (case sponsor_fee cfg env of
        Inl e \<Rightarrow> (ledger, [], Inl e)
      | Inr fee \<Rightarrow>
          (case consumeSponsorBudget gate fee ledger of
             (ledger', Inl e) \<Rightarrow> (ledger', [Budget_call fee], Inl e)
           | (ledger', Inr _) \<Rightarrow>
               (let (calls, res) = sponsor_send env in (ledger', Budget_call fee # Signed fee # calls, res))))"

abbreviation "sponsor_result \<equiv> \<lambda>r. snd (snd r)"
abbreviation "sponsor_calls \<equiv> \<lambda>r. fst (snd r)"

text \<open>The code of the \<open>SubmissionError\<close> a submission fails with, if it is one.\<close>

definition error_code :: "submit_error + 'a \<Rightarrow> string option" where
  "error_code r = (case r of Inl (Submission_error m c) \<Rightarrow> Some c | _ \<Rightarrow> None)"

lemma error_code_simps [simp]:
  "error_code (Inl (Submission_error m c)) = Some c"
  "error_code (Inr x) = None"
  by (simp_all add: error_code_def)

definition releasable :: "submit_error + 'a \<Rightarrow> bool" where
  "releasable r = (case error_code r of Some c \<Rightarrow> c \<in> set RELEASABLE_SUBMISSION_CODES | None \<Rightarrow> False)"

text \<open>
  The RPC client's own errors are never of the project's class: the one place in the sources that
  makes a \<open>SubmissionError\<close> is the wallet service.
\<close>

definition foreign_errors :: "sponsor_env \<Rightarrow> bool" where
  "foreign_errors env \<longleftrightarrow>
     (\<forall>e. first_op env = Inl e \<longrightarrow> error_code (Inl e :: submit_error + unit) = None)
   \<and> (\<forall>e. account_balance env = Inl e \<longrightarrow> error_code (Inl e :: submit_error + unit) = None)
   \<and> (\<forall>e. send_answer env = Inl e \<longrightarrow> error_code (Inl e :: submit_error + unit) = None)
   \<and> (\<forall>i e. poll_answer env i = Poll_error e \<longrightarrow> error_code (Inl e :: submit_error + unit) = None)"

lemma retry_loop_rethrown:
  "snd (retry_loop opts fn n a le) = Inl (Rethrown e) \<Longrightarrow> \<exists>i. fn i = Inl e"
  by (induction opts fn n a le rule: retry_loop.induct) (auto simp: Let_def split: if_splits sum.splits)

lemma poll_code:
  assumes "foreign_errors env" and "poll_once h (poll_answer env i) = Inl (Submission_error m c)"
  shows "c = ''tx_failed''"
proof (cases "poll_answer env i")
  case (Poll_error e)
  with assms(1) have "error_code (Inl e :: submit_error + unit) = None" by (simp add: foreign_errors_def)
  with Poll_error assms(2) show ?thesis by (simp add: poll_once_def error_code_def)
qed (use assms(2) in \<open>simp_all add: poll_once_def\<close>)

lemma confirm_code:
  assumes "foreign_errors env"
  shows "error_code (confirm env h) \<in> {None, Some ''tx_failed'', Some ''tx_timeout''}"
proof -
  define opts where "opts = (poll_options env)\<lparr>maxAttempts := 20, baseDelayMs := 200, Retry.maxDelayMs := 2000, isRetryable := poll_retryable\<rparr>"
  have "c = ''tx_failed''"
    if "snd (retryWithBackoff opts (\<lambda>i. poll_once h (poll_answer env i))) = Inl (Rethrown (Submission_error m c))" for m c
  proof -
    from that obtain i where "poll_once h (poll_answer env i) = Inl (Submission_error m c)"
      by (auto simp: retryWithBackoff_def split: if_splits dest: retry_loop_rethrown)
    then show ?thesis using assms poll_code by blast
  qed
  then show ?thesis
    by (auto simp: confirm_def opts_def [symmetric] error_code_def Let_def
        split: sum.split retry_error.split submit_error.split)
qed

lemma sponsor_send_code:
  assumes "foreign_errors env"
  shows "error_code (snd (sponsor_send env)) \<in> {None, Some ''sponsor_submit_failed'', Some ''tx_failed'', Some ''tx_timeout''}"
proof (cases "send_answer env")
  case (Inl e)
  with assms have "error_code (Inl e :: submit_error + unit) = None" by (simp add: foreign_errors_def)
  with Inl show ?thesis by (simp add: sponsor_send_def error_code_def split: submit_error.splits)
next
  case (Inr st)
  show ?thesis
  proof (cases st)
    case (Accepted h)
    with Inr confirm_code [OF assms, of h] show ?thesis by (auto simp: sponsor_send_def)
  qed (simp add: sponsor_send_def Inr)
qed

lemma sponsor_send_sends [simp]: "Sent \<in> set (fst (sponsor_send env))"
  by (simp add: sponsor_send_def split: sum.split send_status.split)

lemma sponsor_submit_cases:
  "(\<exists>e. sponsor_fee cfg env = Inl e \<and> sponsor_submit gate cfg env ledger = (ledger, [], Inl e))
   \<or> (\<exists>fee ledger' e. sponsor_fee cfg env = Inr fee \<and> consumeSponsorBudget gate fee ledger = (ledger', Inl e)
        \<and> sponsor_submit gate cfg env ledger = (ledger', [Budget_call fee], Inl e))
   \<or> (\<exists>fee ledger'. sponsor_fee cfg env = Inr fee \<and> consumeSponsorBudget gate fee ledger = (ledger', Inr ())
        \<and> sponsor_submit gate cfg env ledger
            = (ledger', Budget_call fee # Signed fee # fst (sponsor_send env), snd (sponsor_send env)))"
  by (auto simp: sponsor_submit_def split: sum.split prod.split)

lemma sponsor_check_iffs:
  "require_invoke op = Inr () \<longleftrightarrow> (\<exists>func auth. op = Some (InvokeHostFunction func auth))"
  "simulate env = Inr fee \<longleftrightarrow> simulated_fee env = Inr fee"
  "enforceFeeCap fee cap = Inr () \<longleftrightarrow> fee \<le> cap"
  by (auto simp: require_invoke_def simulate_def enforceFeeCap_def split: option.splits operation.splits sum.splits)

lemma sponsor_fee_ok:
  "sponsor_fee cfg env = Inr fee \<longleftrightarrow>
     simulated_fee env = Inr fee \<and> fee \<le> fee_cap cfg
     \<and> (\<exists>func auth. first_op env = Inr (Some (InvokeHostFunction func auth)))
     \<and> (\<exists>balance. account_balance env = Inr balance \<and> check_floor cfg balance = Inr ())"
  by (auto simp: sponsor_fee_def res_bind_eq_Inr sponsor_check_iffs)


definition example_sponsor_env :: sponsor_env where
  "example_sponsor_env =
     \<lparr>first_op = Inr (Some (InvokeHostFunction ''f'' None)), account_balance = Inr (Some 20000000),
      simulated_fee = Inr 400, send_answer = Inr (Accepted ''H''), poll_answer = (\<lambda>_. Success_status),
      poll_options = default_retry_options (\<lambda>_. 0)\<rparr>"

definition example_sponsor_config :: sponsor_config where
  "example_sponsor_config = \<lparr>max_fee = Some 500, balance_floor = Some 10000000\<rparr>"

definition example_gate :: "int sponsor_gate" where
  "example_gate fee spent = (if spent + fee \<le> 1000 then (spent + fee, Inr Consumed) else (spent, Inr (Refused ''over'')))"

lemma example_sponsor_run:
  "sponsor_submit (Some example_gate) example_sponsor_config example_sponsor_env 0
     = (400, [Budget_call 400, Signed 400, Sent, Polled], confirm example_sponsor_env ''H'')"
  by (simp add: sponsor_submit_def sponsor_fee_def require_invoke_def check_floor_def enforceBalanceFloor_def simulate_def
      enforceFeeCap_def fee_cap_def consumeSponsorBudget_def sponsor_send_def example_gate_def example_sponsor_config_def
      example_sponsor_env_def)


text \<open>The replay guard gives a reservation back only for submissions that never reached the network: when
  the sponsor fails with one of the releasable codes, nothing was signed or sent, provided the errors
  of the RPC client itself are not of the project's own class.\<close>

theorem sponsor_releasable_codes_precede_send:
  assumes "foreign_errors env" and "sponsor_submit gate cfg env ledger = (ledger', calls, res)" and "releasable res"
  shows "Sent \<notin> set calls \<and> (\<forall>fee. Signed fee \<notin> set calls)"
proof -
  have "\<not> releasable (snd (sponsor_send env))"
    using sponsor_send_code [OF assms(1)] by (auto simp: releasable_def RELEASABLE_SUBMISSION_CODES_def)
  with sponsor_submit_cases [of cfg env gate ledger] assms(2,3) show ?thesis by auto
qed

theorem sponsor_releasable_codes_precede_send_witness:
  "\<forall>fee. Signed fee \<notin> set (fst (snd (sponsor_submit (Some example_gate) (example_sponsor_config\<lparr>max_fee := Some 5\<rparr>)
      example_sponsor_env 0)))"
proof -
  have run: "sponsor_submit (Some example_gate) (example_sponsor_config\<lparr>max_fee := Some 5\<rparr>) example_sponsor_env 0
      = (0, [], Inl (Submission_error ''Sponsor fee exceeds the cap; refusing to sponsor.'' ''sponsor_fee_too_high''))"
    by (simp add: sponsor_submit_def sponsor_fee_def require_invoke_def check_floor_def enforceBalanceFloor_def simulate_def
        enforceFeeCap_def fee_cap_def example_sponsor_config_def example_sponsor_env_def)
  have "foreign_errors example_sponsor_env" by (simp add: foreign_errors_def example_sponsor_env_def)
  from sponsor_releasable_codes_precede_send [OF this run] show ?thesis
    by (simp add: run releasable_def error_code_def RELEASABLE_SUBMISSION_CODES_def)
qed

text \<open>A failing floor check happens before any spend as well, and its code is not releasable: the reservation stays.\<close>

lemma floor_refusal_is_kept:
  "enforceBalanceFloor b fl = Inl e \<Longrightarrow> \<not> releasable (Inl e)"
  by (auto simp: enforceBalanceFloor_def releasable_def error_code_def RELEASABLE_SUBMISSION_CODES_def split: if_splits)

subsection \<open>How long a submission is polled\<close>

definition poll_caps :: "nat \<Rightarrow> int" where
  "poll_caps n = sum_list (map (delay_cap 200 2000) [0 ..< n])"

lemma poll_caps_le: "n \<le> 19 \<Longrightarrow> poll_caps n \<le> 33000"
proof -
  assume "n \<le> 19"
  then have "[0 ..< 19] = [0 ..< n] @ [n ..< 19]" by (metis add_diff_inverse_nat le_add_diff_inverse upt_add_eq_append zero_le)
  then have "poll_caps 19 = poll_caps n + sum_list (map (delay_cap 200 2000) [n ..< 19])" by (simp only: poll_caps_def map_append sum_list_append)
  moreover have "0 \<le> sum_list (map (delay_cap 200 2000) [n ..< 19])" by (rule sum_list_nonneg) (auto simp: delay_cap_def)
  moreover have "poll_caps 19 = 33000" by (simp add: poll_caps_def delay_cap_def upt_rec)
  ultimately show ?thesis by simp
qed

text \<open>Waiting for a confirmation sleeps at most 33 seconds in total over at most 19 sleeps, so the twenty
  attempts are used up well before the 60 seconds that the deadline and the transaction's own time bound allow.\<close>

theorem confirmation_wait_bounded:
  assumes "opts = o'\<lparr>maxAttempts := 20, baseDelayMs := 200, Retry.maxDelayMs := 2000, isRetryable := poll_retryable\<rparr>"
    and "\<forall>i. 0 \<le> random o' i \<and> random o' i < 1"
  shows "length (fst (retryWithBackoff opts (\<lambda>i. poll_once h (polls i)))) \<le> 19
     \<and> sum_list (fst (retryWithBackoff opts (\<lambda>i. poll_once h (polls i)))) \<le> 33000"
proof -
  have ok: "jitter_ok opts" using assms by (simp add: jitter_ok_def)
  obtain k where k: "int k < max 1 (maxAttempts opts)"
    and d: "fst (retryWithBackoff opts (\<lambda>i. poll_once h (polls i))) = map (retry_delay opts) [0 ..< k]"
    using retryWithBackoff_delays [of opts "\<lambda>i. poll_once h (polls i)"] by blast
  have le: "retry_delay opts i \<le> of_int (delay_cap 200 2000 i)" for i
    using retry_delay_within_cap [OF ok, of i] assms(1) by simp
  have "sum_list (map (retry_delay opts) [0 ..< k]) \<le> of_int (poll_caps k)"
    by (induction k) (auto simp: poll_caps_def intro: add_mono le)
  also have "\<dots> \<le> 33000" using poll_caps_le [of k] k assms(1) by simp
  finally show ?thesis using d k assms(1) by simp
qed

theorem confirmation_wait_bounded_witness:
  "sum_list (fst (retryWithBackoff ((default_retry_options (\<lambda>_. 1 / 2) :: submit_error retry_options)
      \<lparr>maxAttempts := 20, baseDelayMs := 200, Retry.maxDelayMs := 2000, isRetryable := poll_retryable\<rparr>)
      (\<lambda>i. poll_once ''H'' Pending_status))) \<le> 33000"
  using confirmation_wait_bounded [OF refl, of "default_retry_options (\<lambda>_. 1 / 2)" "''H''" "\<lambda>_. Pending_status"]
  by (simp add: default_retry_options_def)

subsection \<open>The hybrid submitter\<close>

definition hybrid_submit ::
  "tx_parser \<Rightarrow> string \<Rightarrow> (string \<Rightarrow> 's \<Rightarrow> 's \<times> 'r) \<Rightarrow> (string \<Rightarrow> 's \<Rightarrow> 's \<times> 'r) \<Rightarrow> string \<Rightarrow> 's \<Rightarrow> 's \<times> 'r" where
  "hybrid_submit parse pass sponsor fallback signedXdr s =
     (if needsSponsorRebuild parse signedXdr pass then sponsor signedXdr s else fallback signedXdr s)"

text \<open>A transaction that goes to the sponsor is one the credential scope attributes to its subjects.\<close>

lemma sponsored_has_subjects:
  "needsSponsorRebuild parse xdr pass \<Longrightarrow> extractAddressAuthSubjects parse xdr pass \<noteq> []"
proof -
  assume "needsSponsorRebuild parse xdr pass"
  then obtain op where p: "parse xdr pass = Some (Transaction [op])" and op: "address_authorised op"
    by (auto simp: needsSponsorRebuild_def split: option.splits envelope.splits list.splits)
  from op obtain func c auth where o: "op = InvokeHostFunction func (Some (c # auth))" and c: "c \<noteq> SourceAccount"
    by (cases op rule: address_authorised.cases) (auto simp: neq_Nil_conv)
  from c show ?thesis
    by (cases c) (simp_all add: p o extractAddressAuthSubjects_def bound_credentials_def addressCredentials_def List.map_filter_def)
qed

end
