(* ===== verification/SubmissionQueue.thy ===== *)
theory SubmissionQueue
  imports Relayer
begin

text \<open>
  The exactly-once submission worker of the wallet service:
  \<open>services/wallet-service/src/submission-error-classifier.ts\<close>, \<open>db/pg-tx-store.ts\<close> and
  \<open>worker/submission-worker.ts\<close>.  The table \<open>transaction_submissions\<close> is an insertion-ordered map
  keyed by its primary key; a \<open>SELECT\<close> without an order yields the rows in the order of the map.  The
  submitter and the failures of the database are parameters.
\<close>

subsection \<open>Transient or permanent\<close>

definition to_upper :: "string \<Rightarrow> string" where
  "to_upper s = map upper_char s"

definition permanent_codes :: "string list" where
  "permanent_codes =
     [''sponsor_bad_tx'', ''sponsor_simulation_failed'', ''sponsor_fee_too_high'', ''sponsor_budget_exceeded'',
      ''relayer_not_configured'', ''tx_failed'']"

definition transient_messages :: "string list" where
  "transient_messages =
     [''timeout'', ''econnrefused'', ''econnreset'', ''enotfound'', ''temporarily unavailable'', ''not ready'',
      ''syncing'', ''rate limit'']"

text \<open>The block for \<open>error instanceof SubmissionError\<close>; \<open>None\<close> when no branch of it returns.\<close>

definition submission_block :: "string \<Rightarrow> string \<Rightarrow> bool option" where
  "submission_block msg c =
     (let code = to_lower c; message = to_lower msg in
      if code \<in> set permanent_codes then Some False
      else if code = ''sponsor_submit_failed'' \<or> code = ''submission_failed'' then
        (if list_ex (str_includes message) transient_messages then Some True else Some True)
      else if code = ''tx_timeout'' then Some True
      else None)"

text \<open>The block for \<open>error instanceof Error\<close>: its branches all answer that the error is transient.\<close>

definition error_block :: "string \<Rightarrow> string \<Rightarrow> string option \<Rightarrow> bool" where
  "error_block name msg c =
     (if name = ''TimeoutError'' \<or> str_includes (to_lower msg) ''timeout'' then True
      else if map_option to_upper c \<in> Some ` {''ECONNREFUSED'', ''ECONNRESET'', ''ECONNABORTED'', ''EHOSTUNREACH'', ''ENETUNREACH'', ''ETIMEDOUT''}
      then True
      else if map_option to_upper c \<in> Some ` {''ENOTFOUND'', ''ESERVFAIL''} then True
      else True)"

definition isTransientSubmissionFailure :: "submit_error \<Rightarrow> bool" where
  "isTransientSubmissionFailure e =
     (case e of
        Submission_error msg c \<Rightarrow>
          (case submission_block msg c of Some b \<Rightarrow> b | None \<Rightarrow> error_block ''SubmissionError'' msg (Some c))
      | Plain_error x \<Rightarrow> error_block (err_name x) (message x) (code x)
      | Thrown_value s \<Rightarrow> True)"

record submission_classification =
  cls_transient :: bool
  cls_reason :: string
  cls_code :: "string option"
  isSubmissionError :: bool

definition classifySubmissionError :: "submit_error \<Rightarrow> submission_classification" where
  "classifySubmissionError e =
     (case e of
        Submission_error msg c \<Rightarrow>
          (let t = isTransientSubmissionFailure e in
           \<lparr>cls_transient = t,
            cls_reason = ''SubmissionError code='' @ [CHR 0x22] @ c @ [CHR 0x22] @ (if t then '' is retryable'' else '' is not retryable''),
            cls_code = Some c, isSubmissionError = True\<rparr>)
      | Plain_error x \<Rightarrow>
          (let t = isTransientSubmissionFailure e in
           \<lparr>cls_transient = t,
            cls_reason = err_name x @ '': '' @ message x @ (if t then '' (network-level, retryable)'' else '' (permanent)''),
            cls_code = None, isSubmissionError = False\<rparr>)
      | Thrown_value s \<Rightarrow>
          \<lparr>cls_transient = True, cls_reason = ''Unknown error type; defaulting to transient (will retry)'',
           cls_code = None, isSubmissionError = False\<rparr>)"

lemma transient_iff:
  "isTransientSubmissionFailure e
   \<longleftrightarrow> \<not> (\<exists>msg c. e = Submission_error msg c \<and> to_lower c \<in> set permanent_codes)"
  by (cases e) (auto simp: isTransientSubmissionFailure_def submission_block_def error_block_def Let_def)

text \<open>A failed submission is retried unless it is a \<open>SubmissionError\<close> with one of the six permanent codes, in
  any case; the classification that is logged agrees with the decision for every thrown value, and
  names the code exactly for the project's own errors.\<close>

theorem permanent_exactly_six_codes:
  "isTransientSubmissionFailure e = cls_transient (classifySubmissionError e)
   \<and> (cls_transient (classifySubmissionError e)
        \<longleftrightarrow> \<not> (isSubmissionError (classifySubmissionError e)
             \<and> to_lower (the (cls_code (classifySubmissionError e))) \<in> set permanent_codes))
   \<and> (isSubmissionError (classifySubmissionError e) \<longleftrightarrow> cls_code (classifySubmissionError e) \<noteq> None)"
  using transient_iff [of e]
  by (cases e) (auto simp: classifySubmissionError_def Let_def)

subsection \<open>The processed-message store\<close>

datatype tx_status = Submitted | Processing | Succeeded | Failed | Dead_letter

datatype submitter_type = Relayer_type | Sponsor_type | Hybrid_type

record tx_payload =
  signedXdr :: string
  tx_network :: string
  submitterType :: "submitter_type option"
  tx_attempts :: nat
  workerId :: string
  startedAt :: "instant option"

record tx_row =
  status :: tx_status
  tx_record :: tx_payload
  createdAt :: instant
  updatedAt :: instant
  expiresAt :: "instant option"

type_synonym tx_store = "(string, tx_row) js_map"

definition IN_FLIGHT_TTL_MS :: int where "IN_FLIGHT_TTL_MS = 5 * 60 * 1000"
definition PROCESSED_TTL_MS :: int where "PROCESSED_TTL_MS = 48 * 60 * 60 * 1000"
definition POLL_IDLE_MS :: int where "POLL_IDLE_MS = 5000"
definition POLL_BUSY_MS :: int where "POLL_BUSY_MS = 250"

definition checkTransactionStatus :: "string \<Rightarrow> tx_store \<Rightarrow> tx_status option" where
  "checkTransactionStatus i db = map_option status (js_get db i)"

text \<open>\<open>INSERT ... ON CONFLICT DO NOTHING RETURNING\<close>: acquired when the row was inserted.\<close>

definition markInFlight ::
  "instant \<Rightarrow> string \<Rightarrow> string \<Rightarrow> string \<Rightarrow> string \<Rightarrow> submitter_type \<Rightarrow> tx_store \<Rightarrow> tx_store \<times> bool" where
  "markInFlight now i worker xdr net ty db =
     (if js_has db i then (db, False)
      else (js_set i
              \<lparr>status = Processing,
               tx_record = \<lparr>signedXdr = xdr, tx_network = net, submitterType = Some ty, tx_attempts = 1,
                            workerId = worker, startedAt = Some now\<rparr>,
               createdAt = now, updatedAt = now, expiresAt = Some (now + 5 * 60 * 1000)\<rparr> db, True))"

text \<open>The updates by primary key; \<open>hash\<close>, the error and the reason are arguments the statements do not use.\<close>

definition markProcessed :: "instant \<Rightarrow> string \<Rightarrow> string \<Rightarrow> tx_store \<Rightarrow> tx_store" where
  "markProcessed now i hash db =
     js_modify i (\<lambda>r. r\<lparr>status := Succeeded, updatedAt := now, expiresAt := Some (now + 48 * 60 * 60 * 1000)\<rparr>) db"

definition markFailed :: "instant \<Rightarrow> string \<Rightarrow> string \<times> string \<Rightarrow> tx_store \<Rightarrow> tx_store" where
  "markFailed now i error db = js_modify i (\<lambda>r. r\<lparr>status := Failed, updatedAt := now\<rparr>) db"

definition markDeadLetter :: "instant \<Rightarrow> string \<Rightarrow> string \<Rightarrow> tx_store \<Rightarrow> tx_store" where
  "markDeadLetter now i reason db = js_modify i (\<lambda>r. r\<lparr>status := Dead_letter, updatedAt := now\<rparr>) db"

definition clearInFlightLock :: "instant \<Rightarrow> string \<Rightarrow> tx_store \<Rightarrow> tx_store" where
  "clearInFlightLock now i db = js_modify i (\<lambda>r. r\<lparr>status := Submitted, updatedAt := now, expiresAt := None\<rparr>) db"

definition claimSubmittedBatch :: "nat \<Rightarrow> tx_store \<Rightarrow> string list" where
  "claimSubmittedBatch batchSize db =
     map fst (take batchSize (sort_key (\<lambda>(i, r). createdAt r) (filter (\<lambda>(i, r). status r = Submitted) db)))"

definition reapable :: "instant \<Rightarrow> tx_row \<Rightarrow> bool" where
  "reapable now r \<longleftrightarrow>
     (case expiresAt r of None \<Rightarrow> False | Some e \<Rightarrow> e < now) \<and> (status r = Processing \<or> status r = Succeeded)"

definition cleanupExpiredRecords :: "instant \<Rightarrow> tx_store \<Rightarrow> tx_store \<times> nat" where
  "cleanupExpiredRecords now db =
     (filter (\<lambda>(i, r). \<not> reapable now r) db, length (filter (\<lambda>(i, r). reapable now r) db))"

definition getSubmissionRecord :: "string \<Rightarrow> tx_store \<Rightarrow> tx_row option" where
  "getSubmissionRecord i db = js_get db i"

definition getStatusCounts :: "tx_store \<Rightarrow> (tx_status, nat) js_map" where
  "getStatusCounts db =
     fold (\<lambda>(i, r) m. js_set (status r) ((case js_get m (status r) of None \<Rightarrow> 0 | Some n \<Rightarrow> n) + 1) m) db []"

lemmas store_defs = markProcessed_def markFailed_def markDeadLetter_def clearInFlightLock_def

lemma js_ok_filter: "js_ok m \<Longrightarrow> js_ok (filter P m)"
  by (simp add: js_ok_def distinct_map_filter)

lemma js_ok_store_ops:
  "js_ok db \<Longrightarrow> js_ok (fst (markInFlight now i w x n ty db))"
  "js_ok db \<Longrightarrow> js_ok (markProcessed now i h db)"
  "js_ok db \<Longrightarrow> js_ok (markFailed now i e db)"
  "js_ok db \<Longrightarrow> js_ok (clearInFlightLock now i db)"
  "js_ok db \<Longrightarrow> js_ok (fst (cleanupExpiredRecords now db))"
  by (simp_all add: markInFlight_def store_defs cleanupExpiredRecords_def js_ok_filter)

lemma js_get_filter:
  "js_ok m \<Longrightarrow> js_get (filter (\<lambda>(i, r). P r) m) k = (case js_get m k of None \<Rightarrow> None | Some r \<Rightarrow> if P r then Some r else None)"
  using js_get_filter_key [of m "\<lambda>(i, r). P r" k] by (simp add: case_prod_beta split: option.splits)

lemma status_counts:
  "(case js_get (fold (\<lambda>(i, r) m. js_set (status r) ((case js_get m (status r) of None \<Rightarrow> 0 | Some n \<Rightarrow> n) + 1) m) db m) st
      of None \<Rightarrow> 0 | Some n \<Rightarrow> n)
   = length (filter (\<lambda>(i, r). status r = st) db) + (case js_get m st of None \<Rightarrow> 0 | Some n \<Rightarrow> (n::nat))"
  by (induction db arbitrary: m) (auto split: option.splits)

lemma getStatusCounts_counts:
  "(case js_get (getStatusCounts db) st of None \<Rightarrow> 0 | Some n \<Rightarrow> n) = length (filter (\<lambda>(i, r). status r = st) db)"
  using status_counts [where m = "[]"] by (simp add: getStatusCounts_def)

subsection \<open>One tick\<close>

datatype db_call = Select_call | Check_call | Lock_call | Write_call | Cleanup_call

text \<open>
  What a tick meets: the answers of the submitter, the database calls that fail (per transaction), the
  clock at the claim and at the end of each transaction, and whether this tick runs the cleanup.
\<close>

record tick_env =
  submit :: "string \<Rightarrow> submit_error + string"
  down :: "db_call \<Rightarrow> string \<Rightarrow> bool"
  claim_time :: "string \<Rightarrow> instant"
  done_time :: "string \<Rightarrow> instant"
  reap :: bool
  reap_time :: instant

record worker_world =
  table :: tx_store
  submitted_calls :: "string list"
  handled :: nat

text \<open>The write that follows a submission, by its outcome.\<close>

definition failure_details :: "submit_error \<Rightarrow> string \<times> string" where
  "failure_details e =
     (case e of
        Submission_error m c \<Rightarrow> (if c = [] then ''unknown_error'' else c, m)
      | Plain_error x \<Rightarrow> (case code x of None \<Rightarrow> ''unknown_error'' | Some c \<Rightarrow> c, message x)
      | Thrown_value v \<Rightarrow> (''unknown_error'', v))"

definition settle :: "instant \<Rightarrow> string \<Rightarrow> submit_error + string \<Rightarrow> tx_store \<Rightarrow> tx_store" where
  "settle now i r db =
     (case r of
        Inr h \<Rightarrow> markProcessed now i (if h = [] then i else h) db
      | Inl e \<Rightarrow>
          (if \<not> isTransientSubmissionFailure e then markFailed now i (failure_details e) db
           else clearInFlightLock now i db))"

lemma js_has_settle [simp]: "js_has (settle now i r db) k = js_has db k"
  by (auto simp: settle_def store_defs js_has_def split: sum.split)

lemma js_ok_settle: "js_ok db \<Longrightarrow> js_ok (settle now i r db)"
  by (simp add: settle_def js_ok_store_ops split: sum.split)

definition processRecord :: "tick_env \<Rightarrow> string \<Rightarrow> string \<times> tx_row \<Rightarrow> worker_world \<Rightarrow> worker_world" where
  "processRecord env worker = (\<lambda>(i, row) w.
     if down env Check_call i then w
     else
       (case checkTransactionStatus i (table w) of
          Some Succeeded \<Rightarrow> w\<lparr>handled := handled w + 1\<rparr>
        | Some Failed \<Rightarrow> w\<lparr>handled := handled w + 1\<rparr>
        | Some Processing \<Rightarrow> w\<lparr>handled := handled w + 1\<rparr>
        | _ \<Rightarrow>
            (if down env Lock_call i then w
             else
               (let rec = tx_record row;
                    ty = (case submitterType rec of None \<Rightarrow> Relayer_type | Some t \<Rightarrow> t);
                    (db, lockAcquired) = markInFlight (claim_time env i) i worker (signedXdr rec) (tx_network rec) ty (table w)
                in if \<not> lockAcquired then w\<lparr>handled := handled w + 1\<rparr>
                   else
                     (let w1 = w\<lparr>table := db, submitted_calls := submitted_calls w @ [i]\<rparr>;
                          now = done_time env i
                      in if down env Write_call i then w1
                         else w1\<lparr>table := settle now i (submit env (signedXdr rec)) db, handled := handled w + 1\<rparr>)))))"

definition select_submitted :: "nat \<Rightarrow> tx_store \<Rightarrow> (string \<times> tx_row) list" where
  "select_submitted batchSize db = take batchSize (filter (\<lambda>(i, r). status r = Submitted) db)"

definition runSubmissionWorkerTick :: "tick_env \<Rightarrow> string \<Rightarrow> nat \<Rightarrow> tx_store \<Rightarrow> worker_world" where
  "runSubmissionWorkerTick env worker batchSize db =
     (let w0 = \<lparr>table = db, submitted_calls = [], handled = 0\<rparr> in
      if down env Select_call [] then w0
      else
        (let w1 = fold (processRecord env worker) (select_submitted batchSize db) w0 in
         if reap env \<and> \<not> down env Cleanup_call []
         then w1\<lparr>table := fst (cleanupExpiredRecords (reap_time env) (table w1))\<rparr> else w1))"

definition poll_delay :: "nat \<Rightarrow> int" where
  "poll_delay n = (if n = 0 then POLL_IDLE_MS else POLL_BUSY_MS)"

definition sane_db :: "tick_env \<Rightarrow> bool" where
  "sane_db env \<longleftrightarrow> (\<forall>c i. \<not> down env c i)"

lemma processRecord_present:
  assumes "js_get (table w) i = Some row'" and "sane_db env"
  shows "processRecord env worker (i, row) w = w\<lparr>handled := handled w + 1\<rparr>"
  using assms
  by (auto simp: processRecord_def checkTransactionStatus_def markInFlight_def js_has_def sane_db_def
      split: tx_status.split)

lemma processRecord_present_any:
  assumes "js_get (table w) i = Some row'"
  shows "table (processRecord env worker (i, row) w) = table w
     \<and> submitted_calls (processRecord env worker (i, row) w) = submitted_calls w"
  using assms
  by (auto simp: processRecord_def checkTransactionStatus_def markInFlight_def js_has_def
      split: tx_status.split)

lemma fold_present:
  assumes "\<forall>(i, r)\<in>set rows. js_get (table w) i \<noteq> None"
  shows "table (fold (processRecord env worker) rows w) = table w
     \<and> submitted_calls (fold (processRecord env worker) rows w) = submitted_calls w
     \<and> (sane_db env \<longrightarrow> handled (fold (processRecord env worker) rows w) = handled w + length rows)"
  using assms
proof (induction rows arbitrary: w)
  case Nil
  then show ?case by simp
next
  case (Cons p rows)
  obtain i r where p: "p = (i, r)" by (cases p)
  from Cons.prems obtain row' where g: "js_get (table w) i = Some row'" by (auto simp: p)
  let ?w = "processRecord env worker (i, r) w"
  have t: "table ?w = table w" "submitted_calls ?w = submitted_calls w" using processRecord_present_any [OF g] by simp_all
  have "sane_db env \<Longrightarrow> handled ?w = handled w + 1" using processRecord_present [OF g] by simp
  with Cons.IH [of ?w] Cons.prems t show ?case by (auto simp: p)
qed

lemma selected_present: "js_ok db \<Longrightarrow> \<forall>(i, r)\<in>set (select_submitted n db). js_get db i \<noteq> None"
  by (auto simp: select_submitted_def js_get_Some_iff [symmetric] dest!: in_set_takeD)

text \<open>C23: A tick of the submission worker never submits anything: whatever the table holds, however the submitter
  and the database behave, the rows it selects are the rows whose lock the insert cannot take, so the
  submitter is not called, and without the cleanup the table does not change.  With the database up it
  still reports every selected row as handled, so a queue with a waiting row is polled at the busy rate.\<close>

theorem tick_never_submits:
  assumes "js_ok db"
  shows "submitted_calls (runSubmissionWorkerTick env worker n db) = []
     \<and> (\<not> reap env \<longrightarrow> table (runSubmissionWorkerTick env worker n db) = db)
     \<and> (sane_db env \<longrightarrow> handled (runSubmissionWorkerTick env worker n db) = length (select_submitted n db))
     \<and> (sane_db env \<longrightarrow> 0 < n \<longrightarrow> (\<exists>i r. js_get db i = Some r \<and> status r = Submitted) \<longrightarrow>
          poll_delay (handled (runSubmissionWorkerTick env worker n db)) = POLL_BUSY_MS)"
proof -
  let ?w0 = "\<lparr>table = db, submitted_calls = [], handled = 0\<rparr>"
  let ?w1 = "fold (processRecord env worker) (select_submitted n db) ?w0"
  have f: "table ?w1 = db" "submitted_calls ?w1 = []" "sane_db env \<longrightarrow> handled ?w1 = length (select_submitted n db)"
    using fold_present [of "select_submitted n db" ?w0 env worker] selected_present [OF assms, of n] by simp_all
  have "select_submitted n db \<noteq> []" if "0 < n" "js_get db i = Some r" "status r = Submitted" for i r
  proof -
    have "(i, r) \<in> set (filter (\<lambda>(i, r). status r = Submitted) db)"
      using that by (auto dest: js_get_SomeD)
    then show ?thesis using that by (cases "filter (\<lambda>(i, r). status r = Submitted) db") (auto simp: select_submitted_def)
  qed
  then show ?thesis
    using f by (auto simp: runSubmissionWorkerTick_def Let_def sane_db_def poll_delay_def)
qed

definition example_row :: "tx_status \<Rightarrow> tx_row" where
  "example_row st =
     \<lparr>status = st,
      tx_record = \<lparr>signedXdr = ''X'', tx_network = ''testnet'', submitterType = None, tx_attempts = 1, workerId = ''w'', startedAt = None\<rparr>,
      createdAt = 0, updatedAt = 0, expiresAt = None\<rparr>"

definition example_tick :: tick_env where
  "example_tick = \<lparr>submit = (\<lambda>_. Inr ''H''), down = (\<lambda>_ _. False), claim_time = (\<lambda>_. 1), done_time = (\<lambda>_. 2),
     reap = False, reap_time = 3\<rparr>"

theorem tick_never_submits_witness:
  "submitted_calls (runSubmissionWorkerTick example_tick ''w'' 10 [(''T1'', example_row Submitted)]) = []
   \<and> poll_delay (handled (runSubmissionWorkerTick example_tick ''w'' 10 [(''T1'', example_row Submitted)])) = POLL_BUSY_MS"
proof -
  have r: "\<not> reap example_tick" "sane_db example_tick" "status (example_row Submitted) = Submitted"
    by (simp_all add: example_tick_def sane_db_def example_row_def)
  show ?thesis
    using tick_never_submits [of "[(''T1'', example_row Submitted)]" example_tick "''w''" 10] r
    by (auto simp: js_ok_def)
qed

subsection \<open>Workers side by side\<close>

text \<open>
  Several workers on one table, each between two of its calls: it has selected a row, passed the duplicate
  check, taken the lock, or sent the transaction.  A worker may crash between any two calls, and the
  cleanup may run at any time.  \<open>sends\<close> and \<open>reaped\<close> record the submitter's calls and the rows removed.
\<close>

datatype worker_pc = Idle | Selected string tx_payload | Cleared string tx_payload | Owner string tx_payload
  | Sent string "submit_error + string"

record submission_system =
  sys_table :: tx_store
  workers :: "worker_pc list"
  sends :: "string list"
  reaped :: "string list"

inductive submission_step :: "submission_system \<Rightarrow> submission_system \<Rightarrow> bool" where
  select_row: "w < length (workers s) \<Longrightarrow> workers s ! w = Idle \<Longrightarrow> js_get (sys_table s) i = Some row \<Longrightarrow> status row = Submitted \<Longrightarrow>
     submission_step s (s\<lparr>workers := (workers s)[w := Selected i (tx_record row)]\<rparr>)"
| duplicate: "w < length (workers s) \<Longrightarrow> workers s ! w = Selected i p \<Longrightarrow>
     checkTransactionStatus i (sys_table s) \<in> {Some Succeeded, Some Failed, Some Processing} \<Longrightarrow>
     submission_step s (s\<lparr>workers := (workers s)[w := Idle]\<rparr>)"
| cleared: "w < length (workers s) \<Longrightarrow> workers s ! w = Selected i p \<Longrightarrow>
     checkTransactionStatus i (sys_table s) \<notin> {Some Succeeded, Some Failed, Some Processing} \<Longrightarrow>
     submission_step s (s\<lparr>workers := (workers s)[w := Cleared i p]\<rparr>)"
| lock_taken: "w < length (workers s) \<Longrightarrow> workers s ! w = Cleared i p \<Longrightarrow>
     markInFlight now i name (signedXdr p) (tx_network p) ty (sys_table s) = (db, True) \<Longrightarrow>
     submission_step s (s\<lparr>sys_table := db, workers := (workers s)[w := Owner i p]\<rparr>)"
| lock_refused: "w < length (workers s) \<Longrightarrow> workers s ! w = Cleared i p \<Longrightarrow>
     markInFlight now i name (signedXdr p) (tx_network p) ty (sys_table s) = (db, False) \<Longrightarrow>
     submission_step s (s\<lparr>workers := (workers s)[w := Idle]\<rparr>)"
| send: "w < length (workers s) \<Longrightarrow> workers s ! w = Owner i p \<Longrightarrow>
     submission_step s (s\<lparr>workers := (workers s)[w := Sent i r], sends := sends s @ [i]\<rparr>)"
| finish: "w < length (workers s) \<Longrightarrow> workers s ! w = Sent i r \<Longrightarrow>
     submission_step s (s\<lparr>sys_table := settle now i r (sys_table s), workers := (workers s)[w := Idle]\<rparr>)"
| crash: "w < length (workers s) \<Longrightarrow> submission_step s (s\<lparr>workers := (workers s)[w := Idle]\<rparr>)"
| cleanup: "submission_step s (s\<lparr>sys_table := fst (cleanupExpiredRecords now (sys_table s)),
     reaped := reaped s @ map fst (filter (\<lambda>(i, r). reapable now r) (sys_table s))\<rparr>)"

fun owns :: "string \<Rightarrow> worker_pc \<Rightarrow> nat" where
  "owns i (Owner j p) = (if j = i then 1 else 0)"
| "owns i _ = 0"

definition owners :: "string \<Rightarrow> submission_system \<Rightarrow> nat" where
  "owners i s = sum_list (map (owns i) (workers s))"

definition absent :: "string \<Rightarrow> submission_system \<Rightarrow> nat" where
  "absent i s = (if js_has (sys_table s) i then 0 else 1)"

lemma owners_update:
  "w < length ws \<Longrightarrow>
     sum_list (map (owns i) (ws[w := pc])) + owns i (ws ! w) = sum_list (map (owns i) ws) + owns i pc"
  by (induction ws arbitrary: w) (auto simp: nth_Cons' split: nat.splits)

lemma count_reaped:
  "js_ok db \<Longrightarrow> count_list (map fst (filter (\<lambda>(i, r). reapable now r) db)) i
     = (case js_get db i of None \<Rightarrow> 0 | Some r \<Rightarrow> if reapable now r then 1 else 0)"
proof (induction db)
  case Nil
  then show ?case by simp
next
  case (Cons p db)
  obtain j r where p: "p = (j, r)" by (cases p)
  from Cons.prems have ok: "js_ok db" and j: "js_get db j = None" by (auto simp: js_ok_def p js_get_None_iff)
  with Cons.IH [OF ok] show ?case by (auto simp: p)
qed

lemma cleanup_has:
  assumes "js_ok db"
  shows "(if js_has (fst (cleanupExpiredRecords now db)) i then 0 else 1)
     = (if js_has db i then 0 else 1) + count_list (map fst (filter (\<lambda>(i, r). reapable now r) db)) i"
  using assms by (simp add: count_reaped cleanupExpiredRecords_def js_has_def js_get_filter split: option.split)

text \<open>Locks taken so far, in use or used up, against the rows that were missing at the start or were reaped.\<close>

definition lock_budget :: "string \<Rightarrow> submission_system \<Rightarrow> nat" where
  "lock_budget i s = count_list (sends s) i + owners i s + absent i s"

lemma submission_step_budget:
  assumes "submission_step s t" and "js_ok (sys_table s)"
  shows "js_ok (sys_table t) \<and> lock_budget i t + count_list (reaped s) i \<le> lock_budget i s + count_list (reaped t) i"
  using assms
proof cases
  case (select_row w j row)
  with assms(2) show ?thesis
    using owners_update [of w "workers s" i "Selected j (tx_record row)"] by (simp add: lock_budget_def owners_def absent_def)
next
  case (duplicate w j p)
  with assms(2) show ?thesis
    using owners_update [of w "workers s" i Idle] by (simp add: lock_budget_def owners_def absent_def)
next
  case (cleared w j p)
  with assms(2) show ?thesis
    using owners_update [of w "workers s" i "Cleared j p"] by (simp add: lock_budget_def owners_def absent_def)
next
  case (lock_taken w j p now name ty db)
  then have "\<not> js_has (sys_table s) j" "js_has db k \<longleftrightarrow> k = j \<or> js_has (sys_table s) k" "js_ok db" for k
    using assms(2) by (auto simp: markInFlight_def js_has_def split: if_splits)
  with lock_taken show ?thesis
    using owners_update [of w "workers s" i "Owner j p"] by (auto simp: lock_budget_def owners_def absent_def)
next
  case (lock_refused w j p now name ty db)
  with assms(2) show ?thesis
    using owners_update [of w "workers s" i Idle] by (simp add: lock_budget_def owners_def absent_def)
next
  case (send w j p r)
  with assms(2) show ?thesis
    using owners_update [of w "workers s" i "Sent j r"]
    by (cases "j = i") (simp_all add: lock_budget_def owners_def absent_def)
next
  case (finish w j r now)
  with assms(2) show ?thesis
    using owners_update [of w "workers s" i Idle] by (simp add: lock_budget_def owners_def absent_def js_ok_settle)
next
  case (crash w)
  with assms(2) show ?thesis
    using owners_update [of w "workers s" i Idle] by (cases "workers s ! w") (simp_all add: lock_budget_def owners_def absent_def)
next
  case (cleanup now)
  with assms(2) cleanup_has [OF assms(2), of now i] show ?thesis
    by (simp add: lock_budget_def owners_def absent_def js_ok_store_ops)
qed

lemma submission_run_budget:
  assumes "submission_step\<^sup>*\<^sup>* s t" and "js_ok (sys_table s)"
  shows "js_ok (sys_table t) \<and> lock_budget i t + count_list (reaped s) i \<le> lock_budget i s + count_list (reaped t) i"
  using assms(1)
proof (induction rule: rtranclp_induct)
  case base
  with assms(2) show ?case by simp
next
  case (step u v)
  with submission_step_budget [of u v i] show ?case by force
qed


definition example_payload :: tx_payload where
  "example_payload = tx_record (example_row Submitted)"


text \<open>From idle workers nothing is ever sent, whatever the table holds: every selected row is still queued.\<close>

fun still_queued :: "tx_store \<Rightarrow> worker_pc \<Rightarrow> bool" where
  "still_queued db (Selected i p) = (checkTransactionStatus i db = Some Submitted)"
| "still_queued db (Cleared i p) = (checkTransactionStatus i db = Some Submitted)"
| "still_queued db Idle = True"
| "still_queued db _ = False"

lemma cleanup_keeps_queued:
  "js_ok db \<Longrightarrow> still_queued db pc \<Longrightarrow> still_queued (fst (cleanupExpiredRecords now db)) pc"
  by (cases pc) (auto simp: cleanupExpiredRecords_def checkTransactionStatus_def js_get_filter reapable_def split: option.splits)

lemma idle_workers_never_send:
  assumes "submission_step\<^sup>*\<^sup>* s t" and "js_ok (sys_table s)" and "list_all (still_queued (sys_table s)) (workers s)"
  shows "js_ok (sys_table t) \<and> list_all (still_queued (sys_table t)) (workers t) \<and> sends t = sends s"
  using assms(1)
proof (induction rule: rtranclp_induct)
  case base
  with assms(2,3) show ?case by simp
next
  case (step u v)
  then have ok: "js_ok (sys_table u)" and q: "\<And>w. w < length (workers u) \<Longrightarrow> still_queued (sys_table u) (workers u ! w)"
    and s: "sends u = sends s" by (auto simp: list_all_length)
  have upd: "\<And>w pc. still_queued (sys_table u) pc \<Longrightarrow> list_all (still_queued (sys_table u)) ((workers u)[w := pc])"
    using q by (auto simp: list_all_iff in_set_conv_nth dest!: set_update_subset_insert [THEN subsetD])
  from step.hyps(2) show ?case
  proof cases
    case (select_row w i row)
    with ok s upd [of "Selected i (tx_record row)"] show ?thesis by (simp add: checkTransactionStatus_def)
  next
    case (duplicate w i p)
    with ok s upd [of Idle] show ?thesis by simp
  next
    case (cleared w i p)
    with ok s upd [of "Cleared i p"] q [of w] show ?thesis by simp
  next
    case (lock_refused w i p now name ty db)
    with ok s upd [of Idle] show ?thesis by simp
  next
    case (crash w)
    with ok s upd [of Idle] show ?thesis by simp
  next
    case (lock_taken w i p now name ty db)
    with q [of w] show ?thesis by (auto simp: checkTransactionStatus_def markInFlight_def js_has_def split: if_splits)
  next
    case (send w i p r)
    with q [of w] show ?thesis by auto
  next
    case (finish w i r now)
    with q [of w] show ?thesis by auto
  next
    case (cleanup now)
    with ok q s show ?thesis by (auto simp: list_all_length cleanup_keeps_queued js_ok_store_ops)
  qed
qed

end
