(* ===== verification/Base64.thy ===== *)
theory Base64
  imports Prelude
begin

text \<open>
  \<open>Buffer.from(s, "utf8").toString("base64url")\<close> and \<open>Buffer.from(c, "base64url").toString("utf8")\<close>:
  the URL-safe alphabet without padding, and the lenient decoder of Node, which stops at a padding
  character, skips every other character outside the two alphabets and drops an incomplete last byte.
  Strings are their UTF-8 bytes.
\<close>

definition b64_char :: "nat \<Rightarrow> char" where
  "b64_char n =
     (if n < 26 then char_of (65 + n)
      else if n < 52 then char_of (71 + n)
      else if n < 62 then char_of (n - 4)
      else if n = 62 then CHR ''-'' else CHR ''_'')"

definition b64_value :: "char \<Rightarrow> nat option" where
  "b64_value c =
     (let n = of_char c :: nat in
      if 65 \<le> n \<and> n \<le> 90 then Some (n - 65)
      else if 97 \<le> n \<and> n \<le> 122 then Some (n - 71)
      else if 48 \<le> n \<and> n \<le> 57 then Some (n + 4)
      else if n = 45 \<or> n = 43 then Some 62
      else if n = 95 \<or> n = 47 then Some 63
      else None)"

fun to_sextets :: "nat list \<Rightarrow> nat list" where
  "to_sextets (a # b # c # bs) =
     (a div 4) # ((a mod 4) * 16 + b div 16) # ((b mod 16) * 4 + c div 64) # (c mod 64) # to_sextets bs"
| "to_sextets [a, b] = [a div 4, (a mod 4) * 16 + b div 16, (b mod 16) * 4]"
| "to_sextets [a] = [a div 4, (a mod 4) * 16]"
| "to_sextets [] = []"

fun of_sextets :: "nat list \<Rightarrow> nat list" where
  "of_sextets (p # q # r # s # ss) =
     (p * 4 + q div 16) # ((q mod 16) * 16 + r div 4) # ((r mod 4) * 64 + s) # of_sextets ss"
| "of_sextets [p, q, r] = [p * 4 + q div 16, (q mod 16) * 16 + r div 4]"
| "of_sextets [p, q] = [p * 4 + q div 16]"
| "of_sextets _ = []"

definition base64url_encode :: "string \<Rightarrow> string" where
  "base64url_encode s = map b64_char (to_sextets (map of_char s))"

definition base64url_decode :: "string \<Rightarrow> string" where
  "base64url_decode c = map char_of (of_sextets (List.map_filter b64_value (takeWhile (\<lambda>x. x \<noteq> CHR ''='') c)))"

lemma byte_parts:
  fixes b :: nat assumes "b < 256"
  shows "b div 4 < 64" "b div 16 < 16" "b div 64 < 4"
  using assms by (simp_all add: less_mult_imp_div_less)

lemma of_to_sextets: "list_all (\<lambda>b. b < 256) bs \<Longrightarrow> of_sextets (to_sextets bs) = bs"
proof (induction bs rule: to_sextets.induct)
  case (1 a b c bs)
  then have "b div 16 < 16" "c div 64 < 4" by (simp_all add: byte_parts)
  then have "(a div 4) * 4 + ((a mod 4) * 16 + b div 16) div 16 = a"
    "(((a mod 4) * 16 + b div 16) mod 16) * 16 + ((b mod 16) * 4 + c div 64) div 4 = b"
    "(((b mod 16) * 4 + c div 64) mod 4) * 64 + c mod 64 = c" by simp_all
  with 1 show ?case by simp
next
  case (2 a b)
  then have "b div 16 < 16" by (simp add: byte_parts)
  then show ?case by simp
qed auto

lemma to_sextets_bound: "list_all (\<lambda>b. b < 256) bs \<Longrightarrow> list_all (\<lambda>x. x < 64) (to_sextets bs)"
proof (induction bs rule: to_sextets.induct)
  case (1 a b c bs)
  then have "a < 256" "b < 256" "c < 256" by simp_all
  then have "a div 4 < 64" "b div 16 < 16" "c div 64 < 4" by (simp_all add: byte_parts)
  moreover have "a mod 4 < 4" "b mod 16 < 16" by simp_all
  ultimately have "a mod 4 * 16 + b div 16 < 64" "b mod 16 * 4 + c div 64 < 64" "a div 4 < 64" by linarith+
  with 1 show ?case by simp
next
  case (2 a b)
  then have "a div 4 < 64" "b div 16 < 16" by (simp_all add: byte_parts)
  moreover have "a mod 4 < 4" "b mod 16 < 16" by simp_all
  ultimately have "a mod 4 * 16 + b div 16 < 64" "b mod 16 * 4 < 64" "a div 4 < 64" by linarith+
  then show ?case by simp
next
  case (3 a)
  then have "a div 4 < 64" by (simp add: byte_parts)
  moreover have "a mod 4 < 4" by simp
  then have "a mod 4 * 16 < 64" by linarith
  ultimately show ?case by simp
qed simp

lemma b64_char_ok: "n < 64 \<Longrightarrow> b64_value (b64_char n) = Some n"
  by (auto simp: b64_char_def b64_value_def Let_def)

lemma b64_char_no_pad: "n < 64 \<Longrightarrow> b64_char n \<noteq> CHR ''=''"
proof
  assume "n < 64" and "b64_char n = CHR ''=''"
  then have "b64_value (CHR ''='') = Some n" using b64_char_ok by metis
  then show False by (simp add: b64_value_def)
qed

lemma base64url_round_trip: "base64url_decode (base64url_encode s) = s"
proof -
  let ?bs = "map of_char s :: nat list"
  have bytes: "list_all (\<lambda>b. b < 256) ?bs" by (simp add: list_all_iff)
  have six: "list_all (\<lambda>x. x < 64) (to_sextets ?bs)" by (rule to_sextets_bound [OF bytes])
  have no_pad: "takeWhile (\<lambda>x. x \<noteq> CHR ''='') (map b64_char xs) = map b64_char xs" if "list_all (\<lambda>x. x < 64) xs" for xs
    using that by (induction xs) (simp_all add: b64_char_no_pad)
  have decoded: "List.map_filter b64_value (map b64_char xs) = xs" if "list_all (\<lambda>x. x < 64) xs" for xs
    using that by (induction xs) (simp_all add: b64_char_ok List.map_filter_simps)
  show ?thesis
    by (simp add: base64url_decode_def base64url_encode_def no_pad [OF six] decoded [OF six] of_to_sextets [OF bytes] map_idI)
qed

end
