(* ===== verification/Keyset.thy ===== *)
theory Keyset
  imports Base64 "HOL-Library.Multiset" "HOL-Library.Char_ord" "HOL-Library.List_Lexorder"
begin

text \<open>
  Keyset pagination, newest first, as the wallet service's history
  (\<open>services/wallet-service/src/repository.ts\<close>) and the policy service's list
  (\<open>services/policy-service/src/server.ts\<close>) do it: entries sorted by a position (timestamp text, id)
  in descending order, a page cut at the limit, and a cursor that names the last position of the page.
  The contract of such a listing is a locale; that walking the cursors visits every entry exactly once,
  in order, is proved there once.
\<close>

text \<open>The order is on the text of the timestamp in memory and on the instant in Postgres.\<close>

type_synonym 't position_of = "'t \<times> string"
type_synonym position = "string position_of"

definition pos_less :: "'t::linorder position_of \<Rightarrow> 't position_of \<Rightarrow> bool" where
  "pos_less p q \<longleftrightarrow> (if fst p \<noteq> fst q then fst p < fst q else snd p < snd q)"

lemma pos_less_irrefl [simp]: "\<not> pos_less p p"
  by (simp add: pos_less_def)

lemma pos_less_trans: "pos_less p q \<Longrightarrow> pos_less q r \<Longrightarrow> pos_less p r"
  by (auto simp: pos_less_def split: if_splits dest: less_trans)

lemma pos_less_linear: "p \<noteq> q \<Longrightarrow> pos_less p q \<or> pos_less q p"
  by (auto simp: pos_less_def prod_eq_iff)

lemma pos_less_asym: "pos_less p q \<Longrightarrow> \<not> pos_less q p"
  using pos_less_trans pos_less_irrefl by blast

subsection \<open>Cursors\<close>

definition encode_position :: "position \<Rightarrow> string" where
  "encode_position p = base64url_encode (fst p @ CHR '':'' # snd p)"

definition split_last_colon :: "string \<Rightarrow> position option" where
  "split_last_colon s =
     (let r = rev s; i = takeWhile (\<lambda>c. c \<noteq> CHR '':'') r in
      if length i = length r then None else Some (rev (drop (Suc (length i)) r), rev i))"

text \<open>Decoding throws (\<open>None\<close>) when there is no colon, nothing before it or nothing after it.\<close>

definition decode_position :: "string \<Rightarrow> position option" where
  "decode_position c =
     (case split_last_colon (base64url_decode c) of
        None \<Rightarrow> None
      | Some (a, i) \<Rightarrow> if a = [] \<or> i = [] then None else Some (a, i))"

definition cursor_safe :: "position \<Rightarrow> bool" where
  "cursor_safe p \<longleftrightarrow> fst p \<noteq> [] \<and> snd p \<noteq> [] \<and> CHR '':'' \<notin> set (snd p)"

lemma takeWhile_no_colon:
  "CHR '':'' \<notin> set i \<Longrightarrow> takeWhile (\<lambda>c. c \<noteq> CHR '':'') (i @ CHR '':'' # r) = i"
  by (induction i) auto

lemma split_last_colon_join: "CHR '':'' \<notin> set i \<Longrightarrow> split_last_colon (a @ CHR '':'' # i) = Some (a, i)"
  using takeWhile_no_colon [of "rev i" "rev a"] by (simp add: split_last_colon_def)

lemma decode_encode_position: "cursor_safe p \<Longrightarrow> decode_position (encode_position p) = Some p"
  by (cases p) (simp add: decode_position_def encode_position_def base64url_round_trip cursor_safe_def split_last_colon_join)

subsection \<open>Sorting newest first\<close>

fun insert_desc :: "('e \<Rightarrow> 't::linorder position_of) \<Rightarrow> 'e \<Rightarrow> 'e list \<Rightarrow> 'e list" where
  "insert_desc pos x [] = [x]"
| "insert_desc pos x (y # ys) = (if pos_less (pos x) (pos y) then y # insert_desc pos x ys else x # y # ys)"

text \<open>The array sort with the comparator of both services; entries at one position keep their order.\<close>

definition sort_desc :: "('e \<Rightarrow> 't::linorder position_of) \<Rightarrow> 'e list \<Rightarrow> 'e list" where
  "sort_desc pos xs = foldr (insert_desc pos) xs []"

definition newest_first :: "('e \<Rightarrow> 't::linorder position_of) \<Rightarrow> 'e list \<Rightarrow> bool" where
  "newest_first pos xs \<longleftrightarrow> sorted_wrt (\<lambda>x y. pos_less (pos y) (pos x)) xs"

lemma set_insert_desc [simp]: "set (insert_desc pos x ys) = insert x (set ys)"
  by (induction ys) auto

lemma mset_insert_desc: "mset (insert_desc pos x ys) = add_mset x (mset ys)"
  by (induction ys) auto

lemma mset_sort_desc [simp]: "mset (sort_desc pos xs) = mset xs"
  by (induction xs) (simp_all add: sort_desc_def mset_insert_desc)

lemma set_sort_desc [simp]: "set (sort_desc pos xs) = set xs"
  by (rule mset_eq_setD) simp

lemma insert_desc_sorted:
  "newest_first pos ys \<Longrightarrow> pos x \<notin> pos ` set ys \<Longrightarrow> newest_first pos (insert_desc pos x ys)"
proof (induction ys)
  case Nil
  then show ?case by (simp add: newest_first_def)
next
  case (Cons y ys)
  then have IH: "newest_first pos (insert_desc pos x ys)" by (simp add: newest_first_def)
  show ?case
  proof (cases "pos_less (pos x) (pos y)")
    case True
    with IH Cons.prems show ?thesis by (auto simp: newest_first_def)
  next
    case False
    then have "pos_less (pos y) (pos x)" using Cons.prems pos_less_linear [of "pos x" "pos y"] by auto
    with False Cons.prems show ?thesis by (auto simp: newest_first_def dest: pos_less_trans)
  qed
qed

lemma sort_desc_sorted: "distinct (map pos xs) \<Longrightarrow> newest_first pos (sort_desc pos xs)"
proof (induction xs)
  case Nil
  then show ?case by (simp add: sort_desc_def newest_first_def)
next
  case (Cons x xs)
  have "sort_desc pos (x # xs) = insert_desc pos x (sort_desc pos xs)" by (simp add: sort_desc_def)
  with Cons show ?case by (auto intro: insert_desc_sorted)
qed

lemma after_element:
  assumes "newest_first pos (xs @ e # ys)"
  shows "filter (\<lambda>x. pos_less (pos x) (pos e)) (xs @ e # ys) = ys"
proof -
  have "filter (\<lambda>x. pos_less (pos x) (pos e)) xs = []"
    using assms by (auto simp: newest_first_def sorted_wrt_append filter_empty_conv dest: pos_less_asym)
  moreover have "filter (\<lambda>x. pos_less (pos x) (pos e)) ys = ys"
    using assms by (auto simp: newest_first_def sorted_wrt_append)
  ultimately show ?thesis by simp
qed

subsection \<open>The contract of a paginated listing\<close>

text \<open>A page of the entries that are left: the first \<open>limit\<close>, and the cursor of the last one when more follow.\<close>

definition cut :: "('e \<Rightarrow> 'c) \<Rightarrow> nat \<Rightarrow> 'e list \<Rightarrow> 'e list \<times> bool \<times> 'c option" where
  "cut cursor_of limit es =
     (let hasMore = limit < length es;
          page = (if hasMore then take limit es else es)
      in (page, hasMore, (if hasMore \<and> page \<noteq> [] then Some (cursor_of (last page)) else None)))"

locale keyset_listing =
  fixes entries :: "'s \<Rightarrow> 'e list"
    and page :: "'s \<Rightarrow> nat \<Rightarrow> 'c option \<Rightarrow> ('e list \<times> bool \<times> 'c option) option"
    and cursor_of :: "'e \<Rightarrow> 'c"
    and proper :: "'s \<Rightarrow> bool"
  assumes first_page: "proper s \<Longrightarrow> page s limit None = Some (cut cursor_of limit (entries s))"
    and next_page: "proper s \<Longrightarrow> entries s = xs @ e # ys \<Longrightarrow>
          page s limit (Some (cursor_of e)) = Some (cut cursor_of limit ys)"
begin

text \<open>Following the cursors, with a bound on the number of pages; a thrown error stops the walk.\<close>

fun walk :: "nat \<Rightarrow> 's \<Rightarrow> nat \<Rightarrow> 'c option \<Rightarrow> 'e list list" where
  "walk 0 s limit after = []"
| "walk (Suc n) s limit after =
     (case page s limit after of
        None \<Rightarrow> []
      | Some (es, more, nxt) \<Rightarrow> es # (case nxt of None \<Rightarrow> [] | Some c \<Rightarrow> walk n s limit (Some c)))"

lemma walk_rest:
  assumes "proper s" and "0 < limit"
    and "page s limit after = Some (cut cursor_of limit ys)" and "entries s = xs @ ys" and "length ys < n"
  shows "concat (walk n s limit after) = ys"
  using assms(3-)
proof (induction n arbitrary: after xs ys)
  case 0
  then show ?case by simp
next
  case (Suc n)
  show ?case
  proof (cases "limit < length ys")
    case False
    with Suc.prems show ?thesis by (simp add: cut_def)
  next
    case True
    let ?zs = "take limit ys"
    have ne: "?zs \<noteq> []" using True assms(2) by auto
    have split: "ys = butlast ?zs @ last ?zs # drop limit ys"
      by (metis append.assoc append_Cons append_Nil append_butlast_last_id append_take_drop_id ne)
    then have "entries s = (xs @ butlast ?zs) @ last ?zs # drop limit ys" using Suc.prems(2) by simp
    from next_page [OF assms(1) this] have
      nxt: "page s limit (Some (cursor_of (last ?zs))) = Some (cut cursor_of limit (drop limit ys))" .
    have "entries s = (xs @ ?zs) @ drop limit ys" using Suc.prems(2) by simp
    from Suc.IH [OF nxt this] Suc.prems(3) True assms(2)
    have "concat (walk n s limit (Some (cursor_of (last ?zs)))) = drop limit ys" by simp
    with Suc.prems(1) True ne show ?thesis by (simp add: cut_def Let_def)
  qed
qed

lemma walk_visits_all:
  "proper s \<Longrightarrow> 0 < limit \<Longrightarrow> length (entries s) < n \<Longrightarrow> concat (walk n s limit None) = entries s"
  using walk_rest [of s limit None "entries s" "[]" n] first_page by simp

lemma page_bounded:
  "proper s \<Longrightarrow> page s limit None = Some (es, more, nxt) \<Longrightarrow> length es \<le> limit"
  by (auto simp: first_page cut_def Let_def split: if_splits)

end

subsection \<open>The in-memory listing\<close>

text \<open>Both services: filter, sort, drop everything not older than the cursor, cut.\<close>

definition memory_page ::
  "('e \<Rightarrow> position) \<Rightarrow> 'e list \<times> ('e \<Rightarrow> bool) \<Rightarrow> nat \<Rightarrow> string option \<Rightarrow> ('e list \<times> bool \<times> string option) option" where
  "memory_page pos = (\<lambda>(events, wanted) limit after.
     (let filtered = sort_desc pos (filter wanted events);
          from_cursor = (case after of
             None \<Rightarrow> Some filtered
           | Some c \<Rightarrow> map_option (\<lambda>d. filter (\<lambda>e. pos_less (pos e) d) filtered) (decode_position c))
      in map_option (cut (\<lambda>e. encode_position (pos e)) limit) from_cursor))"

definition memory_entries :: "('e \<Rightarrow> position) \<Rightarrow> 'e list \<times> ('e \<Rightarrow> bool) \<Rightarrow> 'e list" where
  "memory_entries pos = (\<lambda>(events, wanted). sort_desc pos (filter wanted events))"

definition memory_proper :: "('e \<Rightarrow> position) \<Rightarrow> 'e list \<times> ('e \<Rightarrow> bool) \<Rightarrow> bool" where
  "memory_proper pos = (\<lambda>(events, wanted). distinct (map pos events) \<and> (\<forall>e\<in>set events. cursor_safe (pos e)))"

lemma memory_sorted:
  "memory_proper pos (events, wanted) \<Longrightarrow> newest_first pos (memory_entries pos (events, wanted))"
  by (simp add: memory_proper_def memory_entries_def sort_desc_sorted distinct_map_filter)

interpretation memory_listing: keyset_listing "memory_entries pos" "memory_page pos" "\<lambda>e. encode_position (pos e)" "memory_proper pos"
  for pos
proof unfold_locales
  fix s :: "'a list \<times> ('a \<Rightarrow> bool)" and limit xs e ys
  obtain events wanted where s: "s = (events, wanted)" by (cases s)
  assume proper: "memory_proper pos s"
  show "memory_page pos s limit None = Some (cut (\<lambda>e. encode_position (pos e)) limit (memory_entries pos s))"
    by (simp add: memory_page_def memory_entries_def s)
  assume split: "memory_entries pos s = xs @ e # ys"
  then have "e \<in> set (memory_entries pos s)" by simp
  then have "cursor_safe (pos e)" using proper by (auto simp: memory_entries_def memory_proper_def s)
  moreover have "filter (\<lambda>x. pos_less (pos x) (pos e)) (memory_entries pos s) = ys"
    using memory_sorted [of pos events wanted] proper split after_element [of pos xs e ys] by (simp add: s)
  ultimately show "memory_page pos s limit (Some (encode_position (pos e))) = Some (cut (\<lambda>e. encode_position (pos e)) limit ys)"
    by (simp add: memory_page_def memory_entries_def s decode_encode_position)
qed

subsection \<open>The Postgres listing\<close>

text \<open>
  The same listing as a query: the keyset predicate on the instant and the id, the order, one row more
  than the limit.  \<open>toISO\<close> is \<open>Date.prototype.toISOString\<close>, \<open>parseISO\<close> the instant of \<open>new Date(s)\<close>, \<open>None\<close> when the
  date is invalid, which the query rejects.
\<close>

definition query_page :: "('e \<Rightarrow> string) \<Rightarrow> nat \<Rightarrow> 'e list \<Rightarrow> 'e list \<times> bool \<times> string option" where
  "query_page cursor_of limit matching =
     (let rows = take (limit + 1) matching;
          hasMore = limit < length rows;
          page = (if hasMore then take limit rows else rows)
      in (page, hasMore, (if hasMore \<and> page \<noteq> [] then Some (cursor_of (last page)) else None)))"

definition pg_page ::
  "(instant \<Rightarrow> string) \<Rightarrow> (string \<Rightarrow> instant option) \<Rightarrow> ('e \<Rightarrow> instant position_of) \<Rightarrow> 'e list \<times> ('e \<Rightarrow> bool)
   \<Rightarrow> nat \<Rightarrow> string option \<Rightarrow> ('e list \<times> bool \<times> string option) option" where
  "pg_page toISO parseISO pos = (\<lambda>(rows, wanted) limit after.
     (let ordered = sort_desc pos (filter wanted rows);
          matching = (case after of
             None \<Rightarrow> Some ordered
           | Some c \<Rightarrow>
               (case decode_position c of
                  None \<Rightarrow> None
                | Some (a, i) \<Rightarrow> map_option (\<lambda>t. filter (\<lambda>e. pos_less (pos e) (t, i)) ordered) (parseISO a)))
      in map_option (query_page (\<lambda>e. encode_position (toISO (fst (pos e)), snd (pos e))) limit) matching))"

definition pg_entries :: "('e \<Rightarrow> instant position_of) \<Rightarrow> 'e list \<times> ('e \<Rightarrow> bool) \<Rightarrow> 'e list" where
  "pg_entries pos = (\<lambda>(rows, wanted). sort_desc pos (filter wanted rows))"

definition pg_page_proper ::
  "(instant \<Rightarrow> string) \<Rightarrow> (string \<Rightarrow> instant option) \<Rightarrow> ('e \<Rightarrow> instant position_of) \<Rightarrow> 'e list \<times> ('e \<Rightarrow> bool) \<Rightarrow> bool" where
  "pg_page_proper toISO parseISO pos = (\<lambda>(rows, wanted). distinct (map pos rows)
     \<and> (\<forall>e\<in>set rows. cursor_safe (toISO (fst (pos e)), snd (pos e)) \<and> parseISO (toISO (fst (pos e))) = Some (fst (pos e))))"

lemma query_page_cut: "query_page cursor_of limit es = cut cursor_of limit es"
  by (auto simp: query_page_def cut_def Let_def min_def)

interpretation pg_listing: keyset_listing "pg_entries pos" "pg_page toISO parseISO pos"
    "\<lambda>e. encode_position (toISO (fst (pos e)), snd (pos e))" "pg_page_proper toISO parseISO pos"
  for toISO parseISO pos
proof unfold_locales
  fix s :: "'a list \<times> ('a \<Rightarrow> bool)" and limit xs e ys
  obtain rows wanted where s: "s = (rows, wanted)" by (cases s)
  let ?cur = "\<lambda>e. encode_position (toISO (fst (pos e)), snd (pos e))"
  assume proper: "pg_page_proper toISO parseISO pos s"
  show "pg_page toISO parseISO pos s limit None = Some (cut ?cur limit (pg_entries pos s))"
    by (simp add: pg_page_def pg_entries_def s query_page_cut)
  assume split: "pg_entries pos s = xs @ e # ys"
  then have "e \<in> set (pg_entries pos s)" by simp
  then have "cursor_safe (toISO (fst (pos e)), snd (pos e))" "parseISO (toISO (fst (pos e))) = Some (fst (pos e))"
    using proper by (auto simp: pg_entries_def pg_page_proper_def s)
  moreover have "newest_first pos (pg_entries pos s)"
    using proper by (simp add: pg_page_proper_def pg_entries_def s sort_desc_sorted distinct_map_filter)
  then have "filter (\<lambda>x. pos_less (pos x) (pos e)) (pg_entries pos s) = ys" using split after_element [of pos xs e ys] by simp
  ultimately show "pg_page toISO parseISO pos s limit (Some (?cur e)) = Some (cut ?cur limit ys)"
    by (simp add: pg_page_def pg_entries_def s decode_encode_position query_page_cut)
qed

end
