(* ===== verification/WalletServer.thy ===== *)
theory WalletServer
  imports Sponsor WalletRepo
begin

text \<open>
  The funding routes of \<open>services/wallet-service/src/server.ts\<close>: create, connect and submit.  A submission
  is two steps, up to the call of the submitter and from its answer on, so that other requests, and a
  crash, may come in between; the replay guard is a parameter, with its contract as the locale of
  \<open>ReplayGuard\<close>.  Bodies are parsed: their strings may still be empty, which the schemas refuse.
\<close>

datatype 'p reply = Error_reply nat string | Ok_reply nat 'p

record submission =
  sub_xdr :: string
  sub_hash :: string
  sub_network :: network
  sub_subjects :: "string list"
  sub_keys :: "replay_key list"

record creation =
  cr_keyId :: string
  cr_contractId :: string
  cr_network :: network

record rate_record =
  rl_count :: nat
  rl_resetAt :: instant

record ('g, 'b) wallet_state =
  wallets :: wallet_store
  sessions :: session_store
  audit :: "audit_event list"
  submissionDedup :: "(string, string) js_map"
  guard :: 'g
  create_budget :: 'b
  inFlight :: in_flight
  balance_cache :: "(string, string) js_map"
  connectRateLimits :: "(string, rate_record) js_map"
  signerVersions :: "(string, nat) js_map"
  pending :: "submission list"
  settled :: "(submission \<times> (submit_error + string)) list"
  pending_creates :: "creation list"

definition SESSION_TTL_MS :: int where "SESSION_TTL_MS = 7 * 24 * 60 * 60 * 1000"

definition network_name :: "network \<Rightarrow> string" where
  "network_name n = (case n of Testnet \<Rightarrow> ''testnet'' | Mainnet \<Rightarrow> ''mainnet'')"

definition openSession ::
  "string \<Rightarrow> instant \<Rightarrow> string \<Rightarrow> network \<Rightarrow> ('g, 'b) wallet_state \<Rightarrow> ('g, 'b) wallet_state \<times> session" where
  "openSession uuid now c n s =
     (let r = \<lparr>s_id = uuid, s_contractId = c, s_network = n, s_createdAt = now, lastActiveAt = now,
               expiresAt = now + SESSION_TTL_MS\<rparr>
      in (s\<lparr>sessions := insert_session r (sessions s)\<rparr>, r))"

definition record_event ::
  "instant \<Rightarrow> string \<Rightarrow> (string, json) js_map \<Rightarrow> string option \<Rightarrow> ('g, 'b) wallet_state \<Rightarrow> ('g, 'b) wallet_state" where
  "record_event now ty data actor s = s\<lparr>audit := audit_record now ty data actor (audit s)\<rparr>"

subsection \<open>POST /wallet/create\<close>

text \<open>
  The budget of the create line: \<open>None\<close> when none is wired; its network is the configured one, and a
  budget without it refuses.  An accounting error refuses as well.
\<close>

record 'b create_env =
  ce_passphrase :: "string option"
  ce_derived :: "string \<Rightarrow> string"
  ce_budget :: "(network \<Rightarrow> int \<Rightarrow> 'b \<Rightarrow> 'b \<times> (string + consume_result)) option"
  ce_budgetNetwork :: "network option"

definition create_metered :: "'b create_env \<Rightarrow> 'b \<Rightarrow> 'b \<times> bool" where
  "create_metered env b =
     (case ce_budget env of
        None \<Rightarrow> (b, True)
      | Some consume \<Rightarrow>
          (case ce_budgetNetwork env of
             None \<Rightarrow> (b, False)
           | Some n \<Rightarrow> (case consume n 0 b of (b', r) \<Rightarrow> (b', r = Inr Consumed))))"

definition create_begin ::
  "'b create_env \<Rightarrow> creation \<Rightarrow> string \<Rightarrow> ('g, 'b) wallet_state \<Rightarrow> ('g, 'b) wallet_state \<times> string reply option" where
  "create_begin env c signedTx s =
     (if cr_keyId c = [] \<or> cr_contractId c = [] \<or> signedTx = [] then (s, Some (Error_reply 400 ''invalid_body''))
      else if ce_passphrase env \<noteq> None \<and> ce_derived env (cr_keyId c) \<noteq> cr_contractId c
      then (s, Some (Error_reply 403 ''contract_id_mismatch''))
      else if findByKeyId (cr_keyId c) (cr_network c) (wallets s) \<noteq> None then (s, Some (Error_reply 409 ''wallet_exists''))
      else
        (case create_metered env (create_budget s) of
           (b, False) \<Rightarrow> (s\<lparr>create_budget := b\<rparr>, Some (Error_reply 503 ''create_budget_exceeded''))
         | (b, True) \<Rightarrow> (s\<lparr>create_budget := b, pending_creates := pending_creates s @ [c]\<rparr>, None)))"

definition code_or_default :: "submit_error \<Rightarrow> string" where
  "code_or_default e = (case e of Submission_error m c \<Rightarrow> c | _ \<Rightarrow> ''submission_failed'')"

definition create_settle ::
  "instant \<Rightarrow> string \<Rightarrow> creation \<Rightarrow> submit_error + string \<Rightarrow> ('g, 'b) wallet_state \<Rightarrow> ('g, 'b) wallet_state \<times> string reply" where
  "create_settle now uuid c result s =
     (let s1 = s\<lparr>pending_creates := remove1 c (pending_creates s)\<rparr> in
      case result of
        Inl e \<Rightarrow> (s1, Error_reply 502 (code_or_default e))
      | Inr h \<Rightarrow>
          (case insert_wallet \<lparr>keyId = cr_keyId c, contractId = cr_contractId c, w_network = cr_network c, w_createdAt = now\<rparr>
                  (wallets s1) of
             None \<Rightarrow> (s1, Error_reply 500 ''DuplicateWalletError'')
           | Some ws \<Rightarrow>
               (let (s2, sess) = openSession uuid now (cr_contractId c) (cr_network c) (s1\<lparr>wallets := ws\<rparr>) in
                (record_event now ''wallet.created''
                   [(''contractId'', JStr (cr_contractId c)), (''network'', JStr (network_name (cr_network c))), (''txHash'', JStr h)]
                   None s2, Ok_reply 201 (s_id sess)))))"

subsection \<open>POST /wallet/connect\<close>

definition connect_rate :: "nat \<Rightarrow> int \<Rightarrow> string \<Rightarrow> instant \<Rightarrow> (string, rate_record) js_map \<Rightarrow> (string, rate_record) js_map \<times> rate_record" where
  "connect_rate mx window key now m =
     (let r = (case js_get m key of
          None \<Rightarrow> \<lparr>rl_count = 1, rl_resetAt = now + window\<rparr>
        | Some r \<Rightarrow> if now > rl_resetAt r then \<lparr>rl_count = 1, rl_resetAt = now + window\<rparr> else r\<lparr>rl_count := rl_count r + 1\<rparr>)
      in (js_set key r m, r))"

definition connect_route ::
  "nat \<Rightarrow> int \<Rightarrow> instant \<Rightarrow> string \<Rightarrow> string \<Rightarrow> string \<Rightarrow> network \<Rightarrow> ('g, 'b) wallet_state \<Rightarrow> ('g, 'b) wallet_state \<times> session reply" where
  "connect_route mx window now uuid ip k n s =
     (if k = [] then (s, Error_reply 400 ''invalid_body'')
      else
        (let (m, r) = connect_rate mx window (ip @ CHR '':'' # k) now (connectRateLimits s);
             s1 = s\<lparr>connectRateLimits := m\<rparr>
         in if rl_count r > mx then (s1, Error_reply 429 ''rate_limited'')
            else
              (case findByKeyId k n (wallets s1) of
                 None \<Rightarrow> (s1, Error_reply 404 ''wallet_not_found'')
               | Some w \<Rightarrow>
                   (let (s2, sess) = openSession uuid now (contractId w) n s1 in
                    (record_event now ''wallet.connected''
                       [(''contractId'', JStr (contractId w)), (''network'', JStr (network_name n))] None s2,
                     Ok_reply 200 sess)))))"

text \<open>How many of the calls at these instants for one key pass the limit.\<close>

fun admitted :: "nat \<Rightarrow> int \<Rightarrow> string \<Rightarrow> instant list \<Rightarrow> (string, rate_record) js_map \<Rightarrow> nat" where
  "admitted mx window key [] m = 0"
| "admitted mx window key (t # ts) m =
     (let (m', r) = connect_rate mx window key t m
      in (if rl_count r > mx then 0 else 1) + admitted mx window key ts m')"

lemma admitted_in_window:
  "js_get m key = Some r \<Longrightarrow> list_all (\<lambda>t. t \<le> rl_resetAt r) ts \<Longrightarrow>
     admitted mx window key ts m = min (length ts) (mx - rl_count r)"
proof (induction ts arbitrary: m r)
  case Nil
  then show ?case by simp
next
  case (Cons t ts)
  let ?r = "r\<lparr>rl_count := rl_count r + 1\<rparr>"
  from Cons.prems have c: "connect_rate mx window key t m = (js_set key ?r m, ?r)" by (simp add: connect_rate_def Let_def)
  have "admitted mx window key ts (js_set key ?r m) = min (length ts) (mx - rl_count ?r)"
    by (rule Cons.IH) (use Cons.prems in simp_all)
  with c show ?case by auto
qed

text \<open>Authentication attempts for one passkey from one address are limited: of any attempts within one window,
  starting with the one that opens it, exactly the first \<open>mx\<close> pass and the rest are refused.\<close>

theorem connect_attempts_limited:
  assumes "case js_get m key of None \<Rightarrow> True | Some r \<Rightarrow> rl_resetAt r < t"
    and "list_all (\<lambda>t'. t' \<le> t + window) ts" and "1 \<le> mx"
  shows "admitted mx window key (t # ts) m = min (Suc (length ts)) mx"
proof -
  let ?r = "\<lparr>rl_count = 1, rl_resetAt = t + window\<rparr>"
  have "connect_rate mx window key t m = (js_set key ?r m, ?r)"
    using assms(1) by (auto simp: connect_rate_def Let_def split: option.splits)
  moreover have "admitted mx window key ts (js_set key ?r m) = min (length ts) (mx - 1)"
    using admitted_in_window [of "js_set key ?r m" key ?r ts mx window] assms(2) by simp
  ultimately show ?thesis using assms(3) by auto
qed

theorem connect_attempts_limited_witness:
  "admitted 5 60000 ''ip:k'' (0 # replicate 9 100) [] = 5"
  using connect_attempts_limited [where m = "[]" and t = 0 and window = 60000 and ts = "replicate 9 100" and mx = 5 and key = "''ip:k''"]
  by (simp add: list_all_iff)

subsection \<open>POST /wallet/submit\<close>

record submit_env =
  parse :: tx_parser
  passphrase :: "string option"
  digest :: "string \<Rightarrow> string"
  lookup_down :: bool
  audit_up :: bool
  clock :: instant

definition audit_subjects ::
  "instant \<Rightarrow> string \<Rightarrow> (string, json) js_map \<Rightarrow> string list \<Rightarrow> ('g, 'b) wallet_state \<Rightarrow> ('g, 'b) wallet_state" where
  "audit_subjects now ty data subjects s = fold (\<lambda>c. record_event now ty data (Some c)) subjects s"

definition start_all :: "string list \<Rightarrow> in_flight \<Rightarrow> in_flight" where
  "start_all subjects m = fold start_flight subjects m"

definition end_all :: "string list \<Rightarrow> in_flight \<Rightarrow> in_flight" where
  "end_all subjects m = fold (\<lambda>c m. fst (end_flight c False m)) subjects m"

text \<open>Leaving the handler: the \<open>finally\<close> block releases the flights that were started.\<close>

definition leave :: "string list \<Rightarrow> ('g, 'b) wallet_state \<times> 'r \<Rightarrow> ('g, 'b) wallet_state \<times> 'r" where
  "leave subjects = (\<lambda>(s, r). (s\<lparr>inFlight := end_all subjects (inFlight s)\<rparr>, r))"

definition subjects_of :: "submit_env \<Rightarrow> string \<Rightarrow> string list" where
  "subjects_of env xdr = (case passphrase env of None \<Rightarrow> [] | Some p \<Rightarrow> extractAddressAuthSubjects (parse env) xdr p)"

definition keys_of :: "submit_env \<Rightarrow> string \<Rightarrow> replay_key list" where
  "keys_of env xdr = (case passphrase env of None \<Rightarrow> [] | Some p \<Rightarrow> extractReplayKeys (parse env) xdr p)"

definition known_wallet :: "submit_env \<Rightarrow> network \<Rightarrow> ('g, 'b) wallet_state \<Rightarrow> string \<Rightarrow> bool option" where
  "known_wallet env n s c = (if lookup_down env then None else Some (existsByContractId c n (wallets s)))"

definition submit_scope :: "submit_env \<Rightarrow> string \<Rightarrow> network \<Rightarrow> ('g, 'b) wallet_state \<Rightarrow> scope_failure + unit" where
  "submit_scope env xdr n s =
     (case passphrase env of
        None \<Rightarrow> Inr ()
      | Some p \<Rightarrow> assertScopedToKnownWallets (parse env) xdr p (known_wallet env n s))"

text \<open>
  Up to the submitter's call; \<open>None\<close> is no reply yet.  \<open>reserve q\<close> is the guard's reservation of the
  request \<open>q\<close>, which stands for the keys of the transaction; without a passphrase nothing is reserved.
\<close>

definition submit_begin ::
  "('q \<Rightarrow> 'g \<Rightarrow> 'g \<times> reserve_result) \<Rightarrow> 'q \<Rightarrow> submit_env \<Rightarrow> string \<Rightarrow> network \<Rightarrow> ('g, 'b) wallet_state
   \<Rightarrow> ('g, 'b) wallet_state \<times> string reply option" where
  "submit_begin reserve q env xdr n s =
     (if xdr = [] then (s, Some (Error_reply 400 ''invalid_body''))
      else
        (case js_get (submissionDedup s) (digest env xdr) of
           Some h \<Rightarrow> (s, Some (Ok_reply 200 h))
         | None \<Rightarrow>
             (let subjects = subjects_of env xdr;
                  s1 = s\<lparr>inFlight := start_all subjects (inFlight s)\<rparr>;
                  sub = \<lparr>sub_xdr = xdr, sub_hash = digest env xdr, sub_network = n, sub_subjects = subjects, sub_keys = keys_of env xdr\<rparr>
              in case submit_scope env xdr n s1 of
                   Inl (Scope e) \<Rightarrow>
                     leave subjects
                       (if subjects \<noteq> [] \<and> \<not> audit_up env then (s1, Some (Error_reply 500 ''internal''))
                        else (audit_subjects (clock env) ''tx.policy_rejected'' [(''code'', JStr (scope_code e))] subjects s1,
                              Some (Error_reply 403 (scope_code e))))
                 | Inl Lookup_failed \<Rightarrow> leave subjects (s1, Some (Error_reply 503 ''persistence_unavailable''))
                 | Inr _ \<Rightarrow>
                     (case passphrase env of
                        None \<Rightarrow> (s1\<lparr>pending := pending s1 @ [sub]\<rparr>, None)
                      | Some p \<Rightarrow>
                          (case reserve q (guard s1) of
                             (g, Store_failed) \<Rightarrow> leave subjects (s1\<lparr>guard := g\<rparr>, Some (Error_reply 503 ''replay_store_unavailable''))
                           | (g, Replayed) \<Rightarrow>
                               leave subjects
                                 ((if audit_up env
                                   then record_event (clock env) ''tx.replay_rejected'' [(''network'', JStr (network_name n))] None (s1\<lparr>guard := g\<rparr>)
                                   else s1\<lparr>guard := g\<rparr>), Some (Error_reply 409 ''replayed_submission''))
                           | (g, Reserved) \<Rightarrow> (s1\<lparr>guard := g, pending := pending s1 @ [sub]\<rparr>, None))))))"

definition failure_event :: "submit_error \<Rightarrow> string" where
  "failure_event e =
     (case e of
        Submission_error m c \<Rightarrow> if c = ''policy_rejected'' \<or> c = ''policy_violation'' then ''tx.policy_rejected'' else ''tx.failed''
      | _ \<Rightarrow> ''tx.failed'')"

text \<open>One event per subject, or one without an actor when there is none.\<close>

definition audit_outcome ::
  "instant \<Rightarrow> string \<Rightarrow> (string, json) js_map \<Rightarrow> string list \<Rightarrow> ('g, 'b) wallet_state \<Rightarrow> ('g, 'b) wallet_state" where
  "audit_outcome now ty data subjects s =
     (if subjects = [] then record_event now ty data None s else audit_subjects now ty data subjects s)"

definition invalidate_balances :: "string list \<Rightarrow> ('g, 'b) wallet_state \<Rightarrow> ('g, 'b) wallet_state" where
  "invalidate_balances subjects s = s\<lparr>balance_cache := fold js_delete subjects (balance_cache s)\<rparr>"

text \<open>
  From the submitter's answer on.  When the audit log is down, a successful submission has already been
  remembered; its audit write throws, the write in the catch block throws again, and the request ends
  in an internal error with the reservation kept.
\<close>

definition submit_settle ::
  "('q \<Rightarrow> 'g \<Rightarrow> 'g) \<Rightarrow> 'q \<Rightarrow> bool \<Rightarrow> instant \<Rightarrow> submission \<Rightarrow> submit_error + string \<Rightarrow> ('g, 'b) wallet_state
   \<Rightarrow> ('g, 'b) wallet_state \<times> string reply" where
  "submit_settle release q log_up now sub result s =
     (let s1 = s\<lparr>pending := remove1 sub (pending s), settled := settled s @ [(sub, result)]\<rparr>;
          subjects = sub_subjects sub
      in leave subjects
        (case result of
           Inr h \<Rightarrow>
             (let s2 = invalidate_balances subjects (s1\<lparr>submissionDedup := js_set (sub_hash sub) h (submissionDedup s1)\<rparr>) in
              if log_up
              then (audit_outcome now ''tx.submitted'' [(''network'', JStr (network_name (sub_network sub))), (''txHash'', JStr h)] subjects s2,
                    Ok_reply 200 h)
              else (s2, Error_reply 500 ''internal''))
         | Inl e \<Rightarrow>
             (if \<not> log_up then (s1, Error_reply 500 ''internal'')
              else
                (let s2 = audit_outcome now (failure_event e)
                       [(''network'', JStr (network_name (sub_network sub))), (''error'', JStr (code_or_default e))] subjects s1;
                     s3 = (if sub_keys sub \<noteq> [] \<and> releasable (Inl e :: submit_error + string)
                           then s2\<lparr>guard := release q (guard s2)\<rparr> else s2)
                 in (s3, Error_reply 502 (code_or_default e))))))"

text \<open>What the steps do to the parts that matter for replays.\<close>

lemma record_event_simps [simp]:
  "guard (record_event now ty data a s) = guard s" "pending (record_event now ty data a s) = pending s"
  "settled (record_event now ty data a s) = settled s" "wallets (record_event now ty data a s) = wallets s"
  "sessions (record_event now ty data a s) = sessions s" "inFlight (record_event now ty data a s) = inFlight s"
  "pending_creates (record_event now ty data a s) = pending_creates s"
  "signerVersions (record_event now ty data a s) = signerVersions s"
  "create_budget (record_event now ty data a s) = create_budget s"
  by (simp_all add: record_event_def)

lemma audit_subjects_simps [simp]:
  "guard (audit_subjects now ty data cs s) = guard s" "pending (audit_subjects now ty data cs s) = pending s"
  "settled (audit_subjects now ty data cs s) = settled s" "wallets (audit_subjects now ty data cs s) = wallets s"
  "inFlight (audit_subjects now ty data cs s) = inFlight s"
  "pending_creates (audit_subjects now ty data cs s) = pending_creates s"
  by (induction cs arbitrary: s) (simp_all add: audit_subjects_def)

lemma audit_outcome_simps [simp]:
  "guard (audit_outcome now ty data cs s) = guard s" "pending (audit_outcome now ty data cs s) = pending s"
  "settled (audit_outcome now ty data cs s) = settled s" "wallets (audit_outcome now ty data cs s) = wallets s"
  "inFlight (audit_outcome now ty data cs s) = inFlight s"
  "pending_creates (audit_outcome now ty data cs s) = pending_creates s"
  by (simp_all add: audit_outcome_def)

lemma leave_simps [simp]:
  "guard (fst (leave cs p)) = guard (fst p)" "pending (fst (leave cs p)) = pending (fst p)"
  "settled (fst (leave cs p)) = settled (fst p)" "wallets (fst (leave cs p)) = wallets (fst p)"
  "pending_creates (fst (leave cs p)) = pending_creates (fst p)" "snd (leave cs p) = snd p"
  "inFlight (fst (leave cs p)) = end_all cs (inFlight (fst p))"
  by (simp_all add: leave_def split_beta)

lemma invalidate_simps [simp]:
  "guard (invalidate_balances cs s) = guard s" "pending (invalidate_balances cs s) = pending s"
  "settled (invalidate_balances cs s) = settled s" "wallets (invalidate_balances cs s) = wallets s"
  "pending_creates (invalidate_balances cs s) = pending_creates s"
  by (simp_all add: invalidate_balances_def)

lemma known_wallet_flights [simp]: "known_wallet env n (s\<lparr>inFlight := m\<rparr>) = known_wallet env n s"
  by (simp add: known_wallet_def fun_eq_iff cong: if_cong)

lemma submit_begin_cases:
  "(snd (submit_begin reserve q env xdr n s) \<noteq> None
     \<and> pending (fst (submit_begin reserve q env xdr n s)) = pending s
     \<and> settled (fst (submit_begin reserve q env xdr n s)) = settled s
     \<and> (guard (fst (submit_begin reserve q env xdr n s)) = guard s
        \<or> (\<exists>g r. reserve q (guard s) = (g, r) \<and> r \<noteq> Reserved \<and> guard (fst (submit_begin reserve q env xdr n s)) = g)))
   \<or> (snd (submit_begin reserve q env xdr n s) = None
     \<and> submit_scope env xdr n s = Inr ()
     \<and> settled (fst (submit_begin reserve q env xdr n s)) = settled s
     \<and> pending (fst (submit_begin reserve q env xdr n s)) =
         pending s @ [\<lparr>sub_xdr = xdr, sub_hash = digest env xdr, sub_network = n, sub_subjects = subjects_of env xdr, sub_keys = keys_of env xdr\<rparr>]
     \<and> (if passphrase env = None then guard (fst (submit_begin reserve q env xdr n s)) = guard s
        else reserve q (guard s) = (guard (fst (submit_begin reserve q env xdr n s)), Reserved)))"
proof -
  have sc: "submit_scope env xdr n (s\<lparr>inFlight := m\<rparr>) = submit_scope env xdr n s" for m
    by (simp add: submit_scope_def split: option.split)
  show ?thesis
    by (auto simp: submit_begin_def Let_def sc split: option.split sum.split scope_failure.split prod.split reserve_result.split)
qed

lemma submit_settle_parts:
  "pending (fst (submit_settle release q log_up now sub result s)) = remove1 sub (pending s)"
  "settled (fst (submit_settle release q log_up now sub result s)) = settled s @ [(sub, result)]"
  "guard (fst (submit_settle release q log_up now sub result s)) =
     (if log_up \<and> sub_keys sub \<noteq> [] \<and> releasable result then release q (guard s) else guard s)"
  by (auto simp: submit_settle_def Let_def releasable_def split: sum.split)

subsection \<open>Submissions side by side\<close>

text \<open>
  Requests in any order: a submission begins, a pending one settles with whatever the submitter answers,
  and the process may crash, which loses what is pending but not the guard.  \<open>asks q keys\<close> says that the
  guard request \<open>q\<close> is one for these keys.
\<close>

inductive submit_step ::
  "('q \<Rightarrow> 'g \<Rightarrow> 'g \<times> reserve_result) \<Rightarrow> ('q \<Rightarrow> 'g \<Rightarrow> 'g) \<Rightarrow> ('q \<Rightarrow> replay_key list \<Rightarrow> bool)
   \<Rightarrow> ('g, 'b) wallet_state \<Rightarrow> ('g, 'b) wallet_state \<Rightarrow> bool"
  for reserve release asks where
  begin_submission: "passphrase env \<noteq> None \<Longrightarrow> asks q (keys_of env xdr) \<Longrightarrow>
     submit_step reserve release asks s (fst (submit_begin reserve q env xdr n s))"
| settle_submission: "sub \<in> set (pending s) \<Longrightarrow> asks q (sub_keys sub) \<Longrightarrow>
     submit_step reserve release asks s (fst (submit_settle release q log_up now sub result s))"
| crash: "submit_step reserve release asks s (s\<lparr>pending := [], inFlight := []\<rparr>)"

text \<open>The submissions that carry an authorisation and are under way, or ended otherwise than before any send.\<close>

definition carries :: "(replay_key list \<Rightarrow> 'i set) \<Rightarrow> 'i \<Rightarrow> submission \<Rightarrow> bool" where
  "carries ids i sub \<longleftrightarrow> i \<in> ids (sub_keys sub)"

definition spent :: "(replay_key list \<Rightarrow> 'i set) \<Rightarrow> 'i \<Rightarrow> ('g, 'b) wallet_state \<Rightarrow> nat" where
  "spent ids i s = length (filter (\<lambda>(sub, r). carries ids i sub \<and> \<not> releasable r) (settled s))"

definition open_count :: "(replay_key list \<Rightarrow> 'i set) \<Rightarrow> 'i \<Rightarrow> ('g, 'b) wallet_state \<Rightarrow> nat" where
  "open_count ids i s = length (filter (carries ids i) (pending s))"

lemma open_count_remove:
  "sub \<in> set ps \<Longrightarrow>
     length (filter (carries ids i) (remove1 sub ps)) + (if carries ids i sub then 1 else 0) = length (filter (carries ids i) ps)"
  by (induction ps) auto

context replay_guard
begin

definition once_inv :: "(replay_key list \<Rightarrow> 'i set) \<Rightarrow> 'i \<Rightarrow> ('s, 'b) wallet_state \<Rightarrow> bool" where
  "once_inv ids i s \<longleftrightarrow> spent ids i s + open_count ids i s \<le> (if i \<in> held (guard s) then 1 else 0)"

lemma submit_step_once:
  assumes "submit_step reserve release asks s t" and "once_inv ids i s"
    and asks: "\<And>q ks. asks q ks \<Longrightarrow> idents q = ids ks" and none: "ids [] = {}"
  shows "once_inv ids i t"
  using assms(1)
proof cases
  case (begin_submission env q xdr n)
  let ?r = "submit_begin reserve q env xdr n s"
  have q: "idents q = ids (keys_of env xdr)" using asks begin_submission by blast
  from submit_begin_cases [of reserve q env xdr n s] show ?thesis
  proof (elim disjE conjE)
    assume a: "pending (fst ?r) = pending s" "settled (fst ?r) = settled s" "guard (fst ?r) = guard s"
    with assms(2) begin_submission show ?thesis by (simp add: once_inv_def spent_def open_count_def)
  next
    assume a: "pending (fst ?r) = pending s" "settled (fst ?r) = settled s"
      "\<exists>g r. reserve q (guard s) = (g, r) \<and> r \<noteq> Reserved \<and> guard (fst ?r) = g"
    then have "held (guard (fst ?r)) = held (guard s)" using reserve_all_or_none by blast
    with a assms(2) begin_submission show ?thesis by (simp add: once_inv_def spent_def open_count_def)
  next
    assume a: "settled (fst ?r) = settled s"
      "pending (fst ?r) = pending s @ [\<lparr>sub_xdr = xdr, sub_hash = digest env xdr, sub_network = n,
         sub_subjects = subjects_of env xdr, sub_keys = keys_of env xdr\<rparr>]"
      "if passphrase env = None then guard (fst ?r) = guard s else reserve q (guard s) = (guard (fst ?r), Reserved)"
    with begin_submission have res: "reserve q (guard s) = (guard (fst ?r), Reserved)" by simp
    have "held (guard (fst ?r)) = held (guard s) \<union> idents q" "idents q \<inter> held (guard s) = {}"
      using reserve_takes [OF res] reserve_free [OF res] .
    with a assms(2) begin_submission q show ?thesis
      by (auto simp: once_inv_def spent_def open_count_def carries_def split: if_splits)
  qed
next
  case (settle_submission sub q log_up now result)
  let ?t = "fst (submit_settle release q log_up now sub result s)"
  have q: "idents q = ids (sub_keys sub)" using asks settle_submission by blast
  have o: "open_count ids i ?t + (if carries ids i sub then 1 else 0) = open_count ids i s"
    using open_count_remove [of sub "pending s" ids i] settle_submission
    by (simp add: open_count_def submit_settle_parts)
  have p: "spent ids i ?t = spent ids i s + (if carries ids i sub \<and> \<not> releasable result then 1 else 0)"
    by (simp add: spent_def submit_settle_parts)
  have h: "held (guard ?t) = (if log_up \<and> sub_keys sub \<noteq> [] \<and> releasable result then held (guard s) - ids (sub_keys sub) else held (guard s))"
    by (simp add: submit_settle_parts release_gives_back q)
  show ?thesis
    using assms(2) o p h settle_submission by (auto simp: once_inv_def carries_def split: if_splits)
next
  case crash
  with assms(2) show ?thesis by (auto simp: once_inv_def open_count_def spent_def split: if_splits)
qed

lemma submit_run_once:
  assumes "(submit_step reserve release asks)\<^sup>*\<^sup>* s t" and "once_inv ids i s"
    and "\<And>q ks. asks q ks \<Longrightarrow> idents q = ids ks" and "ids [] = {}"
  shows "once_inv ids i t"
  using assms(1)
proof (induction rule: rtranclp_induct)
  case base
  show ?case by (rule assms(2))
next
  case (step u v)
  show ?case by (rule submit_step_once [OF step.hyps(2) step.IH assms(3,4)])
qed

lemma once_inv_init: "pending s = [] \<Longrightarrow> settled s = [] \<Longrightarrow> once_inv ids i s"
  by (simp add: once_inv_def spent_def open_count_def)

end

definition pg_asks :: "pg_request \<Rightarrow> replay_key list \<Rightarrow> bool" where
  "pg_asks q ks \<longleftrightarrow> snd (snd q) = ks"

text \<open>C2: However submissions interleave, fail, crash and are retried, re-wrapped in any envelope: with the Postgres
  guard at most one submission that carries a given signed authorisation, by address and nonce, is under
  way or ended otherwise than with one of the failures that precede any send.\<close>

theorem authorisation_spent_at_most_once:
  assumes "(submit_step (pg_call net) (pg_return net) pg_asks)\<^sup>*\<^sup>* s t"
    and "pending s = []" and "settled s = []"
  shows "length (filter (\<lambda>(sub, r). i \<in> pg_ident ` set (sub_keys sub) \<and> \<not> releasable r) (settled t))
     + length (filter (\<lambda>sub. i \<in> pg_ident ` set (sub_keys sub)) (pending t)) \<le> 1"
proof -
  have "pg_guard.once_inv net (\<lambda>ks. pg_ident ` set ks) i t"
    by (rule pg_guard.submit_run_once [OF assms(1) pg_guard.once_inv_init [OF assms(2,3)]])
       (auto simp: pg_asks_def pg_idents_def)
  then show ?thesis
    by (auto simp: pg_guard.once_inv_def spent_def open_count_def carries_def [abs_def] split: if_splits)
qed

definition example_state :: "(replay_row list, unit) wallet_state" where
  "example_state =
     \<lparr>wallets = [((Testnet, ''k''), \<lparr>keyId = ''k'', contractId = ''CA'', w_network = Testnet, w_createdAt = 0\<rparr>)],
      sessions = [], audit = [], submissionDedup = [], guard = [], create_budget = (), inFlight = [], balance_cache = [],
      connectRateLimits = [], signerVersions = [], pending = [], settled = [], pending_creates = []\<rparr>"

definition example_submit_env :: submit_env where
  "example_submit_env = \<lparr>parse = example_parse, passphrase = Some ''p'', digest = (\<lambda>x. x), lookup_down = False, audit_up = True, clock = 5\<rparr>"

lemma example_begin:
  "map sub_subjects (pending (fst (submit_begin (pg_call Testnet) (1, False, keys_of example_submit_env ''good'')
     example_submit_env ''good'' Testnet example_state))) = [[''CA'']]"
  by (simp add: submit_begin_def submit_scope_def known_wallet_def keys_of_def subjects_of_def example_submit_env_def
      example_state_def example_parse_def example_creds_def extractReplayKeys_def extractAddressAuthSubjects_def
      assertScopedToKnownWallets_def bound_credentials_def addressCredentials_def List.map_filter_simps existsByContractId_def
      js_values_def pg_call_cases
      pg_proper_def pg_idents_def pg_held_def Let_def)

theorem authorisation_spent_at_most_once_witness:
  "\<exists>t. (submit_step (pg_call Testnet) (pg_return Testnet) pg_asks)\<^sup>*\<^sup>* example_state t
     \<and> length (pending t) = 1
     \<and> length (filter (\<lambda>(sub, r). (''CA'', ''7'') \<in> pg_ident ` set (sub_keys sub) \<and> \<not> releasable r) (settled t))
       + length (filter (\<lambda>sub. (''CA'', ''7'') \<in> pg_ident ` set (sub_keys sub)) (pending t)) \<le> 1"
proof -
  let ?t = "fst (submit_begin (pg_call Testnet) (1, False, keys_of example_submit_env ''good'') example_submit_env ''good'' Testnet example_state)"
  have "submit_step (pg_call Testnet) (pg_return Testnet) pg_asks example_state ?t"
    by (rule begin_submission) (simp_all add: example_submit_env_def pg_asks_def)
  then have r: "(submit_step (pg_call Testnet) (pg_return Testnet) pg_asks)\<^sup>*\<^sup>* example_state ?t" by (rule r_into_rtranclp)
  have "length (map sub_subjects (pending ?t)) = 1" by (simp only: example_begin) simp
  then show ?thesis
    using r authorisation_spent_at_most_once [OF r, of "(''CA'', ''7'')"] by (intro exI [of _ ?t]) (simp add: example_state_def)
qed

subsection \<open>Whom the service funds\<close>

inductive funding_step ::
  "('q \<Rightarrow> 'g \<Rightarrow> 'g \<times> reserve_result) \<Rightarrow> ('q \<Rightarrow> 'g \<Rightarrow> 'g) \<Rightarrow> 'b create_env
   \<Rightarrow> ('g, 'b) wallet_state \<Rightarrow> ('g, 'b) wallet_state \<Rightarrow> bool"
  for reserve release cenv where
  begin_create: "funding_step reserve release cenv s (fst (create_begin cenv c signedTx s))"
| settle_create: "c \<in> set (pending_creates s) \<Longrightarrow>
     funding_step reserve release cenv s (fst (create_settle now uuid c result s))"
| begin_submit: "passphrase env \<noteq> None \<Longrightarrow>
     funding_step reserve release cenv s (fst (submit_begin reserve q env xdr n s))"
| settle_submit: "sub \<in> set (pending s) \<Longrightarrow>
     funding_step reserve release cenv s (fst (submit_settle release q log_up now sub result s))"

definition derived_wallets :: "(string \<Rightarrow> string) \<Rightarrow> ('g, 'b) wallet_state \<Rightarrow> bool" where
  "derived_wallets derive s \<longleftrightarrow> wallets_keyed (wallets s)
     \<and> (\<forall>w\<in>set (js_values (wallets s)). contractId w = derive (keyId w))
     \<and> (\<forall>c\<in>set (pending_creates s). cr_contractId c = derive (cr_keyId c))"

text \<open>Every subject is a wallet the service stored, on the network of the request.\<close>

definition attributed :: "wallet_store \<Rightarrow> submission \<Rightarrow> bool" where
  "attributed ws sub \<longleftrightarrow> sub_subjects sub \<noteq> [] \<and>
     (\<forall>c\<in>set (sub_subjects sub). \<exists>w\<in>set (js_values ws). contractId w = c \<and> w_network w = sub_network sub)"

definition funding_inv :: "(string \<Rightarrow> string) \<Rightarrow> ('g, 'b) wallet_state \<Rightarrow> bool" where
  "funding_inv derive s \<longleftrightarrow> derived_wallets derive s
     \<and> (\<forall>sub\<in>set (pending s). attributed (wallets s) sub) \<and> (\<forall>(sub, r)\<in>set (settled s). attributed (wallets s) sub)"

lemma attributed_mono: "attributed ws sub \<Longrightarrow> set (js_values ws) \<subseteq> set (js_values ws') \<Longrightarrow> attributed ws' sub"
  by (auto simp: attributed_def) blast

lemma submit_wallets [simp]:
  "wallets (fst (submit_begin reserve q env xdr n s)) = wallets s"
  "pending_creates (fst (submit_begin reserve q env xdr n s)) = pending_creates s"
  "wallets (fst (submit_settle release q log_up now sub result s)) = wallets s"
  "pending_creates (fst (submit_settle release q log_up now sub result s)) = pending_creates s"
  by (auto simp: submit_begin_def submit_settle_def Let_def
      split: option.split sum.split scope_failure.split prod.split reserve_result.split)

lemma scope_attributes:
  assumes "submit_scope env xdr n s = Inr ()" and "passphrase env \<noteq> None"
  shows "attributed (wallets s)
     \<lparr>sub_xdr = xdr, sub_hash = h, sub_network = n, sub_subjects = subjects_of env xdr, sub_keys = ks\<rparr>"
  using assms
  by (auto simp: submit_scope_def attributed_def subjects_of_def scope_accepts_iff known_wallet_def existsByContractId_def
      list_ex_iff split: option.splits if_splits)

lemma create_begin_parts:
  "wallets (fst (create_begin cenv c tx s)) = wallets s \<and> pending (fst (create_begin cenv c tx s)) = pending s
   \<and> settled (fst (create_begin cenv c tx s)) = settled s
   \<and> (pending_creates (fst (create_begin cenv c tx s)) = pending_creates s
      \<or> pending_creates (fst (create_begin cenv c tx s)) = pending_creates s @ [c]
        \<and> (ce_passphrase cenv \<noteq> None \<longrightarrow> cr_contractId c = ce_derived cenv (cr_keyId c)))"
  by (auto simp: create_begin_def split: prod.split bool.split)

lemma create_settle_parts:
  "pending (fst (create_settle now uuid c r s)) = pending s \<and> settled (fst (create_settle now uuid c r s)) = settled s
   \<and> pending_creates (fst (create_settle now uuid c r s)) = remove1 c (pending_creates s)
   \<and> (wallets (fst (create_settle now uuid c r s)) = wallets s
      \<or> insert_wallet \<lparr>keyId = cr_keyId c, contractId = cr_contractId c, w_network = cr_network c, w_createdAt = now\<rparr> (wallets s)
          = Some (wallets (fst (create_settle now uuid c r s))))"
  by (auto simp: create_settle_def openSession_def Let_def split: sum.split option.split)

lemma insert_wallet_values: "insert_wallet r m = Some m' \<Longrightarrow> js_values m' = js_values m @ [r]"
  by (auto simp: insert_wallet_def js_set_new js_values_def split: if_splits)

lemma funding_step_inv:
  assumes "funding_step reserve release cenv s t" and "funding_inv (ce_derived cenv) s" and "ce_passphrase cenv \<noteq> None"
  shows "funding_inv (ce_derived cenv) t"
  using assms(1)
proof cases
  case (begin_create c signedTx)
  with create_begin_parts [of cenv c signedTx s] assms(2,3) show ?thesis
    by (auto simp: funding_inv_def derived_wallets_def)
next
  case (settle_create c now uuid result)
  let ?t = "fst (create_settle now uuid c result s)"
  note p = create_settle_parts [of now uuid c result s]
  have creates: "set (pending_creates ?t) \<subseteq> set (pending_creates s)" using p set_remove1_subset by metis
  from p consider "wallets ?t = wallets s"
    | "insert_wallet \<lparr>keyId = cr_keyId c, contractId = cr_contractId c, w_network = cr_network c, w_createdAt = now\<rparr> (wallets s) = Some (wallets ?t)"
    by blast
  then show ?thesis
  proof cases
    case 1
    with p creates settle_create assms(2) show ?thesis by (auto simp: funding_inv_def derived_wallets_def)
  next
    case 2
    note vals = insert_wallet_values [OF 2]
    have "attributed (wallets ?t) sub" if "attributed (wallets s) sub" for sub
      by (rule attributed_mono [OF that]) (auto simp: vals)
    with 2 p creates settle_create assms(2) wallets_keyed_insert [OF _ 2] show ?thesis
      by (auto simp: funding_inv_def derived_wallets_def vals)
  qed
next
  case (begin_submit env q xdr n)
  with submit_begin_cases [of reserve q env xdr n s] scope_attributes [of env xdr n s] assms(2) show ?thesis
    by (auto simp: funding_inv_def derived_wallets_def)
next
  case (settle_submit sub q log_up now result)
  with assms(2) show ?thesis
    by (auto simp: funding_inv_def derived_wallets_def submit_settle_parts dest: subsetD [OF set_remove1_subset])
qed


definition example_create_env :: "unit create_env" where
  "example_create_env = \<lparr>ce_passphrase = Some ''p'', ce_derived = (\<lambda>k. ''C'' @ k), ce_budget = None, ce_budgetNetwork = None\<rparr>"

definition example_creation :: creation where
  "example_creation = \<lparr>cr_keyId = ''A'', cr_contractId = ''CA'', cr_network = Testnet\<rparr>"

definition funded_example :: "(replay_row list, unit) wallet_state" where
  "funded_example =
     fst (submit_begin (pg_call Testnet) (1, False, keys_of example_submit_env ''good'') example_submit_env ''good'' Testnet
       (fst (create_settle 1 ''u'' example_creation (Inr ''H'')
         (fst (create_begin example_create_env example_creation ''T'' (example_state\<lparr>wallets := []\<rparr>))))))"

lemma funded_example_run:
  "(funding_step (pg_call Testnet) (pg_return Testnet) example_create_env)\<^sup>*\<^sup>* (example_state\<lparr>wallets := []\<rparr>) funded_example"
proof -
  let ?s = "example_state\<lparr>wallets := []\<rparr>"
  let ?u = "fst (create_begin example_create_env example_creation ''T'' ?s)"
  let ?v = "fst (create_settle 1 ''u'' example_creation (Inr ''H'') ?u)"
  have "funding_step (pg_call Testnet) (pg_return Testnet) example_create_env ?s ?u" by (rule begin_create)
  moreover have "example_creation \<in> set (pending_creates ?u)"
    by (simp add: create_begin_def create_metered_def example_creation_def example_create_env_def example_state_def findByKeyId_def)
  then have "funding_step (pg_call Testnet) (pg_return Testnet) example_create_env ?u ?v" by (rule settle_create)
  moreover have "funding_step (pg_call Testnet) (pg_return Testnet) example_create_env ?v funded_example"
    unfolding funded_example_def by (rule begin_submit) (simp add: example_submit_env_def)
  ultimately show ?thesis by (meson converse_rtranclp_into_rtranclp rtranclp.rtrancl_refl)
qed

lemma funded_example_pending: "map sub_subjects (pending funded_example) = [[''CA'']]"
  by (simp add: funded_example_def create_begin_def create_metered_def create_settle_def openSession_def insert_wallet_def
      example_creation_def example_create_env_def findByKeyId_def submit_begin_def submit_scope_def known_wallet_def keys_of_def
      subjects_of_def example_submit_env_def wallet_key_def js_has_def record_event_def
      example_state_def example_parse_def example_creds_def extractReplayKeys_def extractAddressAuthSubjects_def
      assertScopedToKnownWallets_def bound_credentials_def addressCredentials_def List.map_filter_simps existsByContractId_def
      js_values_def pg_call_cases pg_proper_def pg_idents_def pg_held_def Let_def)


end
