(* ===== verification/WalletAccount.thy ===== *)
theory WalletAccount
  imports WalletServer
begin

text \<open>
  The routes behind a session capability in \<open>services/wallet-service/src/server.ts\<close> (session, sessions,
  transactions, revoke, policy update, account merge, key rotation, threshold, signers, audit log), the
  merge planner of \<open>merge-planner.ts\<close> and the job routes.  The session id comes from the bearer header.
\<close>

subsection \<open>The session capability\<close>

text \<open>The header is matched by \<open>/^Bearer\s+(.+)$/i\<close> after trimming.\<close>

definition bearerSessionId :: "string option \<Rightarrow> string option" where
  "bearerSessionId header =
     (case header of
        None \<Rightarrow> None
      | Some h \<Rightarrow>
          (let t = js_trim h; word = take 6 t; rest = drop 6 t; i = dropWhile is_space rest in
           if to_lower word = ''bearer'' \<and> rest \<noteq> [] \<and> is_space (hd rest) \<and> i \<noteq> [] then Some i else None))"

definition resolveSessionCapability ::
  "instant \<Rightarrow> string option \<Rightarrow> ('g, 'b) wallet_state \<Rightarrow> ('g, 'b) wallet_state \<times> session option" where
  "resolveSessionCapability now header s =
     (case bearerSessionId header of
        None \<Rightarrow> (s, None)
      | Some i \<Rightarrow>
          (case find_session (sessions s) i now of
             None \<Rightarrow> (s, None)
           | Some r \<Rightarrow> (s\<lparr>sessions := fst (touch_session i now (now + SESSION_TTL_MS) (sessions s))\<rparr>, Some r)))"

text \<open>The common shape of the gated routes: 401 without a live session, the rest of the handler with it.\<close>

definition with_session ::
  "instant \<Rightarrow> string option \<Rightarrow> (session \<Rightarrow> ('g, 'b) wallet_state \<Rightarrow> ('g, 'b) wallet_state \<times> 'p reply)
   \<Rightarrow> ('g, 'b) wallet_state \<Rightarrow> ('g, 'b) wallet_state \<times> 'p reply" where
  "with_session now header body s =
     (case resolveSessionCapability now header s of
        (s1, None) \<Rightarrow> (s1, Error_reply 401 ''unauthorized'')
      | (s1, Some r) \<Rightarrow> body r s1)"

lemma with_session_unauthorized:
  "(\<forall>i. bearerSessionId header = Some i \<longrightarrow> find_session (sessions s) i now = None) \<Longrightarrow>
     with_session now header body s = (s, Error_reply 401 ''unauthorized'')"
  by (auto simp: with_session_def resolveSessionCapability_def split: option.split)

lemma with_session_authorized:
  "bearerSessionId header = Some i \<Longrightarrow> find_session (sessions s) i now = Some r \<Longrightarrow>
     with_session now header body s =
       body r (s\<lparr>sessions := fst (touch_session i now (now + SESSION_TTL_MS) (sessions s))\<rparr>)"
  by (simp add: with_session_def resolveSessionCapability_def)

definition session_route ::
  "instant \<Rightarrow> string option \<Rightarrow> string option \<Rightarrow> ('g, 'b) wallet_state \<Rightarrow> ('g, 'b) wallet_state \<times> session reply" where
  "session_route now header query_contract s =
     (if query_contract = Some [] then (s, Error_reply 400 ''invalid_query'')
      else with_session now header
        (\<lambda>r s1. (s1, if truthy query_contract \<and> Some (s_contractId r) \<noteq> query_contract
                     then Error_reply 401 ''unauthorized'' else Ok_reply 200 r)) s)"

definition list_sessions_route ::
  "instant \<Rightarrow> string option \<Rightarrow> string \<Rightarrow> network \<Rightarrow> ('g, 'b) wallet_state \<Rightarrow> ('g, 'b) wallet_state \<times> session list reply" where
  "list_sessions_route now header c n s =
     (if c = [] then (s, Error_reply 400 ''invalid_query'')
      else with_session now header
        (\<lambda>r s1. (s1, if s_contractId r \<noteq> c \<or> s_network r \<noteq> n then Error_reply 401 ''unauthorized''
                     else Ok_reply 200 (listByContract c n now (sessions s1)))) s)"

datatype tx_filter = Submitted_only | Failed_only | Rejected_only

definition type_filter :: "tx_filter option \<Rightarrow> audit_filter" where
  "type_filter st =
     (case st of
        Some Submitted_only \<Rightarrow> no_filter\<lparr>f_type := Some ''tx.submitted''\<rparr>
      | Some Failed_only \<Rightarrow> no_filter\<lparr>f_type := Some ''tx.failed''\<rparr>
      | Some Rejected_only \<Rightarrow> no_filter\<lparr>f_type := Some ''tx.policy_rejected''\<rparr>
      | None \<Rightarrow> no_filter\<lparr>f_types := Some [''tx.submitted'', ''tx.failed'', ''tx.policy_rejected'']\<rparr>)"

definition page_limit :: "nat option \<Rightarrow> nat" where
  "page_limit limit = min (case limit of None \<Rightarrow> 20 | Some l \<Rightarrow> l) 100"

text \<open>A limit that is given is a positive integer; the cursor is a non-empty string.\<close>

definition transactions_route ::
  "(instant \<Rightarrow> string) \<Rightarrow> instant \<Rightarrow> string option \<Rightarrow> string \<Rightarrow> network \<Rightarrow> string option \<Rightarrow> nat option \<Rightarrow> tx_filter option
   \<Rightarrow> ('g, 'b) wallet_state \<Rightarrow> ('g, 'b) wallet_state \<times> (audit_event list \<times> bool \<times> string option) reply" where
  "transactions_route toISO now header c n after limit st s =
     (if c = [] \<or> after = Some [] \<or> limit = Some 0 then (s, Error_reply 400 ''invalid_query'')
      else with_session now header
        (\<lambda>r s1. (s1, if s_contractId r \<noteq> c \<or> s_network r \<noteq> n then Error_reply 401 ''unauthorized''
                     else (case paginateAuditEvents toISO (audit s1) ((type_filter st)\<lparr>f_actor := Some c\<rparr>) (page_limit limit) after of
                             None \<Rightarrow> Error_reply 400 ''invalid_cursor''
                           | Some page \<Rightarrow> Ok_reply 200 page))) s)"

definition revoke_route ::
  "(string \<Rightarrow> string) \<Rightarrow> instant \<Rightarrow> string option \<Rightarrow> string \<Rightarrow> ('g, 'b) wallet_state \<Rightarrow> ('g, 'b) wallet_state \<times> unit reply" where
  "revoke_route sessionRef now header target =
     with_session now header (\<lambda>r s1.
       if target = [] then (s1, Error_reply 400 ''invalid_body'')
       else
         (case find_session (sessions s1) target now of
            None \<Rightarrow> (s1, Error_reply 404 ''session_not_found'')
          | Some t \<Rightarrow>
              (if s_contractId t \<noteq> s_contractId r \<or> s_network t \<noteq> s_network r then (s1, Error_reply 404 ''session_not_found'')
               else
                 (record_event now ''session.revoked''
                    [(''sessionRef'', JStr (sessionRef (s_id t))), (''contractId'', JStr (s_contractId t)),
                     (''network'', JStr (network_name (s_network t)))]
                    (Some (s_contractId r)) (s1\<lparr>sessions := fst (delete_session (s_id t) (sessions s1))\<rparr>),
                  Ok_reply 204 ()))))"

subsection \<open>Policy update\<close>

text \<open>The verification lookup: the status it reports, no record (404), or a failure of the service.\<close>

datatype verification_answer = Status_is string | Not_recorded | Unavailable

record policy_update =
  pu_policyId :: string
  pu_contractId :: "string option"
  pu_rules :: "(string, json) js_map option"

definition rules_string :: "(string, json) js_map option \<Rightarrow> string \<Rightarrow> string option" where
  "rules_string rules k = Option.bind rules (\<lambda>m. Option.bind (js_get m k) str_of)"

definition or_else :: "'a option \<Rightarrow> 'a option \<Rightarrow> 'a option" where
  "or_else a b = (case a of None \<Rightarrow> b | Some x \<Rightarrow> Some x)"

definition referencedContractId :: "policy_update \<Rightarrow> string option" where
  "referencedContractId u =
     or_else (pu_contractId u) (or_else (rules_string (pu_rules u) ''contractId'') (rules_string (pu_rules u) ''targetContractId''))"

definition policy_update_route ::
  "(string \<Rightarrow> verification_answer) \<Rightarrow> instant \<Rightarrow> string option \<Rightarrow> policy_update \<Rightarrow> ('g, 'b) wallet_state
   \<Rightarrow> ('g, 'b) wallet_state \<times> string reply" where
  "policy_update_route verification now header u =
     with_session now header (\<lambda>r s1.
       if pu_policyId u = [] \<or> pu_contractId u = Some [] then (s1, Error_reply 400 ''invalid_body'')
       else
         (let ref = referencedContractId u;
              done = (record_event now ''policy.updated''
                 [(''contractId'', JStr (s_contractId r)), (''network'', JStr (network_name (s_network r))),
                  (''policyId'', JStr (pu_policyId u)), (''rules'', JObj (case pu_rules u of None \<Rightarrow> [] | Some m \<Rightarrow> m)),
                  (''contractIdRef'', (case ref of None \<Rightarrow> JNull | Some c \<Rightarrow> JStr c)), (''actor'', JStr ''policy'')]
                 (Some (s_contractId r)) s1, Ok_reply 200 (pu_policyId u))
          in if \<not> truthy ref then done
             else (case verification (the ref) of
                     Unavailable \<Rightarrow> (s1, Error_reply 503 ''verification_service_unavailable'')
                   | Not_recorded \<Rightarrow> (s1, Error_reply 400 ''unverified_contract'')
                   | Status_is st \<Rightarrow> if st = ''verified'' then done else (s1, Error_reply 400 ''unverified_contract''))))"

subsection \<open>Account merge\<close>

text \<open>
  A balance item as the planner reads it: \<open>balance\<close> and \<open>canMergeAutomatically\<close>, each possibly absent.
  \<open>to_number\<close> is \<open>Number(text)\<close>, \<open>None\<close> for NaN; \<open>Number(undefined)\<close> is NaN.
\<close>

record balance_item =
  asset :: string
  item_balance :: "string option"
  canMergeAutomatically :: "bool option"

datatype blocker_type = Trustline_blocker | Balance_blocker
datatype trustline_action = Remove_line | Transfer_line

record merge_plan =
  assetsMoved :: "(string \<times> string option) list"
  trustlinesAffected :: "(string \<times> trustline_action \<times> string option) list"
  final_source :: "(string \<times> string option) list"
  final_destination :: "(string \<times> string option) list"
  blockers :: "(blocker_type \<times> string) list"
  canMerge :: bool

definition positive_number :: "(string \<Rightarrow> rat option) \<Rightarrow> string option \<Rightarrow> bool" where
  "positive_number to_number b = (case Option.bind b to_number of None \<Rightarrow> False | Some x \<Rightarrow> x > 0)"

definition is_native :: "balance_item \<Rightarrow> bool" where
  "is_native i = (asset i = ''native'' \<or> to_lower (asset i) = ''xlm'')"

definition plan_item :: "(string \<Rightarrow> rat option) \<Rightarrow> balance_item \<Rightarrow> merge_plan \<Rightarrow> merge_plan" where
  "plan_item to_number i p =
     (if is_native i then
        p\<lparr>assetsMoved := assetsMoved p @ (if positive_number to_number (item_balance i) then [(asset i, item_balance i)] else []),
          final_source := final_source p @ [(asset i, Some ''0'')],
          final_destination := final_destination p @ [(asset i, item_balance i)]\<rparr>
      else
        (let positive = positive_number to_number (item_balance i);
             isManual = (canMergeAutomatically i = Some False)
         in if positive \<or> isManual then
              p\<lparr>blockers := blockers p @ (if positive then [(Balance_blocker, asset i)] else []) @ [(Trustline_blocker, asset i)],
                trustlinesAffected := trustlinesAffected p @ [(asset i, Transfer_line, item_balance i)],
                final_source := final_source p @ [(asset i, item_balance i)]\<rparr>
            else
              p\<lparr>trustlinesAffected := trustlinesAffected p @ [(asset i, Remove_line, Some ''0'')],
                final_source := final_source p @ [(asset i, Some ''0'')]\<rparr>))"

definition empty_plan :: merge_plan where
  "empty_plan = \<lparr>assetsMoved = [], trustlinesAffected = [], final_source = [], final_destination = [], blockers = [], canMerge = True\<rparr>"

definition buildMergePlan :: "(string \<Rightarrow> rat option) \<Rightarrow> balance_item list \<Rightarrow> merge_plan" where
  "buildMergePlan to_number balances =
     (let items = (if balances \<noteq> [] then balances
                   else [\<lparr>asset = ''native'', item_balance = Some ''100'', canMergeAutomatically = None\<rparr>]);
          p = fold (plan_item to_number) items empty_plan
      in p\<lparr>canMerge := (blockers p = [])\<rparr>)"

definition item_blockers :: "(string \<Rightarrow> rat option) \<Rightarrow> balance_item \<Rightarrow> (blocker_type \<times> string) list" where
  "item_blockers to_number i =
     (if is_native i then []
      else if positive_number to_number (item_balance i) then [(Balance_blocker, asset i), (Trustline_blocker, asset i)]
      else if canMergeAutomatically i = Some False then [(Trustline_blocker, asset i)] else [])"

lemma item_blockers_Nil_iff:
  "item_blockers to_number i = [] \<longleftrightarrow>
     is_native i \<or> (\<not> positive_number to_number (item_balance i) \<and> canMergeAutomatically i \<noteq> Some False)"
  by (simp add: item_blockers_def)

lemma plan_item_blockers: "blockers (plan_item to_number i p) = blockers p @ item_blockers to_number i"
  by (simp add: plan_item_def item_blockers_def Let_def)

lemma fold_plan_blockers:
  "blockers (fold (plan_item to_number) items p) = blockers p @ concat (map (item_blockers to_number) items)"
  by (induction items arbitrary: p) (simp_all add: plan_item_blockers)

lemma canMerge_iff:
  "balances \<noteq> [] \<Longrightarrow> canMerge (buildMergePlan to_number balances)
     \<longleftrightarrow> (\<forall>i\<in>set balances. is_native i
            \<or> (\<not> positive_number to_number (item_balance i) \<and> canMergeAutomatically i \<noteq> Some False))"
  by (simp add: buildMergePlan_def Let_def fold_plan_blockers empty_plan_def item_blockers_Nil_iff)

text \<open>
  The body as the route's schema parses it: items with an asset and an amount; every other field of an
  item, and in particular \<open>balance\<close> and \<open>canMergeAutomatically\<close>, is stripped.
\<close>

record merge_item =
  mi_asset :: string
  mi_amount :: string
  mi_isNative :: "bool option"
  mi_hasTrustline :: "bool option"

record merge_body =
  destinationContractId :: string
  body_dryRun :: "bool option"
  body_balances :: "merge_item list option"

definition as_planner_item :: "merge_item \<Rightarrow> balance_item" where
  "as_planner_item i = \<lparr>asset = mi_asset i, item_balance = None, canMergeAutomatically = None\<rparr>"

definition merge_body_ok :: "merge_body \<Rightarrow> bool" where
  "merge_body_ok b \<longleftrightarrow> destinationContractId b \<noteq> []
     \<and> (case body_balances b of None \<Rightarrow> True | Some is \<Rightarrow> list_all (\<lambda>i. mi_asset i \<noteq> [] \<and> mi_amount i \<noteq> []) is)"

text \<open>\<open>z.coerce.boolean()\<close> of a query text: \<open>Boolean(text)\<close>, true for every text that is not empty.\<close>

definition coerce_boolean :: "string option \<Rightarrow> bool option" where
  "coerce_boolean q = map_option (\<lambda>t. t \<noteq> []) q"

datatype merge_reply = Preview merge_plan | Merged string merge_plan

definition merge_route ::
  "(string \<Rightarrow> rat option) \<Rightarrow> instant \<Rightarrow> string option \<Rightarrow> string option \<Rightarrow> merge_body \<Rightarrow> ('g, 'b) wallet_state
   \<Rightarrow> ('g, 'b) wallet_state \<times> merge_reply reply" where
  "merge_route to_number now header query_dryRun b =
     with_session now header (\<lambda>r s1.
       if \<not> merge_body_ok b then (s1, Error_reply 400 ''invalid_body'')
       else
         (let isDryRun = (coerce_boolean query_dryRun = Some True \<or> body_dryRun b = Some True);
              plan = buildMergePlan to_number (map as_planner_item (case body_balances b of None \<Rightarrow> [] | Some is \<Rightarrow> is))
          in if isDryRun then (s1, Ok_reply 200 (Preview plan))
             else if \<not> canMerge plan then (s1, Error_reply 400 ''cannot_merge_with_open_trustlines'')
             else (record_event now ''account.merged''
                     [(''sourceContractId'', JStr (s_contractId r)), (''destinationContractId'', JStr (destinationContractId b)),
                      (''network'', JStr (network_name (s_network r))), (''actor'', JStr ''passkey'')]
                     (Some (s_contractId r)) s1,
                   Ok_reply 200 (Merged (destinationContractId b) plan))))"

lemma route_plan_never_blocks: "canMerge (buildMergePlan to_number (map as_planner_item items))"
proof (cases "items = []")
  case True
  then show ?thesis by (simp add: buildMergePlan_def plan_item_blockers empty_plan_def item_blockers_def is_native_def Let_def)
next
  case False
  then show ?thesis by (subst canMerge_iff) (auto simp: as_planner_item_def positive_number_def)
qed

text \<open>The merge route never refuses for open balances or trustlines: whatever non-native balances the request
  declares, the planner sees none of their amounts, because the schema's field is \<open>amount\<close> and the
  planner reads \<open>balance\<close>; with a live session and a well-formed body that asks for no dry run, the
  account merge is recorded and reported as merged.\<close>

theorem merge_route_never_blocks:
  assumes "bearerSessionId header = Some i" and "find_session (sessions s) i now = Some r"
    and "merge_body_ok b" and "query_dryRun = None" and "body_dryRun b \<noteq> Some True"
  shows "\<exists>plan. snd (merge_route to_number now header query_dryRun b s) = Ok_reply 200 (Merged (destinationContractId b) plan)
     \<and> blockers plan = []
     \<and> e_type (last (audit (fst (merge_route to_number now header query_dryRun b s)))) = ''account.merged''"
  using assms(3-5) route_plan_never_blocks [of to_number "case body_balances b of None \<Rightarrow> [] | Some is \<Rightarrow> is"]
  by (auto simp: merge_route_def with_session_authorized [OF assms(1,2)] coerce_boolean_def Let_def record_event_def
      audit_record_def) (simp add: buildMergePlan_def Let_def)

definition example_account :: "(string list, unit) wallet_state" where
  "example_account =
     \<lparr>wallets = [], sessions = [(''a'', example_session ''a'')], audit = [], submissionDedup = [], guard = [], create_budget = (),
      inFlight = [], balance_cache = [], connectRateLimits = [], signerVersions = [], pending = [], settled = [], pending_creates = []\<rparr>"

lemma example_bearer: "bearerSessionId (Some ''bearer a'') = Some ''a''"
  by (simp add: bearerSessionId_def js_trim_def is_space_def to_lower_def lower_char_def Let_def)

lemma example_found: "find_session (sessions example_account) ''a'' 5 = Some (example_session ''a'')"
  by (simp add: example_account_def find_session_def isLive_def example_session_def)

theorem merge_route_never_blocks_witness:
  "\<exists>plan. snd (merge_route (\<lambda>_. Some 15) 5 (Some ''bearer a'') None
       \<lparr>destinationContractId = ''CB'', body_dryRun = None,
        body_balances = Some [\<lparr>mi_asset = ''USDC:GX'', mi_amount = ''15.5'', mi_isNative = None, mi_hasTrustline = Some True\<rparr>]\<rparr> example_account)
     = Ok_reply 200 (Merged ''CB'' plan) \<and> blockers plan = []"
  using merge_route_never_blocks [OF example_bearer example_found, of
      "\<lparr>destinationContractId = ''CB'', body_dryRun = None,
        body_balances = Some [\<lparr>mi_asset = ''USDC:GX'', mi_amount = ''15.5'', mi_isNative = None, mi_hasTrustline = Some True\<rparr>]\<rparr>"
      None "\<lambda>_. Some 15"]
  by (auto simp: merge_body_ok_def)

text \<open>A query \<open>?dryRun=false\<close> is a dry run.\<close>

lemma query_false_is_dry_run: "coerce_boolean (Some ''false'') = Some True"
  by (simp add: coerce_boolean_def)

subsection \<open>Key rotation, threshold and signers\<close>

definition rotate_route ::
  "instant \<Rightarrow> string option \<Rightarrow> string \<Rightarrow> string \<Rightarrow> ('g, 'b) wallet_state \<Rightarrow> ('g, 'b) wallet_state \<times> string reply" where
  "rotate_route now header oldKeyId newKeyId =
     with_session now header (\<lambda>r s1.
       if hasInFlight (inFlight s1) (s_contractId r) then (s1, Error_reply 409 ''in_flight_submission_conflict'')
       else if oldKeyId = [] \<or> newKeyId = [] then (s1, Error_reply 400 ''invalid_body'')
       else (record_event now ''key.rotated''
               [(''contractId'', JStr (s_contractId r)), (''oldKeyId'', JStr oldKeyId), (''newKeyId'', JStr newKeyId),
                (''network'', JStr (network_name (s_network r))), (''actor'', JStr ''passkey'')]
               (Some (s_contractId r)) s1, Ok_reply 200 newKeyId))"

text \<open>The signer count of the audit history: one owner, plus the added, minus the removed, never below one.\<close>

definition count_step :: "audit_event \<Rightarrow> int \<Rightarrow> int" where
  "count_step e n =
     (if e_type e = ''signer.added'' then n + 1
      else if e_type e = ''signer.removed'' then max 1 (n - 1) else n)"

definition net_signers :: "audit_event list \<Rightarrow> int" where
  "net_signers logs = fold count_step logs 1"

definition actor_filter :: "string \<Rightarrow> audit_filter" where
  "actor_filter c = no_filter\<lparr>f_actor := Some c\<rparr>"

definition threshold_route ::
  "instant \<Rightarrow> string option \<Rightarrow> int \<Rightarrow> int option \<Rightarrow> ('g, 'b) wallet_state \<Rightarrow> ('g, 'b) wallet_state \<times> int reply" where
  "threshold_route now header thr signerCount =
     with_session now header (\<lambda>r s1.
       if (case signerCount of None \<Rightarrow> False | Some n \<Rightarrow> n < 1) then (s1, Error_reply 400 ''invalid_body'')
       else if thr \<le> 0 then (s1, Error_reply 400 ''invalid_threshold'')
       else
         (let n = (case signerCount of Some n \<Rightarrow> n | None \<Rightarrow> net_signers (audit_list (actor_filter (s_contractId r)) (audit s1))) in
          if thr > n then (s1, Error_reply 400 ''threshold_exceeds_signers'')
          else (record_event now ''threshold.updated''
                  [(''contractId'', JStr (s_contractId r)), (''threshold'', JNum (of_int thr)),
                   (''network'', JStr (network_name (s_network r))), (''actor'', JStr ''passkey'')]
                  (Some (s_contractId r)) s1, Ok_reply 200 thr)))"

record signer_request =
  add_signer :: bool
  signerKey :: string
  weight :: "rat option"
  expectedVersion :: "nat option"
  version :: "nat option"
  sequence :: "nat option"
  signerType :: "string option"
  sr_actor :: "string option"

definition expected_version :: "signer_request \<Rightarrow> nat option" where
  "expected_version q = or_else (expectedVersion q) (or_else (version q) (sequence q))"

definition current_version :: "string \<Rightarrow> ('g, 'b) wallet_state \<Rightarrow> nat" where
  "current_version c s = (case js_get (signerVersions s) c of None \<Rightarrow> 0 | Some n \<Rightarrow> n)"

definition signer_body_ok :: "signer_request \<Rightarrow> bool" where
  "signer_body_ok q \<longleftrightarrow> signerKey q \<noteq> []
     \<and> (case signerType q of None \<Rightarrow> True | Some t \<Rightarrow> t \<in> {''passkey'', ''device'', ''policy''})
     \<and> (case sr_actor q of None \<Rightarrow> True | Some t \<Rightarrow> t \<in> {''passkey'', ''device'', ''policy''})"

definition signer_event_data :: "session \<Rightarrow> signer_request \<Rightarrow> nat \<Rightarrow> (string, json) js_map" where
  "signer_event_data r q newVersion =
     [(''contractId'', JStr (s_contractId r)), (''signerKey'', JStr (signerKey q))]
     @ (case weight q of None \<Rightarrow> [] | Some x \<Rightarrow> [(''weight'', JNum x)])
     @ [(''network'', JStr (network_name (s_network r))), (''version'', JNum (of_nat newVersion)),
        (''actor'', JStr (case or_else (sr_actor q) (signerType q) of None \<Rightarrow> ''device'' | Some a \<Rightarrow> a))]"

definition signer_route ::
  "instant \<Rightarrow> string option \<Rightarrow> signer_request \<Rightarrow> ('g, 'b) wallet_state \<Rightarrow> ('g, 'b) wallet_state \<times> nat reply" where
  "signer_route now header q =
     with_session now header (\<lambda>r s1.
       if \<not> signer_body_ok q then (s1, Error_reply 400 ''invalid_body'')
       else
         (let currentVersion = current_version (s_contractId r) s1;
              expected = expected_version q
          in if expected \<noteq> None \<and> expected \<noteq> Some currentVersion then (s1, Error_reply 409 ''signer_version_conflict'')
             else
               (let newVersion = currentVersion + 1 in
                (record_event now (if add_signer q then ''signer.added'' else ''signer.removed'') (signer_event_data r q newVersion)
                   (Some (s_contractId r)) (s1\<lparr>signerVersions := js_set (s_contractId r) newVersion (signerVersions s1)\<rparr>),
                 Ok_reply 200 newVersion))))"

text \<open>The requests of a run, each with its instant and bearer; \<open>accepted\<close> are those answered with a version.\<close>

type_synonym signer_call = "instant \<times> string option \<times> signer_request"

fun signer_run :: "signer_call list \<Rightarrow> ('g, 'b) wallet_state \<Rightarrow> ('g, 'b) wallet_state \<times> (signer_call \<times> string \<times> nat) list" where
  "signer_run [] s = (s, [])"
| "signer_run ((now, header, q) # cs) s =
     (let contract = map_option s_contractId (snd (resolveSessionCapability now header s));
          (s1, reply) = signer_route now header q s;
          (s2, rest) = signer_run cs s1
      in (s2, (case (reply, contract) of (Ok_reply _ v, Some c) \<Rightarrow> ((now, header, q), c, v) # rest | _ \<Rightarrow> rest)))"

lemma current_version_sessions [simp]: "current_version c (s\<lparr>sessions := m\<rparr>) = current_version c s"
  by (simp add: current_version_def)

lemma signer_route_cases:
  "(\<exists>code e. snd (signer_route now header q s) = Error_reply code e
      \<and> signerVersions (fst (signer_route now header q s)) = signerVersions s)
   \<or> (\<exists>r. snd (resolveSessionCapability now header s) = Some r
      \<and> snd (signer_route now header q s) = Ok_reply 200 (Suc (current_version (s_contractId r) s))
      \<and> (expected_version q = None \<or> expected_version q = Some (current_version (s_contractId r) s))
      \<and> signerVersions (fst (signer_route now header q s))
          = js_set (s_contractId r) (Suc (current_version (s_contractId r) s)) (signerVersions s))"
proof (cases "\<exists>i r. bearerSessionId header = Some i \<and> find_session (sessions s) i now = Some r")
  case False
  then have "\<forall>i. bearerSessionId header = Some i \<longrightarrow> find_session (sessions s) i now = None" by auto
  then show ?thesis by (simp add: signer_route_def with_session_unauthorized)
next
  case True
  then obtain i r where b: "bearerSessionId header = Some i" "find_session (sessions s) i now = Some r" by blast
  have "snd (resolveSessionCapability now header s) = Some r" by (simp add: resolveSessionCapability_def b)
  then show ?thesis
    by (auto simp: signer_route_def with_session_authorized [OF b] Let_def)
qed

text \<open>The versions given out for an account, in order.\<close>

definition versions_of :: "string \<Rightarrow> (signer_call \<times> string \<times> nat) list \<Rightarrow> nat list" where
  "versions_of c acc = map (\<lambda>(_, _, v). v) (filter (\<lambda>(_, c', _). c' = c) acc)"

lemma signer_run_versions:
  "versions_of c (snd (signer_run cs s))
     = [Suc (current_version c s) ..< Suc (current_version c (fst (signer_run cs s)))]
   \<and> current_version c s \<le> current_version c (fst (signer_run cs s))
   \<and> list_all (\<lambda>((now, header, q), c', v). expected_version q = None \<or> expected_version q = Some (v - 1)) (snd (signer_run cs s))"
proof (induction cs arbitrary: s)
  case Nil
  then show ?case by (simp add: versions_of_def)
next
  case (Cons x cs)
  obtain now header q where x: "x = (now, header, q)" by (cases x)
  obtain s1 reply where r: "signer_route now header q s = (s1, reply)" by (cases "signer_route now header q s")
  obtain s2 rest where k: "signer_run cs s1 = (s2, rest)" by (cases "signer_run cs s1")
  note IH = Cons.IH [of s1, unfolded k fst_conv snd_conv]
  from signer_route_cases [of now header q s] show ?case
  proof
    assume "\<exists>st e. snd (signer_route now header q s) = Error_reply st e
      \<and> signerVersions (fst (signer_route now header q s)) = signerVersions s"
    then obtain st e where e: "reply = Error_reply st e" "signerVersions s1 = signerVersions s" by (auto simp: r)
    then have "current_version c s1 = current_version c s" by (simp add: current_version_def)
    with IH e show ?thesis by (simp add: x r k)
  next
    assume "\<exists>sess. snd (resolveSessionCapability now header s) = Some sess
      \<and> snd (signer_route now header q s) = Ok_reply 200 (Suc (current_version (s_contractId sess) s))
      \<and> (expected_version q = None \<or> expected_version q = Some (current_version (s_contractId sess) s))
      \<and> signerVersions (fst (signer_route now header q s))
          = js_set (s_contractId sess) (Suc (current_version (s_contractId sess) s)) (signerVersions s)"
    then obtain sess where a: "snd (resolveSessionCapability now header s) = Some sess"
      "reply = Ok_reply 200 (Suc (current_version (s_contractId sess) s))"
      "expected_version q = None \<or> expected_version q = Some (current_version (s_contractId sess) s)"
      "signerVersions s1 = js_set (s_contractId sess) (Suc (current_version (s_contractId sess) s)) (signerVersions s)"
      by (auto simp: r)
    then have v: "current_version c s1 = (if c = s_contractId sess then Suc (current_version c s) else current_version c s)"
      by (auto simp: current_version_def)
    have run: "signer_run (x # cs) s = (s2, ((now, header, q), s_contractId sess, Suc (current_version (s_contractId sess) s)) # rest)"
      using a by (simp add: x r k)
    show ?thesis
      using IH a(3) v by (auto simp: run versions_of_def upt_conv_Cons)
  qed
qed

text \<open>No signer update is lost: the accepted updates of an account are numbered consecutively from the version at
  the start, each once, and an update that names the version it was planned against is accepted only when
  no other update came in between.\<close>

theorem signer_updates_serialised:
  "versions_of c (snd (signer_run cs s))
     = [Suc (current_version c s) ..< Suc (current_version c (fst (signer_run cs s)))]
   \<and> list_all (\<lambda>((now, header, q), c', v). expected_version q = None \<or> expected_version q = Some (v - 1)) (snd (signer_run cs s))"
  using signer_run_versions [of c cs s] by simp

text \<open>A threshold that is accepted lies between one and the signer count it was checked against; when the caller
  does not supply the count, that is the count of the account's audit history, at least one.\<close>

theorem accepted_threshold_reachable:
  assumes "snd (threshold_route now header thr signerCount s) = Ok_reply st t"
  shows "\<exists>r. snd (resolveSessionCapability now header s) = Some r \<and> t = thr \<and> 1 \<le> thr
     \<and> (case signerCount of Some n \<Rightarrow> thr \<le> n
        | None \<Rightarrow> thr \<le> net_signers (audit_list (actor_filter (s_contractId r)) (audit s)))
     \<and> audit (fst (threshold_route now header thr signerCount s)) \<noteq> audit s"
proof -
  have "\<exists>i r. bearerSessionId header = Some i \<and> find_session (sessions s) i now = Some r"
  proof (rule ccontr)
    assume "\<not> ?thesis"
    then have "\<forall>i. bearerSessionId header = Some i \<longrightarrow> find_session (sessions s) i now = None" by auto
    with assms show False by (simp add: threshold_route_def with_session_unauthorized)
  qed
  then obtain i r where b: "bearerSessionId header = Some i" "find_session (sessions s) i now = Some r" by blast
  have res: "snd (resolveSessionCapability now header s) = Some r" by (simp add: resolveSessionCapability_def b)
  show ?thesis
    using assms res
    by (auto simp: threshold_route_def with_session_authorized [OF b] Let_def record_event_def audit_record_def
        split: if_splits option.splits)
qed

lemma net_signers_pos: "1 \<le> net_signers logs"
proof -
  have "1 \<le> n \<Longrightarrow> 1 \<le> fold count_step logs n" for n
    by (induction logs arbitrary: n) (auto simp: count_step_def)
  then show ?thesis by (simp add: net_signers_def)
qed

theorem accepted_threshold_reachable_witness:
  "\<exists>r. snd (resolveSessionCapability 5 (Some ''bearer a'') example_account) = Some r
     \<and> 1 \<le> net_signers (audit_list (actor_filter (s_contractId r)) (audit example_account))"
proof -
  have "snd (threshold_route 5 (Some ''bearer a'') 1 None example_account) = Ok_reply 200 1"
    by (simp add: threshold_route_def with_session_authorized [OF example_bearer example_found] Let_def)
      (simp add: example_account_def audit_list_def net_signers_def)
  from accepted_threshold_reachable [OF this] show ?thesis by auto
qed

text \<open>While a submission for a wallet is under way, a key rotation of that wallet is refused and changes nothing
  but the session's expiry, until the last such submission has settled.\<close>

theorem rotation_waits_for_submissions:
  assumes "counts_flights fs (inFlight s)" and "bearerSessionId header = Some i"
    and "find_session (sessions s) i now = Some r"
  shows "(snd (rotate_route now header old new s) = Error_reply 409 ''in_flight_submission_conflict'') = (s_contractId r \<in> set fs)
     \<and> (s_contractId r \<in> set fs \<longrightarrow> audit (fst (rotate_route now header old new s)) = audit s)
     \<and> (s_contractId r \<notin> set fs \<longrightarrow> old \<noteq> [] \<longrightarrow> new \<noteq> [] \<longrightarrow>
          snd (rotate_route now header old new s) = Ok_reply 200 new)"
  using hasInFlight_iff [OF assms(1), of "s_contractId r"]
  by (auto simp: rotate_route_def with_session_authorized [OF assms(2,3)])

theorem rotation_waits_for_submissions_witness:
  "snd (rotate_route 5 (Some ''bearer a'') ''k'' ''l'' (example_account\<lparr>inFlight := start_all [''CA''] []\<rparr>))
     = Error_reply 409 ''in_flight_submission_conflict''"
proof -
  have c: "counts_flights [''CA''] (start_all [''CA''] [])"
    using start_flight_counts [of "[]" "[]" "''CA''"] by (simp add: start_all_def counts_flights_def)
  have f: "find_session (sessions (example_account\<lparr>inFlight := start_all [''CA''] []\<rparr>)) ''a'' 5 = Some (example_session ''a'')"
    using example_found by simp
  show ?thesis
    using rotation_waits_for_submissions [OF _ example_bearer f, of "[''CA'']" "''k''" "''l''"] c
    by (simp add: example_session_def)
qed

subsection \<open>The audit log and its actors\<close>

definition js_string_field :: "(string, json) js_map \<Rightarrow> string \<Rightarrow> json option" where
  "js_string_field data k = (case js_get data k of Some JNull \<Rightarrow> None | v \<Rightarrow> v)"

definition explicit_actor :: "audit_event \<Rightarrow> json option" where
  "explicit_actor e =
     or_else (js_string_field (e_data e) ''actor'')
       (or_else (js_string_field (e_data e) ''signerType'') (js_string_field (e_data e) ''actorType''))"

definition falsy :: "json option \<Rightarrow> bool" where
  "falsy v = (case v of None \<Rightarrow> True | Some (JStr t) \<Rightarrow> t = [] | Some (JBool b) \<Rightarrow> \<not> b | Some (JNum x) \<Rightarrow> x = 0 | _ \<Rightarrow> False)"

definition inferred :: "string \<Rightarrow> string \<Rightarrow> bool" where
  "inferred actor ty \<longleftrightarrow>
     (actor = ''policy'' \<and> starts_with ty ''policy.'')
   \<or> (actor = ''device'' \<and> (starts_with ty ''session.'' \<or> starts_with ty ''signer.''))
   \<or> (actor = ''passkey'' \<and> (starts_with ty ''wallet.'' \<or> starts_with ty ''key.'' \<or> starts_with ty ''threshold.'' \<or> starts_with ty ''account.''))"

definition matches_actor :: "string \<Rightarrow> audit_event \<Rightarrow> bool" where
  "matches_actor actor e =
     (if explicit_actor e = Some (JStr actor) then True
      else if e_actor e = Some actor then True
      else if falsy (explicit_actor e) \<or> explicit_actor e = map_option JStr (e_actor e) then inferred actor (e_type e)
      else False)"

definition audit_logs_route ::
  "instant \<Rightarrow> string option \<Rightarrow> string option \<Rightarrow> ('g, 'b) wallet_state \<Rightarrow> ('g, 'b) wallet_state \<times> audit_event list reply" where
  "audit_logs_route now header actor =
     with_session now header (\<lambda>r s1.
       if actor \<noteq> None \<and> the actor \<notin> {''passkey'', ''device'', ''policy''} then (s1, Error_reply 400 ''invalid_actor'')
       else
         (let logs = audit_list (actor_filter (s_contractId r)) (audit s1) in
          (s1, Ok_reply 200 (case actor of None \<Rightarrow> logs | Some a \<Rightarrow> filter (matches_actor a) logs))))"

text \<open>The two audit logs disagree on who acted: an event recorded with an actor of its own, as every sensitive
  route does, is found under that actor in memory, but the Postgres log overwrites the actor in the data
  with the account's contract id, after which the filter can only guess it from the event's type.\<close>

theorem pg_audit_forgets_actor:
  assumes "c \<noteq> []" and "c \<noteq> a" and "\<not> inferred a ty"
  shows "matches_actor a (last (audit_record now ty (js_set ''actor'' (JStr a) data) (Some c) events))
     \<and> \<not> matches_actor a (toAuditEvent (last (pg_audit_record uuid now ty (js_set ''actor'' (JStr a) data) (Some c) rows)))"
  using assms
  by (auto simp: audit_record_def pg_audit_record_def toAuditEvent_def matches_actor_def explicit_actor_def
      js_string_field_def or_else_def)

theorem pg_audit_forgets_actor_witness:
  "matches_actor ''passkey'' (last (audit_record 1 ''signer.added'' [(''actor'', JStr ''passkey'')] (Some ''CA'') []))
   \<and> \<not> matches_actor ''passkey'' (toAuditEvent (last (pg_audit_record ''u'' 1 ''signer.added'' [(''actor'', JStr ''passkey'')] (Some ''CA'') [])))"
  using pg_audit_forgets_actor [of "''CA''" "''passkey''" "''signer.added''" 1 "[]" "[]" "''u''" "[]"]
  by (simp add: inferred_def starts_with_def)

subsection \<open>Jobs\<close>

datatype job_status = Queued | Building | Stuck | Completed | Failed_job

record wallet_job =
  recordId :: string
  job_contractId :: string
  sourceType :: string
  toolchainVersion :: string
  job_status :: job_status
  job_createdAt :: instant
  job_updatedAt :: instant

type_synonym job_table = "(string, wallet_job) js_map"

definition enqueue_job ::
  "instant \<Rightarrow> string \<Rightarrow> string \<Rightarrow> string option \<Rightarrow> string option \<Rightarrow> job_table \<Rightarrow> job_table \<times> wallet_job reply" where
  "enqueue_job now rid c src tool m =
     (if rid = [] \<or> c = [] \<or> (src \<noteq> None \<and> the src \<notin> {''repo'', ''upload''}) then (m, Error_reply 400 ''invalid_body'')
      else
        (let j = \<lparr>recordId = rid, job_contractId = c, sourceType = (case src of None \<Rightarrow> ''repo'' | Some t \<Rightarrow> t),
                  toolchainVersion = (case tool of None \<Rightarrow> ''latest'' | Some t \<Rightarrow> t), job_status = Queued,
                  job_createdAt = now, job_updatedAt = now\<rparr>
         in (js_set rid j m, Ok_reply 202 j)))"

definition getEffectiveJobStatus :: "int \<Rightarrow> instant \<Rightarrow> wallet_job \<Rightarrow> job_status" where
  "getEffectiveJobStatus stuckThresholdMs now j =
     (if job_status j = Building \<and> now - job_updatedAt j > stuckThresholdMs then Stuck else job_status j)"

definition get_job :: "int \<Rightarrow> instant \<Rightarrow> string \<Rightarrow> job_table \<Rightarrow> (wallet_job \<times> job_status) reply" where
  "get_job stuckThresholdMs now rid m =
     (case js_get m rid of
        None \<Rightarrow> Error_reply 404 ''job_not_found''
      | Some j \<Rightarrow> Ok_reply 200 (j, getEffectiveJobStatus stuckThresholdMs now j))"

definition patch_job :: "instant \<Rightarrow> string \<Rightarrow> job_status \<Rightarrow> job_table \<Rightarrow> job_table \<times> wallet_job reply" where
  "patch_job now rid st m =
     (case js_get m rid of
        None \<Rightarrow> (m, Error_reply 404 ''job_not_found'')
      | Some j \<Rightarrow> (let j' = j\<lparr>job_status := st, job_updatedAt := now\<rparr> in (js_set rid j' m, Ok_reply 200 j')))"

text \<open>A second enqueue of a record id replaces the job, whatever its state.\<close>

lemma enqueue_replaces:
  "snd (enqueue_job now rid c src tool m) = Ok_reply 202 j \<Longrightarrow>
     js_get (fst (enqueue_job now rid c src tool m)) rid = Some j \<and> job_status j = Queued"
  by (auto simp: enqueue_job_def Let_def split: if_splits)

lemma stuck_is_derived:
  "job_status j \<noteq> Stuck \<Longrightarrow> getEffectiveJobStatus th now j = Stuck \<longleftrightarrow> job_status j = Building \<and> now - job_updatedAt j > th"
  by (simp add: getEffectiveJobStatus_def)

end
