(* ===== verification/WalletCache.thy ===== *)
theory WalletCache
  imports Prelude
begin

text \<open>
  The TTL cache of the wallet service: \<open>services/wallet-service/src/cache.ts\<close>, and the counting wrapper of
  \<open>cache-metrics.ts\<close>.  Entries live in one map under \<open>resource:key\<close>; every operation takes the instant
  at which it reads the clock.
\<close>

datatype resource = Balance | Nonce | Account | Tx_history

definition resource_name :: "resource \<Rightarrow> string" where
  "resource_name r =
     (case r of Balance \<Rightarrow> ''balance'' | Nonce \<Rightarrow> ''nonce'' | Account \<Rightarrow> ''account'' | Tx_history \<Rightarrow> ''tx-history'')"

record 'v cache_entry =
  entry_value :: 'v
  expiresAt :: instant
  createdAt :: instant

record 'v memory_cache =
  store :: "(string, 'v cache_entry) js_map"
  ttlMs :: int
  balanceMaxAgeMs :: "int option"

definition new_cache :: "int option \<Rightarrow> int option \<Rightarrow> 'v memory_cache" where
  "new_cache ttl maxAge = \<lparr>store = [], ttlMs = (case ttl of None \<Rightarrow> 5 * 60 * 1000 | Some t \<Rightarrow> t), balanceMaxAgeMs = maxAge\<rparr>"

definition makeKey :: "resource \<Rightarrow> string \<Rightarrow> string" where
  "makeKey r k = resource_name r @ CHR '':'' # k"

text \<open>The resource is the label of the key, a text, in \<open>cleanup\<close>; only the balance label matters.\<close>

definition isExpired :: "'v memory_cache \<Rightarrow> instant \<Rightarrow> string \<Rightarrow> 'v cache_entry \<Rightarrow> bool" where
  "isExpired c now label e =
     (if now > expiresAt e then True
      else if label = ''balance'' then
        (case balanceMaxAgeMs c of None \<Rightarrow> False | Some age \<Rightarrow> now - createdAt e > age)
      else False)"

definition cache_get :: "instant \<Rightarrow> resource \<Rightarrow> string \<Rightarrow> 'v memory_cache \<Rightarrow> 'v memory_cache \<times> 'v option" where
  "cache_get now r k c =
     (case js_get (store c) (makeKey r k) of
        None \<Rightarrow> (c, None)
      | Some e \<Rightarrow>
          (if isExpired c now (resource_name r) e then (c\<lparr>store := js_delete (makeKey r k) (store c)\<rparr>, None)
           else (c, Some (entry_value e))))"

definition cache_set :: "instant \<Rightarrow> bool \<Rightarrow> resource \<Rightarrow> string \<Rightarrow> 'v \<Rightarrow> 'v memory_cache \<Rightarrow> 'v memory_cache" where
  "cache_set now preserveCreatedAt r k v c =
     (let created = (case js_get (store c) (makeKey r k) of
                       None \<Rightarrow> now
                     | Some e \<Rightarrow> if preserveCreatedAt then createdAt e else now)
      in c\<lparr>store := js_set (makeKey r k) \<lparr>entry_value = v, expiresAt = now + ttlMs c, createdAt = created\<rparr> (store c)\<rparr>)"

definition cache_touch :: "instant \<Rightarrow> resource \<Rightarrow> string \<Rightarrow> 'v memory_cache \<Rightarrow> 'v memory_cache \<times> bool" where
  "cache_touch now r k c =
     (case js_get (store c) (makeKey r k) of
        None \<Rightarrow> (c\<lparr>store := js_delete (makeKey r k) (store c)\<rparr>, False)
      | Some e \<Rightarrow>
          (if isExpired c now (resource_name r) e then (c\<lparr>store := js_delete (makeKey r k) (store c)\<rparr>, False)
           else (c\<lparr>store := js_modify (makeKey r k) (\<lambda>e. e\<lparr>expiresAt := now + ttlMs c\<rparr>) (store c)\<rparr>, True)))"

definition cache_delete :: "resource \<Rightarrow> string \<Rightarrow> 'v memory_cache \<Rightarrow> 'v memory_cache" where
  "cache_delete r k c = c\<lparr>store := js_delete (makeKey r k) (store c)\<rparr>"

definition invalidateBalance :: "string \<Rightarrow> 'v memory_cache \<Rightarrow> 'v memory_cache" where
  "invalidateBalance k c = cache_delete Balance k c"

definition clear_cache :: "'v memory_cache \<Rightarrow> 'v memory_cache" where
  "clear_cache c = c\<lparr>store := []\<rparr>"

definition cache_size :: "'v memory_cache \<Rightarrow> nat" where
  "cache_size c = length (store c)"

text \<open>\<open>key.split(":")[0]\<close> is the label.\<close>

definition dead :: "'v memory_cache \<Rightarrow> instant \<Rightarrow> string \<times> 'v cache_entry \<Rightarrow> bool" where
  "dead c now p = isExpired c now (hd (split_on (CHR '':'') (fst p))) (snd p)"

definition cleanup :: "instant \<Rightarrow> 'v memory_cache \<Rightarrow> 'v memory_cache \<times> nat" where
  "cleanup now c =
     (c\<lparr>store := filter (\<lambda>p. \<not> dead c now p) (store c)\<rparr>, length (filter (dead c now) (store c)))"

subsection \<open>What a lookup can return\<close>

lemma split_on_prefix: "d \<notin> set w \<Longrightarrow> hd (split_on d (w @ d # s)) = w"
  by (induction w) (auto split: list.splits)

lemma label_of_key: "hd (split_on (CHR '':'') (makeKey r k)) = resource_name r"
  unfolding makeKey_def by (rule split_on_prefix) (cases r; simp add: resource_name_def)

lemma makeKey_eq_iff: "makeKey r k = makeKey r' k' \<longleftrightarrow> r = r' \<and> k = k'"
proof
  assume e: "makeKey r k = makeKey r' k'"
  then have "resource_name r = resource_name r'" by (metis label_of_key)
  then have "r = r'" by (cases r; cases r') (simp_all add: resource_name_def)
  with e show "r = r' \<and> k = k'" by (simp add: makeKey_def)
qed simp

text \<open>The lookup without its clean-up: what an entry in the map answers at an instant.\<close>

definition peek :: "'v memory_cache \<Rightarrow> instant \<Rightarrow> resource \<Rightarrow> string \<Rightarrow> 'v option" where
  "peek c now r k =
     (case js_get (store c) (makeKey r k) of
        None \<Rightarrow> None
      | Some e \<Rightarrow> if isExpired c now (resource_name r) e then None else Some (entry_value e))"

lemma cache_get_peek: "snd (cache_get now r k c) = peek c now r k"
  by (simp add: cache_get_def peek_def split: option.split)

lemma cleanup_get:
  "js_ok (store c) \<Longrightarrow> js_get (store (fst (cleanup now c))) (makeKey r k)
     = (case js_get (store c) (makeKey r k) of None \<Rightarrow> None
        | Some e \<Rightarrow> if isExpired c now (resource_name r) e then None else Some e)"
  by (simp add: cleanup_def js_get_filter_key dead_def label_of_key split: option.split)

lemma isExpired_later: "isExpired c now label e \<Longrightarrow> now \<le> now' \<Longrightarrow> isExpired c now' label e"
  by (auto simp: isExpired_def split: option.splits if_splits)

lemma isExpired_store [simp]: "isExpired (c\<lparr>store := m\<rparr>) now label e = isExpired c now label e"
  by (simp add: isExpired_def)

text \<open>The clean-up and the deletions inside a lookup are invisible: at their instant or any later one, every
  key of every resource answers exactly as it would have without them.\<close>

theorem cleanup_invisible:
  assumes "js_ok (store c)" and "now \<le> now'"
  shows "peek (fst (cleanup now c)) now' r k = peek c now' r k
     \<and> peek (fst (cache_get now r' k' c)) now' r k = peek c now' r k"
proof
  have cfg: "isExpired (fst (cleanup now c)) now' l e = isExpired c now' l e" for l e by (simp add: cleanup_def)
  show "peek (fst (cleanup now c)) now' r k = peek c now' r k"
    using isExpired_later [of c now "resource_name r" _ now'] assms(2)
    by (auto simp: peek_def cleanup_get [OF assms(1)] cfg split: option.split)
  show "peek (fst (cache_get now r' k' c)) now' r k = peek c now' r k"
    using isExpired_later [of c now "resource_name r" _ now'] assms(2)
    by (auto simp: peek_def cache_get_def makeKey_eq_iff split: option.split)
qed

definition example_cache :: "nat memory_cache" where
  "example_cache = cache_set 0 False Balance ''CA'' 7 (new_cache (Some 100) (Some 50))"

theorem cleanup_invisible_witness:
  "peek (fst (cleanup 60 example_cache)) 60 Balance ''CA'' = peek example_cache 60 Balance ''CA''
   \<and> peek example_cache 40 Balance ''CA'' = Some 7 \<and> peek example_cache 60 Balance ''CA'' = None"
proof -
  have "js_ok (store example_cache)" by (simp add: example_cache_def cache_set_def new_cache_def js_ok_def)
  from cleanup_invisible [OF this, of 60 60] show ?thesis
    by (simp add: peek_def isExpired_def example_cache_def cache_set_def new_cache_def resource_name_def)
qed

subsection \<open>Freshness of balances\<close>

datatype 'v cache_op = Set resource string 'v | Touch resource string | Get resource string | Delete resource string | Cleanup

fun cache_step :: "instant \<times> 'v cache_op \<Rightarrow> 'v memory_cache \<Rightarrow> 'v memory_cache" where
  "cache_step (now, Set r k v) c = cache_set now False r k v c"
| "cache_step (now, Touch r k) c = fst (cache_touch now r k c)"
| "cache_step (now, Get r k) c = fst (cache_get now r k c)"
| "cache_step (now, Delete r k) c = cache_delete r k c"
| "cache_step (now, Cleanup) c = fst (cleanup now c)"

definition cache_run :: "(instant \<times> 'v cache_op) list \<Rightarrow> 'v memory_cache \<Rightarrow> 'v memory_cache" where
  "cache_run ops c = fold cache_step ops c"

text \<open>Every entry was written by a \<open>set\<close> of the run, at its creation instant and with its value.\<close>

definition written :: "(instant \<times> 'v cache_op) list \<Rightarrow> 'v memory_cache \<Rightarrow> bool" where
  "written ops c \<longleftrightarrow> js_ok (store c) \<and>
     (\<forall>r k e. js_get (store c) (makeKey r k) = Some e \<longrightarrow> (createdAt e, Set r k (entry_value e)) \<in> set ops)"

lemma written_step:
  assumes "written ops c" shows "written (ops @ [op]) (cache_step op c)"
proof -
  obtain now o1 where op: "op = (now, o1)" by (cases op)
  have ok: "js_ok (store c)" using assms by (simp add: written_def)
  show ?thesis
  proof (cases o1)
    case (Set r k v)
    with assms show ?thesis
      by (auto simp: op written_def cache_set_def makeKey_eq_iff split: option.splits if_splits)
  next
    case (Touch r k)
    with assms show ?thesis
      by (auto simp: op written_def cache_touch_def makeKey_eq_iff split: option.splits if_splits)
  next
    case (Get r k)
    with assms show ?thesis
      by (auto simp: op written_def cache_get_def split: option.splits if_splits)
  next
    case (Delete r k)
    with assms show ?thesis by (auto simp: op written_def cache_delete_def split: if_splits)
  next
    case Cleanup
    have "js_ok (store (fst (cleanup now c)))" using ok by (simp add: cleanup_def js_ok_def distinct_map_filter)
    with Cleanup assms show ?thesis
      by (auto simp: op written_def cleanup_get [OF ok] split: option.splits if_splits)
  qed
qed

lemma cache_config [simp]:
  "balanceMaxAgeMs (cache_step op c) = balanceMaxAgeMs c" "ttlMs (cache_step op c) = ttlMs c"
  by (induction op c rule: cache_step.induct)
     (simp_all add: cache_set_def cache_touch_def cache_get_def cache_delete_def cleanup_def Let_def split: option.split)

lemma written_run:
  "written ops0 c \<Longrightarrow> written (ops0 @ ops) (cache_run ops c) \<and> balanceMaxAgeMs (cache_run ops c) = balanceMaxAgeMs c"
proof (induction ops arbitrary: ops0 c)
  case Nil
  then show ?case by (simp add: cache_run_def)
next
  case (Cons op ops)
  from Cons.IH [OF written_step [OF Cons.prems], of op] show ?case by (simp add: cache_run_def)
qed

text \<open>A balance is never served older than the configured maximum age: whatever the sequence of writes,
  touches, lookups, deletions and clean-ups, a balance that a lookup returns was written for that very key
  at most the maximum age before; touching an entry keeps it in the cache but not young.\<close>

theorem balance_never_stale:
  assumes "peek (cache_run ops (new_cache ttl (Some age))) now Balance k = Some v"
  shows "\<exists>t. (t, Set Balance k v) \<in> set ops \<and> now - t \<le> age"
proof -
  let ?c = "cache_run ops (new_cache ttl (Some age))"
  have "written [] (new_cache ttl (Some age) :: 'a memory_cache)" by (simp add: written_def new_cache_def)
  from written_run [OF this, of ops] have w: "written ops ?c" and a: "balanceMaxAgeMs ?c = Some age"
    by (simp_all add: new_cache_def)
  from assms obtain e where "js_get (store ?c) (makeKey Balance k) = Some e" "\<not> isExpired ?c now ''balance'' e" "v = entry_value e"
    by (auto simp: peek_def resource_name_def split: option.splits if_splits)
  with w a have "(createdAt e, Set Balance k v) \<in> set ops" "now - createdAt e \<le> age"
    by (auto simp: written_def isExpired_def split: if_splits)
  then show ?thesis by blast
qed

theorem balance_never_stale_witness:
  "\<exists>t::int. (t, Set Balance ''CA'' (7::nat)) \<in> set [(0, Set Balance ''CA'' 7), (30, Touch Balance ''CA'')] \<and> 45 - t \<le> 50"
proof -
  have "peek (cache_run [(0, Set Balance ''CA'' 7), (30, Touch Balance ''CA'')] (new_cache (Some 40) (Some 50))) 45 Balance ''CA''
      = Some (7::nat)"
    by (simp add: cache_run_def peek_def isExpired_def cache_set_def cache_touch_def new_cache_def resource_name_def)
  from balance_never_stale [OF this] show ?thesis .
qed

subsection \<open>Counting hits and misses\<close>

record cache_counts =
  hits :: "(resource, nat) js_map"
  misses :: "(resource, nat) js_map"

definition bump :: "resource \<Rightarrow> (resource, nat) js_map \<Rightarrow> (resource, nat) js_map" where
  "bump r m = js_set r ((case js_get m r of None \<Rightarrow> 0 | Some n \<Rightarrow> n) + 1) m"

definition counted_get ::
  "instant \<Rightarrow> resource \<Rightarrow> string \<Rightarrow> cache_counts \<times> 'v memory_cache \<Rightarrow> (cache_counts \<times> 'v memory_cache) \<times> 'v option" where
  "counted_get now r k = (\<lambda>(n, c).
     (let (c', res) = cache_get now r k c in
      ((if res \<noteq> None then n\<lparr>hits := bump r (hits n)\<rparr> else n\<lparr>misses := bump r (misses n)\<rparr>, c'), res)))"

lemma counted_get_transparent:
  "snd (counted_get now r k (n, c)) = snd (cache_get now r k c)"
  "snd (fst (counted_get now r k (n, c))) = fst (cache_get now r k c)"
  by (simp_all add: counted_get_def split_beta Let_def)

definition validateResourceLabel :: "string \<Rightarrow> string" where
  "validateResourceLabel label =
     (if label \<in> {''balance'', ''nonce'', ''account'', ''tx-history''} then label else ''unknown'')"

lemma label_cardinality:
  "validateResourceLabel label \<in> {''balance'', ''nonce'', ''account'', ''tx-history'', ''unknown''}"
  by (simp add: validateResourceLabel_def)

end
