(* ===== verification/VerificationQueue.thy ===== *)
theory VerificationQueue
  imports JobStore
begin

text \<open>
  The build-job queue of the verification service, \<open>services/verification-service/src/db/pg-queue.ts\<close>: the
  in-memory queue and its Postgres twin, with the visibility timeout after which a claimed job can be
  claimed again.  A method of the in-memory queue is one step; a method of the Postgres queue is one
  statement, and the rows other transactions have locked (\<open>SKIP LOCKED\<close>) are an argument of its claim.
\<close>

record build_job = build_input +
  job_recordId :: string
  job_contractId :: string
  job_traceId :: "string option"
  job_traceParentSpanId :: "string option"

record claimed_build =
  cb_recordId :: string
  cb_job :: build_job
  cb_attempts :: int
  cb_claimedAt :: instant
  cb_claimedBy :: string

definition DEFAULT_VISIBILITY_TIMEOUT_MS :: int where
  "DEFAULT_VISIBILITY_TIMEOUT_MS = 30000"

definition DEFAULT_MAX_ATTEMPTS :: int where
  "DEFAULT_MAX_ATTEMPTS = 3"

subsection \<open>The in-memory queue\<close>

datatype entry_status = Q_submitted | Q_building | Q_completed | Q_failed | Q_dead_letter

record queue_entry =
  qe_job :: build_job
  qe_status :: entry_status
  qe_attempts :: int
  qe_claimedAt :: "instant option"
  qe_claimedBy :: "string option"
  qe_visibility :: int
  qe_error :: "string option"

type_synonym build_queue = "(string, queue_entry) js_map"

text \<open>The options of \<open>createPgBuildJobQueue\<close>, defaults applied.\<close>

record queue_options =
  qo_visibility :: int
  qo_maxAttempts :: int

definition queue_enqueue :: "queue_options \<Rightarrow> build_job \<Rightarrow> build_queue \<Rightarrow> build_queue" where
  "queue_enqueue opts job =
     js_set (job_recordId job)
       \<lparr>qe_job = job, qe_status = Q_submitted, qe_attempts = 0, qe_claimedAt = None, qe_claimedBy = None,
        qe_visibility = qo_visibility opts, qe_error = None\<rparr>"

definition stranded :: "instant \<Rightarrow> queue_entry \<Rightarrow> bool" where
  "stranded now e \<longleftrightarrow> qe_status e = Q_building
     \<and> (case qe_claimedAt e of None \<Rightarrow> False | Some t \<Rightarrow> now - t \<ge> qe_visibility e)"

definition take_claim :: "string \<Rightarrow> instant \<Rightarrow> int \<Rightarrow> queue_entry \<Rightarrow> queue_entry" where
  "take_claim w now timeout e =
     e\<lparr>qe_status := Q_building, qe_attempts := qe_attempts e + 1, qe_claimedAt := Some now,
       qe_claimedBy := Some w, qe_visibility := timeout\<rparr>"

definition handed_out :: "string \<Rightarrow> instant \<Rightarrow> string \<Rightarrow> queue_entry \<Rightarrow> claimed_build" where
  "handed_out w now i e =
     \<lparr>cb_recordId = i, cb_job = qe_job e, cb_attempts = qe_attempts e + 1, cb_claimedAt = now, cb_claimedBy = w\<rparr>"

text \<open>The loop of \<open>claim\<close> over the entries, in insertion order; \<open>timeout\<close> is the one of the call, or the default.\<close>

fun queue_claim :: "queue_options \<Rightarrow> string \<Rightarrow> instant \<Rightarrow> int \<Rightarrow> build_queue \<Rightarrow> build_queue \<times> claimed_build option" where
  "queue_claim opts w now timeout [] = ([], None)"
| "queue_claim opts w now timeout ((i, e) # q) =
     (if qe_status e = Q_submitted \<or> stranded now e then
        (if qe_attempts e \<ge> qo_maxAttempts opts \<and> stranded now e then
           (let r = queue_claim opts w now timeout q in ((i, e\<lparr>qe_status := Q_dead_letter\<rparr>) # fst r, snd r))
         else ((i, take_claim w now timeout e) # q, Some (handed_out w now i e)))
      else (let r = queue_claim opts w now timeout q in ((i, e) # fst r, snd r)))"

definition queue_complete :: "string \<Rightarrow> string option \<Rightarrow> build_queue \<Rightarrow> build_queue \<times> bool" where
  "queue_complete i worker q =
     (case js_get q i of
        None \<Rightarrow> (q, False)
      | Some e \<Rightarrow> (if qe_status e \<noteq> Q_building then (q, False)
                   else (js_modify i (\<lambda>e. e\<lparr>qe_status := Q_completed\<rparr>) q, True)))"

definition queue_fail :: "string \<Rightarrow> string option \<Rightarrow> build_queue \<Rightarrow> build_queue" where
  "queue_fail i err = js_modify i (\<lambda>e. e\<lparr>qe_status := Q_failed, qe_error := err\<rparr>)"

definition queue_release :: "string \<Rightarrow> build_queue \<Rightarrow> build_queue" where
  "queue_release i =
     js_modify i (\<lambda>e. if qe_status e = Q_building
       then e\<lparr>qe_status := Q_submitted, qe_claimedBy := None, qe_claimedAt := None\<rparr> else e)"

definition queue_getJob :: "string \<Rightarrow> build_queue \<Rightarrow> (entry_status \<times> int \<times> string option) option" where
  "queue_getJob i q = map_option (\<lambda>e. (qe_status e, qe_attempts e, qe_claimedBy e)) (js_get q i)"

definition reap_entry :: "queue_options \<Rightarrow> instant \<Rightarrow> queue_entry \<Rightarrow> queue_entry" where
  "reap_entry opts now e =
     (if stranded now e then
        (if qe_attempts e \<ge> qo_maxAttempts opts then e\<lparr>qe_status := Q_dead_letter\<rparr>
         else e\<lparr>qe_status := Q_submitted, qe_claimedBy := None, qe_claimedAt := None\<rparr>)
      else e)"

definition queue_reapStranded :: "queue_options \<Rightarrow> instant \<Rightarrow> build_queue \<Rightarrow> build_queue \<times> nat" where
  "queue_reapStranded opts now q =
     (js_map_values (reap_entry opts now) q, length (filter (stranded now) (js_values q)))"

definition queue_size :: "build_queue \<Rightarrow> nat" where
  "queue_size q = length (filter (\<lambda>e. qe_status e = Q_submitted \<or> qe_status e = Q_building) (js_values q))"

subsection \<open>Claims\<close>

text \<open>What a claim may do to an entry: nothing, dead-letter a stranded one, or take a visible one.\<close>

definition claim_effect ::
  "queue_options \<Rightarrow> string \<Rightarrow> instant \<Rightarrow> int \<Rightarrow> queue_entry option \<Rightarrow> queue_entry option \<Rightarrow> bool" where
  "claim_effect opts w now timeout before after \<longleftrightarrow>
     (case before of None \<Rightarrow> after = None
      | Some e \<Rightarrow> after = Some e
          \<or> (after = Some (take_claim w now timeout e)
              \<and> (qe_status e = Q_submitted \<or> (stranded now e \<and> qe_attempts e < qo_maxAttempts opts)))
          \<or> (after = Some (e\<lparr>qe_status := Q_dead_letter\<rparr>) \<and> stranded now e \<and> qe_attempts e \<ge> qo_maxAttempts opts))"

lemma claim_effect_same [simp]: "claim_effect opts w now timeout x x"
  by (cases x) (simp_all add: claim_effect_def)

lemma queue_claim_effect:
  "claim_effect opts w now timeout (js_get q i) (js_get (fst (queue_claim opts w now timeout q)) i)"
proof (induction opts w now timeout q rule: queue_claim.induct)
  case (1 opts w now timeout)
  show ?case by simp
next
  case (2 opts w now timeout j e q)
  consider (dead) "stranded now e" "qe_attempts e \<ge> qo_maxAttempts opts"
    | (take) "qe_status e = Q_submitted \<or> stranded now e" "\<not> (qe_attempts e \<ge> qo_maxAttempts opts \<and> stranded now e)"
    | (skip) "\<not> (qe_status e = Q_submitted \<or> stranded now e)" by blast
  then show ?case
  proof cases
    case dead
    with 2 show ?thesis by (simp add: Let_def) (simp add: claim_effect_def)
  next
    case take
    then have "queue_claim opts w now timeout ((j, e) # q) = ((j, take_claim w now timeout e) # q, Some (handed_out w now j e))"
      by auto
    with take show ?thesis by (cases "j = i") (auto simp: claim_effect_def)
  next
    case skip
    with 2 show ?thesis by (simp add: Let_def)
  qed
qed

lemma queue_claim_cases:
  assumes "js_get q i = Some e"
  obtains (same) "js_get (fst (queue_claim opts w now timeout q)) i = Some e"
  | (taken) "js_get (fst (queue_claim opts w now timeout q)) i = Some (take_claim w now timeout e)"
      "qe_status e = Q_submitted \<or> (stranded now e \<and> qe_attempts e < qo_maxAttempts opts)"
  | (dead) "js_get (fst (queue_claim opts w now timeout q)) i = Some (e\<lparr>qe_status := Q_dead_letter\<rparr>)"
      "stranded now e" "qe_attempts e \<ge> qo_maxAttempts opts"
  using queue_claim_effect [of opts w now timeout q i] unfolding assms claim_effect_def option.case by blast

lemma queue_claim_None:
  "js_get q i = None \<Longrightarrow> js_get (fst (queue_claim opts w now timeout q)) i = None"
  using queue_claim_effect [of opts w now timeout q i] by (simp add: claim_effect_def)

lemma queue_claim_keys [simp]: "map fst (fst (queue_claim opts w now timeout q)) = map fst q"
  by (induction opts w now timeout q rule: queue_claim.induct) (auto simp: Let_def)

text \<open>A claimed job is invisible until its timeout has passed: no claim and no reaper touches it.\<close>

lemma claim_respects_visibility:
  assumes "js_get q i = Some e" and "qe_status e = Q_building" and "qe_claimedAt e = Some t" and "now < t + qe_visibility e"
  shows "js_get (fst (queue_claim opts w now timeout q)) i = Some e"
    and "js_get (fst (queue_reapStranded opts now q)) i = Some e"
proof -
  have n: "\<not> stranded now e" using assms(3,4) by (simp add: stranded_def)
  from assms(1) show "js_get (fst (queue_claim opts w now timeout q)) i = Some e"
    by (cases rule: queue_claim_cases [of q i e opts w now timeout]) (use n assms(2) in auto)
  show "js_get (fst (queue_reapStranded opts now q)) i = Some e"
    using n assms(1) by (simp add: queue_reapStranded_def reap_entry_def)
qed

subsection \<open>The number of attempts\<close>

datatype queue_op =
    Q_enqueue build_job
  | Q_claim string instant int
  | Q_complete string "string option"
  | Q_fail string "string option"
  | Q_release string
  | Q_reap instant

fun queue_exec :: "queue_options \<Rightarrow> queue_op \<Rightarrow> build_queue \<Rightarrow> build_queue" where
  "queue_exec opts (Q_enqueue job) q = queue_enqueue opts job q"
| "queue_exec opts (Q_claim w now timeout) q = fst (queue_claim opts w now timeout q)"
| "queue_exec opts (Q_complete i w) q = fst (queue_complete i w q)"
| "queue_exec opts (Q_fail i err) q = queue_fail i err q"
| "queue_exec opts (Q_release i) q = queue_release i q"
| "queue_exec opts (Q_reap now) q = fst (queue_reapStranded opts now q)"

definition queue_run :: "queue_options \<Rightarrow> queue_op list \<Rightarrow> build_queue \<Rightarrow> build_queue" where
  "queue_run opts = fold (queue_exec opts)"

fun is_release :: "queue_op \<Rightarrow> bool" where
  "is_release (Q_release i) = True"
| "is_release _ = False"

definition attempts_bounded :: "queue_options \<Rightarrow> build_queue \<Rightarrow> bool" where
  "attempts_bounded opts q \<longleftrightarrow>
     (\<forall>i e. js_get q i = Some e \<longrightarrow> 0 \<le> qe_attempts e \<and> qe_attempts e \<le> qo_maxAttempts opts
        \<and> (qe_status e = Q_submitted \<longrightarrow> qe_attempts e < qo_maxAttempts opts))"

lemma attempts_boundedI:
  "(\<And>i e. js_get q i = Some e \<Longrightarrow> 0 \<le> qe_attempts e \<and> qe_attempts e \<le> qo_maxAttempts opts
        \<and> (qe_status e = Q_submitted \<longrightarrow> qe_attempts e < qo_maxAttempts opts)) \<Longrightarrow> attempts_bounded opts q"
  by (auto simp: attempts_bounded_def)

lemma attempts_boundedD:
  "attempts_bounded opts q \<Longrightarrow> js_get q i = Some e \<Longrightarrow> 0 \<le> qe_attempts e \<and> qe_attempts e \<le> qo_maxAttempts opts
        \<and> (qe_status e = Q_submitted \<longrightarrow> qe_attempts e < qo_maxAttempts opts)"
  by (auto simp: attempts_bounded_def)

lemma claim_bounded:
  assumes b: "attempts_bounded opts q" shows "attempts_bounded opts (fst (queue_claim opts w now timeout q))"
proof (rule attempts_boundedI)
  fix i e' assume g: "js_get (fst (queue_claim opts w now timeout q)) i = Some e'"
  then obtain e where e: "js_get q i = Some e" using queue_claim_None [of q i] by (cases "js_get q i") auto
  from e show "0 \<le> qe_attempts e' \<and> qe_attempts e' \<le> qo_maxAttempts opts
        \<and> (qe_status e' = Q_submitted \<longrightarrow> qe_attempts e' < qo_maxAttempts opts)"
    by (cases rule: queue_claim_cases [of q i e opts w now timeout])
       (use g attempts_boundedD [OF b e] in \<open>auto simp: take_claim_def\<close>)
qed

lemma exec_bounded:
  assumes "attempts_bounded opts q" "0 < qo_maxAttempts opts" "\<not> is_release opn"
  shows "attempts_bounded opts (queue_exec opts opn q)"
proof (cases opn)
  case (Q_claim w now timeout)
  with assms(1) show ?thesis by (simp add: claim_bounded)
next
  case (Q_complete i w)
  with assms(1) show ?thesis
    by (auto simp: queue_complete_def attempts_bounded_def split: option.splits)
next
  case (Q_reap now)
  with assms(1) show ?thesis
    by (fastforce simp: queue_reapStranded_def attempts_bounded_def reap_entry_def)
qed (use assms in \<open>auto simp: attempts_bounded_def queue_enqueue_def queue_fail_def split: if_splits\<close>)

lemma run_bounded:
  "attempts_bounded opts q \<Longrightarrow> 0 < qo_maxAttempts opts \<Longrightarrow> \<not> list_ex is_release ops \<Longrightarrow>
     attempts_bounded opts (queue_run opts ops q)"
  by (induction ops arbitrary: q) (auto simp: queue_run_def exec_bounded)


definition example_build :: "string \<Rightarrow> build_job" where
  "example_build i =
     \<lparr>sourceType = RepoSource, repoUrl = None, commitHash = None, sourceArchiveRef = None, toolchainVersion = ''1'', buildFlags = None,
      job_recordId = i, job_contractId = ''C'', job_traceId = None, job_traceParentSpanId = None\<rparr>"

definition default_queue :: queue_options where
  "default_queue = \<lparr>qo_visibility = DEFAULT_VISIBILITY_TIMEOUT_MS, qo_maxAttempts = DEFAULT_MAX_ATTEMPTS\<rparr>"

lemmas queue_eval = queue_run_def queue_enqueue_def queue_complete_def queue_release_def queue_reapStranded_def reap_entry_def
  take_claim_def handed_out_def stranded_def default_queue_def DEFAULT_VISIBILITY_TIMEOUT_MS_def DEFAULT_MAX_ATTEMPTS_def
  example_build_def queue_getJob_def js_modify_def js_map_values_def


text \<open>Releasing a claim makes the job claimable again without looking at the attempts: they have no bound then.\<close>

lemma release_cycle:
  assumes "js_get q i = Some e" "qe_status e = Q_submitted" "\<forall>j\<in>fst ` set q. j = i" "js_ok q"
  shows "\<exists>e'. js_get (queue_run opts [Q_claim w t timeout, Q_release i] q) i = Some e' \<and> qe_status e' = Q_submitted
     \<and> qe_attempts e' = qe_attempts e + 1 \<and> fst ` set (queue_run opts [Q_claim w t timeout, Q_release i] q) = fst ` set q
     \<and> js_ok (queue_run opts [Q_claim w t timeout, Q_release i] q)"
proof -
  have "q = [(i, e)]"
  proof (cases q)
    case Nil
    with assms(1) show ?thesis by simp
  next
    case (Cons p r)
    then have "fst p = i" using assms(3) by simp
    moreover have "r = []" using assms(3,4) Cons \<open>fst p = i\<close> by (cases r) (auto simp: js_ok_def)
    ultimately show ?thesis using assms(1) Cons by (cases p) simp
  qed
  with assms(2) show ?thesis
    by (simp add: queue_run_def queue_release_def js_modify_def take_claim_def js_ok_def stranded_def)
qed

lemma releases_defeat_limit:
  "\<exists>e. js_get (queue_run opts (Q_enqueue job # concat (replicate n [Q_claim w t timeout, Q_release (job_recordId job)])) []) (job_recordId job)
         = Some e \<and> qe_status e = Q_submitted \<and> qe_attempts e = int n"
proof -
  let ?i = "job_recordId job"
  let ?c = "[Q_claim w t timeout, Q_release ?i]"
  let ?start = "queue_run opts [Q_enqueue job] []"
  have "\<exists>e. js_get (queue_run opts (concat (replicate n ?c)) ?start) ?i = Some e \<and> qe_status e = Q_submitted \<and> qe_attempts e = int n
      \<and> fst ` set (queue_run opts (concat (replicate n ?c)) ?start) = {?i} \<and> js_ok (queue_run opts (concat (replicate n ?c)) ?start)"
  proof (induction n)
    case 0
    show ?case by (simp add: queue_run_def queue_enqueue_def js_ok_def)
  next
    case (Suc n)
    let ?q = "queue_run opts (concat (replicate n ?c)) ?start"
    from Suc obtain e where e: "js_get ?q ?i = Some e" "qe_status e = Q_submitted" "qe_attempts e = int n"
      "fst ` set ?q = {?i}" "js_ok ?q" by blast
    have "concat (replicate (Suc n) ?c) = concat (replicate n ?c) @ ?c"
      by (simp only: replicate_Suc replicate_append_same [symmetric] concat_append) simp
    then have "queue_run opts (concat (replicate (Suc n) ?c)) ?start = queue_run opts ?c ?q"
      by (simp only: queue_run_def fold_append o_apply)
    with release_cycle [OF e(1,2) _ e(5), of opts w t timeout] e(3,4) show ?case by auto
  qed
  then show ?thesis by (auto simp: queue_run_def)
qed

text \<open>Completion does not ask who holds the claim: a worker whose claim has expired ends the build of
  the worker that took the job over.\<close>

lemma stale_worker_completes:
  "let q = queue_run default_queue [Q_enqueue (example_build ''r''), Q_claim ''a'' 0 30000, Q_claim ''b'' 30000 30000] [] in
     queue_getJob ''r'' q = Some (Q_building, 2, Some ''b'') \<and> snd (queue_complete ''r'' (Some ''a'') q)
     \<and> \<not> snd (queue_complete ''r'' (Some ''b'') (fst (queue_complete ''r'' (Some ''a'') q)))"
  by (simp add: queue_eval)

subsection \<open>Every waiting job is taken\<close>

definition visible :: "instant \<Rightarrow> build_queue \<Rightarrow> nat" where
  "visible now q = length (filter (\<lambda>e. qe_status e = Q_submitted \<or> stranded now e) (js_values q))"

lemma visible_Cons:
  "visible now ((i, e) # q) = (if qe_status e = Q_submitted \<or> stranded now e then 1 else 0) + visible now q"
  by (simp add: visible_def js_values_def)

lemma claim_visible:
  assumes "0 < timeout"
  shows "if snd (queue_claim opts w now timeout q) = None then visible now (fst (queue_claim opts w now timeout q)) = 0
     else visible now (fst (queue_claim opts w now timeout q)) < visible now q"
  using assms
proof (induction opts w now timeout q rule: queue_claim.induct)
  case (1 opts w now timeout)
  show ?case by (simp add: visible_def js_values_def)
next
  case (2 opts w now timeout j e q)
  consider (dead) "stranded now e" "qe_attempts e \<ge> qo_maxAttempts opts"
    | (take) "qe_status e = Q_submitted \<or> stranded now e" "\<not> (qe_attempts e \<ge> qo_maxAttempts opts \<and> stranded now e)"
    | (skip) "\<not> (qe_status e = Q_submitted \<or> stranded now e)" by blast
  then show ?case
  proof cases
    case dead
    then have "\<not> stranded now (e\<lparr>qe_status := Q_dead_letter\<rparr>)" by (simp add: stranded_def)
    with 2 dead show ?thesis by (simp add: Let_def visible_Cons less_Suc_eq split: if_split_asm)
  next
    case take
    then have "queue_claim opts w now timeout ((j, e) # q) = ((j, take_claim w now timeout e) # q, Some (handed_out w now j e))"
      by auto
    moreover have "\<not> stranded now (take_claim w now timeout e)" "qe_status (take_claim w now timeout e) = Q_building"
      using 2(3) by (simp_all add: stranded_def take_claim_def)
    ultimately show ?thesis using take by (simp add: visible_Cons del: queue_claim.simps)
  next
    case skip
    with 2 show ?thesis by (simp add: Let_def visible_Cons split: if_split_asm)
  qed
qed

fun claims :: "queue_options \<Rightarrow> string \<Rightarrow> instant \<Rightarrow> int \<Rightarrow> nat \<Rightarrow> build_queue \<Rightarrow> build_queue \<times> claimed_build list" where
  "claims opts w now timeout 0 q = (q, [])"
| "claims opts w now timeout (Suc n) q =
     (case queue_claim opts w now timeout q of
        (q', None) \<Rightarrow> (q', [])
      | (q', Some c) \<Rightarrow> (let r = claims opts w now timeout n q' in (fst r, c # snd r)))"

text \<open>No job is starved: claiming at one instant until nothing is left takes every job that waits or whose worker
  let its timeout pass, or parks it in the dead-letter state, after at most as many claims as there are
  such jobs.\<close>

theorem claims_drain_queue:
  assumes "0 < timeout" and "visible now q \<le> n"
  shows "visible now (fst (claims opts w now timeout (Suc n) q)) = 0 \<and> length (snd (claims opts w now timeout (Suc n) q)) \<le> n"
  using assms(2)
proof (induction n arbitrary: q)
  case 0
  then show ?case using claim_visible [OF assms(1), of opts w now q] by (auto split: prod.split option.split)
next
  case (Suc n)
  obtain q' r where c: "queue_claim opts w now timeout q = (q', r)" by fastforce
  show ?case
  proof (cases r)
    case None
    then show ?thesis using claim_visible [OF assms(1), of opts w now q] c by simp
  next
    case (Some x)
    then have "visible now q' \<le> n" using claim_visible [OF assms(1), of opts w now q] c Suc.prems by simp
    from Suc.IH [OF this] show ?thesis using c Some by (simp add: Let_def)
  qed
qed

theorem claims_drain_queue_witness:
  "visible 0 (fst (claims default_queue ''a'' 0 30000 3 (queue_run default_queue [Q_enqueue (example_build ''r''), Q_enqueue (example_build ''s'')] []))) = 0"
  using claims_drain_queue [of 30000 0 "queue_run default_queue [Q_enqueue (example_build ''r''), Q_enqueue (example_build ''s'')] []" 2
      default_queue "''a''"]
  by (simp add: visible_def js_values_def queue_eval numeral_3_eq_3 numeral_2_eq_2)

subsection \<open>The Postgres queue\<close>

text \<open>A row: the columns, and the fields of the jsonb \<open>record\<close> the queue reads and writes.\<close>

record queue_row =
  qr_status :: job_status
  qr_createdAt :: instant
  qr_updatedAt :: instant
  qr_rec_status :: job_status
  qr_rec_attempts :: "int option"
  qr_rec_claimedBy :: "string option"
  qr_rec_error :: "string option"
  qr_rec_job :: build_job

type_synonym queue_table = "(string, queue_row) js_map"

definition pgq_claimable :: "instant \<Rightarrow> queue_row \<Rightarrow> bool" where
  "pgq_claimable cutoff r \<longleftrightarrow> qr_status r = Submitted \<or> (qr_status r = Building \<and> qr_updatedAt r < cutoff)"

definition pgq_pick :: "instant \<Rightarrow> (string \<Rightarrow> bool) \<Rightarrow> queue_table \<Rightarrow> string option" where
  "pgq_pick cutoff is_locked q =
     (case sort_key (\<lambda>p. qr_createdAt (snd p)) (filter (\<lambda>p. pgq_claimable cutoff (snd p) \<and> \<not> is_locked (fst p)) q) of
        [] \<Rightarrow> None | p # _ \<Rightarrow> Some (fst p))"

definition pgq_claim :: "string \<Rightarrow> instant \<Rightarrow> int \<Rightarrow> (string \<Rightarrow> bool) \<Rightarrow> queue_table \<Rightarrow> queue_table \<times> claimed_build option" where
  "pgq_claim w now timeout is_locked q =
     (case pgq_pick (now - timeout) is_locked q of
        None \<Rightarrow> (q, None)
      | Some i \<Rightarrow>
          (let q' = js_modify i (\<lambda>r. r\<lparr>qr_status := Building, qr_updatedAt := now,
                      qr_rec_attempts := Some (or_zero (qr_rec_attempts r) + 1), qr_rec_claimedBy := Some w\<rparr>) q
           in (q', map_option (\<lambda>r. \<lparr>cb_recordId = i, cb_job = (qr_rec_job r)\<lparr>job_recordId := i\<rparr>,
                      cb_attempts = (case qr_rec_attempts r of None \<Rightarrow> 1 | Some n \<Rightarrow> n), cb_claimedAt = now, cb_claimedBy = w\<rparr>) (js_get q' i))))"

definition pgq_complete :: "instant \<Rightarrow> string \<Rightarrow> queue_table \<Rightarrow> queue_table \<times> bool" where
  "pgq_complete now i q =
     (js_modify i (\<lambda>r. if qr_status r = Building
        then r\<lparr>qr_status := VerifiedStatus, qr_updatedAt := now, qr_rec_status := VerifiedStatus\<rparr> else r) q,
      (case js_get q i of None \<Rightarrow> False | Some r \<Rightarrow> qr_status r = Building))"

definition pgq_fail :: "instant \<Rightarrow> string \<Rightarrow> string option \<Rightarrow> queue_table \<Rightarrow> queue_table" where
  "pgq_fail now i err =
     js_modify i (\<lambda>r. r\<lparr>qr_status := FailedStatus, qr_updatedAt := now, qr_rec_status := FailedStatus,
        qr_rec_error := Some (case err of None \<Rightarrow> ''build failed'' | Some m \<Rightarrow> m)\<rparr>)"

definition pgq_release :: "instant \<Rightarrow> string \<Rightarrow> queue_table \<Rightarrow> queue_table" where
  "pgq_release now i =
     js_modify i (\<lambda>r. if qr_status r = Building
       then r\<lparr>qr_status := Submitted, qr_updatedAt := now, qr_rec_status := Submitted\<rparr> else r)"

definition pgq_getJob :: "string \<Rightarrow> queue_table \<Rightarrow> (job_status \<times> int \<times> string option) option" where
  "pgq_getJob i q = map_option (\<lambda>r. (qr_status r, or_zero (qr_rec_attempts r), qr_rec_claimedBy r)) (js_get q i)"

definition pgq_strands :: "instant \<Rightarrow> queue_row \<Rightarrow> bool" where
  "pgq_strands cutoff r \<longleftrightarrow> qr_status r = Building \<and> qr_updatedAt r < cutoff"

definition pgq_reapStranded :: "queue_options \<Rightarrow> instant \<Rightarrow> queue_table \<Rightarrow> queue_table \<times> nat" where
  "pgq_reapStranded opts now q =
     (let cutoff = now - qo_visibility opts in
      (js_map_values (\<lambda>r. if pgq_strands cutoff r
         then r\<lparr>qr_status := Submitted, qr_updatedAt := now, qr_rec_status := Submitted\<rparr> else r) q,
       length (filter (pgq_strands cutoff) (js_values q))))"

definition pgq_size :: "queue_table \<Rightarrow> nat" where
  "pgq_size q = length (filter (\<lambda>r. active (qr_status r)) (js_values q))"

lemma pgq_claim_single:
  assumes "pgq_claimable (now - timeout) r" "\<not> is_locked i"
  shows "fst (pgq_claim w now timeout is_locked [(i, r)]) =
     [(i, r\<lparr>qr_status := Building, qr_updatedAt := now, qr_rec_attempts := Some (or_zero (qr_rec_attempts r) + 1),
            qr_rec_claimedBy := Some w\<rparr>)]"
  using assms by (simp add: pgq_claim_def pgq_pick_def js_modify_def Let_def)

text \<open>Claims of workers that crash, one after another, each a millisecond after the timeout of the last.\<close>

fun crashing_claims :: "int \<Rightarrow> nat \<Rightarrow> queue_table \<Rightarrow> queue_table" where
  "crashing_claims timeout 0 q = q"
| "crashing_claims timeout (Suc n) q =
     fst (pgq_claim ''w'' (int n * (timeout + 1)) timeout (\<lambda>_. False) (crashing_claims timeout n q))"

text \<open>The Postgres queue has no limit on the attempts: a job whose workers crash is handed out again after every
  timeout, any number of times, although the factory takes \<open>maxAttempts\<close> and the in-memory twin, announced
  to have identical semantics, parks the job as dead.\<close>

theorem pg_queue_never_dead_letters:
  assumes "qr_status r = Submitted" and "qr_rec_attempts r = None"
  shows "pgq_getJob i (crashing_claims timeout (Suc n) [(i, r)]) = Some (Building, int n + 1, Some ''w'')
     \<and> (0 < qo_maxAttempts opts \<and> \<not> list_ex is_release ops
        \<longrightarrow> (\<forall>st k w. queue_getJob i (queue_run opts ops []) = Some (st, k, w) \<longrightarrow> k \<le> qo_maxAttempts opts))"
proof -
  have "\<exists>r'. crashing_claims timeout (Suc n) [(i, r)] = [(i, r')] \<and> qr_status r' = Building \<and> qr_rec_attempts r' = Some (int n + 1)
      \<and> qr_rec_claimedBy r' = Some ''w'' \<and> qr_updatedAt r' = int n * (timeout + 1)"
  proof (induction n)
    case 0
    show ?case using assms pgq_claim_single [of 0 timeout r "\<lambda>_. False" i] by (simp add: pgq_claimable_def or_zero_def)
  next
    case (Suc n)
    then obtain r' where r': "crashing_claims timeout (Suc n) [(i, r)] = [(i, r')]" "qr_status r' = Building"
      "qr_rec_attempts r' = Some (int n + 1)" "qr_updatedAt r' = int n * (timeout + 1)" by blast
    have "int (Suc n) * (timeout + 1) - timeout = int n * (timeout + 1) + 1" by (simp add: algebra_simps)
    then have "pgq_claimable (int (Suc n) * (timeout + 1) - timeout) r'"
      using r'(2,4) by (simp add: pgq_claimable_def)
    note step = pgq_claim_single [where is_locked = "\<lambda>_. False" and i = i and w = "''w''", OF this, simplified]
    have "crashing_claims timeout (Suc (Suc n)) [(i, r)]
        = fst (pgq_claim ''w'' (int (Suc n) * (timeout + 1)) timeout (\<lambda>_. False) (crashing_claims timeout (Suc n) [(i, r)]))"
      by (simp only: crashing_claims.simps)
    with step r' show ?case by (simp add: or_zero_def)
  qed
  moreover have "k \<le> qo_maxAttempts opts"
    if "0 < qo_maxAttempts opts" "\<not> list_ex is_release ops" "queue_getJob i (queue_run opts ops []) = Some (st, k, w)" for st k w
  proof -
    have "attempts_bounded opts (queue_run opts ops [])"
      by (rule run_bounded) (use that in \<open>auto simp: attempts_bounded_def\<close>)
    with that(3) show ?thesis by (auto simp: queue_getJob_def dest: attempts_boundedD)
  qed
  ultimately show ?thesis by (auto simp: pgq_getJob_def or_zero_def)
qed

definition example_queue_row :: queue_row where
  "example_queue_row =
     \<lparr>qr_status = Submitted, qr_createdAt = 0, qr_updatedAt = 0, qr_rec_status = Submitted, qr_rec_attempts = None,
      qr_rec_claimedBy = None, qr_rec_error = None, qr_rec_job = example_build ''r''\<rparr>"

theorem pg_queue_never_dead_letters_witness:
  "pgq_getJob ''r'' (crashing_claims 30000 1000 [(''r'', example_queue_row)]) = Some (Building, 1000, Some ''w'')"
  using pg_queue_never_dead_letters [of example_queue_row "''r''" 30000 999] by (simp add: example_queue_row_def)

text \<open>A claim leaves the status inside the record behind, so the record that is read back says it still waits.\<close>

lemma pg_claim_keeps_record_status:
  "js_get (fst (pgq_claim w now timeout is_locked q)) i = Some r' \<Longrightarrow> \<exists>r. js_get q i = Some r \<and> qr_rec_status r' = qr_rec_status r"
  by (auto simp: pgq_claim_def Let_def split: option.splits if_splits)

end
