(* ===== verification/VerificationApi.thy ===== *)
theory VerificationApi
  imports VerificationQueue Keyset PolicyTemplates
begin

text \<open>
  The verification service's API, \<open>services/verification-service/src/server.ts\<close>, and its repositories, in
  memory and in Postgres (\<open>db/pg-repository.ts\<close>).  A submission runs concurrently with others: it is a
  program counter that moves at every \<open>await\<close>, and a step relation interleaves the submissions with each
  other and with the build worker.  Timestamps are instants; both text orders the code uses on the
  results of \<open>toISOString\<close> agree with the order of the instants.  \<open>new URL\<close> is an argument.
\<close>

subsection \<open>Records\<close>

record verification_record =
  vr_id :: string
  vr_contractId :: string
  vr_input :: build_input
  vr_lockfileHash :: "string option"
  vr_traceId :: "string option"
  vr_traceParentSpanId :: "string option"
  vr_outputHash :: "string option"
  vr_deployedHash :: "string option"
  vr_matchMode :: "match_mode option"
  vr_log :: "string option"
  vr_statusDetail :: "string option"
  vr_status :: job_status
  vr_createdAt :: instant
  vr_updatedAt :: instant
  vr_extra :: "(string, json) js_map"

text \<open>What \<open>toPublic\<close> leaves: the archive reference, the lockfile hash, the log and the trace context are taken
  out by name, every other field stays, also those only the table knows (\<open>vr_extra\<close>).\<close>

record public_record =
  pub_id :: string
  pub_contractId :: string
  pub_sourceType :: source_type
  pub_repoUrl :: "string option"
  pub_commitHash :: "string option"
  pub_toolchainVersion :: string
  pub_buildFlags :: "string list option"
  pub_outputHash :: "string option"
  pub_deployedHash :: "string option"
  pub_matchMode :: "match_mode option"
  pub_statusDetail :: "string option"
  pub_status :: job_status
  pub_createdAt :: instant
  pub_updatedAt :: instant
  pub_extra :: "(string, json) js_map"

definition toPublic :: "verification_record \<Rightarrow> public_record" where
  "toPublic r =
     \<lparr>pub_id = vr_id r, pub_contractId = vr_contractId r, pub_sourceType = sourceType (vr_input r),
      pub_repoUrl = repoUrl (vr_input r), pub_commitHash = commitHash (vr_input r),
      pub_toolchainVersion = toolchainVersion (vr_input r), pub_buildFlags = buildFlags (vr_input r),
      pub_outputHash = vr_outputHash r, pub_deployedHash = vr_deployedHash r, pub_matchMode = vr_matchMode r,
      pub_statusDetail = vr_statusDetail r, pub_status = vr_status r, pub_createdAt = vr_createdAt r,
      pub_updatedAt = vr_updatedAt r, pub_extra = vr_extra r\<rparr>"

subsection \<open>The in-memory repository\<close>

type_synonym record_store = "(string, verification_record) js_map"

definition insert_record :: "verification_record \<Rightarrow> record_store \<Rightarrow> record_store" where
  "insert_record r = js_set (vr_id r) r"

definition find_record :: "string \<Rightarrow> record_store \<Rightarrow> verification_record option" where
  "find_record i m = js_get m i"

text \<open>Newest first; the sort is stable.\<close>

definition findByContract :: "string \<Rightarrow> record_store \<Rightarrow> verification_record list" where
  "findByContract c m = sort_key (\<lambda>r. - vr_createdAt r) (filter (\<lambda>r. vr_contractId r = c) (js_values m))"

definition update_record :: "verification_record \<Rightarrow> record_store \<Rightarrow> record_store" where
  "update_record r = js_set (vr_id r) r"

definition countActive :: "record_store \<Rightarrow> nat" where
  "countActive m = length (filter (\<lambda>r. active (vr_status r)) (js_values m))"

definition hasActiveForContract :: "string \<Rightarrow> record_store \<Rightarrow> bool" where
  "hasActiveForContract c m = list_ex (\<lambda>r. vr_contractId r = c \<and> active (vr_status r)) (js_values m)"

definition encodeVerificationCursor :: "string \<Rightarrow> string \<Rightarrow> string" where
  "encodeVerificationCursor createdAt i = encode_position (createdAt, i)"

definition decodeVerificationCursor :: "string \<Rightarrow> (string \<times> string) option" where
  "decodeVerificationCursor cursor = decode_position cursor"

definition record_pos :: "(instant \<Rightarrow> string) \<Rightarrow> verification_record \<Rightarrow> position" where
  "record_pos toISO r = (toISO (vr_createdAt r), vr_id r)"

definition status_wanted :: "job_status option \<Rightarrow> verification_record \<Rightarrow> bool" where
  "status_wanted st r = (case st of None \<Rightarrow> True | Some s \<Rightarrow> vr_status r = s)"

definition listRecordPage ::
  "(instant \<Rightarrow> string) \<Rightarrow> record_store \<Rightarrow> job_status option \<Rightarrow> nat \<Rightarrow> string option
   \<Rightarrow> (verification_record list \<times> bool \<times> string option) option" where
  "listRecordPage toISO m st limit after = memory_page (record_pos toISO) (js_values m, status_wanted st) limit after"

lemma verification_cursor_round_trip:
  "t \<noteq> [] \<Longrightarrow> i \<noteq> [] \<Longrightarrow> CHR '':'' \<notin> set i \<Longrightarrow> decodeVerificationCursor (encodeVerificationCursor t i) = Some (t, i)"
  by (simp add: decodeVerificationCursor_def encodeVerificationCursor_def decode_encode_position cursor_safe_def)

subsection \<open>The Postgres repository\<close>

text \<open>The scalar columns and the jsonb \<open>record\<close>; rows of equal creation time come in table order.\<close>

record record_row =
  row_contractId :: string
  row_status :: job_status
  row_createdAt :: instant
  row_updatedAt :: instant
  row_record :: verification_record

type_synonym record_table = "(string, record_row) js_map"

definition toRow :: "verification_record \<Rightarrow> record_row" where
  "toRow r = \<lparr>row_contractId = vr_contractId r, row_status = vr_status r, row_createdAt = vr_createdAt r,
              row_updatedAt = vr_updatedAt r, row_record = r\<rparr>"

text \<open>A duplicate id violates the primary key.\<close>

definition pg_insert_record :: "verification_record \<Rightarrow> record_table \<Rightarrow> record_table option" where
  "pg_insert_record r t = (if js_has t (vr_id r) then None else Some (js_set (vr_id r) (toRow r) t))"

definition pg_find_record :: "string \<Rightarrow> record_table \<Rightarrow> verification_record option" where
  "pg_find_record i t = map_option row_record (js_get t i)"

definition pg_findByContract :: "string \<Rightarrow> record_table \<Rightarrow> verification_record list" where
  "pg_findByContract c t =
     map row_record (sort_key (\<lambda>r. - row_createdAt r) (filter (\<lambda>r. row_contractId r = c) (js_values t)))"

definition pg_update_record :: "verification_record \<Rightarrow> record_table \<Rightarrow> record_table" where
  "pg_update_record r =
     js_modify (vr_id r) (\<lambda>row. row\<lparr>row_status := vr_status r, row_updatedAt := vr_updatedAt r, row_record := r\<rparr>)"

definition pg_count_active :: "record_table \<Rightarrow> nat" where
  "pg_count_active t = length (filter (\<lambda>r. active (row_status r)) (js_values t))"

definition pg_has_active :: "string \<Rightarrow> record_table \<Rightarrow> bool" where
  "pg_has_active c t = list_ex (\<lambda>r. row_contractId r = c \<and> active (row_status r)) (js_values t)"

definition row_pos :: "string \<times> record_row \<Rightarrow> instant position_of" where
  "row_pos p = (row_createdAt (snd p), fst p)"

definition pg_listRecordPage ::
  "(instant \<Rightarrow> string) \<Rightarrow> (string \<Rightarrow> instant option) \<Rightarrow> record_table \<Rightarrow> job_status option \<Rightarrow> nat \<Rightarrow> string option
   \<Rightarrow> (verification_record list \<times> bool \<times> string option) option" where
  "pg_listRecordPage toISO parseISO t st limit after =
     map_option (\<lambda>(rows, more, nxt). (map (\<lambda>p. row_record (snd p)) rows, more, nxt))
       (pg_page toISO parseISO row_pos
          (t, \<lambda>p. case st of None \<Rightarrow> True | Some s \<Rightarrow> row_status (snd p) = s) limit after)"

text \<open>The table that mirrors a store, row by row.\<close>

definition mirrors :: "record_table \<Rightarrow> record_store \<Rightarrow> bool" where
  "mirrors t m \<longleftrightarrow> js_ok m \<and> t = js_map_values toRow m \<and> (\<forall>i r. js_get m i = Some r \<longrightarrow> vr_id r = i)"

datatype repository_call =
    Insert_record verification_record
  | Update_record verification_record
  | Find_record string
  | Count_active
  | Has_active string
  | List_contract string

datatype repository_answer =
    Stored_record
  | Found_record "verification_record option"
  | Number nat
  | Truth bool
  | Records "verification_record list"

fun mem_repository :: "repository_call \<Rightarrow> record_store \<Rightarrow> record_store \<times> repository_answer" where
  "mem_repository (Insert_record r) m = (insert_record r m, Stored_record)"
| "mem_repository (Update_record r) m = (update_record r m, Stored_record)"
| "mem_repository (Find_record i) m = (m, Found_record (find_record i m))"
| "mem_repository Count_active m = (m, Number (countActive m))"
| "mem_repository (Has_active c) m = (m, Truth (hasActiveForContract c m))"
| "mem_repository (List_contract c) m = (m, Records (findByContract c m))"

fun pg_repository :: "repository_call \<Rightarrow> record_table \<Rightarrow> (record_table \<times> repository_answer) option" where
  "pg_repository (Insert_record r) t = map_option (\<lambda>t'. (t', Stored_record)) (pg_insert_record r t)"
| "pg_repository (Update_record r) t = Some (pg_update_record r t, Stored_record)"
| "pg_repository (Find_record i) t = Some (t, Found_record (pg_find_record i t))"
| "pg_repository Count_active t = Some (t, Number (pg_count_active t))"
| "pg_repository (Has_active c) t = Some (t, Truth (pg_has_active c t))"
| "pg_repository (List_contract c) t = Some (t, Records (pg_findByContract c t))"

text \<open>What the callers keep to: a fresh id for an insert, an update of a stored record that keeps the contract and the creation time.\<close>

fun call_ok :: "record_store \<Rightarrow> repository_call \<Rightarrow> bool" where
  "call_ok m (Insert_record r) = (\<not> js_has m (vr_id r))"
| "call_ok m (Update_record r) =
     (case js_get m (vr_id r) of None \<Rightarrow> False
      | Some r0 \<Rightarrow> vr_contractId r = vr_contractId r0 \<and> vr_createdAt r = vr_createdAt r0)"
| "call_ok m _ = True"

fun calls_ok :: "record_store \<Rightarrow> repository_call list \<Rightarrow> bool" where
  "calls_ok m [] = True"
| "calls_ok m (c # cs) = (call_ok m c \<and> calls_ok (fst (mem_repository c m)) cs)"

fun mem_answers :: "record_store \<Rightarrow> repository_call list \<Rightarrow> repository_answer list" where
  "mem_answers m [] = []"
| "mem_answers m (c # cs) = snd (mem_repository c m) # mem_answers (fst (mem_repository c m)) cs"

fun pg_answers :: "record_table \<Rightarrow> repository_call list \<Rightarrow> repository_answer list option" where
  "pg_answers t [] = Some []"
| "pg_answers t (c # cs) =
     (case pg_repository c t of None \<Rightarrow> None | Some (t', a) \<Rightarrow> map_option (Cons a) (pg_answers t' cs))"

lemma js_map_values_set_new: "\<not> js_has m k \<Longrightarrow> js_map_values f (js_set k v m) = js_set k (f v) (js_map_values f m)"
  by (induction k v m rule: js_set.induct) (auto simp: js_map_values_def js_has_def)

lemma js_has_map_values [simp]: "js_has (js_map_values f m) k = js_has m k"
  by (simp add: js_has_def)

lemma js_set_as_modify:
  "js_ok m \<Longrightarrow> js_get m k = Some v0 \<Longrightarrow> js_map_values f (js_set k v m) = js_modify k (\<lambda>_. f v) (js_map_values f m)"
proof (induction k v m rule: js_set.induct)
  case (2 k v k' v' m)
  have "js_modify k g (js_map_values f m) = js_map_values f m" if "k \<notin> fst ` set m" for g
    using that by (force simp: js_modify_def js_map_values_def)
  with 2 show ?case by (auto simp: js_ok_def js_map_values_def js_modify_def split: if_splits)
qed simp

lemma mirrors_columns:
  assumes "mirrors t m"
  shows "js_values t = map toRow (js_values m)"
  using assms by (simp add: mirrors_def)

lemma repository_call_simulates:
  assumes mir: "mirrors t m" and ok: "call_ok m c"
  shows "\<exists>t'. pg_repository c t = Some (t', snd (mem_repository c m)) \<and> mirrors t' (fst (mem_repository c m))"
proof (cases c)
  case (Insert_record r)
  with mir ok show ?thesis
    by (auto simp: pg_insert_record_def mirrors_def insert_record_def js_map_values_set_new)
next
  case (Update_record r)
  with ok obtain r0 where r0: "js_get m (vr_id r) = Some r0" "vr_contractId r = vr_contractId r0" "vr_createdAt r = vr_createdAt r0"
    by (auto split: option.splits)
  have "pg_update_record r t = js_modify (vr_id r) (\<lambda>_. toRow r) t"
  proof -
    have "(i, row) \<in> set t \<Longrightarrow> i = vr_id r \<Longrightarrow> row = toRow r0" for i row
      using mir r0(1) by (auto simp: mirrors_def js_map_values_def js_get_Some_iff [symmetric])
    with r0(2,3) show ?thesis by (force simp: pg_update_record_def js_modify_def toRow_def)
  qed
  with mir r0(1) Update_record show ?thesis
    by (auto simp: mirrors_def update_record_def js_set_as_modify)
qed (use mir in \<open>auto simp: pg_find_record_def find_record_def pg_count_active_def countActive_def pg_has_active_def
      hasActiveForContract_def pg_findByContract_def findByContract_def mirrors_columns filter_map toRow_def o_def
      list_ex_iff mirrors_def option.map_comp option.map_ident sort_key_map\<close>)


definition example_stored :: "string \<Rightarrow> verification_record" where
  "example_stored i = \<lparr>vr_id = i, vr_contractId = ''c'',
     vr_input = \<lparr>sourceType = UploadSource, repoUrl = None, commitHash = None, sourceArchiveRef = Some ''a'',
       toolchainVersion = ''1'', buildFlags = None\<rparr>,
     vr_lockfileHash = None, vr_traceId = None, vr_traceParentSpanId = None, vr_outputHash = None, vr_deployedHash = None,
     vr_matchMode = None, vr_log = None, vr_statusDetail = None, vr_status = Submitted, vr_createdAt = 1, vr_updatedAt = 1,
     vr_extra = []\<rparr>"


text \<open>Both listings visit every record once; the laws are those of \<open>keyset_listing\<close>.\<close>

definition records_named :: "(instant \<Rightarrow> string) \<Rightarrow> record_store \<Rightarrow> bool" where
  "records_named toISO m \<longleftrightarrow> js_ok m \<and> (\<forall>t. toISO t \<noteq> [])
     \<and> (\<forall>(i, r)\<in>set m. vr_id r = i \<and> i \<noteq> [] \<and> CHR '':'' \<notin> set i)"

lemma named_records_proper:
  assumes "records_named toISO m" shows "memory_proper (record_pos toISO) (js_values m, status_wanted st)"
proof -
  have "map vr_id (js_values m) = map fst m"
    using assms by (auto simp: records_named_def js_values_def)
  then have "distinct (map vr_id (js_values m))" using assms by (simp add: records_named_def js_ok_def)
  then have "distinct (map (record_pos toISO) (js_values m))"
    by (auto simp: distinct_map inj_on_def record_pos_def)
  then show ?thesis using assms
    by (auto simp: memory_proper_def records_named_def cursor_safe_def record_pos_def js_values_def)
qed

lemma record_pages_complete:
  assumes "records_named toISO m" "0 < limit" "length (js_values m) < n"
  shows "concat (memory_listing.walk (record_pos toISO) n (js_values m, status_wanted st) limit None)
    = sort_desc (record_pos toISO) (filter (status_wanted st) (js_values m))"
proof -
  have e: "memory_entries (record_pos toISO) (js_values m, status_wanted st)
      = sort_desc (record_pos toISO) (filter (status_wanted st) (js_values m))"
    by (simp add: memory_entries_def)
  have "length (memory_entries (record_pos toISO) (js_values m, status_wanted st)) < n"
    using assms(3) length_filter_le [of "status_wanted st" "js_values m"] unfolding e by (metis le_less_trans mset_sort_desc size_mset)
  with memory_listing.walk_visits_all [OF named_records_proper [OF assms(1)] assms(2)] e show ?thesis by simp
qed

subsection \<open>The body of a submission\<close>

definition contractIdSchema :: "string \<Rightarrow> bool" where
  "contractIdSchema s = strkey ''C'' s"

definition commit_ok :: "string \<Rightarrow> bool" where
  "commit_ok s \<longleftrightarrow> 7 \<le> length s \<and> length s \<le> 40 \<and> list_all (\<lambda>c. hex_digit c \<noteq> None) s"

definition base_body_ok :: "(string \<Rightarrow> bool) \<Rightarrow> json \<Rightarrow> bool" where
  "base_body_ok is_url b \<longleftrightarrow>
     required b ''contractId'' (str_ok contractIdSchema)
   \<and> required b ''sourceType'' (str_ok (\<lambda>s. s = ''repo'' \<or> s = ''upload''))
   \<and> optional b ''repoUrl'' (str_ok is_url)
   \<and> optional b ''commitHash'' (str_ok commit_ok)
   \<and> optional b ''sourceArchiveRef'' (str_ok (\<lambda>s. s \<noteq> []))
   \<and> required b ''toolchainVersion'' (str_ok (\<lambda>s. s \<noteq> []))
   \<and> optional b ''buildFlags'' (arr_ok (list_all (str_ok (\<lambda>s. True))))
   \<and> optional b ''lockfileHash'' (str_ok (\<lambda>s. s \<noteq> []))"

text \<open>The refinement runs on bodies that satisfy the schema.\<close>

definition submitBodySchema :: "(string \<Rightarrow> bool) \<Rightarrow> json \<Rightarrow> bool" where
  "submitBodySchema is_url b \<longleftrightarrow> base_body_ok is_url b
     \<and> (if str_fld b ''sourceType'' = Some ''repo'' then truthy (str_fld b ''repoUrl'') \<and> truthy (str_fld b ''commitHash'')
        else truthy (str_fld b ''sourceArchiveRef''))"

record submit_input =
  si_contractId :: string
  si_build :: build_input
  si_lockfileHash :: "string option"

definition submitted_input :: "json \<Rightarrow> submit_input" where
  "submitted_input b =
     \<lparr>si_contractId = the_str (str_fld b ''contractId''),
      si_build =
        \<lparr>sourceType = (if str_fld b ''sourceType'' = Some ''repo'' then RepoSource else UploadSource),
         repoUrl = str_fld b ''repoUrl'', commitHash = str_fld b ''commitHash'', sourceArchiveRef = str_fld b ''sourceArchiveRef'',
         toolchainVersion = the_str (str_fld b ''toolchainVersion''),
         buildFlags = map_option strings_of (arr_fld b ''buildFlags'')\<rparr>,
      si_lockfileHash = str_fld b ''lockfileHash''\<rparr>"

definition buildable :: "build_input \<Rightarrow> bool" where
  "buildable i \<longleftrightarrow> (case sourceType i of
      RepoSource \<Rightarrow> truthy (repoUrl i) \<and> (\<exists>c. commitHash i = Some c \<and> commit_ok c)
    | UploadSource \<Rightarrow> truthy (sourceArchiveRef i))"

text \<open>Every body the schema accepts is read into a well-formed submission: a contract address, a toolchain, and for a
  repository its URL and a hexadecimal commit, for an upload its archive; no job that cannot be reproduced
  passes.\<close>

theorem accepted_body_buildable:
  assumes "submitBodySchema is_url b"
  shows "contractIdSchema (si_contractId (submitted_input b)) \<and> buildable (si_build (submitted_input b))
    \<and> toolchainVersion (si_build (submitted_input b)) \<noteq> []"
proof -
  have str: "str_ok P j \<longleftrightarrow> (\<exists>s. j = JStr s \<and> P s)" for P j by (cases j) (auto simp: str_ok_def)
  from assms obtain c ty tv where f: "fld b ''contractId'' = Some (JStr c)" "contractIdSchema c"
    "fld b ''sourceType'' = Some (JStr ty)" "ty = ''repo'' \<or> ty = ''upload''"
    "fld b ''toolchainVersion'' = Some (JStr tv)" "tv \<noteq> []"
    by (auto simp: submitBodySchema_def base_body_ok_def required_def str split: option.splits)
  have commit: "commit_ok h" if "str_fld b ''commitHash'' = Some h" for h
    using assms that by (auto simp: submitBodySchema_def base_body_ok_def optional_def str str_fld_def split: option.splits)
  have "str_fld b ''sourceType'' = Some ty" using f by (simp add: str_fld_def)
  with assms f commit show ?thesis
    by (auto simp: submitBodySchema_def submitted_input_def buildable_def the_str_def str_fld_def truthy_def split: option.splits)
qed

definition example_body :: json where
  "example_body = JObj [(''contractId'', JStr (CHR ''C'' # replicate 55 (CHR ''A''))), (''sourceType'', JStr ''upload''),
     (''sourceArchiveRef'', JStr ''a''), (''toolchainVersion'', JStr ''1'')]"

abbreviation example_contract :: string where
  "example_contract \<equiv> CHR ''C'' # replicate 55 (CHR ''A'')"

lemma example_contract_ok: "contractIdSchema example_contract"
  by (simp add: contractIdSchema_def strkey_def del: replicate.simps)

theorem accepted_body_buildable_witness:
  "buildable (si_build (submitted_input example_body)) \<and> si_contractId (submitted_input example_body) = example_contract"
proof -
  have "submitBodySchema (\<lambda>_. True) example_body"
    using example_contract_ok
    by (simp add: submitBodySchema_def base_body_ok_def required_def optional_def str_ok_def str_fld_def example_body_def
      truthy_def del: replicate.simps)
  from accepted_body_buildable [OF this] show ?thesis
    by (simp add: submitted_input_def example_body_def the_str_def str_fld_def del: replicate.simps)
qed

end
