(* ===== verification/VerificationSubmit.thy ===== *)
theory VerificationSubmit
  imports VerificationApi
begin

text \<open>
  The routes of \<open>services/verification-service/src/server.ts\<close>.  A submission is a program counter that
  moves from \<open>await\<close> to \<open>await\<close>; a step runs the statement it waits for and the code up to the next
  one.  Any number \<open>k\<close> of submissions run side by side with the build worker, which changes the status of
  active records.
\<close>

record submit_request = submit_input +
  sr_traceId :: "string option"
  sr_traceParentSpanId :: "string option"

datatype api_reply =
    Api_error nat string
  | In_progress job_status "public_record option"
  | Created public_record
  | Threw

datatype submit_pc =
    Waiting nat
  | Counting submit_request
  | Deduping submit_request
  | Inserting nat verification_record
  | Enqueuing verification_record
  | Replied api_reply

text \<open>The map \<open>inFlightContracts\<close> holds, per contract, a holder (numbered here) and its record once it is stored;
  \<open>resolved\<close> are the promises of holders that have settled.\<close>

record api_state =
  store :: record_store
  inFlight :: "(string, nat \<times> verification_record option) js_map"
  resolved :: "(nat, verification_record) js_map"
  nextHolder :: nat
  requests :: "submit_pc list"
  jobs :: "build_job list"

record api_env =
  ae_is_url :: "string \<Rightarrow> bool"
  ae_maxActive :: nat

definition in_progress_reply :: "verification_record option \<Rightarrow> api_reply" where
  "in_progress_reply r = In_progress (case r of None \<Rightarrow> Submitted | Some x \<Rightarrow> vr_status x) (map_option toPublic r)"

definition submitted_request :: "json \<Rightarrow> string option \<Rightarrow> string option \<Rightarrow> submit_request" where
  "submitted_request b tid sid =
     submit_input.extend (submitted_input b) \<lparr>sr_traceId = tid, sr_traceParentSpanId = sid\<rparr>"

definition receive :: "api_env \<Rightarrow> json \<Rightarrow> string option \<Rightarrow> string option \<Rightarrow> api_state \<Rightarrow> submit_pc" where
  "receive env b tid sid s =
     (if \<not> submitBodySchema (ae_is_url env) b then Replied (Api_error 400 ''invalid_body'')
      else
        (let req = submitted_request b tid sid in
         case js_get (inFlight s) (si_contractId req) of
           Some (h, Some r) \<Rightarrow> Replied (in_progress_reply (Some r))
         | Some (h, None) \<Rightarrow> Waiting h
         | None \<Rightarrow> Counting req))"

definition count_submission :: "api_env \<Rightarrow> submit_request \<Rightarrow> api_state \<Rightarrow> submit_pc" where
  "count_submission env req s =
     (if ae_maxActive env \<le> countActive (store s) then Replied (Api_error 429 ''queue_full'') else Deduping req)"

definition new_record :: "instant \<Rightarrow> string \<Rightarrow> submit_request \<Rightarrow> verification_record" where
  "new_record now i req =
     \<lparr>vr_id = i, vr_contractId = si_contractId req, vr_input = si_build req, vr_lockfileHash = si_lockfileHash req,
      vr_traceId = sr_traceId req, vr_traceParentSpanId = sr_traceParentSpanId req, vr_outputHash = None,
      vr_deployedHash = None, vr_matchMode = None, vr_log = None, vr_statusDetail = None, vr_status = Submitted,
      vr_createdAt = now, vr_updatedAt = now, vr_extra = []\<rparr>"

definition dedup_submission :: "instant \<Rightarrow> string \<Rightarrow> submit_request \<Rightarrow> api_state \<Rightarrow> api_state \<times> submit_pc" where
  "dedup_submission now i req s =
     (if hasActiveForContract (si_contractId req) (store s) then
        (s, Replied (in_progress_reply (find (\<lambda>r. active (vr_status r)) (findByContract (si_contractId req) (store s)))))
      else
        (s\<lparr>inFlight := js_set (si_contractId req) (nextHolder s, None) (inFlight s), nextHolder := Suc (nextHolder s)\<rparr>,
         Inserting (nextHolder s) (new_record now i req)))"

definition hold_record :: "nat \<Rightarrow> verification_record \<Rightarrow> nat \<times> verification_record option \<Rightarrow> nat \<times> verification_record option" where
  "hold_record h r = (\<lambda>(h', x). if h' = h then (h', Some r) else (h', x))"

definition store_submission :: "nat \<Rightarrow> verification_record \<Rightarrow> api_state \<Rightarrow> api_state" where
  "store_submission h r s =
     s\<lparr>store := insert_record r (store s), resolved := js_set h r (resolved s),
       inFlight := js_modify (vr_contractId r) (hold_record h r) (inFlight s)\<rparr>"

definition leave_flight :: "verification_record \<Rightarrow> api_state \<Rightarrow> api_state" where
  "leave_flight r s = s\<lparr>inFlight := js_delete (vr_contractId r) (inFlight s)\<rparr>"

definition build_job_of :: "verification_record \<Rightarrow> build_job" where
  "build_job_of r = build_input.extend (vr_input r)
     \<lparr>job_recordId = vr_id r, job_contractId = vr_contractId r, job_traceId = vr_traceId r,
      job_traceParentSpanId = vr_traceParentSpanId r\<rparr>"

definition enqueue_submission :: "bool \<Rightarrow> verification_record \<Rightarrow> api_state \<Rightarrow> api_state" where
  "enqueue_submission queue_up r s =
     leave_flight r (if queue_up then s\<lparr>jobs := jobs s @ [build_job_of r]\<rparr> else s)"

definition live :: "submit_pc \<Rightarrow> bool" where
  "live p \<longleftrightarrow> (case p of Replied _ \<Rightarrow> False | _ \<Rightarrow> True)"

inductive api_step :: "nat \<Rightarrow> api_env \<Rightarrow> api_state \<Rightarrow> api_state \<Rightarrow> bool" for k env where
  arrives: "tasks live (requests s) < k \<Longrightarrow>
     api_step k env s (s\<lparr>requests := requests s @ [receive env b tid sid s]\<rparr>)"
| counts: "j < length (requests s) \<Longrightarrow> requests s ! j = Counting req \<Longrightarrow>
     api_step k env s (s\<lparr>requests := (requests s)[j := count_submission env req s]\<rparr>)"
| dedups: "j < length (requests s) \<Longrightarrow> requests s ! j = Deduping req \<Longrightarrow> dedup_submission now i req s = (s', p) \<Longrightarrow>
     api_step k env s (s'\<lparr>requests := (requests s')[j := p]\<rparr>)"
| stores: "j < length (requests s) \<Longrightarrow> requests s ! j = Inserting h r \<Longrightarrow> \<not> js_has (store s) (vr_id r) \<Longrightarrow>
     api_step k env s ((store_submission h r s)\<lparr>requests := (requests s)[j := Enqueuing r]\<rparr>)"
| insert_fails: "j < length (requests s) \<Longrightarrow> requests s ! j = Inserting h r \<Longrightarrow>
     api_step k env s ((leave_flight r s)\<lparr>requests := (requests s)[j := Replied Threw]\<rparr>)"
| enqueues: "j < length (requests s) \<Longrightarrow> requests s ! j = Enqueuing r \<Longrightarrow>
     api_step k env s ((enqueue_submission up r s)\<lparr>requests := (requests s)[j := Replied (Created (toPublic r))]\<rparr>)"
| wakes: "j < length (requests s) \<Longrightarrow> requests s ! j = Waiting h \<Longrightarrow> js_get (resolved s) h = Some r \<Longrightarrow>
     api_step k env s (s\<lparr>requests := (requests s)[j := Replied (in_progress_reply (Some r))]\<rparr>)"
| builds: "js_get (store s) i = Some r \<Longrightarrow> active (vr_status r) \<Longrightarrow>
     api_step k env s (s\<lparr>store := js_modify i (\<lambda>r. r\<lparr>vr_status := st\<rparr>) (store s)\<rparr>)"

definition idle_api :: "record_store \<Rightarrow> api_state" where
  "idle_api m = \<lparr>store = m, inFlight = [], resolved = [], nextHolder = 0, requests = [], jobs = []\<rparr>"

subsection \<open>Counting active records\<close>

lemma countActive_insert:
  "\<not> js_has m (vr_id r) \<Longrightarrow> countActive (insert_record r m) = countActive m + (if active (vr_status r) then 1 else 0)"
  by (simp add: insert_record_def js_set_new countActive_def js_values_def)

lemma countActive_build:
  assumes "js_ok m" "js_get m i = Some r" "active (vr_status r)"
  shows "countActive (js_modify i (\<lambda>r. r\<lparr>vr_status := st\<rparr>) m) \<le> countActive m"
  unfolding countActive_def
  by (rule filter_modify_length) (use assms in \<open>auto simp: js_get_Some_iff [symmetric]\<close>)

lemma hasActive_iff:
  "hasActiveForContract c m \<longleftrightarrow> (\<exists>r\<in>set (js_values m). vr_contractId r = c \<and> active (vr_status r))"
  by (auto simp: hasActiveForContract_def list_ex_iff)

subsection \<open>The cap\<close>

definition pending :: "submit_pc \<Rightarrow> bool" where
  "pending p \<longleftrightarrow> (case p of Deduping _ \<Rightarrow> True | Inserting _ _ \<Rightarrow> True | _ \<Rightarrow> False)"

lemma live_simps [simp]: "live (Waiting h)" "live (Counting q)" "live (Deduping q)" "live (Inserting h r)" "live (Enqueuing r)"
    "\<not> live (Replied a)"
  by (simp_all add: live_def)

lemma pending_simps [simp]: "\<not> pending (Waiting h)" "\<not> pending (Counting q)" "pending (Deduping q)" "pending (Inserting h r)"
    "\<not> pending (Enqueuing r)" "\<not> pending (Replied a)"
  by (simp_all add: pending_def)

lemma pending_live: "pending p \<Longrightarrow> live p"
  by (cases p) auto

lemma receive_shape: "\<not> pending (receive env b tid sid s)"
  by (auto simp: receive_def Let_def split: option.split prod.split)

definition cap_inv :: "nat \<Rightarrow> nat \<Rightarrow> api_state \<Rightarrow> bool" where
  "cap_inv k cap s \<longleftrightarrow> js_ok (store s) \<and> tasks live (requests s) \<le> k
     \<and> countActive (store s) + tasks pending (requests s) \<le> cap - 1 + k"

lemma cap_step:
  assumes "api_step k env s t" and "cap_inv k (ae_maxActive env) s"
  shows "cap_inv k (ae_maxActive env) t"
  using assms
proof cases
  case (arrives b tid sid)
  with assms(2) show ?thesis by (auto simp: cap_inv_def receive_shape)
next
  case (counts j req)
  have "tasks live (requests t) \<le> k"
    using counts assms(2) tasks_update [OF counts(2), of live "count_submission env req s"]
    by (auto simp: cap_inv_def split: if_splits)
  moreover have "tasks pending (requests t) \<le> tasks live (requests t)" by (rule tasks_mono) (rule pending_live)
  moreover have "tasks pending (requests t) \<le> tasks pending (requests s) \<or> countActive (store s) \<le> ae_maxActive env - 1"
    using counts tasks_update [OF counts(2), of pending "count_submission env req s"] by (auto simp: count_submission_def)
  ultimately show ?thesis using counts assms(2) by (auto simp: cap_inv_def)
next
  case (dedups j req now i s' p)
  have "store s' = store s \<and> requests s' = requests s \<and> live p = pending p"
    using dedups(4) by (auto simp: dedup_submission_def split: if_splits)
  with dedups(1-3) assms(2) tasks_update [OF dedups(2), of live p] tasks_update [OF dedups(2), of pending p]
  show ?thesis by (simp add: cap_inv_def split: if_splits)
next
  case (stores j h r)
  with assms(2) tasks_update [OF stores(2), of live "Enqueuing r"] tasks_update [OF stores(2), of pending "Enqueuing r"]
  show ?thesis by (auto simp: cap_inv_def store_submission_def countActive_insert insert_record_def [symmetric])
    (auto simp: insert_record_def)
next
  case (insert_fails j h r)
  with assms(2) tasks_update [OF insert_fails(2), of live "Replied Threw"] tasks_update [OF insert_fails(2), of pending "Replied Threw"]
  show ?thesis by (auto simp: cap_inv_def leave_flight_def)
next
  case (enqueues j r up)
  with assms(2) tasks_update [OF enqueues(2), of live "Replied (Created (toPublic r))"]
    tasks_update [OF enqueues(2), of pending "Replied (Created (toPublic r))"]
  show ?thesis by (auto simp: cap_inv_def enqueue_submission_def leave_flight_def)
next
  case (wakes j h r)
  with assms(2) tasks_update [OF wakes(2), of live "Replied (in_progress_reply (Some r))"]
    tasks_update [OF wakes(2), of pending "Replied (in_progress_reply (Some r))"]
  show ?thesis by (auto simp: cap_inv_def)
next
  case (builds i r st)
  with assms(2) countActive_build [of "store s" i r st] show ?thesis by (auto simp: cap_inv_def)
qed

text \<open>C13: The queue cap holds up to the requests in flight: with at most \<open>k\<close> submissions at a time, in any interleaving of
  their database calls with each other, failing inserts and the build worker, there are never more than
  \<open>maxActiveQueue - 1 + k\<close> active records; one at a time, never more than \<open>maxActiveQueue\<close>.\<close>

theorem active_records_bounded:
  assumes "(api_step k env)\<^sup>*\<^sup>* (idle_api m) t" and "js_ok m" and "countActive m < ae_maxActive env"
  shows "countActive (store t) + tasks pending (requests t) \<le> ae_maxActive env - 1 + k"
proof -
  have "cap_inv k (ae_maxActive env) t"
    using assms(1)
  proof (induction rule: rtranclp_induct)
    case base
    show ?case using assms(2,3) by (simp add: cap_inv_def idle_api_def)
  next
    case (step u v)
    show ?case by (rule cap_step [OF step.hyps(2) step.IH])
  qed
  then show ?thesis by (simp add: cap_inv_def)
qed

definition example_env_api :: api_env where
  "example_env_api = \<lparr>ae_is_url = (\<lambda>_. True), ae_maxActive = 1000\<rparr>"

definition example_request :: submit_request where
  "example_request = submitted_request example_body None None"

lemma example_accepted: "submitBodySchema (ae_is_url example_env_api) example_body"
  using example_contract_ok
  by (simp add: submitBodySchema_def base_body_ok_def required_def optional_def str_ok_def str_fld_def example_body_def
      truthy_def del: replicate.simps)

lemma example_received: "js_get (inFlight s) example_contract = None \<Longrightarrow> receive example_env_api example_body None None s = Counting example_request"
  using example_accepted
  by (simp add: receive_def Let_def example_request_def submitted_request_def submit_input.extend_def submitted_input_def
      example_body_def the_str_def str_fld_def del: replicate.simps)

lemma example_request_contract [simp]: "si_contractId example_request = example_contract"
  by (simp add: example_request_def submitted_request_def submit_input.extend_def submitted_input_def example_body_def the_str_def
      str_fld_def del: replicate.simps)

theorem active_records_bounded_witness:
  "countActive (store ((idle_api [])\<lparr>requests := [Counting example_request]\<rparr>)) + tasks pending [Counting example_request] \<le> 1000 - 1 + 1"
proof -
  have "api_step 1 example_env_api (idle_api [])
      ((idle_api [])\<lparr>requests := requests (idle_api []) @ [receive example_env_api example_body None None (idle_api [])]\<rparr>)"
    by (rule arrives) (simp add: idle_api_def)
  then have "(api_step 1 example_env_api)\<^sup>*\<^sup>* (idle_api []) ((idle_api [])\<lparr>requests := [Counting example_request]\<rparr>)"
    using example_received [of "idle_api []"] by (simp add: idle_api_def)
  from active_records_bounded [OF this] show ?thesis by (simp add: countActive_def js_values_def example_env_api_def)
qed

subsection \<open>One active verification per contract\<close>

definition one_active :: "record_store \<Rightarrow> bool" where
  "one_active m \<longleftrightarrow> distinct (map vr_contractId (filter (\<lambda>r. active (vr_status r)) (js_values m)))"

fun insert_safe :: "record_store \<Rightarrow> submit_pc \<Rightarrow> bool" where
  "insert_safe m (Inserting h r) = (\<not> hasActiveForContract (vr_contractId r) m)"
| "insert_safe m _ = True"

definition sequential_inv :: "api_state \<Rightarrow> bool" where
  "sequential_inv s \<longleftrightarrow> js_ok (store s) \<and> one_active (store s) \<and> tasks live (requests s) \<le> 1
     \<and> list_all (insert_safe (store s)) (requests s)"

lemma done_safe: "\<not> live p \<Longrightarrow> insert_safe m p"
  by (cases p) auto

lemma one_active_insert:
  "one_active m \<Longrightarrow> \<not> js_has m (vr_id r) \<Longrightarrow> \<not> hasActiveForContract (vr_contractId r) m \<Longrightarrow> one_active (insert_record r m)"
  by (auto simp: one_active_def insert_record_def js_set_new js_values_def hasActive_iff)

lemma values_modify: "js_values (js_modify i f m) = map (\<lambda>(k, v). if k = i then f v else v) m"
  by (auto simp: js_values_def js_modify_def)

lemma one_active_build:
  assumes "js_ok m" "one_active m" "js_get m i = Some r" "active (vr_status r)"
  shows "one_active (js_modify i (\<lambda>r. r\<lparr>vr_status := st\<rparr>) m)"
proof -
  from js_get_SomeD [OF assms(3)] obtain xs ys where m: "m = xs @ (i, r) # ys" by (metis split_list)
  with assms(1) have "i \<notin> fst ` set xs" "i \<notin> fst ` set ys" by (auto simp: js_ok_def)
  then have "js_modify i (\<lambda>r. r\<lparr>vr_status := st\<rparr>) m = xs @ (i, r\<lparr>vr_status := st\<rparr>) # ys"
    by (force simp: m js_modify_def intro!: map_idI)
  with assms(2,4) show ?thesis by (auto simp: m one_active_def js_values_def)
qed

lemma build_no_new_active:
  assumes "js_ok m" "js_get m i = Some r" "active (vr_status r)" "\<not> hasActiveForContract c m"
  shows "\<not> hasActiveForContract c (js_modify i (\<lambda>r. r\<lparr>vr_status := st\<rparr>) m)"
proof -
  have "(i, r0) \<in> set m \<Longrightarrow> r0 = r" for r0 using assms(1,2) by (simp add: js_get_Some_iff [symmetric])
  moreover have "(i, r) \<in> set m" using assms(2) by (rule js_get_SomeD)
  then have "vr_contractId r \<noteq> c" using assms(3,4) by (force simp: hasActive_iff js_values_def)
  ultimately have "vr_contractId (snd p) \<noteq> c \<or> (fst p \<noteq> i \<and> \<not> active (vr_status (snd p)))" if "p \<in> set m" for p
    using that assms(4) by (cases p) (fastforce simp: hasActive_iff js_values_def)
  then show ?thesis by (fastforce simp: hasActive_iff values_modify split: if_splits)
qed

lemma single_live:
  assumes "tasks live ps \<le> 1" "j < length ps" "live (ps ! j)" "i < length ps" "i \<noteq> j"
  shows "\<not> live (ps ! i)"
proof -
  have "tasks live (ps[j := Replied Threw]) = 0"
    using tasks_update [OF assms(2), of live "Replied Threw"] assms(1,3) by simp
  then have "filter live (ps[j := Replied Threw]) = []" by (simp add: tasks_def)
  then have "\<not> live (ps[j := Replied Threw] ! i)" using assms(4) by (simp add: filter_empty_conv)
  then show ?thesis using assms(5) by simp
qed

lemma others_done:
  assumes "tasks live ps \<le> 1" "j < length ps" "live (ps ! j)" "q \<in> set (ps[j := p])"
  shows "q = p \<or> \<not> live q"
proof -
  from assms(4) obtain i where i: "i < length ps" "q = ps[j := p] ! i" by (metis in_set_conv_nth length_list_update)
  then show ?thesis using single_live [OF assms(1-3), of i] by (cases "i = j") auto
qed

lemma moved_task:
  assumes "tasks live ps \<le> 1" "j < length ps" "live (ps ! j)" "insert_safe m p"
  shows "tasks live (ps[j := p]) \<le> 1" and "list_all (insert_safe m) (ps[j := p])"
proof -
  show "tasks live (ps[j := p]) \<le> 1" using tasks_update [OF assms(2), of live p] assms(1,3) by (simp split: if_splits)
  show "list_all (insert_safe m) (ps[j := p])"
    using others_done [OF assms(1-3), of _ p] assms(4) by (auto simp: list_all_iff intro: done_safe)
qed

lemma sequential_step:
  assumes "api_step 1 env s t" and inv: "sequential_inv s"
  shows "sequential_inv t"
proof -
  have l: "tasks live (requests s) \<le> 1" using inv by (simp add: sequential_inv_def)
  from assms(1) show ?thesis
  proof cases
    case (arrives b tid sid)
    have "insert_safe m (receive env b tid sid s)" for m
      by (auto simp: receive_def Let_def split: option.split prod.split)
    with arrives inv show ?thesis by (simp add: sequential_inv_def)
  next
    case (counts j req)
    have "insert_safe (store s) (count_submission env req s)" by (simp add: count_submission_def)
    from moved_task [OF l counts(2) _ this] counts inv show ?thesis by (simp add: sequential_inv_def)
  next
    case (dedups j req now i s' p)
    have same: "store s' = store s" "requests s' = requests s" and p: "insert_safe (store s) p"
      using dedups(4) by (auto simp: dedup_submission_def new_record_def split: if_splits)
    from moved_task [OF l dedups(2) _ p] dedups(1-3) same inv show ?thesis by (simp add: sequential_inv_def)
  next
    case (stores j h r)
    have "\<not> hasActiveForContract (vr_contractId r) (store s)"
      using inv stores(2,3) nth_mem [OF stores(2)] by (force simp: sequential_inv_def list_all_iff)
    then have "one_active (insert_record r (store s))"
      using inv stores(4) one_active_insert by (simp add: sequential_inv_def)
    moreover have "insert_safe (insert_record r (store s)) (Enqueuing r)" by simp
    note moved_task [OF l stores(2) _ this]
    ultimately show ?thesis using stores(1,3) inv by (simp add: sequential_inv_def store_submission_def) (simp add: insert_record_def)
  next
    case (insert_fails j h r)
    have "insert_safe (store s) (Replied Threw)" by simp
    from moved_task [OF l insert_fails(2) _ this] insert_fails inv show ?thesis by (simp add: sequential_inv_def leave_flight_def)
  next
    case (enqueues j r up)
    have "insert_safe (store s) (Replied (Created (toPublic r)))" by simp
    from moved_task [OF l enqueues(2) _ this] enqueues inv show ?thesis
      by (simp add: sequential_inv_def enqueue_submission_def leave_flight_def)
  next
    case (wakes j h r)
    have "insert_safe (store s) (Replied (in_progress_reply (Some r)))" by simp
    from moved_task [OF l wakes(2) _ this] wakes inv show ?thesis by (simp add: sequential_inv_def)
  next
    case (builds i r st)
    have "insert_safe (store s) p \<Longrightarrow> insert_safe (js_modify i (\<lambda>r. r\<lparr>vr_status := st\<rparr>) (store s)) p" for p
      using build_no_new_active [of "store s" i r _ st] builds inv by (cases p) (auto simp: sequential_inv_def)
    then have "list_all (insert_safe (js_modify i (\<lambda>r. r\<lparr>vr_status := st\<rparr>) (store s))) (requests s)"
      using inv by (auto simp: sequential_inv_def list_all_iff)
    with builds inv one_active_build [of "store s" i r st] show ?thesis by (simp add: sequential_inv_def)
  qed
qed

text \<open>C14: One active verification per contract: submissions that do not overlap never create a second active record for a
  contract, and never more than the cap.\<close>

theorem sequential_submissions_dedup:
  assumes "(api_step 1 env)\<^sup>*\<^sup>* (idle_api m) t" and "js_ok m" and "one_active m"
  shows "one_active (store t)"
proof -
  have "sequential_inv t"
    using assms(1)
  proof (induction rule: rtranclp_induct)
    case base
    show ?case using assms(2,3) by (simp add: sequential_inv_def idle_api_def)
  next
    case (step u v)
    show ?case by (rule sequential_step [OF step.hyps(2) step.IH])
  qed
  then show ?thesis by (simp add: sequential_inv_def)
qed

definition race_state :: "record_store \<Rightarrow> (string \<times> nat \<times> verification_record option) list \<Rightarrow> (nat, verification_record) js_map
    \<Rightarrow> nat \<Rightarrow> submit_pc list \<Rightarrow> api_state" where
  "race_state m fl rs n ps = \<lparr>store = m, inFlight = fl, resolved = rs, nextHolder = n, requests = ps, jobs = []\<rparr>"

abbreviation example_rec :: "string \<Rightarrow> verification_record" where
  "example_rec i \<equiv> new_record 0 i example_request"

lemma example_rec_fields [simp]:
  "vr_id (example_rec i) = i" "vr_contractId (example_rec i) = example_contract" "vr_status (example_rec i) = Submitted"
  by (simp_all add: new_record_def del: replicate.simps)

lemma example_count: "countActive (store s) < 1000 \<Longrightarrow> count_submission example_env_api req s = Deduping req"
  by (simp add: count_submission_def example_env_api_def)

lemma example_dedup:
  "dedup_submission 0 i example_request (race_state [] fl rs n ps)
     = (race_state [] (js_set example_contract (n, None) fl) rs (Suc n) ps, Inserting n (example_rec i))"
  by (simp add: dedup_submission_def race_state_def hasActiveForContract_def js_values_def del: replicate.simps)

lemma race_arrives:
  assumes "tasks live ps < k"
  shows "api_step k example_env_api (race_state [] [] [] n ps) (race_state [] [] [] n (ps @ [Counting example_request]))"
  using arrives [of "race_state [] [] [] n ps" k example_env_api example_body None None] assms
    example_received [of "race_state [] [] [] n ps"] by (simp add: race_state_def del: replicate.simps)

lemma race_counts:
  assumes "j < length ps" "ps ! j = Counting req"
  shows "api_step k example_env_api (race_state [] fl rs n ps) (race_state [] fl rs n (ps[j := Deduping req]))"
  using counts [of j "race_state [] fl rs n ps" req k example_env_api] assms
    example_count [of "race_state [] fl rs n ps" req]
  by (simp add: race_state_def countActive_def js_values_def)

lemma race_dedups:
  assumes "j < length ps" "ps ! j = Deduping example_request"
  shows "api_step k example_env_api (race_state [] fl rs n ps)
     (race_state [] (js_set example_contract (n, None) fl) rs (Suc n) (ps[j := Inserting n (example_rec i)]))"
  using dedups [of j "race_state [] fl rs n ps" example_request 0 i _ _ k example_env_api, OF _ _ example_dedup] assms
  by (simp add: race_state_def del: replicate.simps)

lemma race_stores:
  assumes "j < length ps" "ps ! j = Inserting h r" "\<not> js_has m (vr_id r)"
  shows "api_step k example_env_api (race_state m fl rs n ps)
     (race_state (insert_record r m) (js_modify (vr_contractId r) (hold_record h r) fl) (js_set h r rs) n (ps[j := Enqueuing r]))"
  using stores [of j "race_state m fl rs n ps" h r k example_env_api] assms by (simp add: race_state_def store_submission_def)

lemma api_run_step: "(api_step k env)\<^sup>*\<^sup>* s t \<Longrightarrow> api_step k env t u \<Longrightarrow> (api_step k env)\<^sup>*\<^sup>* s u"
  by (rule rtranclp.rtrancl_into_rtrancl)

text \<open>C15: Overlapping submissions defeat the deduplication: the test for an active record and the claim of the contract are
  separated by two database calls, so two submissions for one contract can both pass and store two
  active records.\<close>

theorem overlapping_submissions_duplicate:
  "\<exists>t. (api_step 2 example_env_api)\<^sup>*\<^sup>* (idle_api []) t \<and> \<not> one_active (store t)
     \<and> map vr_contractId (js_values (store t)) = [example_contract, example_contract]"
proof -
  let ?R = "api_step 2 example_env_api"
  let ?C = "Counting example_request" and ?D = "Deduping example_request"
  let ?A = "Inserting 0 (example_rec ''a'')" and ?B = "Inserting 1 (example_rec ''b'')"
  let ?F = "js_set example_contract (1, None) (js_set example_contract (0, None) [])"
  let ?m = "insert_record (example_rec ''a'') []" and ?r = "js_set (0::nat) (example_rec ''a'') []"
  let ?G = "js_modify (vr_contractId (example_rec ''a'')) (hold_record 0 (example_rec ''a'')) ?F"
  have run: "?R\<^sup>*\<^sup>* (idle_api []) (race_state [] [] [] 0 [])" by (simp add: idle_api_def race_state_def)
  have "?R (race_state [] [] [] 0 []) (race_state [] [] [] 0 [?C])" using race_arrives [of "[]" 2 0] by simp
  note run = api_run_step [OF run this]
  have "?R (race_state [] [] [] 0 [?C]) (race_state [] [] [] 0 [?C, ?C])" using race_arrives [of "[?C]" 2 0] by simp
  note run = api_run_step [OF run this]
  have "?R (race_state [] [] [] 0 [?C, ?C]) (race_state [] [] [] 0 [?D, ?C])" using race_counts [of 0 "[?C, ?C]"] by simp
  note run = api_run_step [OF run this]
  have "?R (race_state [] [] [] 0 [?D, ?C]) (race_state [] [] [] 0 [?D, ?D])" using race_counts [of 1 "[?D, ?C]"] by simp
  note run = api_run_step [OF run this]
  have "?R (race_state [] [] [] 0 [?D, ?D]) (race_state [] (js_set example_contract (0, None) []) [] 1 [?A, ?D])"
    using race_dedups [of 0 "[?D, ?D]" 2 "[]" "[]" 0 "''a''"] by (simp del: js_set.simps replicate.simps)
  note run = api_run_step [OF run this]
  have "?R (race_state [] (js_set example_contract (0, None) []) [] 1 [?A, ?D]) (race_state [] ?F [] 2 [?A, ?B])"
    using race_dedups [of 1 "[?A, ?D]" 2 "js_set example_contract (0, None) []" "[]" 1 "''b''"]
    by (simp del: js_set.simps replicate.simps add: numeral_2_eq_2)
  note run = api_run_step [OF run this]
  have "?R (race_state [] ?F [] 2 [?A, ?B]) (race_state ?m ?G ?r 2 [Enqueuing (example_rec ''a''), ?B])"
    using race_stores [of 0 "[?A, ?B]" 0 "example_rec ''a''" "[]" 2 ?F "[]" 2]
    by (simp del: js_set.simps replicate.simps add: js_has_def)
  note run = api_run_step [OF run this]
  have "?R (race_state ?m ?G ?r 2 [Enqueuing (example_rec ''a''), ?B])
      (race_state (insert_record (example_rec ''b'') ?m) (js_modify (vr_contractId (example_rec ''b'')) (hold_record 1 (example_rec ''b'')) ?G)
        (js_set 1 (example_rec ''b'') ?r) 2 [Enqueuing (example_rec ''a''), Enqueuing (example_rec ''b'')])"
    using race_stores [of 1 "[Enqueuing (example_rec ''a''), ?B]" 1 "example_rec ''b''" ?m 2 ?G ?r 2]
    by (simp del: js_set.simps replicate.simps add: js_has_def insert_record_def)
  note run = api_run_step [OF run this]
  show ?thesis
    by (intro exI conjI, rule run)
       (simp_all add: race_state_def one_active_def js_values_def insert_record_def active_def del: replicate.simps)
qed

theorem sequential_submissions_dedup_witness:
  "one_active (store ((idle_api [])\<lparr>requests := [Counting example_request]\<rparr>))"
proof -
  have "(api_step 1 example_env_api)\<^sup>*\<^sup>* (idle_api []) ((idle_api [])\<lparr>requests := [Counting example_request]\<rparr>)"
    using race_arrives [of "[]" 1 0] by (simp add: idle_api_def race_state_def)
  from sequential_submissions_dedup [OF this] show ?thesis by (simp add: one_active_def js_values_def)
qed

subsection \<open>Submissions that wait for another\<close>

text \<open>A holder whose insert has failed: its promise is neither settled nor about to be.\<close>

definition abandoned :: "nat \<Rightarrow> api_state \<Rightarrow> bool" where
  "abandoned h s \<longleftrightarrow> h < nextHolder s \<and> js_get (resolved s) h = None \<and> (\<forall>r. Inserting h r \<notin> set (requests s))"

lemma receive_not_inserting: "receive env b tid sid s \<noteq> Inserting h r"
  by (auto simp: receive_def Let_def split: option.split prod.split)

lemma dedup_parts:
  assumes "dedup_submission now i req s = (s', p)"
  shows "resolved s' = resolved s \<and> requests s' = requests s \<and> nextHolder s \<le> nextHolder s'
    \<and> (\<forall>h r. p = Inserting h r \<longrightarrow> h = nextHolder s)"
  using assms by (auto simp: dedup_submission_def split: if_splits)

lemma abandoned_step:
  assumes "api_step k env s t" and "abandoned h s" and "j < length (requests s)" and "requests s ! j = Waiting h"
  shows "abandoned h t \<and> j < length (requests t) \<and> requests t ! j = Waiting h"
proof -
  have upd: "(\<forall>r. Inserting h r \<notin> set ((requests s)[i := p]))" if "\<forall>r. p \<noteq> Inserting h r" for i p
    using that assms(2) set_update_subset_insert [of "requests s" i p] by (fastforce simp: abandoned_def)
  have other: "(requests s)[i := p] ! j = Waiting h" if "i < length (requests s)" "requests s ! i \<noteq> Waiting h" for i p
    using that assms(3,4) by (cases "i = j") auto
  from assms(1) show ?thesis
  proof cases
    case (arrives b tid sid)
    with assms(2-4) receive_not_inserting [of env b tid sid s, symmetric] show ?thesis by (auto simp: abandoned_def nth_append)
  next
    case (counts i req)
    with assms(2,3) upd [of "count_submission env req s"] other [of i] show ?thesis
      by (auto simp: abandoned_def count_submission_def)
  next
    case (dedups i req now n s' p)
    have "\<forall>r. p \<noteq> Inserting h r" using dedup_parts [OF dedups(4)] assms(2) by (auto simp: abandoned_def)
    with dedups assms(2,3) upd [of p] other [of i] dedup_parts [OF dedups(4)] show ?thesis by (auto simp: abandoned_def)
  next
    case (stores i h' r)
    then have "h' \<noteq> h" using assms(2) nth_mem [of i "requests s"] by (auto simp: abandoned_def)
    with stores assms(2,3) upd [of "Enqueuing r"] other [of i] show ?thesis by (auto simp: abandoned_def store_submission_def)
  next
    case (insert_fails i h' r)
    with assms(2,3) upd [of "Replied Threw"] other [of i] show ?thesis by (auto simp: abandoned_def leave_flight_def)
  next
    case (enqueues i r up)
    with assms(2,3) upd [of "Replied (Created (toPublic r))"] other [of i] show ?thesis
      by (auto simp: abandoned_def enqueue_submission_def leave_flight_def)
  next
    case (wakes i h' r)
    then have "h' \<noteq> h" using assms(2) by (auto simp: abandoned_def)
    with wakes assms(2,3) upd [of "Replied (in_progress_reply (Some r))"] other [of i] show ?thesis by (auto simp: abandoned_def)
  next
    case (builds i r st)
    with assms(2-4) show ?thesis by (simp add: abandoned_def)
  qed
qed

text \<open>A submission that waits for another one of the same contract never gets an answer when the other's insert
  fails: the promise is settled only after a successful insert, so the request hangs in every continuation.\<close>

theorem failed_insert_hangs_waiter:
  assumes "(api_step k env)\<^sup>*\<^sup>* s t" and "abandoned h s" and "j < length (requests s)" and "requests s ! j = Waiting h"
  shows "requests t ! j = Waiting h"
proof -
  have "abandoned h t \<and> j < length (requests t) \<and> requests t ! j = Waiting h"
    using assms(1)
  proof (induction rule: rtranclp_induct)
    case (step u v)
    with abandoned_step [OF step.hyps(2)] show ?case by blast
  qed (use assms(2-4) in blast)
  then show ?thesis by blast
qed

lemma waits_for_holder:
  assumes "tasks live ps < k"
  shows "api_step k example_env_api (race_state [] [(example_contract, (h, None))] rs n ps)
     (race_state [] [(example_contract, (h, None))] rs n (ps @ [Waiting h]))"
proof -
  have "receive example_env_api example_body None None (race_state [] [(example_contract, (h, None))] rs n ps) = Waiting h"
    using example_accepted
    by (simp add: receive_def Let_def example_request_def [symmetric] race_state_def del: replicate.simps)
  with arrives [of "race_state [] [(example_contract, (h, None))] rs n ps" k example_env_api example_body None None] assms
  show ?thesis by (simp add: race_state_def del: replicate.simps)
qed

theorem failed_insert_hangs_waiter_witness:
  "requests (race_state [] [] [] 1 [Replied Threw, Waiting 0]) ! 1 = Waiting 0
   \<and> (api_step 2 example_env_api)\<^sup>*\<^sup>* (idle_api []) (race_state [] [] [] 1 [Replied Threw, Waiting 0])"
proof
  let ?R = "api_step 2 example_env_api" and ?E = "race_state [] [] [] 1 [Replied Threw, Waiting 0]"
  let ?A = "Inserting 0 (example_rec ''a'')" and ?F = "[(example_contract, (0, None))]"
  have "?R\<^sup>*\<^sup>* ?E ?E" by simp
  from failed_insert_hangs_waiter [OF this, of 0 1] show "requests ?E ! 1 = Waiting 0"
    by (simp add: abandoned_def race_state_def)
  have run: "?R\<^sup>*\<^sup>* (idle_api []) (race_state [] [] [] 0 [])" by (simp add: idle_api_def race_state_def)
  have "?R (race_state [] [] [] 0 []) (race_state [] [] [] 0 [Counting example_request])" using race_arrives [of "[]" 2 0] by simp
  note run = api_run_step [OF run this]
  have "?R (race_state [] [] [] 0 [Counting example_request]) (race_state [] [] [] 0 [Deduping example_request])"
    using race_counts [of 0 "[Counting example_request]"] by simp
  note run = api_run_step [OF run this]
  have "?R (race_state [] [] [] 0 [Deduping example_request]) (race_state [] ?F [] 1 [?A])"
    using race_dedups [of 0 "[Deduping example_request]" 2 "[]" "[]" 0 "''a''"] by (simp del: replicate.simps)
  note run = api_run_step [OF run this]
  have "?R (race_state [] ?F [] 1 [?A]) (race_state [] ?F [] 1 [?A, Waiting 0])"
    using waits_for_holder [of "[?A]" 2 0] by (simp del: replicate.simps)
  note run = api_run_step [OF run this]
  have "?R (race_state [] ?F [] 1 [?A, Waiting 0]) ?E"
    using insert_fails [of 0 "race_state [] ?F [] 1 [?A, Waiting 0]" 0 "example_rec ''a''" 2 example_env_api]
    by (simp add: race_state_def leave_flight_def js_delete_def del: replicate.simps)
  from api_run_step [OF run this] show "?R\<^sup>*\<^sup>* (idle_api []) ?E" .
qed

subsection \<open>The read routes\<close>

text \<open>The history is behind a payment; the hook that checks the id is registered before it.\<close>

datatype history_reply = History_error nat string | Payment_required | History string "public_record list"

definition validate_hook :: "string \<Rightarrow> history_reply option" where
  "validate_hook c = (if contractIdSchema c then None else Some (History_error 400 ''invalid_contract_id''))"

definition history_handler :: "string \<Rightarrow> record_store \<Rightarrow> history_reply" where
  "history_handler c m =
     (if \<not> contractIdSchema c then History_error 400 ''invalid_contract_id''
      else History c (map toPublic (findByContract c m)))"

definition history_route :: "bool \<Rightarrow> string \<Rightarrow> record_store \<Rightarrow> history_reply" where
  "history_route paid c m =
     (case validate_hook c of
        Some r \<Rightarrow> r
      | None \<Rightarrow> (if \<not> paid then Payment_required else history_handler c m))"

record status_reply =
  sp_contractId :: string
  sp_status :: job_status
  sp_recordId :: "string option"
  sp_updatedAt :: "instant option"

definition status_route :: "string \<Rightarrow> record_store \<Rightarrow> (nat \<times> string) + status_reply" where
  "status_route c m =
     (if \<not> contractIdSchema c then Inl (400, ''invalid_contract_id'')
      else
        (case findByContract c m of
           [] \<Rightarrow> Inr \<lparr>sp_contractId = c, sp_status = Unverified, sp_recordId = None, sp_updatedAt = None\<rparr>
         | r # _ \<Rightarrow> Inr \<lparr>sp_contractId = c, sp_status = vr_status r, sp_recordId = Some (vr_id r), sp_updatedAt = Some (vr_updatedAt r)\<rparr>))"

lemma malformed_id_never_charged: "history_route paid c m = Payment_required \<Longrightarrow> contractIdSchema c"
  by (auto simp: history_route_def validate_hook_def split: if_splits)

lemma set_findByContract: "set (findByContract c m) = {r \<in> set (js_values m). vr_contractId r = c}"
  by (auto simp: findByContract_def)

lemma newest_is_first:
  assumes "findByContract c m = r # rs" and "x \<in> set (js_values m)" and "vr_contractId x = c"
  shows "vr_createdAt x \<le> vr_createdAt r"
proof -
  have "sorted (map (\<lambda>r. - vr_createdAt r) (r # rs))"
    unfolding assms(1) [symmetric] findByContract_def by simp
  moreover have "x \<in> set (r # rs)" using assms by (auto simp flip: assms(1) simp: set_findByContract)
  ultimately show ?thesis by auto
qed

lemma badge_unverified: "contractIdSchema c \<Longrightarrow> \<forall>r\<in>set (js_values m). vr_contractId r \<noteq> c \<Longrightarrow>
    status_route c m = Inr \<lparr>sp_contractId = c, sp_status = Unverified, sp_recordId = None, sp_updatedAt = None\<rparr>"
  using set_findByContract [of c m] by (cases "findByContract c m") (auto simp: status_route_def)

definition newest_for :: "string \<Rightarrow> record_store \<Rightarrow> verification_record \<Rightarrow> bool" where
  "newest_for c m r \<longleftrightarrow> r \<in> set (js_values m) \<and> vr_contractId r = c
     \<and> (\<forall>x\<in>set (js_values m). vr_contractId x = c \<longrightarrow> vr_createdAt x \<le> vr_createdAt r)"

lemma badge_newest:
  assumes "status_route c m = Inr a" and "sp_recordId a = Some i"
  shows "\<exists>r. newest_for c m r \<and> vr_id r = i \<and> sp_status a = vr_status r"
proof (cases "findByContract c m")
  case Nil
  with assms show ?thesis by (simp add: status_route_def split: if_splits) auto
next
  case (Cons r rs)
  then have "r \<in> set (findByContract c m)" by simp
  then have "r \<in> set (js_values m)" "vr_contractId r = c" by (simp_all only: set_findByContract mem_Collect_eq)
  then have "newest_for c m r"
    unfolding newest_for_def using newest_is_first [OF Cons] by blast
  moreover have "Inr a = (Inr \<lparr>sp_contractId = c, sp_status = vr_status r, sp_recordId = Some (vr_id r),
        sp_updatedAt = Some (vr_updatedAt r)\<rparr> :: (nat \<times> string) + status_reply)"
    unfolding assms(1) [symmetric] using Cons assms(1) by (simp add: status_route_def split: if_split_asm)
  then have "sp_recordId a = Some (vr_id r)" "sp_status a = vr_status r" by simp_all
  ultimately show ?thesis using assms(2) by (metis option.inject)
qed



subsection \<open>What a reader of the shared table sees\<close>

text \<open>In Postgres the routes read the jsonb record.  The table is the one the worker claims from
  (\<open>JobStore\<close>): a claim changes the column, not the record.\<close>

definition pg_reported :: "string \<Rightarrow> pg_store \<Rightarrow> job_status" where
  "pg_reported c t =
     (case sort_key (\<lambda>r. - created_at r) (filter (\<lambda>r. col_contract r = c) (js_values t)) of
        [] \<Rightarrow> Unverified | r # _ \<Rightarrow> rec_status r)"

datatype table_op = Api_insert string pg_row | Worker_op "claim_env store_op"

fun table_exec :: "table_op \<Rightarrow> pg_store \<Rightarrow> pg_store" where
  "table_exec (Api_insert i r) t = js_set i (r\<lparr>col_status := Submitted, rec_status := Submitted\<rparr>) t"
| "table_exec (Worker_op opn) t = store_exec pg_claim pg_complete pg_reap opn t"

definition never_building :: "pg_store \<Rightarrow> bool" where
  "never_building t \<longleftrightarrow> (\<forall>r\<in>set (js_values t). rec_status r \<noteq> Building)"

lemma never_building_modify:
  "never_building t \<Longrightarrow> (\<And>r. rec_status r \<noteq> Building \<Longrightarrow> rec_status (f r) \<noteq> Building) \<Longrightarrow> never_building (js_modify i f t)"
  by (auto simp: never_building_def js_values_def js_modify_def split: if_split_asm)

lemma reap_never_building: "never_building t \<Longrightarrow> never_building (fold (pg_reap_update now opts) list t)"
proof (induction list arbitrary: t)
  case (Cons p list)
  have "never_building (pg_reap_update now opts p t)"
    using Cons.prems by (cases p) (auto simp: pg_reap_update_def intro!: never_building_modify split: if_split_asm)
  with Cons.IH show ?case by simp
qed simp

lemma set_js_set_values: "v \<in> set (js_values (js_set k x m)) \<Longrightarrow> v = x \<or> v \<in> set (js_values m)"
  by (induction k x m rule: js_set.induct) (auto simp: js_values_def split: if_splits)

lemma table_never_building:
  assumes "never_building t" shows "never_building (table_exec opn t)"
proof (cases opn)
  case (Api_insert i r)
  with assms show ?thesis by (auto simp: never_building_def dest!: set_js_set_values)
next
  case (Worker_op w)
  show ?thesis
  proof (cases w)
    case (Claim env n)
    with Worker_op assms show ?thesis
      by (auto simp: pg_claim_def Let_def never_building_def js_values_def pg_flip_def split: if_split_asm)
  next
    case (Complete now i out)
    have "status_of (out_status out) \<noteq> Building" by (cases "out_status out") simp_all
    with Complete Worker_op assms show ?thesis
      by (auto simp: pg_complete_def pg_result_def intro: never_building_modify split: option.split)
  next
    case (Reap now opts)
    with Worker_op assms show ?thesis by (simp add: pg_reap_def Let_def reap_never_building)
  qed
qed

text \<open>Over the shared table no reader ever learns that a contract is being built: in every sequence of submissions and
  worker calls (claims, completions, reaping) the reported status is unverified, submitted or final,
  since a claim leaves the status inside the record at submitted.\<close>

theorem building_never_reported: "pg_reported c (fold table_exec ops []) \<noteq> Building"
proof -
  have "never_building (fold table_exec ops t)" if "never_building t" for t
    using that by (induction ops arbitrary: t) (auto intro: table_never_building)
  from this [of "[]"] have "never_building (fold table_exec ops [])" by (simp add: never_building_def js_values_def)
  moreover have "r \<in> set (js_values (fold table_exec ops []))"
    if "sort_key (\<lambda>r. - created_at r) (filter (\<lambda>r. col_contract r = c) (js_values (fold table_exec ops []))) = r # rs" for r rs
  proof -
    have "r \<in> set (sort_key (\<lambda>r. - created_at r) (filter (\<lambda>r. col_contract r = c) (js_values (fold table_exec ops []))))"
      by (simp add: that)
    then show ?thesis by simp
  qed
  ultimately show ?thesis by (auto simp: pg_reported_def never_building_def split: list.split)
qed

end
