(* ===== verification/CargoLock.thy ===== *)
theory CargoLock
  imports RepoUrlGuard Json
begin

text \<open>
  The lockfile side of the dependency pre-fetch, \<open>services/worker-service/src/cargo-prefetch.ts\<close>: the parser of
  \<open>Cargo.lock\<close>, the plan of what has to be fetched, and the two configuration files of the build
  container.  \<open>new URL\<close> and SHA-256 are arguments.
\<close>

datatype prefetch_code = Dependencies_unresolved | Dependency_fetch_failed | Repo_url_rejected | Insufficient_disk_space

datatype prefetch_error =
    NoLockfile
  | PackageWithoutName
  | UnparsableLine string
  | NotPlainString string string
  | BadNameOrVersion string string
  | NoChecksum string string
  | UnsupportedDependency string string
  | UnpinnedGit string
  | BadGitUrl string
  | UrlRejected url_error
  | FetchFailed string string
  | DoesNotExist string
  | HttpStatus string nat
  | NotPublished string string
  | IndexChecksum string string
  | CrateChecksum string string
  | GitInitFailed string
  | GitFetchFailed string string string
  | CommitMissing string string
  | HasSubmodules string
  | DiskTooSmall int int

fun code_of_prefetch :: "prefetch_error \<Rightarrow> prefetch_code" where
  "code_of_prefetch (UrlRejected e) = Repo_url_rejected"
| "code_of_prefetch (FetchFailed what msg) = Dependency_fetch_failed"
| "code_of_prefetch (HttpStatus what n) =
     (if n \<ge> 500 \<or> n = 429 then Dependency_fetch_failed else Dependencies_unresolved)"
| "code_of_prefetch (GitInitFailed url) = Dependency_fetch_failed"
| "code_of_prefetch (GitFetchFailed url a b) = Dependency_fetch_failed"
| "code_of_prefetch (DiskTooSmall free required) = Insufficient_disk_space"
| "code_of_prefetch _ = Dependencies_unresolved"

subsection \<open>Parsing\<close>

record locked_package =
  pkg_name :: string
  pkg_version :: string
  pkg_source :: "string option"
  pkg_checksum :: "string option"

text \<open>The entry being read: the four keys, any of which may be missing.\<close>

record partial_package =
  pp_name :: "string option"
  pp_version :: "string option"
  pp_source :: "string option"
  pp_checksum :: "string option"

definition no_keys :: partial_package where
  "no_keys = \<lparr>pp_name = None, pp_version = None, pp_source = None, pp_checksum = None\<rparr>"

definition key_char :: "char \<Rightarrow> bool" where
  "key_char c = (let n = of_char c :: nat in
     (65 \<le> n \<and> n \<le> 90) \<or> (97 \<le> n \<and> n \<le> 122) \<or> (48 \<le> n \<and> n \<le> 57) \<or> c = CHR ''_'' \<or> c = CHR ''-'')"

text \<open>The match of \<open>key = value\<close>; a value does not contain a line terminator.\<close>

definition key_value :: "string \<Rightarrow> (string \<times> string) option" where
  "key_value line =
     (let key = takeWhile key_char line; rest = dropWhile is_space (drop (length key) line) in
      if key = [] then None
      else
        (case rest of
           [] \<Rightarrow> None
         | c # v \<Rightarrow>
             (let val = dropWhile is_space v in
              if c = CHR ''='' \<and> CHR 0x0D \<notin> set val then Some (key, val) else None)))"

definition plain_char :: "char \<Rightarrow> bool" where
  "plain_char c \<longleftrightarrow> c \<noteq> CHR 0x22 \<and> c \<noteq> CHR 0x5C"

definition quoted :: "string \<Rightarrow> string option" where
  "quoted v =
     (if length v \<ge> 2 \<and> hd v = CHR 0x22 \<and> last v = CHR 0x22 \<and> list_all plain_char (butlast (tl v))
      then Some (butlast (tl v)) else None)"

definition LOCK_KEYS :: "string list" where
  "LOCK_KEYS = [''name'', ''version'', ''source'', ''checksum'']"

definition set_key :: "string \<Rightarrow> string \<Rightarrow> partial_package \<Rightarrow> partial_package" where
  "set_key k v p =
     (if k = ''name'' then p\<lparr>pp_name := Some v\<rparr>
      else if k = ''version'' then p\<lparr>pp_version := Some v\<rparr>
      else if k = ''source'' then p\<lparr>pp_source := Some v\<rparr>
      else p\<lparr>pp_checksum := Some v\<rparr>)"

definition flush :: "partial_package option \<Rightarrow> prefetch_error + locked_package list" where
  "flush cur =
     (case cur of
        None \<Rightarrow> Inr []
      | Some p \<Rightarrow>
          (if \<not> truthy (pp_name p) \<or> \<not> truthy (pp_version p) then Inl PackageWithoutName
           else Inr [\<lparr>pkg_name = the (pp_name p), pkg_version = the (pp_version p), pkg_source = pp_source p,
                     pkg_checksum = pp_checksum p\<rparr>]))"

definition ends_with :: "string \<Rightarrow> char \<Rightarrow> bool" where
  "ends_with s c \<longleftrightarrow> s \<noteq> [] \<and> last s = c"

text \<open>What one line does: the packages it completes, the entry being read and whether an array is open.\<close>

definition parse_line ::
  "string \<Rightarrow> partial_package option \<Rightarrow> bool \<Rightarrow> prefetch_error + locked_package list \<times> partial_package option \<times> bool" where
  "parse_line raw cur inArray =
     (let line = js_trim raw in
      if inArray then Inr ([], cur, \<not> ends_with line CHR '']'')
      else if line = [] \<or> starts_with line ''#'' then Inr ([], cur, False)
      else if starts_with line ''['' then
        map_sum id (\<lambda>ps. (ps, (if line = ''[[package]]'' then Some no_keys else None), False)) (flush cur)
      else
        (case cur of
           None \<Rightarrow> Inr ([], None, False)
         | Some p \<Rightarrow>
             (case key_value line of
                None \<Rightarrow> Inl (UnparsableLine (take 80 line))
              | Some (key, value) \<Rightarrow>
                  (if starts_with value ''['' then Inr ([], cur, \<not> ends_with value CHR '']'')
                   else if key \<notin> set LOCK_KEYS then Inr ([], cur, False)
                   else
                     (case quoted value of
                        None \<Rightarrow> Inl (NotPlainString key (take 80 value))
                      | Some s \<Rightarrow> Inr ([], Some (set_key key s p), False))))))"

fun parse_lines :: "string list \<Rightarrow> partial_package option \<Rightarrow> bool \<Rightarrow> prefetch_error + locked_package list" where
  "parse_lines [] cur inArray = flush cur"
| "parse_lines (raw # rest) cur inArray =
     res_bind (parse_line raw cur inArray) (\<lambda>(fin, cur', inArray').
       map_sum id (\<lambda>more. fin @ more) (parse_lines rest cur' inArray'))"

text \<open>A carriage return before the line feed is trimmed with the line.\<close>

definition parseCargoLock :: "string \<Rightarrow> prefetch_error + locked_package list" where
  "parseCargoLock text = parse_lines (split_on CHR 0x0A text) None False"

subsection \<open>The plan\<close>

definition crate_name_ok :: "string \<Rightarrow> bool" where
  "crate_name_ok s \<longleftrightarrow> 1 \<le> length s \<and> length s \<le> 64 \<and> list_all key_char s"

definition version_char :: "char \<Rightarrow> bool" where
  "version_char c \<longleftrightarrow> (key_char c \<and> c \<noteq> CHR ''_'') \<or> c = CHR ''.'' \<or> c = CHR ''+''"

definition crate_version_ok :: "string \<Rightarrow> bool" where
  "crate_version_ok s \<longleftrightarrow> 1 \<le> length s \<and> length s \<le> 64 \<and> list_all version_char s"

definition hex_lower :: "char \<Rightarrow> bool" where
  "hex_lower c = (let n = of_char c :: nat in (48 \<le> n \<and> n \<le> 57) \<or> (97 \<le> n \<and> n \<le> 102))"

definition sha256_hex :: "string \<Rightarrow> bool" where
  "sha256_hex s \<longleftrightarrow> length s = 64 \<and> list_all hex_lower s"

definition git_commit :: "string \<Rightarrow> bool" where
  "git_commit s \<longleftrightarrow> length s = 40 \<and> list_all hex_lower s"

definition CRATES_IO_SOURCES :: "string list" where
  "CRATES_IO_SOURCES = [''registry+https://github.com/rust-lang/crates.io-index'', ''sparse+https://index.crates.io/'']"

record registry_dep =
  rd_name :: string
  rd_version :: string
  rd_checksum :: string

record git_dep =
  gd_url :: string
  gd_commits :: "string list"
  gd_mirrorId :: string

record dependency_plan =
  registry :: "registry_dep list"
  git :: "git_dep list"

text \<open>\<open>[A-Za-z0-9._~:/@!$&'()*+,;=%-]\<close>\<close>

definition url_char :: "char \<Rightarrow> bool" where
  "url_char c \<longleftrightarrow> key_char c \<or> c \<in> set (''.~:/@!$&()*+,;=%'' @ [CHR 0x27])"

definition url_charset :: "string \<Rightarrow> bool" where
  "url_charset s \<longleftrightarrow> s \<noteq> [] \<and> list_all url_char s"

definition parseGitSource :: "(string \<Rightarrow> bool) \<Rightarrow> string \<Rightarrow> prefetch_error + string \<times> string" where
  "parseGitSource valid_url source =
     (let spec = drop 4 source;
          tail = takeWhile (\<lambda>c. c \<noteq> CHR ''#'') (rev spec);
          has = CHR ''#'' \<in> set spec;
          commit = (if has then rev tail else []) in
      if \<not> git_commit commit then Inl (UnpinnedGit (take 120 spec))
      else
        (let url = hd (split_on CHR ''?'' (take (length spec - length tail - 1) spec)) in
         if \<not> valid_url url \<or> \<not> url_charset url then Inl (BadGitUrl (take 120 url)) else Inr (url, commit)))"

definition mirror_id :: "(string \<Rightarrow> string) \<Rightarrow> string \<Rightarrow> string" where
  "mirror_id digest url = take 32 (digest url)"

definition add_git :: "(string \<Rightarrow> string) \<Rightarrow> string \<Rightarrow> string \<Rightarrow> (string, git_dep) js_map \<Rightarrow> (string, git_dep) js_map" where
  "add_git digest url commit gits =
     (let dep = (case js_get gits url of
                   Some d \<Rightarrow> d
                 | None \<Rightarrow> \<lparr>gd_url = url, gd_commits = [], gd_mirrorId = mirror_id digest url\<rparr>)
      in js_set url (if commit \<in> set (gd_commits dep) then dep else dep\<lparr>gd_commits := gd_commits dep @ [commit]\<rparr>) gits)"

type_synonym plan_maps = "(string, registry_dep) js_map \<times> (string, git_dep) js_map"

definition plan_package ::
  "(string \<Rightarrow> bool) \<Rightarrow> (string \<Rightarrow> string) \<Rightarrow> locked_package \<Rightarrow> plan_maps \<Rightarrow> prefetch_error + plan_maps" where
  "plan_package valid_url digest pkg maps =
     (if \<not> truthy (pkg_source pkg) then Inr maps
      else if \<not> crate_name_ok (pkg_name pkg) \<or> \<not> crate_version_ok (pkg_version pkg)
        then Inl (BadNameOrVersion (pkg_name pkg) (pkg_version pkg))
      else if the (pkg_source pkg) \<in> set CRATES_IO_SOURCES then
        (case pkg_checksum pkg of
           None \<Rightarrow> Inl (NoChecksum (pkg_name pkg) (pkg_version pkg))
         | Some cks \<Rightarrow>
             (if \<not> sha256_hex cks then Inl (NoChecksum (pkg_name pkg) (pkg_version pkg))
              else Inr (js_set (pkg_name pkg @ ''@'' @ pkg_version pkg)
                          \<lparr>rd_name = pkg_name pkg, rd_version = pkg_version pkg, rd_checksum = cks\<rparr> (fst maps), snd maps)))
      else if starts_with (the (pkg_source pkg)) ''git+'' then
        map_sum id (\<lambda>(url, commit). (fst maps, add_git digest url commit (snd maps)))
          (parseGitSource valid_url (the (pkg_source pkg)))
      else Inl (UnsupportedDependency (pkg_name pkg) (pkg_version pkg)))"

fun plan_packages ::
  "(string \<Rightarrow> bool) \<Rightarrow> (string \<Rightarrow> string) \<Rightarrow> locked_package list \<Rightarrow> plan_maps \<Rightarrow> prefetch_error + plan_maps" where
  "plan_packages valid_url digest [] maps = Inr maps"
| "plan_packages valid_url digest (pkg # pkgs) maps =
     res_bind (plan_package valid_url digest pkg maps) (plan_packages valid_url digest pkgs)"

definition planDependencies ::
  "(string \<Rightarrow> bool) \<Rightarrow> (string \<Rightarrow> string) \<Rightarrow> locked_package list \<Rightarrow> prefetch_error + dependency_plan" where
  "planDependencies valid_url digest pkgs =
     map_sum id (\<lambda>maps. \<lparr>registry = js_values (fst maps), git = js_values (snd maps)\<rparr>)
       (plan_packages valid_url digest pkgs ([], []))"

definition indexPath :: "string \<Rightarrow> string" where
  "indexPath name =
     (let n = to_lower name in
      if length n = 1 then ''1/'' @ n
      else if length n = 2 then ''2/'' @ n
      else if length n = 3 then ''3/'' @ take 1 n @ ''/'' @ n
      else take 2 n @ ''/'' @ take 2 (drop 2 n) @ ''/'' @ n)"

subsection \<open>The configuration of the build\<close>

definition CONTAINER_DEPS_DIR :: string where
  "CONTAINER_DEPS_DIR = ''/deps''"

definition hermeticCargoConfig :: string where
  "hermeticCargoConfig = join CHR 0x0A
     [''[source.crates-io]'', ''replace-with = '' @ [CHR 0x22] @ ''vellar-prefetched'' @ [CHR 0x22], [],
      ''[source.vellar-prefetched]'', ''local-registry = '' @ [CHR 0x22] @ CONTAINER_DEPS_DIR @ ''/registry'' @ [CHR 0x22], [],
      ''[net]'', ''git-fetch-with-cli = true'', []]"

definition git_config_lines :: "git_dep \<Rightarrow> string list" where
  "git_config_lines dep =
     [''[url '' @ [CHR 0x22] @ ''file://'' @ CONTAINER_DEPS_DIR @ ''/git/'' @ gd_mirrorId dep @ [CHR 0x22] @ '']'',
      CHR 0x09 # ''insteadOf = '' @ [CHR 0x22] @ gd_url dep @ [CHR 0x22]]"

definition PROTOCOL_LINES :: "string list" where
  "PROTOCOL_LINES =
     [''[protocol]'', CHR 0x09 # ''allow = never'', ''[protocol '' @ [CHR 0x22] @ ''file'' @ [CHR 0x22] @ '']'',
      CHR 0x09 # ''allow = always'', ''[safe]'', CHR 0x09 # ''directory = *'']"

definition config_lines :: "dependency_plan \<Rightarrow> string list" where
  "config_lines plan = PROTOCOL_LINES @ concat (map git_config_lines (git plan))"

definition hermeticGitConfig :: "dependency_plan \<Rightarrow> string" where
  "hermeticGitConfig plan = join CHR 0x0A (config_lines plan) @ [CHR 0x0A]"

definition HERMETIC_GIT_ENV :: "(string \<times> string) list" where
  "HERMETIC_GIT_ENV = [(''GIT_CONFIG_GLOBAL'', CONTAINER_DEPS_DIR @ ''/gitconfig''), (''GIT_CONFIG_NOSYSTEM'', ''1'')]"

subsection \<open>The parser reads what cargo writes\<close>

text \<open>A lockfile in cargo's format: the comment and the format version, then one table per package, with its
  dependencies in an array.\<close>

definition quote_line :: "string \<Rightarrow> string \<Rightarrow> string" where
  "quote_line k v = k @ '' = '' @ [CHR 0x22] @ v @ [CHR 0x22]"

definition optional_line :: "string \<Rightarrow> string option \<Rightarrow> string list" where
  "optional_line k v = (case v of None \<Rightarrow> [] | Some s \<Rightarrow> [quote_line k s])"

definition dep_line :: "string \<Rightarrow> string" where
  "dep_line d = '' '' @ [CHR 0x22] @ d @ [CHR 0x22] @ '',''"

definition dependency_lines :: "string list \<Rightarrow> string list" where
  "dependency_lines ds =
     (if ds = [] then [] else [''dependencies = [''] @ map dep_line ds @ ['']''])"

definition package_lines :: "locked_package \<times> string list \<Rightarrow> string list" where
  "package_lines = (\<lambda>(p, ds).
     [''[[package]]'', quote_line ''name'' (pkg_name p), quote_line ''version'' (pkg_version p)]
     @ optional_line ''source'' (pkg_source p) @ optional_line ''checksum'' (pkg_checksum p) @ dependency_lines ds @ [[]])"

definition lock_lines :: "(locked_package \<times> string list) list \<Rightarrow> string list" where
  "lock_lines entries =
     [''# This file is automatically @generated by Cargo.'', ''version = 4'', []] @ concat (map package_lines entries)"

definition lock_text :: "(locked_package \<times> string list) list \<Rightarrow> string" where
  "lock_text entries = join CHR 0x0A (lock_lines entries)"

definition plain_value :: "string \<Rightarrow> bool" where
  "plain_value v \<longleftrightarrow> list_all plain_char v \<and> CHR 0x0A \<notin> set v \<and> CHR 0x0D \<notin> set v"

definition writable :: "locked_package \<times> string list \<Rightarrow> bool" where
  "writable = (\<lambda>(p, ds). pkg_name p \<noteq> [] \<and> pkg_version p \<noteq> [] \<and> plain_value (pkg_name p) \<and> plain_value (pkg_version p)
     \<and> (case pkg_source p of None \<Rightarrow> True | Some s \<Rightarrow> plain_value s)
     \<and> (case pkg_checksum p of None \<Rightarrow> True | Some s \<Rightarrow> plain_value s) \<and> list_all plain_value ds)"

lemma trim_id: "s \<noteq> [] \<Longrightarrow> \<not> is_space (hd s) \<Longrightarrow> \<not> is_space (last s) \<Longrightarrow> js_trim s = s"
proof -
  assume s: "s \<noteq> []" "\<not> is_space (hd s)" "\<not> is_space (last s)"
  have d: "t \<noteq> [] \<Longrightarrow> \<not> is_space (hd t) \<Longrightarrow> dropWhile is_space t = t" for t by (cases t) auto
  from s d [of s] d [of "rev s"] show "js_trim s = s" by (simp add: js_trim_def hd_rev)
qed

lemma trim_leading: "js_trim (CHR '' '' # s) = js_trim s"
  by (simp add: js_trim_def is_space_def)

lemma key_char_not_space: "key_char c \<Longrightarrow> \<not> is_space c"
  by (auto simp: key_char_def is_space_def Let_def)

lemma quote_line_trim:
  assumes "k \<noteq> []" "list_all key_char k" shows "js_trim (quote_line k v) = quote_line k v"
proof (rule trim_id)
  show "\<not> is_space (hd (quote_line k v))" using assms by (cases k) (auto simp: quote_line_def key_char_not_space)
  show "\<not> is_space (last (quote_line k v))" by (simp add: quote_line_def is_space_def)
qed (simp add: quote_line_def)

lemma quote_line_value:
  assumes "k \<noteq> []" "list_all key_char k" "CHR 0x0D \<notin> set v"
  shows "key_value (quote_line k v) = Some (k, CHR 0x22 # v @ [CHR 0x22])"
proof -
  have "takeWhile key_char (k @ '' = '' @ r) = k" for r
    using assms(2) by (subst takeWhile_append2) (auto simp: list_all_iff key_char_def)
  with assms show ?thesis by (simp add: key_value_def quote_line_def is_space_def)
qed

lemma quoted_plain: "list_all plain_char v \<Longrightarrow> quoted (CHR 0x22 # v @ [CHR 0x22]) = Some v"
  by (simp add: quoted_def)

lemma parse_quote_line:
  assumes "k \<in> set LOCK_KEYS" "plain_value v"
  shows "parse_line (quote_line k v) (Some p) False = Inr ([], Some (set_key k v p), False)"
proof -
  have k: "k \<noteq> []" "list_all key_char k" "\<not> starts_with (quote_line k v) ''#''" "\<not> starts_with (quote_line k v) ''[''"
    using assms(1) by (auto simp: LOCK_KEYS_def key_char_def quote_line_def starts_with_def)
  moreover have "quote_line k v \<noteq> []" by (simp add: quote_line_def)
  ultimately show ?thesis using assms quote_line_trim [OF k(1,2)] quote_line_value [OF k(1,2)] quoted_plain [of v]
    by (simp add: parse_line_def plain_value_def Let_def starts_with_def [of "_ # _"])
qed

lemma parse_lines_step:
  "parse_line l cur a = Inr (d, cur', a') \<Longrightarrow> parse_lines (l # ls) cur a = map_sum id (\<lambda>more. d @ more) (parse_lines ls cur' a')"
  by simp

lemma sum_map_id [simp]: "map_sum id (\<lambda>x. x) r = r" "map_sum id ((@) []) r = r"
  by (cases r; simp)+

lemma parse_dependencies:
  assumes "list_all plain_value ds"
  shows "parse_lines (dependency_lines ds @ rest) (Some p) False = parse_lines rest (Some p) False"
proof (cases "ds = []")
  case True
  then show ?thesis by (simp add: dependency_lines_def)
next
  case False
  have first: "parse_line ''dependencies = ['' (Some p) False = Inr ([], Some p, True)" by code_simp
  have entry: "parse_line (dep_line d) (Some p) True = Inr ([], Some p, True)" for d
  proof -
    have "js_trim (CHR 0x22 # d @ [CHR 0x22] @ '','') = CHR 0x22 # d @ [CHR 0x22] @ '',''"
      by (rule trim_id) (simp_all add: is_space_def)
    then show ?thesis by (simp add: parse_line_def trim_leading ends_with_def dep_line_def)
  qed
  have closing: "parse_line '']'' (Some p) True = Inr ([], Some p, False)" by code_simp
  have "parse_lines (map dep_line ds @ ['']''] @ rest) (Some p) True
      = parse_lines rest (Some p) False"
    by (induction ds) (use entry closing in simp_all)
  with first show ?thesis by (simp add: dependency_lines_def False)
qed

lemma parse_optional:
  assumes "k \<in> set LOCK_KEYS" "case v of None \<Rightarrow> True | Some s \<Rightarrow> plain_value s"
  shows "parse_lines (optional_line k v @ rest) (Some p) False
     = parse_lines rest (Some (case v of None \<Rightarrow> p | Some s \<Rightarrow> set_key k s p)) False"
  using assms parse_quote_line [of k] by (cases v) (simp_all add: optional_line_def)

definition as_partial :: "locked_package \<Rightarrow> partial_package" where
  "as_partial p = \<lparr>pp_name = Some (pkg_name p), pp_version = Some (pkg_version p), pp_source = pkg_source p, pp_checksum = pkg_checksum p\<rparr>"

lemma flush_partial: "pkg_name p \<noteq> [] \<Longrightarrow> pkg_version p \<noteq> [] \<Longrightarrow> flush (Some (as_partial p)) = Inr [p]"
  by (simp add: flush_def as_partial_def)

lemma parse_package:
  assumes "writable (p, ds)" and "flush cur = Inr fin"
  shows "parse_lines (package_lines (p, ds) @ rest) cur False = map_sum id (\<lambda>more. fin @ more) (parse_lines rest (Some (as_partial p)) False)"
proof -
  have header: "parse_line ''[[package]]'' cur False = Inr (fin, Some no_keys, False)"
  proof -
    have "js_trim ''[[package]]'' = ''[[package]]''" by code_simp
    then show ?thesis using assms(2) by (simp add: parse_line_def starts_with_def)
  qed
  have empty: "parse_line [] c False = Inr ([], c, False)" for c by (simp add: parse_line_def js_trim_def)
  have keys: "''name'' \<in> set LOCK_KEYS" "''version'' \<in> set LOCK_KEYS" "''source'' \<in> set LOCK_KEYS" "''checksum'' \<in> set LOCK_KEYS"
    by (simp_all add: LOCK_KEYS_def)
  have fields: "plain_value (pkg_name p)" "plain_value (pkg_version p)" "list_all plain_value ds"
    "case pkg_source p of None \<Rightarrow> True | Some s \<Rightarrow> plain_value s" "case pkg_checksum p of None \<Rightarrow> True | Some s \<Rightarrow> plain_value s"
    using assms(1) by (simp_all add: writable_def)
  let ?q = "set_key ''version'' (pkg_version p) (set_key ''name'' (pkg_name p) no_keys)"
  have "parse_lines (package_lines (p, ds) @ rest) cur False
      = map_sum id (\<lambda>more. fin @ more)
          (parse_lines (optional_line ''source'' (pkg_source p) @ optional_line ''checksum'' (pkg_checksum p) @ dependency_lines ds @ [[]] @ rest)
             (Some ?q) False)"
    using header parse_quote_line [OF keys(1) fields(1)] parse_quote_line [OF keys(2) fields(2)]
    by (simp add: package_lines_def)
  also have "\<dots> = map_sum id (\<lambda>more. fin @ more) (parse_lines rest (Some (as_partial p)) False)"
    by (simp add: parse_optional [OF keys(3) fields(4)] parse_optional [OF keys(4) fields(5)] parse_dependencies [OF fields(3)] empty
        as_partial_def set_key_def no_keys_def split: option.split)
  finally show ?thesis .
qed

lemma parse_packages:
  assumes "list_all writable entries" and "flush cur = Inr fin"
  shows "parse_lines (concat (map package_lines entries)) cur False = Inr (fin @ map fst entries)"
  using assms
proof (induction entries arbitrary: cur fin)
  case Nil
  then show ?case by simp
next
  case (Cons e entries)
  obtain p ds where e: "e = (p, ds)" by (cases e)
  have "flush (Some (as_partial p)) = Inr [p]" by (rule flush_partial) (use Cons.prems e in \<open>simp_all add: writable_def\<close>)
  with Cons.IH [of "Some (as_partial p)" "[p]"] Cons.prems parse_package [of p ds cur "fin" "concat (map package_lines entries)"]
  show ?case by (simp add: e)
qed

lemma split_on_join_lines: "ls \<noteq> [] \<Longrightarrow> \<forall>l\<in>set ls. d \<notin> set l \<Longrightarrow> split_on d (join d ls) = ls"
  by (induction d ls rule: join.induct) (auto simp: split_on_free split_on_join)

lemma lock_lines_one_line:
  assumes "list_all writable entries" shows "\<forall>l\<in>set (lock_lines entries). CHR 0x0A \<notin> set l"
proof -
  have "CHR 0x0A \<notin> set l" if "e \<in> set entries" "l \<in> set (package_lines e)" for e l
  proof -
    obtain p ds where e: "e = (p, ds)" by (cases e)
    have "writable (p, ds)" using assms that(1) e by (auto simp: list_all_iff)
    with that(2) show ?thesis unfolding e
      by (auto simp: package_lines_def writable_def optional_line_def quote_line_def dependency_lines_def dep_line_def plain_value_def list_all_iff
          split: option.splits if_splits)
  qed
  then show ?thesis by (auto simp: lock_lines_def)
qed

text \<open>The parser recovers exactly what cargo wrote: for every list of packages whose fields need no escapes, parsing the
  lockfile text yields the packages in order, with their sources and checksums, whatever their
  dependency arrays hold.\<close>

theorem lockfile_round_trip:
  assumes "list_all writable entries"
  shows "parseCargoLock (lock_text entries) = Inr (map fst entries)"
proof -
  have "split_on CHR 0x0A (lock_text entries) = lock_lines entries"
    unfolding lock_text_def by (rule split_on_join_lines) (use lock_lines_one_line [OF assms] in \<open>auto simp: lock_lines_def\<close>)
  moreover have "parse_line ''# This file is automatically @generated by Cargo.'' None False = Inr ([], None, False)"
    "parse_line ''version = 4'' None False = Inr ([], None, False)" "parse_line [] None False = Inr ([], None, False)"
    by code_simp+
  moreover have "flush None = Inr []" by (simp add: flush_def)
  ultimately show ?thesis using parse_packages [OF assms, of None "[]"]
    by (simp add: parseCargoLock_def lock_lines_def)
qed

definition example_lock :: "(locked_package \<times> string list) list" where
  "example_lock =
     [(\<lparr>pkg_name = ''app'', pkg_version = ''0.1.0'', pkg_source = None, pkg_checksum = None\<rparr>, [''serde'', ''itoa'']),
      (\<lparr>pkg_name = ''serde'', pkg_version = ''1.0.0'', pkg_source = Some ''sparse+https://index.crates.io/'',
        pkg_checksum = Some ''ab''\<rparr>, [])]"

theorem lockfile_round_trip_witness:
  "parseCargoLock (lock_text example_lock) = Inr (map fst example_lock) \<and> length (lock_lines example_lock) = 17"
proof
  show "parseCargoLock (lock_text example_lock) = Inr (map fst example_lock)"
    by (rule lockfile_round_trip) (simp add: example_lock_def writable_def plain_value_def plain_char_def)
qed (simp add: example_lock_def lock_lines_def package_lines_def optional_line_def dependency_lines_def)

subsection \<open>What a plan contains\<close>

definition registry_ok :: "registry_dep \<Rightarrow> bool" where
  "registry_ok d \<longleftrightarrow> crate_name_ok (rd_name d) \<and> crate_version_ok (rd_version d) \<and> sha256_hex (rd_checksum d)"

definition git_ok :: "(string \<Rightarrow> bool) \<Rightarrow> (string \<Rightarrow> string) \<Rightarrow> git_dep \<Rightarrow> bool" where
  "git_ok valid_url digest d \<longleftrightarrow> valid_url (gd_url d) \<and> url_charset (gd_url d) \<and> gd_mirrorId d = mirror_id digest (gd_url d)
     \<and> gd_commits d \<noteq> [] \<and> distinct (gd_commits d) \<and> list_all git_commit (gd_commits d)"

definition maps_ok :: "(string \<Rightarrow> bool) \<Rightarrow> (string \<Rightarrow> string) \<Rightarrow> plan_maps \<Rightarrow> bool" where
  "maps_ok valid_url digest maps \<longleftrightarrow>
     (\<forall>k d. js_get (fst maps) k = Some d \<longrightarrow> registry_ok d \<and> k = rd_name d @ ''@'' @ rd_version d)
   \<and> (\<forall>u d. js_get (snd maps) u = Some d \<longrightarrow> gd_url d = u \<and> git_ok valid_url digest d)
   \<and> js_ok (fst maps) \<and> js_ok (snd maps)"

text \<open>A package is covered when the plan holds it.\<close>

definition covered :: "(string \<Rightarrow> bool) \<Rightarrow> plan_maps \<Rightarrow> locked_package \<Rightarrow> bool" where
  "covered valid_url maps pkg \<longleftrightarrow> \<not> truthy (pkg_source pkg)
     \<or> (the (pkg_source pkg) \<in> set CRATES_IO_SOURCES \<and> js_has (fst maps) (pkg_name pkg @ ''@'' @ pkg_version pkg))
     \<or> (\<exists>url commit d. parseGitSource valid_url (the (pkg_source pkg)) = Inr (url, commit)
          \<and> js_get (snd maps) url = Some d \<and> commit \<in> set (gd_commits d))"

lemma parseGitSource_ok:
  "parseGitSource valid_url source = Inr (url, commit) \<Longrightarrow> git_commit commit \<and> valid_url url \<and> url_charset url"
  by (auto simp: parseGitSource_def Let_def split: if_splits)

lemma add_git_get:
  "js_get (add_git digest url commit gits) u =
     (if u \<noteq> url then js_get gits u
      else Some (case js_get gits url of
        None \<Rightarrow> \<lparr>gd_url = url, gd_commits = [commit], gd_mirrorId = mirror_id digest url\<rparr>
      | Some d \<Rightarrow> (if commit \<in> set (gd_commits d) then d else d\<lparr>gd_commits := gd_commits d @ [commit]\<rparr>)))"
  by (auto simp: add_git_def Let_def split: option.split)

lemma plan_package_cases:
  assumes "plan_package valid_url digest pkg maps = Inr maps'"
  obtains (path) "\<not> truthy (pkg_source pkg)" "maps' = maps"
  | (crate) cks where "the (pkg_source pkg) \<in> set CRATES_IO_SOURCES" "truthy (pkg_source pkg)"
      "crate_name_ok (pkg_name pkg)" "crate_version_ok (pkg_version pkg)" "sha256_hex cks"
      "maps' = (js_set (pkg_name pkg @ ''@'' @ pkg_version pkg)
          \<lparr>rd_name = pkg_name pkg, rd_version = pkg_version pkg, rd_checksum = cks\<rparr> (fst maps), snd maps)"
  | (git) url commit where "parseGitSource valid_url (the (pkg_source pkg)) = Inr (url, commit)" "truthy (pkg_source pkg)"
      "maps' = (fst maps, add_git digest url commit (snd maps))"
proof -
  from assms consider "\<not> truthy (pkg_source pkg)" "maps' = maps"
    | "truthy (pkg_source pkg)" "the (pkg_source pkg) \<in> set CRATES_IO_SOURCES"
    | "truthy (pkg_source pkg)" "the (pkg_source pkg) \<notin> set CRATES_IO_SOURCES"
    by (auto simp: plan_package_def split: if_splits)
  then show thesis
  proof cases
    case 1
    then show ?thesis by (rule path)
  next
    case 2
    with assms obtain cks where c: "crate_name_ok (pkg_name pkg)" "crate_version_ok (pkg_version pkg)" "sha256_hex cks"
      "maps' = (js_set (pkg_name pkg @ ''@'' @ pkg_version pkg)
          \<lparr>rd_name = pkg_name pkg, rd_version = pkg_version pkg, rd_checksum = cks\<rparr> (fst maps), snd maps)"
      by (auto simp: plan_package_def split: if_splits option.splits)
    show ?thesis by (rule crate [OF 2(2) 2(1) c(1) c(2) c(3) c(4)])
  next
    case 3
    with assms have "map_sum id (\<lambda>(url, commit). (fst maps, add_git digest url commit (snd maps)))
        (parseGitSource valid_url (the (pkg_source pkg))) = Inr maps'"
      by (auto simp: plan_package_def split: if_splits)
    then obtain url commit where "parseGitSource valid_url (the (pkg_source pkg)) = Inr (url, commit)"
      "maps' = (fst maps, add_git digest url commit (snd maps))"
      by (cases "parseGitSource valid_url (the (pkg_source pkg))") auto
    then show ?thesis using 3(1) by (intro git)
  qed
qed

lemma plan_package_ok:
  assumes "plan_package valid_url digest pkg maps = Inr maps'" and "maps_ok valid_url digest maps"
  shows "maps_ok valid_url digest maps'"
  using assms(1)
proof (cases rule: plan_package_cases)
  case (git url commit)
  note g = parseGitSource_ok [OF git(1)]
  have "git_ok valid_url digest d \<Longrightarrow> commit \<notin> set (gd_commits d) \<Longrightarrow> git_ok valid_url digest (d\<lparr>gd_commits := gd_commits d @ [commit]\<rparr>)" for d
    using g by (simp add: git_ok_def)
  moreover have "js_ok (add_git digest url commit (snd maps))" using assms(2) by (simp add: add_git_def maps_ok_def Let_def)
  moreover have "git_ok valid_url digest \<lparr>gd_url = url, gd_commits = [commit], gd_mirrorId = mirror_id digest url\<rparr>"
    using g by (simp add: git_ok_def)
  ultimately show ?thesis using assms(2) git(3)
    by (auto simp: maps_ok_def add_git_get split: option.splits if_splits)
qed (use assms(2) in \<open>auto simp: maps_ok_def registry_ok_def\<close>)

lemma plan_package_covers:
  assumes "plan_package valid_url digest pkg maps = Inr maps'"
  shows "covered valid_url maps' pkg" and "covered valid_url maps p \<Longrightarrow> covered valid_url maps' p"
proof -
  from assms show "covered valid_url maps' pkg"
  proof (cases rule: plan_package_cases)
    case (git url commit)
    then have "\<exists>d. js_get (snd maps') url = Some d \<and> commit \<in> set (gd_commits d)"
      by (auto simp: add_git_get split: option.split)
    with git(1) show ?thesis by (auto simp: covered_def)
  qed (auto simp: covered_def js_has_def)
  assume c: "covered valid_url maps p"
  from assms show "covered valid_url maps' p"
  proof (cases rule: plan_package_cases)
    case (git url commit)
    have "\<exists>d'. js_get (snd maps') u = Some d' \<and> h \<in> set (gd_commits d')"
      if "js_get (snd maps) u = Some d" "h \<in> set (gd_commits d)" for u d h
      using that git(3) by (cases "u = url") (auto simp: add_git_get)
    with c git(3) show ?thesis by (fastforce simp: covered_def)
  qed (use c in \<open>auto simp: covered_def js_has_def\<close>)
qed

lemma plan_packages_ok:
  "plan_packages valid_url digest pkgs maps = Inr maps' \<Longrightarrow> maps_ok valid_url digest maps \<Longrightarrow> maps_ok valid_url digest maps'"
  by (induction pkgs arbitrary: maps) (auto simp: res_bind_eq_Inr dest: plan_package_ok)

lemma plan_packages_cover:
  "plan_packages valid_url digest pkgs maps = Inr maps' \<Longrightarrow>
     (\<forall>p. covered valid_url maps p \<longrightarrow> covered valid_url maps' p) \<and> (\<forall>p\<in>set pkgs. covered valid_url maps' p)"
proof (induction pkgs arbitrary: maps)
  case (Cons pkg pkgs)
  then obtain m where m: "plan_package valid_url digest pkg maps = Inr m" "plan_packages valid_url digest pkgs m = Inr maps'"
    by (auto simp: res_bind_eq_Inr)
  from Cons.IH [OF m(2)] plan_package_covers [OF m(1)] show ?case by auto
qed simp

lemma planned:
  assumes "planDependencies valid_url digest pkgs = Inr plan"
  obtains maps where "maps_ok valid_url digest maps" "\<forall>p\<in>set pkgs. covered valid_url maps p"
    "registry plan = js_values (fst maps)" "git plan = js_values (snd maps)"
proof -
  from assms obtain maps where m: "plan_packages valid_url digest pkgs ([], []) = Inr maps"
    and p: "plan = \<lparr>registry = js_values (fst maps), git = js_values (snd maps)\<rparr>"
    by (cases "plan_packages valid_url digest pkgs ([], [])") (auto simp: planDependencies_def)
  show thesis
    by (rule that [of maps]) (use plan_packages_ok [OF m] plan_packages_cover [OF m] p in \<open>auto simp: maps_ok_def\<close>)
qed

lemma separators: "\<not> key_char (CHR ''/'')" "\<not> key_char (CHR ''@'')" "\<not> version_char (CHR ''/'')" "\<not> version_char (CHR ''@'')"
  by (simp_all add: key_char_def version_char_def)

lemma safe_chars:
  "list_all key_char s \<Longrightarrow> CHR ''/'' \<notin> set s \<and> CHR ''@'' \<notin> set s"
  "list_all version_char s \<Longrightarrow> CHR ''/'' \<notin> set s \<and> CHR ''@'' \<notin> set s"
  using separators unfolding list_all_iff by blast+

lemma registry_chars:
  "registry_ok d \<Longrightarrow> CHR ''/'' \<notin> set (rd_name d) \<and> CHR ''@'' \<notin> set (rd_name d)
     \<and> CHR ''/'' \<notin> set (rd_version d) \<and> CHR ''@'' \<notin> set (rd_version d)"
  by (simp add: registry_ok_def crate_name_ok_def crate_version_ok_def safe_chars)

text \<open>C25: An accepted lockfile is planned completely and safely: every package with a source is in the plan under its name
  and version or its git URL and commit; every crate of the plan has a well-formed name, version and
  SHA-256, so that no file name contains a slash, and every git URL consists of plain URL characters and
  is pinned to full commits.\<close>

theorem accepted_plan_complete_and_safe:
  assumes "planDependencies valid_url digest pkgs = Inr plan"
  shows "(\<forall>p\<in>set pkgs. truthy (pkg_source p) \<longrightarrow>
             (\<exists>d\<in>set (registry plan). rd_name d = pkg_name p \<and> rd_version d = pkg_version p)
           \<or> (\<exists>url commit. \<exists>d\<in>set (git plan). parseGitSource valid_url (the (pkg_source p)) = Inr (url, commit)
                \<and> gd_url d = url \<and> commit \<in> set (gd_commits d)))
       \<and> list_all registry_ok (registry plan) \<and> list_all (git_ok valid_url digest) (git plan)
       \<and> (\<forall>d\<in>set (registry plan). CHR ''/'' \<notin> set (rd_name d @ ''-'' @ rd_version d @ ''.crate''))"
proof -
  from planned [OF assms] obtain maps where ok: "maps_ok valid_url digest maps" and cov: "\<forall>p\<in>set pkgs. covered valid_url maps p"
    and plan: "registry plan = js_values (fst maps)" "git plan = js_values (snd maps)" .
  have reg: "registry_ok d" if "d \<in> set (registry plan)" for d
    using that ok by (auto simp: plan maps_ok_def js_values_iff)
  have "git_ok valid_url digest d" if "d \<in> set (git plan)" for d
    using that ok by (auto simp: plan maps_ok_def js_values_iff)
  moreover have "CHR ''/'' \<notin> set (rd_name d @ ''-'' @ rd_version d @ ''.crate'')" if "d \<in> set (registry plan)" for d
    using registry_chars [OF reg [OF that]] by simp
  moreover have "(\<exists>d\<in>set (registry plan). rd_name d = pkg_name p \<and> rd_version d = pkg_version p)
           \<or> (\<exists>url commit. \<exists>d\<in>set (git plan). parseGitSource valid_url (the (pkg_source p)) = Inr (url, commit)
                \<and> gd_url d = url \<and> commit \<in> set (gd_commits d))"
    if p: "p \<in> set pkgs" "truthy (pkg_source p)" for p
  proof -
    from cov p consider (crate) d where "js_get (fst maps) (pkg_name p @ ''@'' @ pkg_version p) = Some d"
      | (git) url commit d where "parseGitSource valid_url (the (pkg_source p)) = Inr (url, commit)"
          "js_get (snd maps) url = Some d" "commit \<in> set (gd_commits d)"
      by (auto simp: covered_def js_has_def)
    then show ?thesis
    proof cases
      case crate
      have at: "a @ CHR ''@'' # b = c @ CHR ''@'' # e \<Longrightarrow> CHR ''@'' \<notin> set b \<Longrightarrow> CHR ''@'' \<notin> set e \<Longrightarrow> a = c \<and> b = e" for a b c e :: string
        by (auto simp: append_eq_append_conv2 Cons_eq_append_conv append_eq_Cons_conv)
      from crate ok have d: "registry_ok d" "pkg_name p @ ''@'' @ pkg_version p = rd_name d @ ''@'' @ rd_version d"
        by (auto simp: maps_ok_def)
      have no_at: "CHR ''@'' \<notin> set (rd_name d) \<union> set (rd_version d)" using registry_chars [OF d(1)] by simp
      then have "count_list (pkg_name p @ ''@'' @ pkg_version p) CHR ''@'' = 1"
        unfolding d(2) by (simp add: count_list_append)
      then have "count_list (pkg_version p) CHR ''@'' = 0" by (simp add: count_list_append)
      then have "CHR ''@'' \<notin> set (pkg_version p)" by (simp add: count_list_0_iff)
      with d(2) at [of "pkg_name p" "pkg_version p" "rd_name d" "rd_version d"] no_at \<open>CHR ''@'' \<notin> set (pkg_version p)\<close>
      have "rd_name d = pkg_name p \<and> rd_version d = pkg_version p" by simp
      with crate show ?thesis using js_get_in_values [OF crate] by (auto simp: plan)
    next
      case git
      with ok js_get_in_values [OF git(2)] show ?thesis by (auto simp: plan maps_ok_def)
    qed
  qed
  ultimately show ?thesis using reg by (auto simp: list_all_iff)
qed

theorem accepted_plan_complete_and_safe_witness:
  "\<exists>plan. planDependencies (\<lambda>_. True) (\<lambda>_. replicate 64 (CHR ''0''))
      [\<lparr>pkg_name = ''a'', pkg_version = ''1.0'', pkg_source = Some ''sparse+https://index.crates.io/'',
        pkg_checksum = Some (replicate 64 (CHR ''0''))\<rparr>] = Inr plan \<and> list_all registry_ok (registry plan)
      \<and> length (registry plan) = 1"
proof -
  let ?p = "\<lparr>pkg_name = ''a'', pkg_version = ''1.0'', pkg_source = Some ''sparse+https://index.crates.io/'',
        pkg_checksum = Some (replicate 64 (CHR ''0''))\<rparr> :: locked_package"
  have run: "planDependencies (\<lambda>_. True) (\<lambda>_. replicate 64 (CHR ''0'')) [?p]
      = Inr \<lparr>registry = [\<lparr>rd_name = ''a'', rd_version = ''1.0'', rd_checksum = replicate 64 (CHR ''0'')\<rparr>], git = []\<rparr>"
    by (simp add: planDependencies_def plan_package_def crate_name_ok_def crate_version_ok_def key_char_def version_char_def
        CRATES_IO_SOURCES_def sha256_hex_def hex_lower_def list_all_iff js_values_def del: replicate.simps)
  from accepted_plan_complete_and_safe [OF run] run show ?thesis by simp
qed

text \<open>The rewrites are the only thing a lockfile puts into the git configuration: neither a URL nor a mirror id can close
  its quotes or start another line.\<close>

lemma url_char_plain: "url_char c \<Longrightarrow> c \<noteq> CHR 0x0A \<and> c \<noteq> CHR 0x22 \<and> c \<noteq> CHR 0x5C"
  by (auto simp: url_char_def key_char_def)

lemma hex_lower_plain: "hex_lower c \<Longrightarrow> c \<noteq> CHR 0x0A \<and> c \<noteq> CHR 0x22 \<and> c \<noteq> CHR ''/''"
  by (auto simp: hex_lower_def)

lemma protocol_lines_plain: "l \<in> set PROTOCOL_LINES \<Longrightarrow> CHR 0x0A \<notin> set l"
proof -
  have "\<forall>l\<in>set PROTOCOL_LINES. CHR 0x0A \<notin> set l" by code_simp
  then show "l \<in> set PROTOCOL_LINES \<Longrightarrow> CHR 0x0A \<notin> set l" by blast
qed

lemma split_on_snoc: "split_on d (s @ [d]) = split_on d s @ [[]]"
  by (induction s) (auto split: list.split)

text \<open>C26: The git configuration of the build consists of the fixed lines that forbid every transport but files, followed by one
  rewrite per planned git dependency; a URL from the lockfile can add no line, close no quote and name no
  mirror outside the mirror directory.\<close>

theorem git_config_only_rewrites:
  assumes "planDependencies valid_url digest pkgs = Inr plan" and "\<forall>s. list_all hex_lower (digest s)"
  shows "split_on CHR 0x0A (hermeticGitConfig plan) = config_lines plan @ [[]]
    \<and> (\<forall>d\<in>set (git plan). CHR 0x22 \<notin> set (gd_url d) \<and> CHR 0x5C \<notin> set (gd_url d) \<and> CHR ''/'' \<notin> set (gd_mirrorId d))"
proof -
  from planned [OF assms(1)] obtain maps where ok: "maps_ok valid_url digest maps" and plan: "git plan = js_values (snd maps)" by metis
  have g: "git_ok valid_url digest d" if "d \<in> set (git plan)" for d
    using that ok by (auto simp: plan maps_ok_def js_values_iff)
  have u: "\<forall>c\<in>set (gd_url d). c \<noteq> CHR 0x0A \<and> c \<noteq> CHR 0x22 \<and> c \<noteq> CHR 0x5C" if "d \<in> set (git plan)" for d
    using g [OF that] url_char_plain by (auto simp: git_ok_def url_charset_def list_all_iff)
  have m: "\<forall>c\<in>set (gd_mirrorId d). c \<noteq> CHR 0x0A \<and> c \<noteq> CHR 0x22 \<and> c \<noteq> CHR ''/''" if "d \<in> set (git plan)" for d
  proof -
    have "list_all hex_lower (gd_mirrorId d)"
      using g [OF that] assms(2) by (auto simp: git_ok_def mirror_id_def list_all_iff dest: in_set_takeD)
    then show ?thesis using hex_lower_plain by (auto simp: list_all_iff)
  qed
  have "CHR 0x0A \<notin> set l" if "d \<in> set (git plan)" "l \<in> set (git_config_lines d)" for d l
  proof -
    have "CHR 0x0A \<notin> set (gd_url d)" "CHR 0x0A \<notin> set (gd_mirrorId d)" using u [OF that(1)] m [OF that(1)] by blast+
    with that(2) show ?thesis by (auto simp: git_config_lines_def CONTAINER_DEPS_DIR_def)
  qed
  then have "\<forall>l\<in>set (config_lines plan). CHR 0x0A \<notin> set l"
    using protocol_lines_plain by (auto simp: config_lines_def)
  then have "split_on CHR 0x0A (join CHR 0x0A (config_lines plan)) = config_lines plan"
    by (intro split_on_join_lines) (simp_all add: config_lines_def PROTOCOL_LINES_def)
  then have "split_on CHR 0x0A (hermeticGitConfig plan) = config_lines plan @ [[]]"
    by (simp add: hermeticGitConfig_def split_on_snoc)
  moreover have "\<forall>d\<in>set (git plan). CHR 0x22 \<notin> set (gd_url d) \<and> CHR 0x5C \<notin> set (gd_url d) \<and> CHR ''/'' \<notin> set (gd_mirrorId d)"
  proof
    fix d assume "d \<in> set (git plan)"
    from u [OF this] m [OF this] show "CHR 0x22 \<notin> set (gd_url d) \<and> CHR 0x5C \<notin> set (gd_url d) \<and> CHR ''/'' \<notin> set (gd_mirrorId d)"
      by auto
  qed
  ultimately show ?thesis ..
qed

theorem git_config_only_rewrites_witness:
  "\<exists>plan. planDependencies (\<lambda>_. True) (\<lambda>_. ''ab'') [] = Inr plan \<and> split_on CHR 0x0A (hermeticGitConfig plan) = config_lines plan @ [[]]"
proof -
  have run: "planDependencies (\<lambda>_. True) (\<lambda>_. ''ab'') [] = Inr \<lparr>registry = [], git = []\<rparr>"
    by (simp add: planDependencies_def js_values_def)
  from git_config_only_rewrites [OF run] run show ?thesis by (simp add: hex_lower_def)
qed

end
