(* ===== verification/CargoFetch.thy ===== *)
theory CargoFetch
  imports CargoLock Artifact ErrorClassification
begin

text \<open>
  The fetch itself, \<open>prefetchCargoDependencies\<close> of \<open>services/worker-service/src/cargo-prefetch.ts\<close>: the guard in
  front of every host, the index and crate downloads from crates.io and the mirrors of the git
  dependencies.  A run is a computation over the list of its effects; what the guard, the HTTPS client and
  git answer are arguments (git's answers may depend on everything done before).  The downloads that
  \<open>mapLimit\<close> runs side by side touch different files, so they are listed in item order; all of them are
  taken to run, and the first failing one in that order is reported.
\<close>

datatype guard_outcome = Guard_ok "resolved_pin option" | Guard_rejected url_error | Guard_threw thrown

datatype prefetch_failure = Prefetch prefetch_error | Fetch_threw thrown

datatype pf_event =
    Guarded string
  | Https string "resolved_pin option" nat
  | Git_run string "string list" int
  | Wrote_index string "string list"
  | Wrote_crate string bytes

record disk_estimate =
  perCrateBytes :: "int option"
  perGitDependencyBytes :: "int option"
  safetyMarginBytes :: "int option"

record prefetch_env =
  fe_valid_url :: "string \<Rightarrow> bool"
  fe_digest :: "string \<Rightarrow> string"
  fe_guard :: "string \<Rightarrow> guard_outcome"
  fe_fetch :: "string \<Rightarrow> resolved_pin option \<Rightarrow> nat \<Rightarrow> string + nat \<times> bytes"
  fe_text :: "bytes \<Rightarrow> string"
  fe_json :: "string \<Rightarrow> json option"
  fe_sha :: "bytes \<Rightarrow> string"
  fe_git :: "pf_event list \<Rightarrow> string \<Rightarrow> string list \<Rightarrow> int \<times> string"
  fe_free :: "int option"
  fe_disk :: disk_estimate

subsection \<open>Computations\<close>

type_synonym 'a fetcher = "pf_event list \<Rightarrow> pf_event list \<times> (prefetch_failure + 'a)"

definition give :: "'a \<Rightarrow> 'a fetcher" where
  "give x = (\<lambda>h. (h, Inr x))"

definition throw :: "prefetch_error \<Rightarrow> 'a fetcher" where
  "throw e = (\<lambda>h. (h, Inl (Prefetch e)))"

definition lift :: "prefetch_error + 'a \<Rightarrow> 'a fetcher" where
  "lift r = (case r of Inl e \<Rightarrow> throw e | Inr x \<Rightarrow> give x)"

definition seq :: "'a fetcher \<Rightarrow> ('a \<Rightarrow> 'b fetcher) \<Rightarrow> 'b fetcher" where
  "seq m f = (\<lambda>h. case m h of (h', Inl e) \<Rightarrow> (h', Inl e) | (h', Inr x) \<Rightarrow> f x h')"

definition emit :: "pf_event \<Rightarrow> unit fetcher" where
  "emit e = (\<lambda>h. (h @ [e], Inr ()))"

fun each :: "('a \<Rightarrow> unit fetcher) \<Rightarrow> 'a list \<Rightarrow> unit fetcher" where
  "each f [] = give ()"
| "each f (x # xs) = seq (f x) (\<lambda>_. each f xs)"

fun mapLimit :: "('a \<Rightarrow> unit fetcher) \<Rightarrow> 'a list \<Rightarrow> unit fetcher" where
  "mapLimit f [] = give ()"
| "mapLimit f (x # xs) = (\<lambda>h.
     (case f x h of (h', r) \<Rightarrow>
        (case mapLimit f xs h' of (h'', r') \<Rightarrow> (h'', case r of Inl e \<Rightarrow> Inl e | Inr _ \<Rightarrow> r'))))"

subsection \<open>The pre-fetch\<close>

definition CRATES_IO_INDEX :: string where
  "CRATES_IO_INDEX = ''https://index.crates.io''"

definition CRATES_IO_DOWNLOAD :: string where
  "CRATES_IO_DOWNLOAD = ''https://static.crates.io/crates''"

definition MAX_INDEX_BYTES :: nat where
  "MAX_INDEX_BYTES = 8 * 1024 * 1024"

definition MAX_CRATE_BYTES :: nat where
  "MAX_CRATE_BYTES = 64 * 1024 * 1024"

definition or_default :: "int option \<Rightarrow> int \<Rightarrow> int" where
  "or_default v d = (case v of None \<Rightarrow> d | Some n \<Rightarrow> n)"

definition estimateRequiredBytes :: "dependency_plan \<Rightarrow> disk_estimate \<Rightarrow> int" where
  "estimateRequiredBytes plan est =
     int (length (registry plan)) * or_default (perCrateBytes est) (4 * 1024 * 1024)
     + int (length (git plan)) * or_default (perGitDependencyBytes est) (256 * 1024 * 1024)
     + or_default (safetyMarginBytes est) (512 * 1024 * 1024)"

text \<open>\<open>None\<close> for the free bytes is a capacity that cannot be read, which skips the check with a note.\<close>

definition assertDiskSpace :: "prefetch_env \<Rightarrow> dependency_plan \<Rightarrow> bool fetcher" where
  "assertDiskSpace env plan =
     (if registry plan = [] \<and> git plan = [] then give False
      else
        (case fe_free env of
           None \<Rightarrow> give True
         | Some free \<Rightarrow>
             (if free < 0 then give True
              else if free \<le> estimateRequiredBytes plan (fe_disk env)
                then throw (DiskTooSmall free (estimateRequiredBytes plan (fe_disk env)))
              else give False)))"

definition guarded :: "prefetch_env \<Rightarrow> string \<Rightarrow> resolved_pin option fetcher" where
  "guarded env url = seq (emit (Guarded url)) (\<lambda>_.
     (case fe_guard env url of
        Guard_ok pin \<Rightarrow> give pin
      | Guard_rejected e \<Rightarrow> throw (UrlRejected e)
      | Guard_threw t \<Rightarrow> (\<lambda>h. (h, Inl (Fetch_threw t)))))"

definition get_body :: "prefetch_env \<Rightarrow> string \<Rightarrow> resolved_pin option \<Rightarrow> nat \<Rightarrow> string \<Rightarrow> bytes fetcher" where
  "get_body env url pin maxBytes what = seq (emit (Https url pin maxBytes)) (\<lambda>_.
     (case fe_fetch env url pin maxBytes of
        Inl msg \<Rightarrow> throw (FetchFailed what msg)
      | Inr (status, body) \<Rightarrow>
          (if status = 404 then throw (DoesNotExist what)
           else if status \<noteq> 200 then throw (HttpStatus what status)
           else give body)))"

fun group_by_name :: "registry_dep list \<Rightarrow> (string, registry_dep list) js_map \<Rightarrow> (string, registry_dep list) js_map" where
  "group_by_name [] m = m"
| "group_by_name (d # ds) m =
     group_by_name ds (js_set (rd_name d) ((case js_get m (rd_name d) of None \<Rightarrow> [] | Some l \<Rightarrow> l) @ [d]) m)"

definition version_line :: "prefetch_env \<Rightarrow> bytes \<Rightarrow> registry_dep \<Rightarrow> string option" where
  "version_line env body d =
     find (\<lambda>l. case fe_json env l of None \<Rightarrow> False | Some e \<Rightarrow> str_fld e ''vers'' = Some (rd_version d))
       (split_on CHR 0x0A (fe_text env body))"

text \<open>The line kept for one locked version; \<open>fe_json\<close> is what \<open>JSON.parse\<close> gives for a line, \<open>None\<close> when it throws.\<close>

definition kept_line :: "prefetch_env \<Rightarrow> string \<Rightarrow> bytes \<Rightarrow> registry_dep \<Rightarrow> prefetch_error + string" where
  "kept_line env name body d =
     (case version_line env body d of
        None \<Rightarrow> Inl (NotPublished (rd_name d) (rd_version d))
      | Some line \<Rightarrow>
          (let e = the (fe_json env line) in
           if line = [] then Inl (NotPublished (rd_name d) (rd_version d))
           else if str_fld e ''cksum'' \<noteq> Some (rd_checksum d) \<or> map_option to_lower (str_fld e ''name'') \<noteq> Some (to_lower name)
             then Inl (IndexChecksum (rd_name d) (rd_version d))
           else Inr line))"

fun kept_lines :: "prefetch_env \<Rightarrow> string \<Rightarrow> bytes \<Rightarrow> registry_dep list \<Rightarrow> prefetch_error + string list" where
  "kept_lines env name body [] = Inr []"
| "kept_lines env name body (d # ds) =
     res_bind (kept_line env name body d) (\<lambda>l. map_sum id (\<lambda>ls. l # ls) (kept_lines env name body ds))"

definition fetch_index :: "prefetch_env \<Rightarrow> resolved_pin option \<Rightarrow> string \<times> registry_dep list \<Rightarrow> unit fetcher" where
  "fetch_index env pin = (\<lambda>(name, versions).
     seq (get_body env (CRATES_IO_INDEX @ ''/'' @ indexPath name) pin MAX_INDEX_BYTES (''index entry for '' @ name)) (\<lambda>body.
     seq (lift (kept_lines env name body versions)) (\<lambda>kept. emit (Wrote_index (indexPath name) kept))))"

definition crate_file :: "registry_dep \<Rightarrow> string" where
  "crate_file d = rd_name d @ ''-'' @ rd_version d @ ''.crate''"

definition fetch_crate :: "prefetch_env \<Rightarrow> resolved_pin option \<Rightarrow> registry_dep \<Rightarrow> unit fetcher" where
  "fetch_crate env pin d =
     seq (get_body env (CRATES_IO_DOWNLOAD @ ''/'' @ rd_name d @ ''/'' @ crate_file d) pin MAX_CRATE_BYTES
            (rd_name d @ '' '' @ rd_version d)) (\<lambda>body.
       if fe_sha env body \<noteq> rd_checksum d then throw (CrateChecksum (rd_name d) (rd_version d))
       else emit (Wrote_crate (crate_file d) body))"

definition git_command :: "prefetch_env \<Rightarrow> string \<Rightarrow> string list \<Rightarrow> (int \<times> string) fetcher" where
  "git_command env mirror args = (\<lambda>h.
     let r = fe_git env h mirror args in (h @ [Git_run mirror args (fst r)], Inr r))"

definition fetch_args :: "resolved_pin option \<Rightarrow> string \<Rightarrow> string \<Rightarrow> string list" where
  "fetch_args pin url refspec =
     [''-c'', ''protocol.allow=never'', ''-c'', ''protocol.https.allow=always''] @ gitConnectionPinArgs pin
     @ [''fetch'', ''--no-tags'', ''--'', url, refspec]"

definition locked_ref :: "nat \<Rightarrow> string" where
  "locked_ref i = ''refs/heads/vellar-locked-'' @ show_nat i"

text \<open>Fetch by id, or once all heads; the answer tells whether the heads are there now.\<close>

definition fetch_commit :: "prefetch_env \<Rightarrow> git_dep \<Rightarrow> resolved_pin option \<Rightarrow> nat \<Rightarrow> string \<Rightarrow> bool \<Rightarrow> bool fetcher" where
  "fetch_commit env d pin i commit haveHeads =
     seq (git_command env (gd_mirrorId d) (fetch_args pin (gd_url d) (''+'' @ commit @ '':'' @ locked_ref i))) (\<lambda>byId.
       if fst byId \<noteq> 0 \<and> \<not> haveHeads then
         seq (git_command env (gd_mirrorId d) (fetch_args pin (gd_url d) ''+refs/heads/*:refs/heads/*'')) (\<lambda>heads.
           if fst heads \<noteq> 0 then throw (GitFetchFailed (gd_url d) (snd byId) (snd heads)) else give True)
       else give haveHeads)"

definition check_commit :: "prefetch_env \<Rightarrow> git_dep \<Rightarrow> nat \<Rightarrow> string \<Rightarrow> unit fetcher" where
  "check_commit env d i commit =
     seq (git_command env (gd_mirrorId d) [''cat-file'', ''-e'', commit @ ''^{commit}'']) (\<lambda>has.
       if fst has \<noteq> 0 then throw (CommitMissing commit (gd_url d))
       else
         seq (git_command env (gd_mirrorId d) [''cat-file'', ''-e'', commit @ '':.gitmodules'']) (\<lambda>sub.
           if fst sub = 0 then throw (HasSubmodules (gd_url d))
           else seq (git_command env (gd_mirrorId d) [''update-ref'', locked_ref i, commit]) (\<lambda>_. give ())))"

fun mirror_commits :: "prefetch_env \<Rightarrow> git_dep \<Rightarrow> resolved_pin option \<Rightarrow> nat \<Rightarrow> string list \<Rightarrow> bool \<Rightarrow> unit fetcher" where
  "mirror_commits env d pin i [] haveHeads = give ()"
| "mirror_commits env d pin i (c # cs) haveHeads =
     seq (fetch_commit env d pin i c haveHeads) (\<lambda>heads.
     seq (check_commit env d i c) (\<lambda>_. mirror_commits env d pin (Suc i) cs heads))"

definition mirrorGitDependency :: "prefetch_env \<Rightarrow> git_dep \<Rightarrow> unit fetcher" where
  "mirrorGitDependency env d =
     seq (guarded env (gd_url d)) (\<lambda>pin.
     seq (git_command env (gd_mirrorId d) [''init'', ''--bare'', ''--quiet'']) (\<lambda>init.
       if fst init \<noteq> 0 then throw (GitInitFailed (gd_url d))
       else
         seq (mirror_commits env d pin 0 (gd_commits d) False) (\<lambda>_.
         seq (git_command env (gd_mirrorId d) [''config'', ''uploadpack.allowAnySHA1InWant'', ''true'']) (\<lambda>_. give ()))))"

definition registry_pins :: "prefetch_env \<Rightarrow> dependency_plan \<Rightarrow> (resolved_pin option \<times> resolved_pin option) fetcher" where
  "registry_pins env plan =
     (if registry plan = [] then give (None, None)
      else
        seq (guarded env (CRATES_IO_INDEX @ ''/'')) (\<lambda>ip.
        seq (guarded env (CRATES_IO_DOWNLOAD @ ''/'')) (\<lambda>dp. give (ip, dp))))"

definition download_plan :: "prefetch_env \<Rightarrow> dependency_plan \<Rightarrow> unit fetcher" where
  "download_plan env plan =
     seq (registry_pins env plan) (\<lambda>(ip, dp).
     seq (mapLimit (fetch_index env ip) (group_by_name (registry plan) [])) (\<lambda>_.
     seq (mapLimit (fetch_crate env dp) (registry plan)) (\<lambda>_.
     each (mirrorGitDependency env) (git plan))))"

text \<open>The result: the plan, and whether the disk check was skipped.\<close>

definition prefetchCargoDependencies :: "prefetch_env \<Rightarrow> string option \<Rightarrow> (dependency_plan \<times> bool) fetcher" where
  "prefetchCargoDependencies env lockfile =
     (case lockfile of
        None \<Rightarrow> throw NoLockfile
      | Some text \<Rightarrow>
          seq (lift (res_bind (parseCargoLock text) (planDependencies (fe_valid_url env) (fe_digest env)))) (\<lambda>plan.
          seq (assertDiskSpace env plan) (\<lambda>note.
          seq (download_plan env plan) (\<lambda>_. give (plan, note)))))"

subsection \<open>Reasoning about runs\<close>

definition emits :: "(pf_event \<Rightarrow> bool) \<Rightarrow> 'a fetcher \<Rightarrow> bool" where
  "emits P m \<longleftrightarrow> (\<forall>h. \<exists>new. fst (m h) = h @ new \<and> list_all P new)"

definition ensures :: "'a fetcher \<Rightarrow> ('a \<Rightarrow> pf_event list \<Rightarrow> bool) \<Rightarrow> bool" where
  "ensures m Q \<longleftrightarrow> (\<forall>h h' x. m h = (h', Inr x) \<longrightarrow> Q x h')"

lemma emits_give [simp]: "emits P (give x)" and emits_throw [simp]: "emits P (throw e)"
  by (simp_all add: emits_def give_def throw_def)

lemma emits_lift [simp]: "emits P (lift r)"
  by (cases r) (simp_all add: lift_def)

lemma emits_emit [simp]: "P e \<Longrightarrow> emits P (emit e)"
  by (simp add: emits_def emit_def)

lemma emits_seq: "emits P m \<Longrightarrow> (\<And>x. emits P (f x)) \<Longrightarrow> emits P (seq m f)"
  unfolding emits_def
proof
  fix h
  assume m: "\<forall>h. \<exists>new. fst (m h) = h @ new \<and> list_all P new" and f: "\<And>x. \<forall>h. \<exists>new. fst (f x h) = h @ new \<and> list_all P new"
  obtain h' r where mh: "m h = (h', r)" by fastforce
  with m obtain new where new: "h' = h @ new" "list_all P new" by (metis fst_conv)
  show "\<exists>new. fst (seq m f h) = h @ new \<and> list_all P new"
  proof (cases r)
    case (Inl e)
    with mh new show ?thesis by (simp add: seq_def)
  next
    case (Inr x)
    from f [of x] obtain more where "fst (f x h') = h' @ more" "list_all P more" by blast
    with mh new Inr show ?thesis by (simp add: seq_def)
  qed
qed

text \<open>Sequencing where what follows may rely on what the first part ensured.\<close>

lemma emits_seq_ensures: "emits P m \<Longrightarrow> ensures m Q \<Longrightarrow> (\<And>x h. Q x h \<Longrightarrow> emits P (f x)) \<Longrightarrow> emits P (seq m f)"
  unfolding emits_def
proof
  fix h
  assume m: "\<forall>h. \<exists>new. fst (m h) = h @ new \<and> list_all P new" and q: "ensures m Q"
    and f: "\<And>x h. Q x h \<Longrightarrow> \<forall>h. \<exists>new. fst (f x h) = h @ new \<and> list_all P new"
  obtain h' r where mh: "m h = (h', r)" by fastforce
  with m obtain new where new: "h' = h @ new" "list_all P new" by (metis fst_conv)
  show "\<exists>new. fst (seq m f h) = h @ new \<and> list_all P new"
  proof (cases r)
    case (Inl e)
    with mh new show ?thesis by (simp add: seq_def)
  next
    case (Inr x)
    with q mh have "Q x h'" by (auto simp: ensures_def)
    from f [OF this] obtain more where "fst (f x h') = h' @ more" "list_all P more" by blast
    with mh new Inr show ?thesis by (simp add: seq_def)
  qed
qed

lemma emits_each: "(\<And>x. x \<in> set xs \<Longrightarrow> emits P (f x)) \<Longrightarrow> emits P (each f xs)"
  by (induction xs) (auto intro: emits_seq)

lemma emits_mapLimit: "(\<And>x. x \<in> set xs \<Longrightarrow> emits P (f x)) \<Longrightarrow> emits P (mapLimit f xs)"
proof (induction xs)
  case (Cons x xs)
  then have x: "emits P (f x)" and xs: "emits P (mapLimit f xs)" by simp_all
  show ?case
    unfolding emits_def
  proof
    fix h
    obtain h' r where fh: "f x h = (h', r)" by fastforce
    with x obtain new where new: "h' = h @ new" "list_all P new" unfolding emits_def by (metis fst_conv)
    obtain h'' r' where gh: "mapLimit f xs h' = (h'', r')" by fastforce
    with xs obtain more where more: "h'' = h' @ more" "list_all P more" unfolding emits_def by (metis fst_conv)
    from fh gh new more show "\<exists>new. fst (mapLimit f (x # xs) h) = h @ new \<and> list_all P new" by simp
  qed
qed simp

lemma emits_mono: "emits P m \<Longrightarrow> set h \<subseteq> set (fst (m h))"
  unfolding emits_def by (metis Un_upper1 set_append)

lemma seq_Inr: "seq m f h = (h', Inr y) \<longleftrightarrow> (\<exists>h1 x. m h = (h1, Inr x) \<and> f x h1 = (h', Inr y))"
  by (auto simp: seq_def split: prod.split sum.split)

lemma give_Inr [simp]: "give x h = (h', Inr y) \<longleftrightarrow> h' = h \<and> y = x"
  by (auto simp: give_def)

lemma throw_Inr [simp]: "throw e h \<noteq> (h', Inr y)"
  by (simp add: throw_def)

lemma lift_Inr: "lift r h = (h', Inr y) \<longleftrightarrow> h' = h \<and> r = Inr y"
  by (cases r) (auto simp: lift_def)

lemma emit_Inr [simp]: "emit e h = (h', Inr y) \<longleftrightarrow> h' = h @ [e]"
  by (auto simp: emit_def)

subsection \<open>Where the pre-fetch connects to\<close>

definition pinned_host :: "prefetch_env \<Rightarrow> string \<Rightarrow> string \<Rightarrow> resolved_pin option \<Rightarrow> bool" where
  "pinned_host env host url pin \<longleftrightarrow> starts_with url (host @ ''/'') \<and> fe_guard env (host @ ''/'') = Guard_ok pin"

text \<open>Every request goes to one of the two crates.io hosts over its validated address; every git command is a fetch of a
  planned URL over the address the guard validated for it, with every other protocol and redirects off, or
  one of the commands that stay on the machine.\<close>

fun confined :: "prefetch_env \<Rightarrow> dependency_plan \<Rightarrow> pf_event \<Rightarrow> bool" where
  "confined env plan (Https url pin n) = (pinned_host env CRATES_IO_INDEX url pin \<or> pinned_host env CRATES_IO_DOWNLOAD url pin)"
| "confined env plan (Git_run mirror args r) =
     ((\<exists>d\<in>set (git plan). \<exists>pin refspec. mirror = gd_mirrorId d \<and> fe_guard env (gd_url d) = Guard_ok pin
         \<and> args = fetch_args pin (gd_url d) refspec)
      \<or> hd args \<in> {''init'', ''cat-file'', ''update-ref'', ''config''})"
| "confined env plan e = True"

lemma guarded_ensures: "ensures (guarded env url) (\<lambda>pin h. fe_guard env url = Guard_ok pin)"
  by (auto simp: ensures_def guarded_def seq_Inr split: guard_outcome.splits)

lemma guarded_emits: "P (Guarded url) \<Longrightarrow> emits P (guarded env url)"
  unfolding guarded_def
  by (rule emits_seq, erule emits_emit) (auto simp: emits_def give_def throw_def split: guard_outcome.split)

lemma get_body_emits: "P (Https url pin n) \<Longrightarrow> emits P (get_body env url pin n what)"
  unfolding get_body_def by (rule emits_seq, erule emits_emit) (auto split: sum.split)

lemma git_command_emits: "(\<And>r. P (Git_run mirror args r)) \<Longrightarrow> emits P (git_command env mirror args)"
  by (simp add: emits_def git_command_def Let_def)

lemma starts_with_append [simp]: "starts_with (p @ s) p"
  by (simp add: starts_with_def)

lemma fetch_index_confined:
  assumes "fe_guard env (CRATES_IO_INDEX @ ''/'') = Guard_ok pin"
  shows "emits (confined env plan) (fetch_index env pin nv)"
proof -
  have "starts_with (CRATES_IO_INDEX @ ''/'' @ p) (CRATES_IO_INDEX @ ''/'')" for p by (simp add: starts_with_def)
  with assms show ?thesis
    by (cases nv) (auto simp: fetch_index_def pinned_host_def intro!: emits_seq get_body_emits)
qed

lemma fetch_crate_confined:
  assumes "fe_guard env (CRATES_IO_DOWNLOAD @ ''/'') = Guard_ok pin"
  shows "emits (confined env plan) (fetch_crate env pin d)"
proof -
  have "starts_with (CRATES_IO_DOWNLOAD @ ''/'' @ p) (CRATES_IO_DOWNLOAD @ ''/'')" for p by (simp add: starts_with_def)
  with assms show ?thesis
    by (auto simp: fetch_crate_def pinned_host_def intro!: emits_seq get_body_emits)
qed

lemma mirror_commits_confined:
  assumes "d \<in> set (git plan)" "fe_guard env (gd_url d) = Guard_ok pin"
  shows "emits (confined env plan) (mirror_commits env d pin i cs haveHeads)"
proof (induction cs arbitrary: i haveHeads)
  case (Cons c cs)
  have fetch: "emits (confined env plan) (git_command env (gd_mirrorId d) (fetch_args pin (gd_url d) ref))" for ref
    using assms by (intro git_command_emits) auto
  have "emits (confined env plan) (fetch_commit env d pin i c haveHeads)"
    unfolding fetch_commit_def by (auto intro!: emits_seq fetch)
  moreover have "emits (confined env plan) (check_commit env d i c)"
    unfolding check_commit_def by (auto intro!: emits_seq git_command_emits)
  ultimately show ?case using Cons.IH by (auto intro!: emits_seq)
qed simp

lemma mirror_confined: "d \<in> set (git plan) \<Longrightarrow> emits (confined env plan) (mirrorGitDependency env d)"
  unfolding mirrorGitDependency_def
  by (rule emits_seq_ensures [OF _ guarded_ensures])
     (auto intro!: emits_seq git_command_emits guarded_emits mirror_commits_confined)

lemma registry_pins_ensures:
  "ensures (registry_pins env plan) (\<lambda>ps h. registry plan \<noteq> [] \<longrightarrow>
     fe_guard env (CRATES_IO_INDEX @ ''/'') = Guard_ok (fst ps) \<and> fe_guard env (CRATES_IO_DOWNLOAD @ ''/'') = Guard_ok (snd ps))"
  using guarded_ensures [of env "CRATES_IO_INDEX @ ''/''"] guarded_ensures [of env "CRATES_IO_DOWNLOAD @ ''/''"]
  by (auto simp: ensures_def registry_pins_def seq_Inr)

lemma registry_pins_emits: "emits (confined env plan) (registry_pins env plan)"
  by (auto simp: registry_pins_def intro!: emits_seq guarded_emits)

lemma download_confined: "emits (confined env plan) (download_plan env plan)"
  unfolding download_plan_def
proof (rule emits_seq_ensures [OF registry_pins_emits registry_pins_ensures])
  fix x :: "resolved_pin option \<times> resolved_pin option" and h :: "pf_event list"
  obtain ip dp where x: "x = (ip, dp)" by (cases x)
  assume "registry plan \<noteq> [] \<longrightarrow>
     fe_guard env (CRATES_IO_INDEX @ ''/'') = Guard_ok (fst x) \<and> fe_guard env (CRATES_IO_DOWNLOAD @ ''/'') = Guard_ok (snd x)"
  then have g: "registry plan = [] \<or> fe_guard env (CRATES_IO_INDEX @ ''/'') = Guard_ok ip \<and> fe_guard env (CRATES_IO_DOWNLOAD @ ''/'') = Guard_ok dp"
    by (auto simp: x)
  have i: "emits (confined env plan) (mapLimit (fetch_index env ip) (group_by_name (registry plan) []))"
    using g by (auto intro!: emits_mapLimit fetch_index_confined)
  have c: "emits (confined env plan) (mapLimit (fetch_crate env dp) (registry plan))"
    using g by (auto intro!: emits_mapLimit fetch_crate_confined)
  have m: "emits (confined env plan) (each (mirrorGitDependency env) (git plan))"
    by (rule emits_each) (rule mirror_confined)
  show "emits (confined env plan) (case x of (ip, dp) \<Rightarrow>
     seq (mapLimit (fetch_index env ip) (group_by_name (registry plan) [])) (\<lambda>_.
     seq (mapLimit (fetch_crate env dp) (registry plan)) (\<lambda>_. each (mirrorGitDependency env) (git plan))))"
    unfolding x prod.case by (intro emits_seq i c m)
qed

definition plan_of :: "prefetch_env \<Rightarrow> string \<Rightarrow> prefetch_error + dependency_plan" where
  "plan_of env text = res_bind (parseCargoLock text) (planDependencies (fe_valid_url env) (fe_digest env))"

lemma prefetch_Some:
  "prefetchCargoDependencies env (Some text) =
     seq (lift (plan_of env text)) (\<lambda>plan. seq (assertDiskSpace env plan) (\<lambda>note. seq (download_plan env plan) (\<lambda>_. give (plan, note))))"
  by (simp add: prefetchCargoDependencies_def plan_of_def)

lemma disk_silent: "fst (assertDiskSpace env plan h) = h"
  by (auto simp: assertDiskSpace_def give_def throw_def split: option.split)

lemma disk_emits [simp]: "emits P (assertDiskSpace env plan)"
  by (simp add: emits_def disk_silent)

lemma emits_weaken: "emits P m \<Longrightarrow> (\<And>e. P e \<Longrightarrow> Q e) \<Longrightarrow> emits Q m"
  unfolding emits_def by (metis list.pred_mono_strong)

lemma lift_ensures: "ensures (lift r) (\<lambda>x h. r = Inr x)"
  by (simp add: ensures_def lift_Inr)

text \<open>C9: The dependency pre-fetch reaches nothing but what the lockfile names and the URL guard has validated.
  Whatever the outcome, every HTTPS request of a run goes to one of the two crates.io hosts at the address its
  guard call returned, and every git command either fetches a URL of the plan, over the address the guard
  returned for that URL, with every protocol but https off, or is one of the four local commands; a
  repository without a readable lockfile causes no effect at all.\<close>

theorem prefetch_confined:
  "emits (\<lambda>e. \<exists>text plan. lockfile = Some text \<and> plan_of env text = Inr plan \<and> confined env plan e)
     (prefetchCargoDependencies env lockfile)"
proof (cases lockfile)
  case None
  then show ?thesis by (simp add: prefetchCargoDependencies_def)
next
  case (Some lockfile_text)
  have d: "emits (\<lambda>e. \<exists>text plan. lockfile = Some text \<and> plan_of env text = Inr plan \<and> confined env plan e) (download_plan env plan)"
    if "plan_of env lockfile_text = Inr plan" for plan
    by (rule emits_weaken [OF download_confined], rule exI [of _ lockfile_text], rule exI [of _ plan])
       (simp add: Some that)
  show ?thesis
    unfolding Some prefetch_Some
  proof (rule emits_seq_ensures [OF emits_lift lift_ensures], rule emits_seq [OF disk_emits], rule emits_seq)
    fix plan :: dependency_plan
    assume "plan_of env lockfile_text = Inr plan"
    from d [OF this] show "emits (\<lambda>e. \<exists>text' plan. Some lockfile_text = Some text' \<and> plan_of env text' = Inr plan \<and> confined env plan e)
        (download_plan env plan)" by (simp add: Some)
  qed simp
qed

subsection \<open>What a successful pre-fetch leaves\<close>

lemma emits_True_intros [intro]:
  "emits (\<lambda>_. True) (emit e)"
  "emits (\<lambda>_. True) (guarded env url)"
  "emits (\<lambda>_. True) (get_body env url pin n what)"
  "emits (\<lambda>_. True) (git_command env mirror args)"
  by (auto intro: guarded_emits get_body_emits git_command_emits)

lemma fetch_index_True: "emits (\<lambda>_. True) (fetch_index env pin nv)"
  by (cases nv) (auto simp: fetch_index_def intro!: emits_seq)

lemma fetch_crate_True: "emits (\<lambda>_. True) (fetch_crate env pin d)"
  by (auto simp: fetch_crate_def intro!: emits_seq)

lemma fetch_commit_True: "emits (\<lambda>_. True) (fetch_commit env d pin i c b)"
  by (auto simp: fetch_commit_def intro!: emits_seq)

lemma check_commit_True: "emits (\<lambda>_. True) (check_commit env d i c)"
  by (auto simp: check_commit_def intro!: emits_seq emits_True_intros)

lemma mirror_commits_True: "emits (\<lambda>_. True) (mirror_commits env d pin i cs b)"
  by (induction cs arbitrary: i b) (auto intro!: emits_seq fetch_commit_True check_commit_True)

lemma mirror_True: "emits (\<lambda>_. True) (mirrorGitDependency env d)"
  unfolding mirrorGitDependency_def by (auto intro!: emits_seq mirror_commits_True)

definition grows :: "'a fetcher \<Rightarrow> bool" where
  "grows m \<longleftrightarrow> emits (\<lambda>_. True) m"

lemma grows_result: "grows m \<Longrightarrow> m h = (h', r) \<Longrightarrow> set h \<subseteq> set h'"
  unfolding grows_def by (metis emits_mono fst_conv)

definition leaves :: "(pf_event \<Rightarrow> bool) \<Rightarrow> 'a fetcher \<Rightarrow> bool" where
  "leaves R m \<longleftrightarrow> ensures m (\<lambda>_ h. list_ex R h)"

lemma leaves_seq1: "leaves R m \<Longrightarrow> (\<And>x. grows (f x)) \<Longrightarrow> leaves R (seq m f)"
  unfolding leaves_def ensures_def seq_Inr list_ex_iff using grows_result by blast

lemma leaves_seq2: "(\<And>x. leaves R (f x)) \<Longrightarrow> leaves R (seq m f)"
  unfolding leaves_def ensures_def seq_Inr by blast

lemma leaves_each:
  assumes "\<And>x. x \<in> set xs \<Longrightarrow> grows (f x)" "x \<in> set xs" "leaves R (f x)"
  shows "leaves R (each f xs)"
  using assms
proof (induction xs)
  case (Cons y ys)
  have g: "grows (each f ys)" using Cons.prems(1) unfolding grows_def by (auto intro: emits_each)
  show ?case
  proof (cases "y = x")
    case True
    then show ?thesis using Cons.prems(3) g by (auto intro: leaves_seq1)
  next
    case False
    with Cons.prems Cons.IH have "leaves R (each f ys)" by simp
    then show ?thesis by (auto intro: leaves_seq2)
  qed
qed simp

lemma mapLimit_Inr: "mapLimit f xs h = (h', Inr u) \<longleftrightarrow> each f xs h = (h', Inr u)"
proof (induction xs arbitrary: h)
  case (Cons x xs)
  obtain h1 r1 where x: "f x h = (h1, r1)" by fastforce
  obtain h2 r2 where xs: "mapLimit f xs h1 = (h2, r2)" by fastforce
  show ?case using Cons [of h1] x xs by (cases r1) (auto simp: seq_def)
qed simp

lemma leaves_mapLimit:
  "(\<And>x. x \<in> set xs \<Longrightarrow> grows (f x)) \<Longrightarrow> x \<in> set xs \<Longrightarrow> leaves R (f x) \<Longrightarrow> leaves R (mapLimit f xs)"
  using leaves_each [of xs f x R] by (simp add: leaves_def ensures_def mapLimit_Inr)

definition locked_crate_written :: "prefetch_env \<Rightarrow> dependency_plan \<Rightarrow> pf_event \<Rightarrow> bool" where
  "locked_crate_written env plan e =
     (case e of Wrote_crate file body \<Rightarrow> (\<exists>d\<in>set (registry plan). file = crate_file d \<and> fe_sha env body = rd_checksum d) | _ \<Rightarrow> True)"

lemma emits_but:
  assumes "\<And>u. P (Guarded u)" "\<And>u p n. P (Https u p n)" "\<And>m a r. P (Git_run m a r)"
  shows "emits P (guarded env url)" "emits P (get_body env url pin n what)" "emits P (git_command env mirror args)"
  by (auto intro: guarded_emits get_body_emits git_command_emits assms)

lemma download_writes_locked: "emits (locked_crate_written env plan) (download_plan env plan)"
proof -
  note base [intro!] = emits_but [of "locked_crate_written env plan", simplified locked_crate_written_def pf_event.case, OF TrueI TrueI TrueI, folded locked_crate_written_def]
  let ?P = "locked_crate_written env plan"
  have idx: "emits ?P (fetch_index env pin nv)" for pin nv
    by (cases nv) (auto simp: fetch_index_def intro!: emits_seq base emits_emit; simp add: locked_crate_written_def)
  have crate: "emits ?P (fetch_crate env pin d)" if "d \<in> set (registry plan)" for pin d
    by (auto simp: fetch_crate_def intro!: emits_seq base emits_emit) (use that in \<open>auto simp: locked_crate_written_def\<close>)
  have commits: "emits ?P (mirror_commits env d pin i cs b)" for d pin i cs b
    by (induction cs arbitrary: i b) (auto simp: fetch_commit_def check_commit_def intro!: emits_seq base)
  have mirror: "emits ?P (mirrorGitDependency env d)" for d
    unfolding mirrorGitDependency_def by (auto intro!: emits_seq base commits)
  have pins: "emits ?P (registry_pins env plan)" by (auto simp: registry_pins_def intro!: emits_seq base)
  show ?thesis
    unfolding download_plan_def
    by (auto intro!: emits_seq pins emits_mapLimit emits_each idx crate mirror split: prod.split)
qed

lemma leaves_emit: "R e \<Longrightarrow> leaves R (emit e)"
  by (simp add: leaves_def ensures_def)

lemma fetch_crate_leaves:
  "leaves (\<lambda>e. \<exists>body. e = Wrote_crate (crate_file d) body \<and> fe_sha env body = rd_checksum d) (fetch_crate env pin d)"
  unfolding fetch_crate_def by (rule leaves_seq2) (auto simp: leaves_def ensures_def)

definition index_line_for :: "prefetch_env \<Rightarrow> registry_dep \<Rightarrow> string \<Rightarrow> bool" where
  "index_line_for env d l \<longleftrightarrow> (\<exists>j. fe_json env l = Some j \<and> str_fld j ''vers'' = Some (rd_version d)
     \<and> str_fld j ''cksum'' = Some (rd_checksum d))"

lemma kept_line_ok: "kept_line env name body d = Inr l \<Longrightarrow> index_line_for env d l"
  by (auto simp: kept_line_def version_line_def index_line_for_def find_Some_iff Let_def
      split: option.splits if_split_asm)

lemma kept_lines_ok: "kept_lines env name body ds = Inr ls \<Longrightarrow> d \<in> set ds \<Longrightarrow> \<exists>l\<in>set ls. index_line_for env d l"
proof (induction ds arbitrary: ls)
  case (Cons d' ds)
  from Cons.prems(1) obtain l ls' where l: "kept_line env name body d' = Inr l" and ls': "kept_lines env name body ds = Inr ls'" "ls = l # ls'"
    by (cases "kept_line env name body d'"; cases "kept_lines env name body ds") (auto simp: res_bind_def)
  from Cons.IH [OF ls'(1)] Cons.prems(2) kept_line_ok [OF l] ls'(2) show ?case by auto
qed simp

lemma fetch_index_leaves:
  assumes "d \<in> set ds"
  shows "leaves (\<lambda>e. \<exists>ls. e = Wrote_index (indexPath name) ls \<and> list_ex (index_line_for env d) ls) (fetch_index env pin (name, ds))"
  unfolding fetch_index_def prod.case
proof (rule leaves_seq2)
  fix body
  show "leaves (\<lambda>e. \<exists>ls. e = Wrote_index (indexPath name) ls \<and> list_ex (index_line_for env d) ls)
     (seq (lift (kept_lines env name body ds)) (\<lambda>kept. emit (Wrote_index (indexPath name) kept)))"
    using kept_lines_ok [OF _ assms] by (fastforce simp: leaves_def ensures_def seq_Inr lift_Inr list_ex_iff)
qed

lemma group_by_name_complete:
  "d \<in> set ds \<or> (\<exists>l. js_get m (rd_name d) = Some l \<and> d \<in> set l) \<Longrightarrow>
   \<exists>l. js_get (group_by_name ds m) (rd_name d) = Some l \<and> d \<in> set l"
proof (induction ds m rule: group_by_name.induct)
  case (2 d' ds m)
  show ?case
    unfolding group_by_name.simps
    by (rule "2.IH") (use "2.prems" in \<open>auto split: option.splits\<close>)
qed simp

lemma mirror_commits_leave:
  "c \<in> set cs \<Longrightarrow> leaves (\<lambda>e. e = Git_run (gd_mirrorId d) [''cat-file'', ''-e'', c @ ''^{commit}''] 0) (mirror_commits env d pin i cs b)"
proof (induction cs arbitrary: i b)
  case (Cons c' cs)
  let ?R = "\<lambda>e. e = Git_run (gd_mirrorId d) [''cat-file'', ''-e'', c @ ''^{commit}''] 0"
  show ?case
  proof (cases "c' = c")
    case True
    have "leaves ?R (check_commit env d i c)"
      unfolding leaves_def ensures_def check_commit_def
      by (auto simp: seq_Inr git_command_def Let_def split: if_split_asm)
    then have "leaves ?R (seq (check_commit env d i c) (\<lambda>_. mirror_commits env d pin (Suc i) cs heads))" for heads
      by (rule leaves_seq1) (simp add: grows_def mirror_commits_True)
    then show ?thesis unfolding mirror_commits.simps True by (rule leaves_seq2)
  next
    case False
    with Cons show ?thesis by (auto intro!: leaves_seq2)
  qed
qed simp

lemma mirror_leaves:
  assumes "c \<in> set (gd_commits d)"
  shows "leaves (\<lambda>e. e = Git_run (gd_mirrorId d) [''cat-file'', ''-e'', c @ ''^{commit}''] 0) (mirrorGitDependency env d)"
  unfolding mirrorGitDependency_def
proof (intro leaves_seq2)
  fix pin init
  show "leaves (\<lambda>e. e = Git_run (gd_mirrorId d) [''cat-file'', ''-e'', c @ ''^{commit}''] 0)
     (if fst init \<noteq> 0 then throw (GitInitFailed (gd_url d))
      else seq (mirror_commits env d pin 0 (gd_commits d) False)
             (\<lambda>_. seq (git_command env (gd_mirrorId d) [''config'', ''uploadpack.allowAnySHA1InWant'', ''true'']) (\<lambda>_. give ())))"
    by (auto intro!: leaves_seq1 mirror_commits_leave assms emits_seq simp: grows_def) (simp add: leaves_def ensures_def)
qed

lemma ensuresD: "ensures m Q \<Longrightarrow> m h = (h', Inr x) \<Longrightarrow> Q x h'"
  by (simp add: ensures_def)

lemma leavesD: "leaves R m \<Longrightarrow> m h = (h', Inr x) \<Longrightarrow> \<exists>e\<in>set h'. R e"
  by (auto simp: leaves_def ensures_def list_ex_iff)

lemma grows_downloads:
  "grows (each (mirrorGitDependency env) ds)" "grows (mapLimit (fetch_crate env dp) cs)"
  by (auto simp: grows_def intro!: emits_each mirror_True emits_mapLimit fetch_crate_True)

lemma prefetch_run:
  assumes "prefetchCargoDependencies env (Some lockfile) h = (h', Inr (plan, note))"
  obtains "plan_of env lockfile = Inr plan" "assertDiskSpace env plan h = (h, Inr note)" "download_plan env plan h = (h', Inr ())"
proof -
  from assms obtain h1 where "plan_of env lockfile = Inr plan" and d: "assertDiskSpace env plan h = (h1, Inr note)"
    and "download_plan env plan h1 = (h', Inr ())"
    by (auto simp: prefetch_Some seq_Inr lift_Inr)
  moreover from d disk_silent [of env plan h] have "h1 = h" by simp
  ultimately show ?thesis using that by simp
qed

text \<open>A pre-fetch that succeeds is complete and verified: every crates.io package of the plan has its archive on
  disk with the SHA-256 of the lockfile and an index file holding a line of that version with the same
  checksum, every locked commit of every git dependency was found in its mirror; and nothing is ever
  written as a crate but an archive of a locked package that hashes to its lockfile checksum.\<close>

lemma prefetch_verified:
  assumes run: "prefetchCargoDependencies env (Some lockfile) [] = (h, Inr (plan, note))"
  shows "(\<forall>d\<in>set (registry plan).
            (\<exists>body. Wrote_crate (crate_file d) body \<in> set h \<and> fe_sha env body = rd_checksum d)
          \<and> (\<exists>ls. Wrote_index (indexPath (rd_name d)) ls \<in> set h \<and> list_ex (index_line_for env d) ls))
       \<and> (\<forall>d\<in>set (git plan). \<forall>c\<in>set (gd_commits d).
            Git_run (gd_mirrorId d) [''cat-file'', ''-e'', c @ ''^{commit}''] 0 \<in> set h)
       \<and> list_all (locked_crate_written env plan) h"
proof -
  from prefetch_run [OF run] have dl: "download_plan env plan [] = (h, Inr ())" by blast
  obtain ip dp h1 h2 h3 where idx: "mapLimit (fetch_index env ip) (group_by_name (registry plan) []) h1 = (h2, Inr ())"
    and cr: "mapLimit (fetch_crate env dp) (registry plan) h2 = (h3, Inr ())"
    and gits: "each (mirrorGitDependency env) (git plan) h3 = (h, Inr ())"
    using dl by (auto simp: download_plan_def seq_Inr)
  note mono = grows_result [OF grows_downloads(2) cr] grows_result [OF grows_downloads(1) gits]
  have "\<exists>body. Wrote_crate (crate_file d) body \<in> set h \<and> fe_sha env body = rd_checksum d" if "d \<in> set (registry plan)" for d
    using leavesD [OF leaves_mapLimit [OF _ that fetch_crate_leaves] cr] mono(2)
    by (auto simp: grows_def fetch_crate_True)
  moreover have "\<exists>ls. Wrote_index (indexPath (rd_name d)) ls \<in> set h \<and> list_ex (index_line_for env d) ls"
    if "d \<in> set (registry plan)" for d
  proof -
    from group_by_name_complete [of d "registry plan" "[]"] that obtain l
      where l: "(rd_name d, l) \<in> set (group_by_name (registry plan) [])" "d \<in> set l" by (auto dest: js_get_SomeD)
    have "leaves (\<lambda>e. \<exists>ls. e = Wrote_index (indexPath (rd_name d)) ls \<and> list_ex (index_line_for env d) ls)
        (mapLimit (fetch_index env ip) (group_by_name (registry plan) []))"
      by (rule leaves_mapLimit [where x = "(rd_name d, l)"])
         (simp_all add: grows_def fetch_index_True l fetch_index_leaves)
    from leavesD [OF this idx] mono show ?thesis by blast
  qed
  moreover have "Git_run (gd_mirrorId d) [''cat-file'', ''-e'', c @ ''^{commit}''] 0 \<in> set h"
    if "d \<in> set (git plan)" "c \<in> set (gd_commits d)" for d c
  proof -
    have "leaves (\<lambda>e. e = Git_run (gd_mirrorId d) [''cat-file'', ''-e'', c @ ''^{commit}''] 0)
        (each (mirrorGitDependency env) (git plan))"
      by (rule leaves_each [OF _ that(1) mirror_leaves]) (simp_all add: grows_def mirror_True that)
    from leavesD [OF this gits] show ?thesis by auto
  qed
  moreover have "list_all (locked_crate_written env plan) h"
    using download_writes_locked [of env plan] dl unfolding emits_def by (metis append_Nil fst_conv)
  ultimately show ?thesis by blast
qed

definition example_lockfile :: string where
  "example_lockfile = concat (map (\<lambda>l. l @ [CHR 0x0A])
     [''[[package]]'', ''name = '' @ [CHR 0x22] @ ''a'' @ [CHR 0x22], ''version = '' @ [CHR 0x22] @ ''1.0'' @ [CHR 0x22],
      ''source = '' @ [CHR 0x22] @ ''sparse+https://index.crates.io/'' @ [CHR 0x22],
      ''checksum = '' @ [CHR 0x22] @ replicate 64 CHR ''0'' @ [CHR 0x22]])"

definition example_dep :: registry_dep where
  "example_dep = \<lparr>rd_name = ''a'', rd_version = ''1.0'', rd_checksum = replicate 64 CHR ''0''\<rparr>"

definition example_fetch_env :: prefetch_env where
  "example_fetch_env = \<lparr>fe_valid_url = (\<lambda>_. True), fe_digest = (\<lambda>u. u), fe_guard = (\<lambda>_. Guard_ok None),
     fe_fetch = (\<lambda>url pin n. Inr (200, [])), fe_text = (\<lambda>_. ''line''),
     fe_json = (\<lambda>l. if l = ''line'' then Some (JObj [(''vers'', JStr ''1.0''), (''name'', JStr ''A''), (''cksum'', JStr (replicate 64 CHR ''0''))]) else None),
     fe_sha = (\<lambda>_. replicate 64 CHR ''0''), fe_git = (\<lambda>_ _ _. (0, [])), fe_free = None,
     fe_disk = \<lparr>perCrateBytes = None, perGitDependencyBytes = None, safetyMarginBytes = None\<rparr>\<rparr>"

lemma example_plan: "plan_of example_fetch_env example_lockfile = Inr \<lparr>registry = [example_dep], git = []\<rparr>"
proof -
  have "parseCargoLock example_lockfile = Inr [\<lparr>pkg_name = ''a'', pkg_version = ''1.0'',
      pkg_source = Some ''sparse+https://index.crates.io/'', pkg_checksum = Some (replicate 64 CHR ''0'')\<rparr>]"
    by code_simp
  then show ?thesis
    by (simp add: plan_of_def res_bind_def example_fetch_env_def example_dep_def planDependencies_def plan_package_def
        crate_name_ok_def crate_version_ok_def key_char_def version_char_def CRATES_IO_SOURCES_def sha256_hex_def hex_lower_def
        list_all_iff js_values_def del: replicate.simps)
qed

lemma example_index:
  "fetch_index example_fetch_env None (''a'', [example_dep]) h =
     (h @ [Https (CRATES_IO_INDEX @ ''/1/a'') None MAX_INDEX_BYTES, Wrote_index ''1/a'' [''line'']], Inr ())"
proof -
  have "kept_lines example_fetch_env ''a'' [] [example_dep] = Inr [''line'']" by code_simp
  moreover have "get_body example_fetch_env url None n what h = (h @ [Https url None n], Inr [])" for url n what h
    by (simp add: get_body_def seq_def emit_def give_def example_fetch_env_def)
  moreover have "indexPath ''a'' = ''1/a''" by code_simp
  ultimately show ?thesis by (simp add: fetch_index_def seq_def lift_def give_def emit_def)
qed

lemma example_crate:
  "fetch_crate example_fetch_env None example_dep h =
     (h @ [Https (CRATES_IO_DOWNLOAD @ ''/a/a-1.0.crate'') None MAX_CRATE_BYTES, Wrote_crate ''a-1.0.crate'' []], Inr ())"
  by (simp add: fetch_crate_def get_body_def seq_def emit_def give_def crate_file_def example_fetch_env_def example_dep_def
      del: replicate.simps)

lemma example_fetch_run:
  "prefetchCargoDependencies example_fetch_env (Some example_lockfile) [] =
     ([Guarded (CRATES_IO_INDEX @ ''/''), Guarded (CRATES_IO_DOWNLOAD @ ''/''),
       Https (CRATES_IO_INDEX @ ''/1/a'') None MAX_INDEX_BYTES, Wrote_index ''1/a'' [''line''],
       Https (CRATES_IO_DOWNLOAD @ ''/a/a-1.0.crate'') None MAX_CRATE_BYTES, Wrote_crate ''a-1.0.crate'' []],
      Inr (\<lparr>registry = [example_dep], git = []\<rparr>, True))"
proof -
  let ?p = "\<lparr>registry = [example_dep], git = []\<rparr>"
  have disk: "assertDiskSpace example_fetch_env ?p h = (h, Inr True)" for h
    by (simp add: assertDiskSpace_def give_def example_fetch_env_def)
  have pins: "registry_pins example_fetch_env ?p h =
      (h @ [Guarded (CRATES_IO_INDEX @ ''/''), Guarded (CRATES_IO_DOWNLOAD @ ''/'')], Inr (None, None))" for h
    by (simp add: registry_pins_def guarded_def seq_def emit_def give_def example_fetch_env_def)
  have nm: "rd_name example_dep = ''a''" by (simp add: example_dep_def)
  show ?thesis
    by (simp add: prefetch_Some example_plan lift_def give_def seq_def disk download_plan_def pins nm example_index example_crate)
qed

text \<open>Nothing is fetched, written or even resolved when the volume is too small, the boundary of exactly enough included.\<close>

lemma full_disk_stops_first:
  assumes "plan_of env lockfile = Inr plan" "registry plan \<noteq> [] \<or> git plan \<noteq> []"
    and "fe_free env = Some free" "0 \<le> free" "free \<le> estimateRequiredBytes plan (fe_disk env)"
  shows "prefetchCargoDependencies env (Some lockfile) h
           = (h, Inl (Prefetch (DiskTooSmall free (estimateRequiredBytes plan (fe_disk env)))))"
  using assms by (auto simp: prefetch_Some seq_def lift_def give_def throw_def assertDiskSpace_def)

end
