(* ===== verification/BuildExecutor.thy ===== *)
theory BuildExecutor
  imports CargoFetch Verify
begin

text \<open>
  The build executors of \<open>services/worker-service/src/executor.ts\<close>: the deterministic stub, and the docker executor
  that clones, pre-fetches and builds untrusted code.  A build is a computation over the list of its effects;
  the URL guard, the processes (\<open>run\<close>), the pre-fetch and the file that is read back are arguments, the
  answers of processes may depend on everything done before.  Strings stand for their UTF-8 bytes.
\<close>

subsection \<open>The stub executor\<close>

definition text_bytes :: "string \<Rightarrow> bytes" where
  "text_bytes s = map (\<lambda>c. word_of_nat (of_char c)) s"

definition or_empty :: "string option \<Rightarrow> string" where
  "or_empty s = (case s of None \<Rightarrow> [] | Some t \<Rightarrow> t)"

definition flags_of :: "build_input \<Rightarrow> string list" where
  "flags_of i = (case buildFlags i of None \<Rightarrow> [] | Some fs \<Rightarrow> fs)"

definition NL :: string where "NL = [CHR 0x0A]"

definition stub_seed :: "build_input \<Rightarrow> string" where
  "stub_seed i = join_with NL
     [case sourceType i of RepoSource \<Rightarrow> ''repo'' | UploadSource \<Rightarrow> ''upload'',
      or_empty (repoUrl i), or_empty (commitHash i), or_empty (sourceArchiveRef i), toolchainVersion i,
      join_with '' '' (flags_of i)]"

definition stub_build :: "(bytes \<Rightarrow> string) \<Rightarrow> build_input \<Rightarrow> build_result" where
  "stub_build sha i =
     (let w = text_bytes (''vela-stub-wasm'' @ NL @ stub_seed i) in
      \<lparr>wasm = w, wasmHash = hashArtifact sha w,
       build_log = join_with NL
         [''[stub build executor] no real Rust/Docker build performed.'',
          ''Produced deterministic synthetic bytes from the submission inputs.'',
          ''toolchain='' @ toolchainVersion i @ '' flags=''
            @ (let f = join_with '' '' (flags_of i) in if f = [] then ''(none)'' else f)]\<rparr>)"

subsection \<open>The docker executor\<close>

record run_answer =
  ra_code :: int
  ra_out :: string
  ra_timedOut :: bool

datatype ex_event =
    Ran string "string list" string "nat option" run_answer
  | Prefetched string string
  | Made_dir string
  | Wrote_file string string
  | Opened string
  | Removed_dir string

record docker_config =
  image :: string
  expectedWasmPath :: "string option"
  timeoutSeconds :: "nat option"
  memory :: "string option"
  cpus :: "string option"
  pidsLimit :: "nat option"
  tmpfsSize :: "string option"
  storageOpt :: "string option"
  buildArgs :: "string list option"

record build_env =
  be_guard :: "string \<Rightarrow> guard_outcome"
  be_run :: "ex_event list \<Rightarrow> string \<Rightarrow> string list \<Rightarrow> string \<Rightarrow> run_answer"
  be_prefetch :: "ex_event list \<Rightarrow> prefetch_failure + (dependency_plan \<times> string)"
  be_prefetch_text :: "prefetch_error \<Rightarrow> string"
  be_url_text :: "url_error \<Rightarrow> string"
  be_read :: "ex_event list \<Rightarrow> string \<Rightarrow> bytes option"
  be_workdir :: string
  be_uuid :: string
  be_sha :: "bytes \<Rightarrow> string"

definition path_join :: "string \<Rightarrow> string \<Rightarrow> string" where
  "path_join a b = a @ ''/'' @ b"

definition clone_args :: "resolved_pin option \<Rightarrow> string \<Rightarrow> string list" where
  "clone_args pin url =
     [''-c'', ''protocol.allow=never'', ''-c'', ''protocol.https.allow=always''] @ gitConnectionPinArgs pin
     @ [''clone'', ''--no-checkout'', ''--'', url, ''repo'']"

definition env_args :: "string list" where
  "env_args = concat (map (\<lambda>(k, v). [''-e'', k @ ''='' @ v]) ((''CARGO_HOME'', ''/cargo-home'') # HERMETIC_GIT_ENV))"

definition docker_args :: "docker_config \<Rightarrow> string \<Rightarrow> string \<Rightarrow> string \<Rightarrow> string \<Rightarrow> string list" where
  "docker_args cfg name repoDir depsDir cargoHome =
     (let mem = (case memory cfg of None \<Rightarrow> ''2g'' | Some m \<Rightarrow> m) in
      [''run'', ''--rm'', ''--name'', name, ''--network=none'', ''--memory'', mem, ''--memory-swap'', mem,
       ''--cpus'', (case cpus cfg of None \<Rightarrow> ''2'' | Some c \<Rightarrow> c),
       ''--pids-limit'', show_nat (case pidsLimit cfg of None \<Rightarrow> 512 | Some p \<Rightarrow> p),
       ''--read-only'', ''--tmpfs'', ''/tmp:exec,size='' @ (case tmpfsSize cfg of None \<Rightarrow> ''512m'' | Some t \<Rightarrow> t)]
      @ (if truthy (storageOpt cfg) then [''--storage-opt'', the (storageOpt cfg)] else [])
      @ [''--cap-drop=ALL'', ''--security-opt'', ''no-new-privileges'', ''--user'', ''1000:1000'',
         ''-v'', repoDir @ '':/work'', ''-v'', depsDir @ '':'' @ CONTAINER_DEPS_DIR @ '':ro'', ''-v'', cargoHome @ '':/cargo-home'']
      @ env_args
      @ [''-w'', ''/work'', image cfg, ''stellar'', ''contract'', ''build'', ''--locked'']
      @ (case buildArgs cfg of None \<Rightarrow> [] | Some args \<Rightarrow> args))"

definition timeout_of :: "docker_config \<Rightarrow> nat" where
  "timeout_of cfg = (case timeoutSeconds cfg of None \<Rightarrow> 600 | Some s \<Rightarrow> s)"

type_synonym 'a builder = "ex_event list \<Rightarrow> ex_event list \<times> (build_error rejected + 'a)"

definition ran :: "build_env \<Rightarrow> string \<Rightarrow> string list \<Rightarrow> string \<Rightarrow> nat option \<Rightarrow> ex_event list \<Rightarrow> run_answer \<times> ex_event list" where
  "ran env cmd args cwd tmo h = (let r = be_run env h cmd args cwd in (r, h @ [Ran cmd args cwd tmo r]))"

definition failed_build :: "string \<Rightarrow> executor_code \<Rightarrow> string list \<Rightarrow> build_error rejected" where
  "failed_build msg ec lg = Known \<lparr>be_message = msg, be_code = ec, be_log = join_with NL lg\<rparr>"

fun executor_code_of :: "prefetch_code \<Rightarrow> executor_code" where
  "executor_code_of Dependencies_unresolved = DependenciesUnresolved"
| "executor_code_of Dependency_fetch_failed = DependencyFetchFailed"
| "executor_code_of Repo_url_rejected = RepoUrlRejected"
| "executor_code_of Insufficient_disk_space = InsufficientDiskSpace"

definition LIST_WASM :: string where
  "LIST_WASM = ''ls target/wasm32v1-none/release/*.wasm target/wasm32-unknown-unknown/release/*.wasm 2>/dev/null''"

definition found_paths :: "string \<Rightarrow> string list" where
  "found_paths out = filter (\<lambda>p. p \<noteq> []) (map js_trim (split_on CHR 0x0A (js_trim out)))"

definition findReleaseWasm :: "build_env \<Rightarrow> string \<Rightarrow> string builder" where
  "findReleaseWasm env repoDir h =
     (let (found, h') = ran env ''sh'' [''-c'', LIST_WASM] repoDir None h;
          paths = found_paths (ra_out found)
      in if paths = [] then (h', Inl (failed_build ''no release wasm produced by the build'' ArtifactMissing []))
         else if length paths > 1 then
           (h', Inl (failed_build
              (''build produced '' @ show_nat (length paths) @ '' wasm artifacts; set expectedWasmPath to disambiguate:''
                 @ NL @ join_with NL paths) ArtifactMissing []))
         else (h', Inr (path_join repoDir (hd paths))))"

text \<open>The file read back after a successful build.\<close>

definition collect_artifact :: "docker_config \<Rightarrow> build_env \<Rightarrow> string \<Rightarrow> string list \<Rightarrow> build_result builder" where
  "collect_artifact cfg env repoDir lg h =
     (let (h', target) = (if truthy (expectedWasmPath cfg) then (h, Inr (path_join repoDir (the (expectedWasmPath cfg))))
                          else findReleaseWasm env repoDir h)
      in case target of
           Inl e \<Rightarrow> (h', Inl e)
         | Inr path \<Rightarrow>
             (case be_read env h' path of
                None \<Rightarrow> (h', Inl (failed_build (''expected wasm artifact not found at '' @ path) ArtifactMissing lg))
              | Some w \<Rightarrow> (h', Inr \<lparr>wasm = w, wasmHash = hashArtifact (be_sha env) w, build_log = join_with NL lg\<rparr>)))"

text \<open>The container run and what follows it.\<close>

definition container_build :: "docker_config \<Rightarrow> build_env \<Rightarrow> string \<Rightarrow> string \<Rightarrow> string \<Rightarrow> string list \<Rightarrow> build_result builder" where
  "container_build cfg env repoDir depsDir cargoHome lg h =
     (let name = ''vellar-build-'' @ be_uuid env;
          (b, h') = ran env ''docker'' (docker_args cfg name repoDir depsDir cargoHome) repoDir (Some (timeout_of cfg * 1000)) h;
          lg' = lg @ [ra_out b]
      in if ra_timedOut b then
           (snd (ran env ''docker'' [''rm'', ''-f'', name] repoDir None h'),
            Inl (failed_build (''build exceeded the '' @ show_nat (timeout_of cfg) @ ''s timeout and was killed'') BuildFailed lg'))
         else if ra_code b \<noteq> 0 then (h', Inl (failed_build ''contract build failed'' BuildFailed lg'))
         else collect_artifact cfg env repoDir lg' h')"

text \<open>The pre-fetch, the files the container gets, and the build.\<close>

definition prefetch_and_build :: "docker_config \<Rightarrow> build_env \<Rightarrow> string list \<Rightarrow> build_result builder" where
  "prefetch_and_build cfg env lg h =
     (let repoDir = path_join (be_workdir env) ''repo'';
          depsDir = path_join (be_workdir env) ''deps'';
          cargoHome = path_join (be_workdir env) ''cargo-home'';
          h' = h @ [Prefetched repoDir depsDir]
      in case be_prefetch env h of
           Inl (Prefetch err) \<Rightarrow>
             (h', Inl (failed_build (be_prefetch_text env err) (executor_code_of (code_of_prefetch err))
                         (lg @ [''[prefetch] '' @ be_prefetch_text env err])))
         | Inl (Fetch_threw t) \<Rightarrow> (h', Inl (Unexpected t))
         | Inr (plan, plog) \<Rightarrow>
             container_build cfg env repoDir depsDir cargoHome (lg @ [plog])
               (h' @ [Made_dir depsDir, Made_dir cargoHome,
                      Wrote_file (path_join cargoHome ''config.toml'') hermeticCargoConfig,
                      Wrote_file (path_join depsDir ''gitconfig'') (hermeticGitConfig plan),
                      Opened repoDir, Opened cargoHome]))"

definition clone_and_build :: "docker_config \<Rightarrow> build_env \<Rightarrow> resolved_pin option \<Rightarrow> string \<Rightarrow> string \<Rightarrow> build_result builder" where
  "clone_and_build cfg env pin url commit h =
     (let (clone, h1) = ran env ''git'' (clone_args pin url) (be_workdir env) None h
      in if ra_code clone \<noteq> 0 then (h1, Inl (failed_build ''git clone failed'' CloneFailed [ra_out clone]))
         else
           (let (checkout, h2) = ran env ''git'' [''checkout'', commit] (path_join (be_workdir env) ''repo'') None h1;
                lg = [ra_out clone, ra_out checkout]
            in if ra_code checkout \<noteq> 0 then (h2, Inl (failed_build ''git checkout failed'' CloneFailed lg))
               else prefetch_and_build cfg env lg h2))"

text \<open>\<open>build\<close>: the guard, then the work inside a fresh directory that the \<open>finally\<close> removes.\<close>

definition docker_build :: "docker_config \<Rightarrow> build_env \<Rightarrow> build_input \<Rightarrow> ex_event list \<times> (build_error rejected + build_result)" where
  "docker_build cfg env i =
     (if sourceType i \<noteq> RepoSource \<or> \<not> truthy (repoUrl i) \<or> \<not> truthy (commitHash i) then
        ([], Inl (failed_build ''docker executor currently supports repo submissions only'' UnsupportedSource []))
      else
        (case be_guard env (the (repoUrl i)) of
           Guard_rejected e \<Rightarrow> ([], Inl (failed_build (be_url_text env e) RepoUrlRejected []))
         | Guard_threw t \<Rightarrow> ([], Inl (Unexpected t))
         | Guard_ok pin \<Rightarrow>
             (let (h, r) = clone_and_build cfg env pin (the (repoUrl i)) (the (commitHash i)) []
              in (h @ [Removed_dir (be_workdir env)], r))))"

subsection \<open>What a build does\<close>

definition after_container :: "string \<Rightarrow> ex_event \<Rightarrow> bool" where
  "after_container name e =
     (case e of Ran cmd args cwd tmo a \<Rightarrow> cmd = ''sh'' \<or> cmd = ''docker'' \<and> args = [''rm'', ''-f'', name] | _ \<Rightarrow> False)"

lemma findReleaseWasm_events: "findReleaseWasm env R h = (h', r) \<Longrightarrow> \<exists>a. h' = h @ [Ran ''sh'' [''-c'', LIST_WASM] R None a]"
  by (auto simp: findReleaseWasm_def ran_def Let_def split: if_split_asm)

lemma collect_artifact_events:
  "collect_artifact cfg env R lg h = (h', r) \<Longrightarrow> \<exists>post. h' = h @ post \<and> list_all (after_container name) post"
  by (cases "truthy (expectedWasmPath cfg)")
     (auto simp: collect_artifact_def after_container_def Let_def dest!: findReleaseWasm_events
        split: prod.splits sum.splits option.splits)

lemma collect_artifact_result:
  "collect_artifact cfg env R lg h = (h', Inr b) \<Longrightarrow> (\<exists>path. be_read env h' path = Some (wasm b)) \<and> wasmHash b = be_sha env (wasm b)"
  by (auto simp: collect_artifact_def hashArtifact_def split: prod.splits sum.splits option.splits)

lemma container_build_events:
  assumes "container_build cfg env R D C lg h = (h', r)"
  obtains b post where
    "h' = h @ Ran ''docker'' (docker_args cfg (''vellar-build-'' @ be_uuid env) R D C) R (Some (timeout_of cfg * 1000)) b # post"
    "list_all (after_container (''vellar-build-'' @ be_uuid env)) post"
    "ra_timedOut b \<longrightarrow> (\<exists>a. post = [Ran ''docker'' [''rm'', ''-f'', ''vellar-build-'' @ be_uuid env] R None a])"
    "is_ok r \<longrightarrow> \<not> ra_timedOut b \<and> ra_code b = 0"
proof -
  let ?name = "''vellar-build-'' @ be_uuid env"
  let ?args = "docker_args cfg ?name R D C"
  let ?b = "be_run env h ''docker'' ?args R"
  let ?h = "h @ [Ran ''docker'' ?args R (Some (timeout_of cfg * 1000)) ?b]"
  consider (late) "ra_timedOut ?b" | (bad) "\<not> ra_timedOut ?b" "ra_code ?b \<noteq> 0" | (good) "\<not> ra_timedOut ?b" "ra_code ?b = 0" by blast
  then show ?thesis
  proof cases
    case late
    with assms that [of ?b "[Ran ''docker'' [''rm'', ''-f'', ?name] R None (be_run env ?h ''docker'' [''rm'', ''-f'', ?name] R)]"]
    show ?thesis by (auto simp: container_build_def ran_def Let_def after_container_def)
  next
    case bad
    with assms that [of ?b "[]"] show ?thesis by (auto simp: container_build_def ran_def Let_def)
  next
    case good
    with assms have "collect_artifact cfg env R (lg @ [ra_out ?b]) ?h = (h', r)"
      by (simp add: container_build_def ran_def Let_def)
    from collect_artifact_events [OF this, of ?name] that [of ?b] good show ?thesis by auto
  qed
qed

definition is_container_run :: "ex_event \<Rightarrow> bool" where
  "is_container_run e = (case e of Ran cmd args cwd tmo a \<Rightarrow> cmd = ''docker'' \<and> hd args = ''run'' | _ \<Rightarrow> False)"

lemma after_container_not_run: "after_container name e \<Longrightarrow> \<not> is_container_run e"
  by (auto simp: after_container_def is_container_run_def split: ex_event.splits)

text \<open>The effects before the container starts: a clone and a checkout that succeeded, the pre-fetch and the set-up.\<close>

definition preparation :: "build_env \<Rightarrow> resolved_pin option \<Rightarrow> string \<Rightarrow> string \<Rightarrow> run_answer \<Rightarrow> run_answer \<Rightarrow> dependency_plan \<Rightarrow> ex_event list" where
  "preparation env pin url commit clone checkout plan =
     (let W = be_workdir env; R = path_join W ''repo''; D = path_join W ''deps''; C = path_join W ''cargo-home'' in
      [Ran ''git'' (clone_args pin url) W None clone, Ran ''git'' [''checkout'', commit] R None checkout,
       Prefetched R D, Made_dir D, Made_dir C, Wrote_file (path_join C ''config.toml'') hermeticCargoConfig,
       Wrote_file (path_join D ''gitconfig'') (hermeticGitConfig plan), Opened R, Opened C])"

lemma preparation_no_run: "e \<in> set (preparation env pin url commit clone checkout plan) \<Longrightarrow> \<not> is_container_run e"
  by (auto simp: preparation_def Let_def is_container_run_def)

text \<open>A build either never starts a container or goes through the whole preparation first.\<close>

lemma docker_build_cases:
  assumes "docker_build cfg env i = (h, r)"
  obtains
    (rejected) "h = []" "\<not> is_ok r"
  | (stopped) pre where "h = pre @ [Removed_dir (be_workdir env)]" "\<not> is_ok r" "\<forall>e\<in>set pre. \<not> is_container_run e"
  | (built) pin clone checkout plan plog h' where
      "sourceType i = RepoSource" "be_guard env (the (repoUrl i)) = Guard_ok pin" "ra_code clone = 0" "ra_code checkout = 0"
      "be_prefetch env (take 2 (preparation env pin (the (repoUrl i)) (the (commitHash i)) clone checkout plan)) = Inr (plan, plog)"
      "container_build cfg env (path_join (be_workdir env) ''repo'') (path_join (be_workdir env) ''deps'')
         (path_join (be_workdir env) ''cargo-home'') [ra_out clone, ra_out checkout, plog]
         (preparation env pin (the (repoUrl i)) (the (commitHash i)) clone checkout plan) = (h', r)"
      "h = h' @ [Removed_dir (be_workdir env)]"
proof (cases "sourceType i = RepoSource \<and> truthy (repoUrl i) \<and> truthy (commitHash i)")
  case False
  with assms rejected show ?thesis by (auto simp: docker_build_def failed_build_def)
next
  case True
  show ?thesis
  proof (cases "be_guard env (the (repoUrl i))")
    case (Guard_ok pin)
    let ?W = "be_workdir env" and ?url = "the (repoUrl i)" and ?commit = "the (commitHash i)"
    let ?R = "path_join ?W ''repo''"
    let ?clone = "be_run env [] ''git'' (clone_args pin ?url) ?W"
    let ?h1 = "[Ran ''git'' (clone_args pin ?url) ?W None ?clone]"
    let ?checkout = "be_run env ?h1 ''git'' [''checkout'', ?commit] ?R"
    let ?h2 = "?h1 @ [Ran ''git'' [''checkout'', ?commit] ?R None ?checkout]"
    obtain h0 where run: "clone_and_build cfg env pin ?url ?commit [] = (h0, r)" and h: "h = h0 @ [Removed_dir ?W]"
      using assms True Guard_ok by (auto simp: docker_build_def split: prod.splits)
    consider (noclone) "ra_code ?clone \<noteq> 0" | (nocheckout) "ra_code ?clone = 0" "ra_code ?checkout \<noteq> 0"
      | (nofetch) e where "ra_code ?clone = 0" "ra_code ?checkout = 0" "be_prefetch env ?h2 = Inl e"
      | (fetched) plan plog where "ra_code ?clone = 0" "ra_code ?checkout = 0" "be_prefetch env ?h2 = Inr (plan, plog)"
      by (cases "be_prefetch env ?h2") auto
    then show ?thesis
    proof cases
      case noclone
      with run h stopped [of ?h1] show ?thesis by (auto simp: clone_and_build_def ran_def Let_def is_container_run_def)
    next
      case nocheckout
      with run h stopped [of ?h2] show ?thesis by (auto simp: clone_and_build_def ran_def Let_def is_container_run_def)
    next
      case nofetch
      with run h stopped [of "?h2 @ [Prefetched ?R (path_join ?W ''deps'')]"] show ?thesis
        by (cases e) (auto simp: clone_and_build_def prefetch_and_build_def ran_def Let_def is_container_run_def)
    next
      case fetched
      with run h True Guard_ok show ?thesis
        by (intro built [of pin ?clone ?checkout plan plog h0])
           (auto simp: clone_and_build_def prefetch_and_build_def ran_def Let_def preparation_def)
    qed
  qed (use assms True rejected in \<open>auto simp: docker_build_def\<close>)
qed

definition hardening :: "string list" where
  "hardening = [''--rm'', ''--network=none'', ''--memory-swap'', ''--pids-limit'', ''--read-only'', ''--cap-drop=ALL'',
     ''no-new-privileges'', ''1000:1000'', ''--locked'']"

lemma docker_args_hardened:
  "take 5 (docker_args cfg name R D C) = [''run'', ''--rm'', ''--name'', name, ''--network=none'']"
  "list_all (\<lambda>a. a \<in> set (docker_args cfg name R D C)) hardening"
  "hd (docker_args cfg name R D C) = ''run''"
  by (simp_all add: docker_args_def Let_def hardening_def)

text \<open>C7: Submitted code only ever runs in a sandbox, and only after everything before it succeeded.  When a container is
  started for a repository, the URL guard accepted its address and the clone was pinned to it, clone and
  checkout of the submitted commit exited with 0, the dependency pre-fetch succeeded and its git
  configuration was written; the container has no network, no capabilities and a read-only root, it is
  started at most once, and nothing with a network runs after it.\<close>

theorem container_is_sandboxed:
  assumes "docker_build cfg env i = (h, r)" "e \<in> set h" "is_container_run e"
  shows "\<exists>pin clone checkout plan plog b post.
      be_guard env (the (repoUrl i)) = Guard_ok pin \<and> ra_code clone = 0 \<and> ra_code checkout = 0
    \<and> be_prefetch env (take 2 (preparation env pin (the (repoUrl i)) (the (commitHash i)) clone checkout plan)) = Inr (plan, plog)
    \<and> h = preparation env pin (the (repoUrl i)) (the (commitHash i)) clone checkout plan @ e # post
    \<and> e = Ran ''docker'' (docker_args cfg (''vellar-build-'' @ be_uuid env) (path_join (be_workdir env) ''repo'')
            (path_join (be_workdir env) ''deps'') (path_join (be_workdir env) ''cargo-home''))
          (path_join (be_workdir env) ''repo'') (Some (timeout_of cfg * 1000)) b
    \<and> list_all (\<lambda>a. case e of Ran cmd args cwd tmo x \<Rightarrow> a \<in> set args | _ \<Rightarrow> False) hardening
    \<and> list_all (\<lambda>e'. \<not> is_container_run e'
          \<and> (after_container (''vellar-build-'' @ be_uuid env) e' \<or> e' = Removed_dir (be_workdir env))) post"
  using assms(1)
proof (cases rule: docker_build_cases)
  case rejected
  with assms(2) show ?thesis by simp
next
  case (stopped pre)
  with assms(2,3) show ?thesis by (auto simp: is_container_run_def)
next
  case (built pin clone checkout plan plog h')
  let ?pre = "preparation env pin (the (repoUrl i)) (the (commitHash i)) clone checkout plan"
  let ?name = "''vellar-build-'' @ be_uuid env"
  let ?run = "Ran ''docker'' (docker_args cfg ?name (path_join (be_workdir env) ''repo'')
            (path_join (be_workdir env) ''deps'') (path_join (be_workdir env) ''cargo-home''))
          (path_join (be_workdir env) ''repo'') (Some (timeout_of cfg * 1000))"
  from container_build_events [OF built(6)] obtain b post where
    h': "h' = ?pre @ ?run b # post" and post: "list_all (after_container ?name) post" by blast
  have e: "e = ?run b"
    using assms(2,3) preparation_no_run post after_container_not_run
    by (auto simp: built(7) h' list_all_iff is_container_run_def)
  have "list_all (\<lambda>e'. \<not> is_container_run e' \<and> (after_container ?name e' \<or> e' = Removed_dir (be_workdir env)))
      (post @ [Removed_dir (be_workdir env)])"
    using post after_container_not_run by (auto simp: list_all_iff is_container_run_def)
  moreover have "h = ?pre @ e # post @ [Removed_dir (be_workdir env)]" by (simp add: built(7) h' e)
  ultimately show ?thesis
    using built(2-5) e docker_args_hardened(2)
    by (intro exI [of _ pin] exI [of _ clone] exI [of _ checkout] exI [of _ plan] exI [of _ plog] exI [of _ b]
        exI [of _ "post @ [Removed_dir (be_workdir env)]"]) simp
qed

definition example_build_input :: build_input where
  "example_build_input = \<lparr>sourceType = RepoSource, repoUrl = Some ''https://x.io/r'', commitHash = Some ''abc1234'',
     sourceArchiveRef = None, toolchainVersion = ''1.0'', buildFlags = None\<rparr>"

definition example_docker :: docker_config where
  "example_docker = \<lparr>image = ''img'', expectedWasmPath = Some ''a.wasm'', timeoutSeconds = None, memory = None, cpus = None,
     pidsLimit = None, tmpfsSize = None, storageOpt = None, buildArgs = None\<rparr>"

definition example_build_env :: build_env where
  "example_build_env = \<lparr>be_guard = (\<lambda>_. Guard_ok None), be_run = (\<lambda>_ _ _ _. \<lparr>ra_code = 0, ra_out = [], ra_timedOut = False\<rparr>),
     be_prefetch = (\<lambda>_. Inr (\<lparr>registry = [], git = []\<rparr>, [])), be_prefetch_text = (\<lambda>_. []), be_url_text = (\<lambda>_. []),
     be_read = (\<lambda>_ _. Some [1]), be_workdir = ''/w'', be_uuid = ''u'', be_sha = (\<lambda>_. ''ab'')\<rparr>"

definition example_container :: ex_event where
  "example_container = Ran ''docker'' (docker_args example_docker ''vellar-build-u'' ''/w/repo'' ''/w/deps'' ''/w/cargo-home'')
     ''/w/repo'' (Some 600000) \<lparr>ra_code = 0, ra_out = [], ra_timedOut = False\<rparr>"

lemma example_build:
  "docker_build example_docker example_build_env example_build_input =
     (preparation example_build_env None ''https://x.io/r'' ''abc1234'' \<lparr>ra_code = 0, ra_out = [], ra_timedOut = False\<rparr>
        \<lparr>ra_code = 0, ra_out = [], ra_timedOut = False\<rparr> \<lparr>registry = [], git = []\<rparr> @ [example_container, Removed_dir ''/w''],
      Inr \<lparr>wasm = [1], wasmHash = ''ab'', build_log = join_with NL [[], [], [], []]\<rparr>)"
  by (simp add: docker_build_def clone_and_build_def prefetch_and_build_def container_build_def collect_artifact_def ran_def
      Let_def preparation_def path_join_def timeout_of_def hashArtifact_def example_docker_def example_build_env_def
      example_build_input_def example_container_def)

theorem container_is_sandboxed_witness:
  "\<exists>pre post. fst (docker_build example_docker example_build_env example_build_input) = pre @ example_container # post
     \<and> length pre = 9"
proof -
  have "is_container_run example_container"
    by (simp add: is_container_run_def example_container_def docker_args_hardened)
  from container_is_sandboxed [OF example_build _ this]
  obtain pin clone checkout plan post where
    "fst (docker_build example_docker example_build_env example_build_input)
       = preparation example_build_env pin (the (repoUrl example_build_input)) (the (commitHash example_build_input)) clone checkout plan
          @ example_container # post"
    by (auto simp: example_build)
  moreover have "length (preparation example_build_env pin u c clone checkout plan) = 9" for u c
    by (simp add: preparation_def Let_def)
  ultimately show ?thesis by blast
qed



subsection \<open>What a finished build vouches for\<close>

definition prefetch_log :: "string \<Rightarrow> dependency_plan \<Rightarrow> bool \<Rightarrow> string" where
  "prefetch_log diskNote plan skipped =
     ''[prefetch] '' @ show_nat (length (registry plan)) @ '' crates.io package(s), '' @ show_nat (length (git plan))
       @ '' git dependency(ies) resolved from Cargo.lock'' @ (if skipped then NL @ diskNote else [])"

text \<open>The default pre-fetch, reading the lockfile the checkout left.\<close>

definition default_prefetch :: "prefetch_env \<Rightarrow> string option \<Rightarrow> string \<Rightarrow> prefetch_failure + (dependency_plan \<times> string)" where
  "default_prefetch fenv lockfile diskNote =
     map_sum id (\<lambda>(plan, skipped). (plan, prefetch_log diskNote plan skipped)) (snd (prefetchCargoDependencies fenv lockfile []))"

lemma default_prefetch_ok:
  assumes "default_prefetch fenv lockfile note = Inr (plan, plog)"
  obtains lf fetched skipped where "lockfile = Some lf" "plan_of fenv lf = Inr plan"
    "prefetchCargoDependencies fenv (Some lf) [] = (fetched, Inr (plan, skipped))"
proof -
  obtain fetched res where run: "prefetchCargoDependencies fenv lockfile [] = (fetched, res)" by fastforce
  with assms obtain skipped where res: "res = Inr (plan, skipped)"
    by (cases res) (auto simp: default_prefetch_def)
  from run res obtain lf where "lockfile = Some lf"
    by (cases lockfile) (simp_all add: prefetchCargoDependencies_def)
  moreover with run res have "prefetchCargoDependencies fenv (Some lf) [] = (fetched, Inr (plan, skipped))" by simp
  moreover from this have "plan_of fenv lf = Inr plan" by (rule prefetch_run)
  ultimately show ?thesis using that by blast
qed

lemma docker_build_ok:
  assumes "docker_build cfg env i = (h, Inr b)"
  obtains pin clone checkout plan plog where
    "be_prefetch env (take 2 (preparation env pin (the (repoUrl i)) (the (commitHash i)) clone checkout plan)) = Inr (plan, plog)"
    "set (preparation env pin (the (repoUrl i)) (the (commitHash i)) clone checkout plan) \<subseteq> set h"
    "\<exists>path h1. be_read env h1 path = Some (wasm b)" "wasmHash b = be_sha env (wasm b)"
  using assms
proof (cases rule: docker_build_cases)
  case (built pin clone checkout plan plog h')
  let ?pre = "preparation env pin (the (repoUrl i)) (the (commitHash i)) clone checkout plan"
  from built(6) obtain e post where "h' = ?pre @ e # post" by (rule container_build_events)
  then have "set ?pre \<subseteq> set h" by (auto simp: built(7))
  moreover have "(\<exists>path h1. be_read env h1 path = Some (wasm b)) \<and> wasmHash b = be_sha env (wasm b)"
    using built(6) by (auto simp: container_build_def Let_def split: prod.splits if_split_asm dest!: collect_artifact_result)
  ultimately show ?thesis using that built(5) by blast
qed simp_all



text \<open>The docker executor builds with its configured image and arguments only: the toolchain version and the build flags
  of a submission, which its record publishes, have no influence on what is built.\<close>

theorem docker_ignores_toolchain:
  "docker_build cfg env (i\<lparr>toolchainVersion := t, buildFlags := f, sourceArchiveRef := a\<rparr>) = docker_build cfg env i"
  by (simp add: docker_build_def cong: guard_outcome.case_cong)

text \<open>The stub never produces a WebAssembly module, so its bytes are no deployed contract's.\<close>

lemma stub_is_no_wasm: "take 4 (wasm (stub_build sha i)) \<noteq> take 4 wasm_header"
  by (simp add: stub_build_def text_bytes_def wasm_header_def Let_def)

end
