(* ===== verification/ArtifactResolver.thy ===== *)
theory ArtifactResolver
  imports Verify RpcPool
begin

text \<open>
  The resolver of deployed artifacts, \<open>services/worker-service/src/resolver.ts\<close>: the lookups against a Soroban RPC
  server with their time limit, the pool of endpoints they run over, and the resolver over a fixed map.  What
  a server answers is an argument: an \<open>rpc_call\<close> settles after some milliseconds, or never.  The XDR
  accessors of the SDK are read as the \<open>executable\<close> they deliver.
\<close>

datatype 'a rpc_call = Settles nat "string + 'a" | Hangs

datatype executable = Wasm_executable bytes | Stellar_asset

record rpc_server =
  getContractData :: "string \<Rightarrow> executable rpc_call"
  getContractWasmByHash :: "(string \<Rightarrow> bytes rpc_call) option"

definition DEFAULT_RPC_TIMEOUT_MS :: nat where
  "DEFAULT_RPC_TIMEOUT_MS = 10000"

definition withTimeout :: "'a rpc_call \<Rightarrow> nat \<Rightarrow> string + 'a" where
  "withTimeout c ms =
     (case c of
        Settles t r \<Rightarrow> (if t < ms then r else Inl ''__rpc_timeout__'')
      | Hangs \<Rightarrow> Inl ''__rpc_timeout__'')"

definition says_not_found :: "string \<Rightarrow> bool" where
  "says_not_found msg =
     list_ex (str_includes (to_lower msg)) [''not found'', ''could not found'', ''could not be found'', ''missing'']"

definition nibble :: "nat \<Rightarrow> char" where
  "nibble n = (if n < 10 then char_of (48 + n) else char_of (87 + n))"

definition hex :: "bytes \<Rightarrow> string" where
  "hex bs = concat (map (\<lambda>b. [nibble (unat b div 16), nibble (unat b mod 16)]) bs)"

definition lookup :: "nat \<Rightarrow> rpc_server \<Rightarrow> string \<Rightarrow> resolve_error + string" where
  "lookup timeoutMs server contract =
     (case withTimeout (getContractData server contract) timeoutMs of
        Inl msg \<Rightarrow>
          (if msg = ''__rpc_timeout__'' then
             Inl \<lparr>re_message = ''contract metadata lookup for '' @ contract @ '' timed out after '' @ show_nat timeoutMs @ ''ms'',
                  re_code = ResolverTimeout\<rparr>
           else if says_not_found msg then
             Inl \<lparr>re_message = ''contract '' @ contract @ '' not found on-chain'', re_code = NotFound\<rparr>
           else Inl \<lparr>re_message = msg, re_code = RpcError\<rparr>)
      | Inr Stellar_asset \<Rightarrow>
          Inl \<lparr>re_message = ''contract '' @ contract @ '' is a built-in Stellar Asset Contract, not a wasm contract'',
               re_code = NotWasm\<rparr>
      | Inr (Wasm_executable h) \<Rightarrow> Inr (normalizeHash (hex h)))"

definition fetchWasm :: "(bytes \<Rightarrow> string) \<Rightarrow> nat \<Rightarrow> rpc_server \<Rightarrow> string \<Rightarrow> resolve_error + bytes" where
  "fetchWasm sha timeoutMs server h =
     (let hash = normalizeHash h in
      case getContractWasmByHash server of
        None \<Rightarrow> Inl \<lparr>re_message = ''resolver cannot fetch wasm bytes'', re_code = RpcError\<rparr>
      | Some get \<Rightarrow>
          (case withTimeout (get hash) timeoutMs of
             Inl msg \<Rightarrow>
               (if msg = ''__rpc_timeout__'' then
                  Inl \<lparr>re_message = ''wasm fetch for '' @ hash @ '' timed out after '' @ show_nat timeoutMs @ ''ms'',
                       re_code = ResolverTimeout\<rparr>
                else if says_not_found msg then
                  Inl \<lparr>re_message = ''wasm '' @ hash @ '' not found on-chain'', re_code = NotFound\<rparr>
                else Inl \<lparr>re_message = msg, re_code = RpcError\<rparr>)
           | Inr bs \<Rightarrow>
               (if hashArtifact sha bs \<noteq> hash
                then Inl \<lparr>re_message = ''RPC returned wasm that does not hash to '' @ hash, re_code = RpcError\<rparr>
                else Inr bs)))"

text \<open>Where the resolver sends its calls: one fixed server, or the pool with a server per URL.\<close>

datatype endpoint = Fixed_server rpc_server | Pooled rpc_pool "string \<Rightarrow> rpc_server" "string \<Rightarrow> instant"

definition fails_over :: "resolve_error \<Rightarrow> bool" where
  "fails_over err \<longleftrightarrow> re_code err = RpcError \<or> re_code err = ResolverTimeout"

definition via :: "endpoint \<Rightarrow> (rpc_server \<Rightarrow> resolve_error + 'a) \<Rightarrow> resolve_error rejected + 'a" where
  "via ep call =
     (case ep of
        Fixed_server server \<Rightarrow> map_sum Known id (call server)
      | Pooled pool serverFor clock \<Rightarrow>
          map_sum (\<lambda>e. case e of None \<Rightarrow> Unexpected (ThrownOther ''undefined'') | Some err \<Rightarrow> Known err) id
            (snd (snd (withRpcFailover (\<lambda>url. call (serverFor url)) fails_over re_message clock pool))))"

record resolver_options =
  ro_server :: "rpc_server option"
  ro_rpcUrl :: string
  ro_rpcPool :: "rpc_pool option"
  ro_timeoutMs :: "nat option"

definition endpoint_for :: "resolver_options \<Rightarrow> (string \<Rightarrow> rpc_server) \<Rightarrow> (string \<Rightarrow> instant) \<Rightarrow> endpoint" where
  "endpoint_for opts serverFor clock =
     (case ro_server opts of
        Some server \<Rightarrow> Fixed_server server
      | None \<Rightarrow>
          (case ro_rpcPool opts of
             Some pool \<Rightarrow> Pooled pool serverFor clock
           | None \<Rightarrow> Fixed_server (serverFor (ro_rpcUrl opts))))"

definition rpc_timeout :: "resolver_options \<Rightarrow> nat" where
  "rpc_timeout opts = (case ro_timeoutMs opts of None \<Rightarrow> DEFAULT_RPC_TIMEOUT_MS | Some ms \<Rightarrow> ms)"

definition rpc_resolveDeployedHash ::
  "resolver_options \<Rightarrow> (string \<Rightarrow> rpc_server) \<Rightarrow> (string \<Rightarrow> instant) \<Rightarrow> string \<Rightarrow> resolve_error rejected + string" where
  "rpc_resolveDeployedHash opts serverFor clock contract =
     via (endpoint_for opts serverFor clock) (\<lambda>server. lookup (rpc_timeout opts) server contract)"

definition rpc_fetchDeployedWasm ::
  "(bytes \<Rightarrow> string) \<Rightarrow> resolver_options \<Rightarrow> (string \<Rightarrow> rpc_server) \<Rightarrow> (string \<Rightarrow> instant) \<Rightarrow> string
     \<Rightarrow> resolve_error rejected + bytes" where
  "rpc_fetchDeployedWasm sha opts serverFor clock h =
     via (endpoint_for opts serverFor clock) (\<lambda>server. fetchWasm sha (rpc_timeout opts) server h)"

text \<open>The resolver over fixed maps; a \<open>Map\<close> built from a list keeps the last entry of a key.\<close>

definition static_resolveDeployedHash :: "(string, string) js_map \<Rightarrow> string \<Rightarrow> resolve_error + string" where
  "static_resolveDeployedHash hashes contract =
     (if truthy (js_get hashes contract) then Inr (normalizeHash (the (js_get hashes contract)))
      else Inl \<lparr>re_message = ''no deployed hash for '' @ contract, re_code = NotFound\<rparr>)"

fun by_hash :: "(bytes \<Rightarrow> string) \<Rightarrow> bytes list \<Rightarrow> (string, bytes) js_map \<Rightarrow> (string, bytes) js_map" where
  "by_hash sha [] m = m"
| "by_hash sha (w # ws) m = by_hash sha ws (js_set (hashArtifact sha w) w m)"

definition static_fetchDeployedWasm ::
  "(bytes \<Rightarrow> string) \<Rightarrow> (string, bytes) js_map \<Rightarrow> string \<Rightarrow> resolve_error + bytes" where
  "static_fetchDeployedWasm sha wasms h =
     (case js_get (by_hash sha (js_values wasms) []) (normalizeHash h) of
        None \<Rightarrow> Inl \<lparr>re_message = ''no wasm for '' @ h, re_code = NotFound\<rparr>
      | Some w \<Rightarrow> Inr w)"

definition base32_char :: "char \<Rightarrow> bool" where
  "base32_char c = (let n = of_char c :: nat in (65 \<le> n \<and> n \<le> 90) \<or> (50 \<le> n \<and> n \<le> 55))"

definition isContractId :: "string \<Rightarrow> bool" where
  "isContractId value \<longleftrightarrow> (case value of [] \<Rightarrow> False | c # cs \<Rightarrow> c = CHR ''C'' \<and> length cs = 55 \<and> list_all base32_char cs)"

subsection \<open>Answers are facts about the contract\<close>

lemma failover_answer:
  "snd (snd (failover_loop fn isF msg clock us le p)) = Inr v \<Longrightarrow> \<exists>u\<in>set us. fn u = Inr v"
  by (induction us arbitrary: le p) (auto simp: Let_def split: sum.splits if_split_asm)

lemma failover_definite:
  "snd (snd (failover_loop fn isF msg clock us le p)) = Inl (Some e) \<Longrightarrow> \<not> isF e \<Longrightarrow>
   (\<exists>u\<in>set us. fn u = Inl e) \<or> le = Some e"
  by (induction us arbitrary: le p) (auto simp: Let_def split: sum.splits if_split_asm)

fun servers_of :: "endpoint \<Rightarrow> rpc_server set" where
  "servers_of (Fixed_server s) = {s}"
| "servers_of (Pooled pool serverFor clock) = serverFor ` set (urls pool)"

lemma via_answer: "via ep call = Inr v \<Longrightarrow> \<exists>s\<in>servers_of ep. call s = Inr v"
  by (cases ep) (auto simp: via_def withRpcFailover_def map_sum_def split: sum.splits dest!: failover_answer)

lemma map_sum_Inl: "map_sum f g r = Inl y \<longleftrightarrow> (\<exists>x. r = Inl x \<and> y = f x)"
  by (cases r) auto

lemma via_definite:
  assumes "via ep call = Inl (Known e)" "\<not> fails_over e"
  shows "\<exists>s\<in>servers_of ep. call s = Inl e"
proof (cases ep)
  case (Fixed_server server)
  with assms show ?thesis by (auto simp: via_def map_sum_Inl)
next
  case (Pooled pool serverFor clock)
  with assms(1) have "snd (snd (withRpcFailover (\<lambda>url. call (serverFor url)) fails_over re_message clock pool)) = Inl (Some e)"
    by (auto simp: via_def map_sum_Inl split: option.splits)
  then obtain u where "u \<in> set (urls pool)" "call (serverFor u) = Inl e"
    using failover_definite [of "\<lambda>url. call (serverFor url)" fails_over re_message clock "candidates pool" None pool e] assms(2)
    by (auto simp: withRpcFailover_def)
  with Pooled show ?thesis by auto
qed

lemma fetchWasm_hash: "fetchWasm sha ms s h = Inr bs \<Longrightarrow> sha bs = normalizeHash h"
  by (auto simp: fetchWasm_def hashArtifact_def Let_def split: option.splits sum.splits if_split_asm)


definition dead_server :: rpc_server where
  "dead_server = \<lparr>getContractData = (\<lambda>_. Hangs), getContractWasmByHash = None\<rparr>"

definition live_server :: rpc_server where
  "live_server = \<lparr>getContractData = (\<lambda>_. Settles 5 (Inr (Wasm_executable [0xAB]))),
                   getContractWasmByHash = Some (\<lambda>_. Settles 5 (Inr [1, 2]))\<rparr>"

definition example_pool :: rpc_pool where
  "example_pool = \<lparr>urls = [''a'', ''b''], maxLedgerLag = 10,
     health = [(''a'', fresh_endpoint), (''b'', fresh_endpoint)], selected = ''a'', rotations = []\<rparr>"

definition example_options :: resolver_options where
  "example_options = \<lparr>ro_server = None, ro_rpcUrl = ''a'', ro_rpcPool = Some example_pool, ro_timeoutMs = None\<rparr>"


text \<open>The static resolver serves bytes under their own hash.\<close>

lemma by_hash_own: "js_get (by_hash sha ws m) k = Some w \<Longrightarrow> sha w = k \<or> js_get m k = Some w"
proof (induction sha ws m rule: by_hash.induct)
  case (2 sha w' ws m)
  then show ?case by (auto simp: hashArtifact_def split: if_split_asm)
qed simp

lemma static_wasm_hash: "static_fetchDeployedWasm sha wasms h = Inr w \<Longrightarrow> sha w = normalizeHash h"
  by (auto simp: static_fetchDeployedWasm_def split: option.splits dest!: by_hash_own)

text \<open>A contract id can make a permanent answer look transient.  The classifier searches the whole message, which
  quotes the contract id, for marks such as \<open>dns\<close>: a well-formed id that spells one makes \<open>not found on-chain\<close>
  retryable, while the same answer for other ids is final.\<close>

theorem not_found_misread:
  "\<exists>c c'. isContractId c \<and> isContractId c'
     \<and> (let err = (\<lambda>c. resolve_js \<lparr>re_message = ''contract '' @ c @ '' not found on-chain'', re_code = NotFound\<rparr>)
        in isTransientFailure (ErrorObj (err c)) \<and> \<not> isTransientFailure (ErrorObj (err c')))"
proof -
  let ?c = "''CDNS'' @ replicate 52 CHR ''A''" and ?c' = "''C'' @ replicate 55 CHR ''A''"
  have "isContractId ?c \<and> isContractId ?c'" by code_simp
  moreover have "isTransientFailure (ErrorObj (resolve_js \<lparr>re_message = ''contract '' @ ?c @ '' not found on-chain'', re_code = NotFound\<rparr>))"
    by code_simp
  moreover have "\<not> isTransientFailure (ErrorObj (resolve_js \<lparr>re_message = ''contract '' @ ?c' @ '' not found on-chain'', re_code = NotFound\<rparr>))"
    by code_simp
  ultimately show ?thesis unfolding Let_def by blast
qed

end
