(* ===== verification/LifecyclePlan.thy ===== *)
theory LifecyclePlan
  imports Complex_Main Prelude
begin

text \<open>
  Closing a classic account: the planner and the transaction builder of the lifecycle service,
  \<open>services/lifecycle-service/src/planner.ts\<close> and \<open>builder.ts\<close>.  Balances are the strings Horizon sends; \<open>num\<close> is
  \<open>Number(text)\<close>, \<open>None\<close> for NaN (exact for the amounts below \<open>2^53\<close> stroops for which the code's
  arithmetic is).  A sequence number is the integer its string denotes.  The transaction of a step stands for
  its envelope; its network hash is the argument \<open>hash_of\<close>, and \<open>asset_ok\<close> says which code and issuer the
  \<open>Asset\<close> constructor of the SDK accepts.
\<close>

record horizon_balance =
  hb_assetType :: string
  hb_assetCode :: "string option"
  hb_assetIssuer :: "string option"
  hb_balance :: string

record horizon_offer =
  ho_id :: string
  ho_sellingType :: string
  ho_sellingCode :: "string option"
  ho_sellingIssuer :: "string option"
  ho_buyingType :: string
  ho_buyingCode :: "string option"
  ho_buyingIssuer :: "string option"
  ho_price :: string

record horizon_account =
  ha_accountId :: string
  ha_sequence :: int
  ha_subentryCount :: "rat option"
  ha_balances :: "horizon_balance list"
  ha_dataKeys :: "string list"
  ha_offers :: "horizon_offer list"
  ha_openOffers :: nat
  ha_paginationIncomplete :: bool

definition native_balance :: "horizon_balance \<Rightarrow> bool" where
  "native_balance b \<longleftrightarrow> hb_assetType b = ''native''"

definition positive :: "(string \<Rightarrow> rat option) \<Rightarrow> horizon_balance \<Rightarrow> bool" where
  "positive num b = (case num (hb_balance b) of None \<Rightarrow> False | Some q \<Rightarrow> q > 0)"

subsection \<open>The plan\<close>

definition OPS_PER_TX :: nat where "OPS_PER_TX = 100"
definition BASE_RESERVE_STROOPS :: int where "BASE_RESERVE_STROOPS = 5000000"
definition BASE_FEE_STROOPS :: int where "BASE_FEE_STROOPS = 100"

datatype blocker_kind = Trustline_kind | Offer_kind | Data_kind | Balance_kind

record cleanup_blocker =
  bl_type :: blocker_kind
  bl_description :: string
  bl_actionRequired :: string

record cleanup_plan =
  cp_accountId :: string
  cp_destination :: string
  cp_blockers :: "cleanup_blocker list"
  cp_estimatedTransactions :: nat
  cp_mergeReady :: bool

record insufficient_balance =
  ib_message :: string
  ib_spendableXlm :: string
  ib_requiredXlm :: string
  ib_spendableStroops :: string
  ib_requiredStroops :: string
  ib_accountId :: string
  ib_destination :: string

datatype plan_result = Plan cleanup_plan | Insufficient insufficient_balance

datatype lifecycle_error = PaginationIncomplete | BigIntOfNaN | BigIntOfFraction | MissingAsset | InvalidAsset

text \<open>\<open>BigInt\<close> throws on \<open>NaN\<close> and on a fraction.\<close>

definition account_stroops :: "(string \<Rightarrow> rat option) \<Rightarrow> horizon_account \<Rightarrow> lifecycle_error + int" where
  "account_stroops num a =
     (case find native_balance (ha_balances a) of
        None \<Rightarrow> Inr 0
      | Some b \<Rightarrow> (case num (hb_balance b) of None \<Rightarrow> Inl BigIntOfNaN | Some q \<Rightarrow> Inr (round (q * 10000000))))"

definition subentries :: "horizon_account \<Rightarrow> rat" where
  "subentries a =
     (case ha_subentryCount a of
        Some n \<Rightarrow> n
      | None \<Rightarrow> of_nat (length (filter (\<lambda>b. \<not> native_balance b) (ha_balances a)) + ha_openOffers a + length (ha_dataKeys a)))"

definition calculateSpendableBalanceStroops :: "(string \<Rightarrow> rat option) \<Rightarrow> horizon_account \<Rightarrow> lifecycle_error + int" where
  "calculateSpendableBalanceStroops num a =
     res_bind (account_stroops num a) (\<lambda>native.
       if of_int \<lfloor>subentries a\<rfloor> \<noteq> subentries a then Inl BigIntOfFraction
       else
         (let reserve = (2 + \<lfloor>subentries a\<rfloor>) * BASE_RESERVE_STROOPS
          in Inr (if native > reserve then native - reserve else 0)))"

definition balance_ops :: "(string \<Rightarrow> rat option) \<Rightarrow> horizon_balance \<Rightarrow> nat" where
  "balance_ops num b = (if native_balance b then 0 else (if positive num b then 1 else 0) + 1)"

definition cleanup_op_count :: "(string \<Rightarrow> rat option) \<Rightarrow> horizon_account \<Rightarrow> nat" where
  "cleanup_op_count num a =
     sum_list (map (balance_ops num) (ha_balances a)) + ha_openOffers a + length (ha_dataKeys a)"

definition calculateRequiredFeeStroops :: "(string \<Rightarrow> rat option) \<Rightarrow> horizon_account \<Rightarrow> int" where
  "calculateRequiredFeeStroops num a = int (max 1 (cleanup_op_count num a)) * BASE_FEE_STROOPS"

definition text_or :: "string option \<Rightarrow> string \<Rightarrow> string" where
  "text_or s d = (case s of None \<Rightarrow> d | Some t \<Rightarrow> t)"

definition asset_text :: "horizon_balance \<Rightarrow> string" where
  "asset_text b = text_or (hb_assetCode b) ''?'' @ '':'' @ text_or (hb_assetIssuer b) ''?''"

definition balance_blockers :: "(string \<Rightarrow> rat option) \<Rightarrow> horizon_balance \<Rightarrow> cleanup_blocker list" where
  "balance_blockers num b =
     (if native_balance b then []
      else
        (let name = text_or (hb_assetCode b) (asset_text b) in
         (if positive num b then
            [\<lparr>bl_type = Balance_kind, bl_description = ''Holds '' @ hb_balance b @ '' '' @ name,
              bl_actionRequired = ''Transfer or burn the '' @ name @ '' balance before removing its trustline''\<rparr>]
          else [])
         @ [\<lparr>bl_type = Trustline_kind, bl_description = ''Trustline to '' @ asset_text b,
             bl_actionRequired = ''Remove the '' @ name @ '' trustline (requires zero balance)''\<rparr>]))"

definition offer_blockers :: "horizon_account \<Rightarrow> cleanup_blocker list" where
  "offer_blockers a =
     (if ha_openOffers a > 0 then
        [\<lparr>bl_type = Offer_kind, bl_description = show_nat (ha_openOffers a) @ '' open DEX offer(s)'',
          bl_actionRequired = ''Cancel all open offers''\<rparr>]
      else [])"

definition data_blocker :: "string \<Rightarrow> cleanup_blocker" where
  "data_blocker key =
     \<lparr>bl_type = Data_kind, bl_description = ''Managed data entry '' @ [CHR 0x22] @ key @ [CHR 0x22],
      bl_actionRequired = ''Delete the '' @ [CHR 0x22] @ key @ [CHR 0x22] @ '' data entry''\<rparr>"

text \<open>Stroops with seven decimals, \<open>(n / 10_000_000).toFixed(7)\<close>.\<close>

definition xlm_text :: "int \<Rightarrow> string" where
  "xlm_text n = (let frac = show_nat (nat n mod 10000000) in
     show_nat (nat n div 10000000) @ ''.'' @ replicate (7 - length frac) CHR ''0'' @ frac)"

definition insufficient_result :: "int \<Rightarrow> int \<Rightarrow> horizon_account \<Rightarrow> string \<Rightarrow> insufficient_balance" where
  "insufficient_result spendable required a destination =
     \<lparr>ib_message = ''Account cannot self-fund its own cleanup: spendable balance ('' @ xlm_text spendable
        @ '' XLM) is less than the required fee ('' @ xlm_text required @ '' XLM)'',
      ib_spendableXlm = xlm_text spendable, ib_requiredXlm = xlm_text required,
      ib_spendableStroops = show_int spendable, ib_requiredStroops = show_int required,
      ib_accountId = ha_accountId a, ib_destination = destination\<rparr>"

definition all_blockers :: "(string \<Rightarrow> rat option) \<Rightarrow> horizon_account \<Rightarrow> cleanup_blocker list" where
  "all_blockers num a =
     concat (map (balance_blockers num) (ha_balances a)) @ offer_blockers a @ map data_blocker (ha_dataKeys a)"

definition ceil_div :: "nat \<Rightarrow> nat \<Rightarrow> nat" where
  "ceil_div n k = (n + (k - 1)) div k"

definition buildCleanupPlan :: "(string \<Rightarrow> rat option) \<Rightarrow> horizon_account \<Rightarrow> string \<Rightarrow> lifecycle_error + plan_result" where
  "buildCleanupPlan num a destination =
     (if ha_paginationIncomplete a then Inl PaginationIncomplete
      else
        res_bind (calculateSpendableBalanceStroops num a) (\<lambda>spendable.
          let required = calculateRequiredFeeStroops num a in
          if spendable < required then Inr (Insufficient (insufficient_result spendable required a destination))
          else
            (let bl = all_blockers num a;
                 estimated = max 1 (ceil_div (cleanup_op_count num a) OPS_PER_TX + 1)
             in Inr (Plan \<lparr>cp_accountId = ha_accountId a, cp_destination = destination, cp_blockers = bl,
                           cp_estimatedTransactions = (if bl = [] then 1 else estimated),
                           cp_mergeReady = (bl = [])\<rparr>))))"

subsection \<open>The transactions\<close>

datatype stellar_asset = Native | Issued string string

datatype cleanup_op =
    Cancel_offer string stellar_asset stellar_asset string
  | Pay string stellar_asset string
  | Remove_trustline stellar_asset
  | Delete_data string
  | Merge_into string

record classic_tx =
  tx_source :: string
  tx_sequence :: int
  tx_fee :: int
  tx_ops :: "cleanup_op list"
  tx_timeout :: int
  tx_network :: string

record cleanup_step =
  st_title :: string
  st_description :: string
  st_tx :: classic_tx
  st_hash :: string

definition TIMEOUT_SECONDS :: int where "TIMEOUT_SECONDS = 24 * 60 * 60"

definition toAsset :: "(string \<Rightarrow> string \<Rightarrow> bool) \<Rightarrow> string option \<Rightarrow> string option \<Rightarrow> lifecycle_error + stellar_asset" where
  "toAsset asset_ok code issuer =
     (if \<not> truthy code \<or> \<not> truthy issuer then Inl MissingAsset
      else if \<not> asset_ok (the code) (the issuer) then Inl InvalidAsset
      else Inr (Issued (the code) (the issuer)))"

definition asset_code :: "stellar_asset \<Rightarrow> string" where
  "asset_code x = (case x of Native \<Rightarrow> ''XLM'' | Issued c i \<Rightarrow> c)"

definition offer_side :: "(string \<Rightarrow> string \<Rightarrow> bool) \<Rightarrow> string \<Rightarrow> string option \<Rightarrow> string option \<Rightarrow> lifecycle_error + stellar_asset" where
  "offer_side asset_ok ty code issuer = (if ty = ''native'' then Inr Native else toAsset asset_ok code issuer)"

definition offer_ops :: "(string \<Rightarrow> string \<Rightarrow> bool) \<Rightarrow> horizon_offer \<Rightarrow> lifecycle_error + (cleanup_op \<times> string) list" where
  "offer_ops asset_ok f =
     res_bind (offer_side asset_ok (ho_sellingType f) (ho_sellingCode f) (ho_sellingIssuer f)) (\<lambda>selling.
     res_bind (offer_side asset_ok (ho_buyingType f) (ho_buyingCode f) (ho_buyingIssuer f)) (\<lambda>buying.
       Inr [(Cancel_offer (ho_id f) selling buying (ho_price f), ''cancel offer #'' @ ho_id f)]))"

definition trustline_ops ::
  "(string \<Rightarrow> rat option) \<Rightarrow> (string \<Rightarrow> string \<Rightarrow> bool) \<Rightarrow> string \<Rightarrow> horizon_balance
   \<Rightarrow> lifecycle_error + (cleanup_op \<times> string) list" where
  "trustline_ops num asset_ok destination b =
     (if native_balance b then Inr []
      else
        res_bind (toAsset asset_ok (hb_assetCode b) (hb_assetIssuer b)) (\<lambda>x.
          Inr ((if positive num b then
                  [(Pay destination x (hb_balance b),
                    ''send '' @ hb_balance b @ '' '' @ asset_code x @ '' to the destination'')]
                else [])
               @ [(Remove_trustline x, ''remove the '' @ asset_code x @ '' trustline'')])))"

definition data_op :: "string \<Rightarrow> cleanup_op \<times> string" where
  "data_op key = (Delete_data key, ''delete data entry '' @ [CHR 0x22] @ key @ [CHR 0x22])"

fun collect_ops :: "('a \<Rightarrow> 'e + 'b list) \<Rightarrow> 'a list \<Rightarrow> 'e + 'b list" where
  "collect_ops f [] = Inr []"
| "collect_ops f (x # xs) = res_bind (f x) (\<lambda>ys. map_sum id (\<lambda>zs. ys @ zs) (collect_ops f xs))"

definition collectCleanupOps ::
  "(string \<Rightarrow> rat option) \<Rightarrow> (string \<Rightarrow> string \<Rightarrow> bool) \<Rightarrow> horizon_account \<Rightarrow> string
   \<Rightarrow> lifecycle_error + (cleanup_op \<times> string) list" where
  "collectCleanupOps num asset_ok a destination =
     res_bind (collect_ops (offer_ops asset_ok) (ha_offers a)) (\<lambda>offs.
     res_bind (collect_ops (trustline_ops num asset_ok destination) (ha_balances a)) (\<lambda>lines.
       Inr (offs @ lines @ map data_op (ha_dataKeys a))))"

text \<open>\<open>TransactionBuilder.build\<close> takes the next sequence number of its source and the base fee per operation.\<close>

definition build_tx :: "string \<Rightarrow> string \<Rightarrow> int \<Rightarrow> cleanup_op list \<Rightarrow> classic_tx" where
  "build_tx network source next_seq ops =
     \<lparr>tx_source = source, tx_sequence = next_seq, tx_fee = BASE_FEE_STROOPS * int (length ops), tx_ops = ops,
      tx_timeout = TIMEOUT_SECONDS, tx_network = network\<rparr>"

definition cleanup_step_of ::
  "(classic_tx \<Rightarrow> string) \<Rightarrow> string \<Rightarrow> horizon_account \<Rightarrow> nat \<Rightarrow> nat \<Rightarrow> (cleanup_op \<times> string) list \<Rightarrow> cleanup_step" where
  "cleanup_step_of hash_of network a chunkCount part chunk =
     (let tx = build_tx network (ha_accountId a) (ha_sequence a + int part) (map fst chunk);
          actions = join_with ''; '' (map snd chunk)
      in \<lparr>st_title = (if chunkCount = 1 then ''Clean up the account''
            else ''Clean up the account ('' @ show_nat part @ ''/'' @ show_nat chunkCount @ '')''),
          st_description = (if chunkCount = 1 then ''One transaction that will: '' @ actions @ ''.''
            else ''Transaction '' @ show_nat part @ '' of '' @ show_nat chunkCount
              @ '' '' @ [CHR 0xE2, CHR 0x80, CHR 0x94] @ '' sign and submit in order. This one will: '' @ actions @ ''.'')
            @ '' Note: the destination must trust any asset being sent to it.'',
          st_tx = tx, st_hash = hash_of tx\<rparr>)"

definition buildCleanupSteps ::
  "(string \<Rightarrow> rat option) \<Rightarrow> (string \<Rightarrow> string \<Rightarrow> bool) \<Rightarrow> (classic_tx \<Rightarrow> string) \<Rightarrow> horizon_account \<Rightarrow> string \<Rightarrow> string
   \<Rightarrow> lifecycle_error + cleanup_step list" where
  "buildCleanupSteps num asset_ok hash_of a destination network =
     map_sum id (\<lambda>ops. let parts = chunks OPS_PER_TX ops in
         map (\<lambda>(i, chunk). cleanup_step_of hash_of network a (length parts) (Suc i) chunk) (enumerate 0 parts))
       (collectCleanupOps num asset_ok a destination)"

definition buildMergeStep :: "(classic_tx \<Rightarrow> string) \<Rightarrow> horizon_account \<Rightarrow> string \<Rightarrow> string \<Rightarrow> cleanup_step" where
  "buildMergeStep hash_of a destination network =
     (let tx = build_tx network (ha_accountId a) (ha_sequence a + 1) [Merge_into destination] in
      \<lparr>st_title = ''Merge and close the account'',
       st_description = ''Closes '' @ ha_accountId a @ '' and sends its entire XLM balance to '' @ destination
         @ ''. This cannot be undone.'',
       st_tx = tx, st_hash = hash_of tx\<rparr>)"

subsection \<open>The plan counts the transactions\<close>

lemma collect_ops_length:
  assumes "collect_ops f xs = Inr ys" and "\<And>x zs. x \<in> set xs \<Longrightarrow> f x = Inr zs \<Longrightarrow> length zs = n x"
  shows "length ys = sum_list (map n xs)"
  using assms
proof (induction xs arbitrary: ys)
  case (Cons x xs)
  then obtain a b where "f x = Inr a" "collect_ops f xs = Inr b" "ys = a @ b"
    by (auto simp: res_bind_eq_Inr map_sum_def split: sum.splits)
  with Cons show ?case by simp
qed simp

lemma ops_counted:
  assumes "collectCleanupOps num asset_ok a d = Inr ops" "ha_openOffers a = length (ha_offers a)"
  shows "length ops = cleanup_op_count num a"
proof -
  from assms(1) obtain offs lns where o: "collect_ops (offer_ops asset_ok) (ha_offers a) = Inr offs"
    and l: "collect_ops (trustline_ops num asset_ok d) (ha_balances a) = Inr lns"
    and ops: "ops = offs @ lns @ map data_op (ha_dataKeys a)"
    by (auto simp: collectCleanupOps_def res_bind_eq_Inr)
  have "length offs = sum_list (map (\<lambda>_. 1) (ha_offers a))"
    by (rule collect_ops_length [OF o]) (auto simp: offer_ops_def res_bind_eq_Inr)
  moreover have "length lns = sum_list (map (balance_ops num) (ha_balances a))"
    by (rule collect_ops_length [OF l]) (auto simp: trustline_ops_def balance_ops_def res_bind_eq_Inr split: if_split_asm)
  ultimately show ?thesis using assms(2) by (simp add: ops cleanup_op_count_def sum_list_triv)
qed

lemma all_blockers_Nil: "all_blockers num a = [] \<longleftrightarrow> cleanup_op_count num a = 0"
proof -
  have "balance_blockers num b = [] \<longleftrightarrow> balance_ops num b = 0" for b
    by (simp add: balance_blockers_def balance_ops_def Let_def)
  then show ?thesis by (auto simp: all_blockers_def cleanup_op_count_def offer_blockers_def)
qed

lemma plan_sel:
  assumes "buildCleanupPlan num a d = Inr (Plan p)"
  obtains spendable where "calculateSpendableBalanceStroops num a = Inr spendable"
    "calculateRequiredFeeStroops num a \<le> spendable" "\<not> ha_paginationIncomplete a"
    "cp_blockers p = all_blockers num a" "cp_mergeReady p = (all_blockers num a = [])"
    "cp_estimatedTransactions p = (if all_blockers num a = [] then 1 else ceil_div (cleanup_op_count num a) OPS_PER_TX + 1)"
  using assms by (auto simp: buildCleanupPlan_def res_bind_eq_Inr Let_def split: if_split_asm)

lemma ops_per_tx: "0 < OPS_PER_TX" "OPS_PER_TX - 1 = 99" "OPS_PER_TX = 100" by (simp_all add: OPS_PER_TX_def)

lemma steps_sel:
  assumes "buildCleanupSteps num asset_ok hash_of a d network = Inr steps"
  obtains ops where "collectCleanupOps num asset_ok a d = Inr ops" "length steps = length (chunks OPS_PER_TX ops)"
    "\<forall>i < length steps. st_tx (steps ! i) = build_tx network (ha_accountId a) (ha_sequence a + 1 + int i) (map fst (chunks OPS_PER_TX ops ! i))"
proof -
  from assms obtain ops where "collectCleanupOps num asset_ok a d = Inr ops"
    and "steps = map (\<lambda>(i, chunk). cleanup_step_of hash_of network a (length (chunks OPS_PER_TX ops)) (Suc i) chunk) (enumerate 0 (chunks OPS_PER_TX ops))"
    by (cases "collectCleanupOps num asset_ok a d") (auto simp: buildCleanupSteps_def Let_def)
  with that show ?thesis
    by (simp add: cleanup_step_of_def Let_def nth_enumerate_eq ac_simps)
qed

lemma chunks_single: "xs \<noteq> [] \<Longrightarrow> length xs \<le> n \<Longrightarrow> chunks n xs = [xs]"
  by (cases "n = 0") (simp_all add: chunks.simps [of n xs])

lemma steps_ops:
  assumes "buildCleanupSteps num asset_ok hash_of a d network = Inr steps" "collectCleanupOps num asset_ok a d = Inr ops"
  shows "map (\<lambda>s. tx_ops (st_tx s)) steps = map (map fst) (chunks OPS_PER_TX ops)"
proof (rule nth_equalityI)
  from assms obtain l: "length steps = length (chunks OPS_PER_TX ops)"
    and tx: "\<forall>i < length steps. st_tx (steps ! i) = build_tx network (ha_accountId a) (ha_sequence a + 1 + int i) (map fst (chunks OPS_PER_TX ops ! i))"
    by (elim steps_sel) simp
  then show "length (map (\<lambda>s. tx_ops (st_tx s)) steps) = length (map (map fst) (chunks OPS_PER_TX ops))" by simp
  fix i assume "i < length (map (\<lambda>s. tx_ops (st_tx s)) steps)"
  with l tx show "map (\<lambda>s. tx_ops (st_tx s)) steps ! i = map (map fst) (chunks OPS_PER_TX ops) ! i"
    by (simp add: build_tx_def)
qed

lemma sum_scaled: "sum_list (map (\<lambda>x. k * int (f x)) xs) = k * int (sum_list (map f xs))"
  by (induction xs) (simp_all add: algebra_simps)

text \<open>A plan says what will really happen: its estimate is the number of cleanup transactions plus the merge, it is
  ready for the merge exactly when there is nothing to clean up; every transaction carries between 1 and 100
  operations under consecutive sequence numbers; and their fees together are covered by the spendable balance.\<close>

theorem plan_matches_transactions:
  assumes plan: "buildCleanupPlan num a d = Inr (Plan p)" and steps: "buildCleanupSteps num asset_ok hash_of a d network = Inr steps"
    and read: "ha_openOffers a = length (ha_offers a)"
  shows "cp_estimatedTransactions p = length steps + 1 \<and> (cp_mergeReady p \<longleftrightarrow> steps = [])
     \<and> (\<forall>i < length steps. tx_sequence (st_tx (steps ! i)) = ha_sequence a + 1 + int i
          \<and> 1 \<le> length (tx_ops (st_tx (steps ! i))) \<and> length (tx_ops (st_tx (steps ! i))) \<le> 100)
     \<and> (\<exists>spendable. calculateSpendableBalanceStroops num a = Inr spendable
          \<and> sum_list (map (\<lambda>s. tx_fee (st_tx s)) steps) \<le> spendable)"
proof -
  from plan obtain spendable where sp: "calculateSpendableBalanceStroops num a = Inr spendable"
    "calculateRequiredFeeStroops num a \<le> spendable"
    and p: "cp_mergeReady p = (all_blockers num a = [])"
      "cp_estimatedTransactions p = (if all_blockers num a = [] then 1 else ceil_div (cleanup_op_count num a) OPS_PER_TX + 1)"
    by (rule plan_sel)
  from steps obtain ops where ops: "collectCleanupOps num asset_ok a d = Inr ops" and len: "length steps = length (chunks OPS_PER_TX ops)"
    and tx: "\<forall>i < length steps. st_tx (steps ! i) = build_tx network (ha_accountId a) (ha_sequence a + 1 + int i) (map fst (chunks OPS_PER_TX ops ! i))"
    by (rule steps_sel)
  have count: "length ops = cleanup_op_count num a" by (rule ops_counted [OF ops read])
  have parts: "length steps = ceil_div (cleanup_op_count num a) OPS_PER_TX"
    unfolding len count [symmetric] ceil_div_def by (rule chunks_length [OF ops_per_tx(1)])
  have "steps = [] \<longleftrightarrow> ops = []"
    using len chunks.simps [of OPS_PER_TX ops] ops_per_tx(1) by (cases "ops = []") auto
  with count have none: "all_blockers num a = [] \<longleftrightarrow> steps = []"
    by (cases ops) (auto simp: all_blockers_Nil)
  have each: "tx_sequence (st_tx (steps ! i)) = ha_sequence a + 1 + int i
          \<and> 1 \<le> length (tx_ops (st_tx (steps ! i))) \<and> length (tx_ops (st_tx (steps ! i))) \<le> 100" if "i < length steps" for i
    using tx [rule_format, OF that] chunks_piece [of "chunks OPS_PER_TX ops ! i" OPS_PER_TX ops] that len
    by (simp add: build_tx_def ops_per_tx Suc_le_eq)
  have "map (\<lambda>s. tx_fee (st_tx s)) steps = map (\<lambda>s. BASE_FEE_STROOPS * int (length (tx_ops (st_tx s)))) steps"
    using tx by (auto simp: in_set_conv_nth build_tx_def intro!: map_cong)
  then have "sum_list (map (\<lambda>s. tx_fee (st_tx s)) steps) = BASE_FEE_STROOPS * int (sum_list (map length (map (\<lambda>s. tx_ops (st_tx s)) steps)))"
    by (simp only: sum_scaled map_map o_def)
  also have "\<dots> = BASE_FEE_STROOPS * int (length (concat (chunks OPS_PER_TX ops)))"
    by (simp only: steps_ops [OF steps ops] length_concat) (simp add: o_def)
  also have "\<dots> = BASE_FEE_STROOPS * int (cleanup_op_count num a)"
    by (simp add: concat_chunks ops_per_tx count)
  also have "\<dots> \<le> calculateRequiredFeeStroops num a"
    by (simp add: calculateRequiredFeeStroops_def BASE_FEE_STROOPS_def)
  finally show ?thesis using sp p parts none each by auto
qed

definition example_num :: "string \<Rightarrow> rat option" where
  "example_num s = (if s = ''10'' then Some 10 else if s = ''5'' then Some 5 else if s = ''0'' then Some 0 else None)"

definition example_account :: horizon_account where
  "example_account =
     \<lparr>ha_accountId = ''G1'', ha_sequence = 7, ha_subentryCount = None,
      ha_balances = [\<lparr>hb_assetType = ''credit_alphanum4'', hb_assetCode = Some ''USD'', hb_assetIssuer = Some ''G2'', hb_balance = ''5''\<rparr>,
        \<lparr>hb_assetType = ''native'', hb_assetCode = None, hb_assetIssuer = None, hb_balance = ''10''\<rparr>],
      ha_dataKeys = [''k''],
      ha_offers = [\<lparr>ho_id = ''1'', ho_sellingType = ''credit_alphanum4'', ho_sellingCode = Some ''USD'', ho_sellingIssuer = Some ''G2'',
        ho_buyingType = ''native'', ho_buyingCode = None, ho_buyingIssuer = None, ho_price = ''1''\<rparr>],
      ha_openOffers = 1, ha_paginationIncomplete = False\<rparr>"

lemma example_plan_built: "\<exists>p. buildCleanupPlan example_num example_account ''G3'' = Inr (Plan p)"
proof -
  have "account_stroops example_num example_account = Inr 100000000"
    by (simp add: account_stroops_def example_account_def native_balance_def example_num_def)
  then have "calculateSpendableBalanceStroops example_num example_account = Inr 75000000"
    by (simp add: calculateSpendableBalanceStroops_def subentries_def example_account_def native_balance_def BASE_RESERVE_STROOPS_def)
  moreover have "calculateRequiredFeeStroops example_num example_account = 400"
    by (simp add: calculateRequiredFeeStroops_def cleanup_op_count_def balance_ops_def positive_def example_account_def native_balance_def
        example_num_def BASE_FEE_STROOPS_def)
  moreover have "\<not> ha_paginationIncomplete example_account" by (simp add: example_account_def)
  ultimately show ?thesis by (simp add: buildCleanupPlan_def Let_def)
qed

definition example_ops :: "(cleanup_op \<times> string) list" where
  "example_ops = [(Cancel_offer ''1'' (Issued ''USD'' ''G2'') Native ''1'', ''cancel offer #1''),
     (Pay ''G3'' (Issued ''USD'' ''G2'') ''5'', ''send 5 USD to the destination''),
     (Remove_trustline (Issued ''USD'' ''G2''), ''remove the USD trustline''), data_op ''k'']"

lemma example_collected: "collectCleanupOps example_num (\<lambda>_ _. True) example_account ''G3'' = Inr example_ops"
  by (simp add: collectCleanupOps_def offer_ops_def offer_side_def toAsset_def truthy_def trustline_ops_def native_balance_def
      positive_def example_num_def asset_code_def example_account_def example_ops_def)

lemma example_steps: "\<exists>s. buildCleanupSteps example_num (\<lambda>_ _. True) (\<lambda>_. ''h'') example_account ''G3'' ''net'' = Inr [s]"
proof -
  have "chunks OPS_PER_TX example_ops = [example_ops]"
    by (rule chunks_single) (simp_all add: example_ops_def ops_per_tx)
  then show ?thesis by (simp add: buildCleanupSteps_def example_collected Let_def)
qed

theorem plan_matches_transactions_witness:
  "\<exists>p s. buildCleanupPlan example_num example_account ''G3'' = Inr (Plan p) \<and> cp_estimatedTransactions p = 2 \<and> \<not> cp_mergeReady p
     \<and> buildCleanupSteps example_num (\<lambda>_ _. True) (\<lambda>_. ''h'') example_account ''G3'' ''net'' = Inr [s]
     \<and> tx_sequence (st_tx s) = 8"
proof -
  from example_plan_built example_steps obtain p s where
    "buildCleanupPlan example_num example_account ''G3'' = Inr (Plan p)"
    "buildCleanupSteps example_num (\<lambda>_ _. True) (\<lambda>_. ''h'') example_account ''G3'' ''net'' = Inr [s]" by blast
  with plan_matches_transactions [OF this] show ?thesis by (auto simp: example_account_def)
qed

end
