(* ===== verification/LifecycleCleanup.thy ===== *)
theory LifecycleCleanup
  imports LifecyclePlan
begin

text \<open>
  What the transactions of a cleanup do, and resuming a cleanup that was interrupted: the plan tracking and
  \<open>resumeCleanupPlan\<close> of \<open>services/lifecycle-service/src/builder.ts\<close>.  The first part states the ledger rules
  that the builder's comments rely on (an open offer locks what it sells, a trustline can only go when it is
  empty) as a small interpreter of operations, and shows that the operations succeed in the order built.
\<close>

subsection \<open>The rules of the ledger\<close>

record ledger =
  lg_offers :: "(string \<times> stellar_asset \<times> stellar_asset) list"
  lg_lines :: "(stellar_asset \<times> rat) list"
  lg_data :: "string list"

definition free_of_offers :: "stellar_asset \<Rightarrow> ledger \<Rightarrow> bool" where
  "free_of_offers x l \<longleftrightarrow> list_all (\<lambda>(i, sell, buy). sell \<noteq> x \<and> buy \<noteq> x) (lg_offers l)"

fun apply_op :: "(string \<Rightarrow> rat option) \<Rightarrow> cleanup_op \<Rightarrow> ledger \<Rightarrow> ledger option" where
  "apply_op num (Cancel_offer i sell buy price) l =
     (if (i, sell, buy) \<in> set (lg_offers l) then Some (l\<lparr>lg_offers := filter (\<lambda>f. fst f \<noteq> i) (lg_offers l)\<rparr>) else None)"
| "apply_op num (Pay dest x amount) l =
     (case (map_of (lg_lines l) x, num amount) of
        (Some held, Some q) \<Rightarrow>
          (if 0 < q \<and> q \<le> held \<and> free_of_offers x l
           then Some (l\<lparr>lg_lines := map (\<lambda>(y, h). (y, if y = x then h - q else h)) (lg_lines l)\<rparr>) else None)
      | _ \<Rightarrow> None)"
| "apply_op num (Remove_trustline x) l =
     (if map_of (lg_lines l) x = Some 0 \<and> free_of_offers x l
      then Some (l\<lparr>lg_lines := filter (\<lambda>p. fst p \<noteq> x) (lg_lines l)\<rparr>) else None)"
| "apply_op num (Delete_data k) l =
     (if k \<in> set (lg_data l) then Some (l\<lparr>lg_data := filter (\<lambda>k'. k' \<noteq> k) (lg_data l)\<rparr>) else None)"
| "apply_op num (Merge_into dest) l = (if lg_offers l = [] \<and> lg_lines l = [] \<and> lg_data l = [] then Some l else None)"

fun run_ops :: "(string \<Rightarrow> rat option) \<Rightarrow> cleanup_op list \<Rightarrow> ledger \<Rightarrow> ledger option" where
  "run_ops num [] l = Some l"
| "run_ops num (p # ps) l = Option.bind (apply_op num p l) (run_ops num ps)"

lemma run_ops_append: "run_ops num (ps @ qs) l = Option.bind (run_ops num ps l) (run_ops num qs)"
proof (induction ps arbitrary: l)
  case (Cons p ps)
  then show ?case by (cases "apply_op num p l") simp_all
qed simp

text \<open>The account a reader returned, as a ledger state.\<close>

definition side :: "string \<Rightarrow> string option \<Rightarrow> string option \<Rightarrow> stellar_asset" where
  "side ty code issuer = (if ty = ''native'' then Native else Issued (the code) (the issuer))"

definition offer_entry :: "horizon_offer \<Rightarrow> string \<times> stellar_asset \<times> stellar_asset" where
  "offer_entry f = (ho_id f, side (ho_sellingType f) (ho_sellingCode f) (ho_sellingIssuer f),
     side (ho_buyingType f) (ho_buyingCode f) (ho_buyingIssuer f))"

lemma fst_offer_entry [simp]: "fst (offer_entry f) = ho_id f"
  by (simp add: offer_entry_def)

definition line_entry :: "(string \<Rightarrow> rat option) \<Rightarrow> horizon_balance \<Rightarrow> stellar_asset \<times> rat" where
  "line_entry num b = (Issued (the (hb_assetCode b)) (the (hb_assetIssuer b)), the (num (hb_balance b)))"

definition lines_of :: "horizon_account \<Rightarrow> horizon_balance list" where
  "lines_of a = filter (\<lambda>b. \<not> native_balance b) (ha_balances a)"

definition ledger_of :: "(string \<Rightarrow> rat option) \<Rightarrow> horizon_account \<Rightarrow> ledger" where
  "ledger_of num a = \<lparr>lg_offers = map offer_entry (ha_offers a), lg_lines = map (line_entry num) (lines_of a), lg_data = ha_dataKeys a\<rparr>"

text \<open>What every account on the ledger satisfies: offers, trustlines and data entries are distinct, balances are amounts.\<close>

definition ledger_account :: "(string \<Rightarrow> rat option) \<Rightarrow> horizon_account \<Rightarrow> bool" where
  "ledger_account num a \<longleftrightarrow> distinct (map ho_id (ha_offers a)) \<and> distinct (map (\<lambda>b. fst (line_entry num b)) (lines_of a))
     \<and> distinct (ha_dataKeys a) \<and> list_all (\<lambda>b. \<exists>q. num (hb_balance b) = Some q \<and> 0 \<le> q) (lines_of a)"

lemma collect_ops_Cons_Inr:
  "collect_ops f (x # xs) = Inr ys \<longleftrightarrow> (\<exists>a b. f x = Inr a \<and> collect_ops f xs = Inr b \<and> ys = a @ b)"
  by (auto simp: res_bind_eq_Inr map_sum_def split: sum.splits)

lemma toAsset_Inr: "toAsset asset_ok c i = Inr x \<Longrightarrow> x = Issued (the c) (the i)"
  by (simp add: toAsset_def split: if_split_asm)

lemma offer_side_Inr: "offer_side asset_ok ty c i = Inr x \<Longrightarrow> x = side ty c i"
  by (auto simp: offer_side_def side_def dest: toAsset_Inr split: if_split_asm)

lemma run_cancels:
  assumes "collect_ops (offer_ops asset_ok) fs = Inr offs" "distinct (map ho_id fs)" "lg_offers l = map offer_entry fs"
  shows "run_ops num (map fst offs) l = Some (l\<lparr>lg_offers := []\<rparr>)"
  using assms
proof (induction fs arbitrary: offs l)
  case Nil
  then show ?case by simp
next
  case (Cons f fs)
  from Cons.prems(1) obtain os1 os2 where one: "offer_ops asset_ok f = Inr os1" and rest: "collect_ops (offer_ops asset_ok) fs = Inr os2"
    and offs: "offs = os1 @ os2" unfolding collect_ops_Cons_Inr by blast
  from one obtain price act where os1: "os1 = [(Cancel_offer (ho_id f) (fst (snd (offer_entry f))) (snd (snd (offer_entry f))) price, act)]"
    by (auto simp: offer_ops_def res_bind_eq_Inr offer_entry_def dest!: offer_side_Inr)
  have entry: "offer_entry f = (ho_id f, fst (snd (offer_entry f)), snd (snd (offer_entry f)))" by (simp add: offer_entry_def)
  have "filter (\<lambda>g. fst g \<noteq> ho_id f) (map offer_entry fs) = map offer_entry fs"
    using Cons.prems(2) by (intro filter_True) (auto simp: offer_entry_def image_iff)
  then have "filter (\<lambda>g. fst g \<noteq> ho_id f) (lg_offers l) = map offer_entry fs"
    using Cons.prems(3) by simp
  moreover have "(ho_id f, fst (snd (offer_entry f)), snd (snd (offer_entry f))) \<in> set (lg_offers l)"
    using Cons.prems(3) entry by simp
  ultimately have "apply_op num (fst (hd os1)) l = Some (l\<lparr>lg_offers := map offer_entry fs\<rparr>)" by (simp add: os1)
  with Cons.IH [OF rest, of "l\<lparr>lg_offers := map offer_entry fs\<rparr>"] Cons.prems(2) show ?case by (simp add: offs os1)
qed

lemma run_lines:
  assumes "collect_ops (trustline_ops num asset_ok d) bs = Inr lns"
    and "distinct (map (\<lambda>b. fst (line_entry num b)) (filter (\<lambda>b. \<not> native_balance b) bs))"
    and "list_all (\<lambda>b. \<exists>q. num (hb_balance b) = Some q \<and> 0 \<le> q) (filter (\<lambda>b. \<not> native_balance b) bs)"
    and "lg_offers l = []" "lg_lines l = map (line_entry num) (filter (\<lambda>b. \<not> native_balance b) bs)"
  shows "run_ops num (map fst lns) l = Some (l\<lparr>lg_lines := []\<rparr>)"
  using assms
proof (induction bs arbitrary: lns l)
  case Nil
  then show ?case by simp
next
  case (Cons b bs)
  from Cons.prems(1) obtain ls1 ls2 where one: "trustline_ops num asset_ok d b = Inr ls1"
    and rest: "collect_ops (trustline_ops num asset_ok d) bs = Inr ls2" and lns: "lns = ls1 @ ls2"
    unfolding collect_ops_Cons_Inr by blast
  show ?case
  proof (cases "native_balance b")
    case True
    with one have "ls1 = []" by (simp add: trustline_ops_def)
    with Cons True rest show ?thesis by (simp add: lns)
  next
    case False
    let ?x = "fst (line_entry num b)" and ?more = "map (line_entry num) (filter (\<lambda>b. \<not> native_balance b) bs)"
    from Cons.prems(3) False obtain q where q: "num (hb_balance b) = Some q" "0 \<le> q" by auto
    have fresh: "?x \<notin> fst ` set ?more" using Cons.prems(2) False by (simp add: image_image)
    have lines: "lg_lines l = (?x, q) # ?more" using Cons.prems(5) False q by (simp add: line_entry_def)
    have "\<forall>p\<in>set ?more. fst p \<noteq> ?x" using fresh by (metis imageI)
    then have others: "map (\<lambda>(y, h). (y, if y = ?x then h - q else h)) ?more = ?more" "filter (\<lambda>p. fst p \<noteq> ?x) ?more = ?more"
      by (simp_all add: map_idI split_def filter_id_conv prod_eq_iff del: map_map set_map filter_map)
    have free: "free_of_offers x l" for x using Cons.prems(4) by (simp add: free_of_offers_def)
    have last: "run_ops num (map fst ls2) (l\<lparr>lg_lines := ?more\<rparr>) = Some (l\<lparr>lg_lines := []\<rparr>)"
      using Cons.IH [OF rest, of "l\<lparr>lg_lines := ?more\<rparr>"] Cons.prems False by simp
    have "\<exists>t1 t2. ls1 = (if positive num b then [(Pay d ?x (hb_balance b), t1)] else []) @ [(Remove_trustline ?x, t2)]"
      using one False
      by (cases "positive num b") (auto simp: trustline_ops_def res_bind_eq_Inr line_entry_def dest!: toAsset_Inr)
    then obtain t1 t2 where ls1: "ls1 = (if positive num b then [(Pay d ?x (hb_balance b), t1)] else []) @ [(Remove_trustline ?x, t2)]"
      by blast
    show ?thesis
    proof (cases "q = 0")
      case True
      then have "apply_op num (Remove_trustline ?x) l = Some (l\<lparr>lg_lines := ?more\<rparr>)"
        using lines others free by simp
      moreover have "\<not> positive num b" using q True by (simp add: positive_def)
      ultimately show ?thesis using last by (simp add: lns ls1)
    next
      case False
      let ?l = "l\<lparr>lg_lines := (?x, 0) # ?more\<rparr>"
      have "apply_op num (Pay d ?x (hb_balance b)) l = Some ?l"
        using lines others free q False by simp
      moreover have "apply_op num (Remove_trustline ?x) ?l = Some (l\<lparr>lg_lines := ?more\<rparr>)"
        using others free by (simp add: free_of_offers_def)
      moreover have "positive num b" using q False by (simp add: positive_def)
      ultimately show ?thesis using last by (simp add: lns ls1)
    qed
  qed
qed

lemma run_deletes: "distinct ks \<Longrightarrow> lg_data l = ks \<Longrightarrow> run_ops num (map (\<lambda>k. fst (data_op k)) ks) l = Some (l\<lparr>lg_data := []\<rparr>)"
proof (induction ks arbitrary: l)
  case (Cons k ks)
  have "filter (\<lambda>k'. k' \<noteq> k) ks = ks" using Cons.prems(1) by (intro filter_True) auto
  with Cons.prems have "apply_op num (fst (data_op k)) l = Some (l\<lparr>lg_data := ks\<rparr>)" by (simp add: data_op_def)
  with Cons.IH [of "l\<lparr>lg_data := ks\<rparr>"] Cons.prems show ?case by simp
qed simp



subsection \<open>Tracking a plan\<close>

record step_confirmation =
  sc_stepIndex :: nat
  sc_hash :: string
  sc_confirmed :: bool
  sc_confirmedAt :: "string option"

record expected_state =
  ex_sequence :: int
  ex_balances :: "horizon_balance list"
  ex_dataKeys :: "string list"
  ex_openOffers :: nat

record plan_tracking =
  pt_planId :: string
  pt_accountId :: string
  pt_destination :: string
  pt_totalSteps :: nat
  pt_steps :: "step_confirmation list"
  pt_originalSteps :: "cleanup_step list"
  pt_expectedState :: expected_state

definition createPlanTracking :: "int \<Rightarrow> horizon_account \<Rightarrow> string \<Rightarrow> cleanup_step list \<Rightarrow> plan_tracking" where
  "createPlanTracking now a destination steps =
     \<lparr>pt_planId = ''plan_'' @ ha_accountId a @ ''_'' @ show_int now, pt_accountId = ha_accountId a,
      pt_destination = destination, pt_totalSteps = length steps,
      pt_steps = map (\<lambda>(i, s). \<lparr>sc_stepIndex = i, sc_hash = st_hash s, sc_confirmed = False, sc_confirmedAt = None\<rparr>) (enumerate 0 steps),
      pt_originalSteps = steps,
      pt_expectedState = \<lparr>ex_sequence = ha_sequence a, ex_balances = ha_balances a, ex_dataKeys = ha_dataKeys a,
        ex_openOffers = ha_openOffers a\<rparr>\<rparr>"

datatype confirmation = By_index nat | By_hash string

fun names :: "confirmation \<Rightarrow> step_confirmation \<Rightarrow> bool" where
  "names (By_index i) s = (sc_stepIndex s = i)"
| "names (By_hash h) s = (sc_hash s = h)"

definition recordStepConfirmation :: "string \<Rightarrow> confirmation \<Rightarrow> plan_tracking \<Rightarrow> plan_tracking" where
  "recordStepConfirmation now c t =
     t\<lparr>pt_steps := map (\<lambda>s. if names c s
         then s\<lparr>sc_confirmed := True, sc_confirmedAt := Some (case sc_confirmedAt s of None \<Rightarrow> now | Some x \<Rightarrow> x)\<rparr> else s) (pt_steps t)\<rparr>"

subsection \<open>Resuming\<close>

datatype fresh_reason =
    Account_mismatch string string
  | Non_contiguous nat nat
  | New_trustline string string
  | Changed_balance string string string
  | New_offers nat nat

datatype resume_result =
    Resumed nat "cleanup_step list" nat nat
  | Completed
  | Fresh_plan_required fresh_reason

definition balance_key :: "horizon_balance \<Rightarrow> string" where
  "balance_key b = text_or (hb_assetCode b) ''undefined'' @ '':'' @ text_or (hb_assetIssuer b) ''undefined''"

definition balance_map :: "horizon_balance list \<Rightarrow> (string, string) js_map" where
  "balance_map bs = fold (\<lambda>b m. if native_balance b then m else js_set (balance_key b) (hb_balance b) m) bs []"

definition confirmed_indices :: "plan_tracking \<Rightarrow> nat list" where
  "confirmed_indices t = sort (map sc_stepIndex (filter sc_confirmed (pt_steps t)))"

definition gap :: "nat list \<Rightarrow> (nat \<times> nat) option" where
  "gap is = find (\<lambda>(i, c). c \<noteq> i) (enumerate 0 is)"

definition changed :: "(string, string) js_map \<Rightarrow> string \<times> string \<Rightarrow> bool" where
  "changed original = (\<lambda>(k, cur). case js_get original k of None \<Rightarrow> False | Some orig \<Rightarrow> cur \<noteq> orig \<and> cur \<noteq> ''0'')"

definition resumeCleanupPlan ::
  "(string \<Rightarrow> rat option) \<Rightarrow> (string \<Rightarrow> string \<Rightarrow> bool) \<Rightarrow> (classic_tx \<Rightarrow> string) \<Rightarrow> horizon_account \<Rightarrow> string \<Rightarrow> string
   \<Rightarrow> plan_tracking \<Rightarrow> lifecycle_error + resume_result" where
  "resumeCleanupPlan num asset_ok hash_of cur destination network t =
     (if ha_accountId cur \<noteq> pt_accountId t then Inr (Fresh_plan_required (Account_mismatch (pt_accountId t) (ha_accountId cur)))
      else
        (let is = confirmed_indices t;
             original = balance_map (ex_balances (pt_expectedState t));
             current = balance_map (ha_balances cur)
         in
         if length is = pt_totalSteps t then Inr Completed
         else
           (case gap is of
              Some (i, c) \<Rightarrow> Inr (Fresh_plan_required (Non_contiguous i c))
            | None \<Rightarrow>
                (case find (\<lambda>(k, bal). \<not> js_has original k) current of
                   Some (k, bal) \<Rightarrow> Inr (Fresh_plan_required (New_trustline k bal))
                 | None \<Rightarrow>
                     (case find (changed original) current of
                        Some (k, bal) \<Rightarrow> Inr (Fresh_plan_required (Changed_balance k (the (js_get original k)) bal))
                      | None \<Rightarrow>
                          (if ha_openOffers cur > ex_openOffers (pt_expectedState t)
                           then Inr (Fresh_plan_required (New_offers (ex_openOffers (pt_expectedState t)) (ha_openOffers cur)))
                           else
                             map_sum id (\<lambda>steps. Resumed (length is) steps (length is) (pt_totalSteps t))
                               (buildCleanupSteps num asset_ok hash_of cur destination network)))))))"

text \<open>The tracking after some confirmations, each reported at its own time.\<close>

definition track :: "(string \<times> confirmation) list \<Rightarrow> plan_tracking \<Rightarrow> plan_tracking" where
  "track cs t = fold (\<lambda>(now, c). recordStepConfirmation now c) cs t"

definition confirms :: "cleanup_step list \<Rightarrow> (string \<times> confirmation) list \<Rightarrow> nat \<Rightarrow> bool" where
  "confirms steps cs i \<longleftrightarrow> i < length steps \<and> list_ex (\<lambda>(now, c). c = By_index i \<or> c = By_hash (st_hash (steps ! i))) cs"

lemma record_sel [simp]:
  "pt_totalSteps (recordStepConfirmation now c t) = pt_totalSteps t" "pt_accountId (recordStepConfirmation now c t) = pt_accountId t"
  "pt_expectedState (recordStepConfirmation now c t) = pt_expectedState t"
  "map sc_stepIndex (pt_steps (recordStepConfirmation now c t)) = map sc_stepIndex (pt_steps t)"
  "map sc_hash (pt_steps (recordStepConfirmation now c t)) = map sc_hash (pt_steps t)"
  "length (pt_steps (recordStepConfirmation now c t)) = length (pt_steps t)"
  by (simp_all add: recordStepConfirmation_def)

lemma track_sel [simp]:
  "pt_totalSteps (track cs t) = pt_totalSteps t" "pt_accountId (track cs t) = pt_accountId t"
  "pt_expectedState (track cs t) = pt_expectedState t"
  "map sc_stepIndex (pt_steps (track cs t)) = map sc_stepIndex (pt_steps t)"
  "length (pt_steps (track cs t)) = length (pt_steps t)"
  by (induction cs arbitrary: t) (auto simp: track_def)

lemma track_confirmed:
  "i < length (pt_steps t) \<Longrightarrow>
   sc_confirmed (pt_steps (track cs t) ! i) \<longleftrightarrow> sc_confirmed (pt_steps t ! i) \<or> list_ex (\<lambda>(now, c). names c (pt_steps t ! i)) cs"
proof (induction cs arbitrary: t)
  case Nil
  then show ?case by (simp add: track_def)
next
  case (Cons e cs)
  obtain now c where e: "e = (now, c)" by fastforce
  let ?t = "recordStepConfirmation now c t"
  have same: "names c' (pt_steps ?t ! i) = names c' (pt_steps t ! i)" for c'
    using Cons.prems by (cases c') (simp_all add: recordStepConfirmation_def)
  have "sc_confirmed (pt_steps ?t ! i) \<longleftrightarrow> sc_confirmed (pt_steps t ! i) \<or> names c (pt_steps t ! i)"
    using Cons.prems by (simp add: recordStepConfirmation_def)
  moreover have "track (e # cs) t = track cs ?t" by (simp add: track_def e)
  ultimately show ?case using Cons.IH [of ?t] Cons.prems same by (auto simp: e)
qed

lemma tracked_indices:
  assumes "t = track cs (createPlanTracking now a d steps)"
  shows "confirmed_indices t = filter (confirms steps cs) [0..<length steps]"
proof -
  let ?t0 = "createPlanTracking now a d steps"
  have len: "length (pt_steps t) = length steps" by (simp add: assms createPlanTracking_def)
  have idx: "map sc_stepIndex (pt_steps t) = [0..<length steps]"
    by (simp add: assms createPlanTracking_def o_def split_def enumerate_eq_zip)
  have nth: "sc_stepIndex (pt_steps t ! i) = i" if "i < length steps" for i
    using idx len that by (metis add.left_neutral nth_map nth_upt)
  have conf: "sc_confirmed (pt_steps t ! i) \<longleftrightarrow> confirms steps cs i" if "i < length steps" for i
  proof -
    have "names c (pt_steps ?t0 ! i) \<longleftrightarrow> c = By_index i \<or> c = By_hash (st_hash (steps ! i))" for c
      using that by (cases c) (auto simp: createPlanTracking_def nth_enumerate_eq)
    moreover have "\<not> sc_confirmed (pt_steps ?t0 ! i)" "length (pt_steps ?t0) = length steps"
      using that by (simp_all add: createPlanTracking_def nth_enumerate_eq)
    ultimately show ?thesis
      using track_confirmed [of i ?t0 cs] that by (simp add: assms confirms_def)
  qed
  have split: "pt_steps t = map (\<lambda>i. pt_steps t ! i) [0..<length steps]"
    using map_nth [of "pt_steps t"] len by simp
  have "map sc_stepIndex (filter sc_confirmed (pt_steps t)) =
        map sc_stepIndex (filter sc_confirmed (map (\<lambda>i. pt_steps t ! i) [0..<length steps]))"
    by (rule arg_cong [where f = "\<lambda>ss. map sc_stepIndex (filter sc_confirmed ss)"], rule split)
  also have "\<dots> = map (\<lambda>i. sc_stepIndex (pt_steps t ! i)) (filter (\<lambda>i. sc_confirmed (pt_steps t ! i)) [0..<length steps])"
    by (simp only: filter_map map_map o_def)
  also have "\<dots> = filter (confirms steps cs) [0..<length steps]"
    using nth conf by (intro map_idI [THEN trans] filter_cong) auto
  finally show ?thesis by (simp add: confirmed_indices_def sorted_sort_id sorted_wrt_filter)
qed


lemma gap_None: "gap is = None \<longleftrightarrow> is = [0..<length is]"
proof -
  have "gap is = None \<longleftrightarrow> (\<forall>i < length is. is ! i = i)"
  proof -
    have "gap is = None \<longleftrightarrow> (\<forall>p \<in> set (enumerate 0 is). snd p = fst p)"
      by (simp add: gap_def find_None_iff split_def Ball_def)
    also have "\<dots> \<longleftrightarrow> (\<forall>i < length is. snd (enumerate 0 is ! i) = fst (enumerate 0 is ! i))"
      by (simp add: all_set_conv_all_nth)
    also have "\<dots> \<longleftrightarrow> (\<forall>i < length is. is ! i = i)"
      by (simp add: nth_enumerate_eq cong: all_cong)
    finally show ?thesis .
  qed
  also have "\<dots> \<longleftrightarrow> is = [0..<length is]"
    unfolding list_eq_iff_nth_eq by simp
  finally show ?thesis .
qed

lemma tracked_state:
  assumes "t = track cs (createPlanTracking now a d steps)"
  shows "pt_accountId t = ha_accountId a" "pt_totalSteps t = length steps" "ex_balances (pt_expectedState t) = ha_balances a"
    "ex_openOffers (pt_expectedState t) = ha_openOffers a"
  by (simp_all add: assms createPlanTracking_def)

lemma length_filter_eq_all: "length (filter P [0..<n]) = length [0..<n] \<Longrightarrow> \<forall>i < n. P i"
  using length_filter_less [of _ "[0..<n]" P] by (metis atLeastLessThan_iff less_irrefl set_upt zero_le)

text \<open>A filtered range without a gap is a prefix of the range.\<close>

lemma prefix_of_range:
  assumes "filter P [0..<n] = [0..<k]" "i < n"
  shows "P i \<longleftrightarrow> i < k"
proof -
  have "i \<in> set (filter P [0..<n]) \<longleftrightarrow> i \<in> set [0..<k]" by (simp only: assms(1))
  then show ?thesis using assms(2) by simp
qed

lemma balance_map_keys: "js_has (balance_map bs) k \<longleftrightarrow> (\<exists>b \<in> set bs. \<not> native_balance b \<and> balance_key b = k)"
proof -
  have "js_has (fold (\<lambda>b m. if native_balance b then m else js_set (balance_key b) (hb_balance b) m) bs m) k
      \<longleftrightarrow> js_has m k \<or> (\<exists>b \<in> set bs. \<not> native_balance b \<and> balance_key b = k)" for m
    by (induction bs arbitrary: m) (auto simp: js_has_def)
  then show ?thesis by (simp add: balance_map_def js_has_def)
qed


definition two_steps :: "cleanup_step list" where
  "two_steps =
     (let tx = \<lparr>tx_source = ''G1'', tx_sequence = 1, tx_fee = 100, tx_ops = [], tx_timeout = TIMEOUT_SECONDS, tx_network = ''net''\<rparr>
      in [\<lparr>st_title = ''a'', st_description = ''a'', st_tx = tx, st_hash = ''ha''\<rparr>, \<lparr>st_title = ''b'', st_description = ''b'', st_tx = tx, st_hash = ''hb''\<rparr>])"


text \<open>The one balance a paid-out trustline may have, \<open>"0"\<close>, is not how an empty balance is reported: a trustline emptied
  by the confirmed step and not yet removed makes the plan not resumable.\<close>

lemma emptied_trustline_not_resumed:
  assumes "t = track cs (createPlanTracking now a d steps)" "ha_accountId cur = ha_accountId a"
    and "balance_map (ha_balances a) = [(k, bal)]" "balance_map (ha_balances cur) = [(k, ''0.0000000'')]" "bal \<noteq> ''0.0000000''"
    and "confirmed_indices t = [0..<j]" "j < length steps"
  shows "resumeCleanupPlan num asset_ok hash_of cur d network t = Inr (Fresh_plan_required (Changed_balance k bal ''0.0000000''))"
proof -
  have "gap [0..<j] = None" by (simp add: gap_None)
  with assms(2-) show ?thesis
    by (simp add: resumeCleanupPlan_def tracked_state [OF assms(1)] Let_def js_has_def changed_def)
qed

end
