(* ===== verification/PercentEncoding.thy ===== *)
theory PercentEncoding
  imports WasmCompare
begin

text \<open>
  \<open>encodeURIComponent\<close> and \<open>decodeURIComponent\<close> of the language.  A string is the bytes of its UTF-8 encoding; its code
  points and its length in UTF-16 units are read off the bytes.
\<close>

definition code_points :: "string \<Rightarrow> nat list option" where
  "code_points s = utf8_chars (map of_char s)"

definition utf16_length :: "string \<Rightarrow> nat" where
  "utf16_length s = (case code_points s of None \<Rightarrow> length s | Some cs \<Rightarrow> sum_list (map (\<lambda>c. if c \<ge> 65536 then 2 else 1) cs))"

lemma code_points_ascii: "list_all (\<lambda>c. (of_char c :: nat) < 128) s \<Longrightarrow> code_points s = Some (map of_char s)"
  by (induction s) (simp_all add: code_points_def)

lemma utf16_length_ascii: "list_all (\<lambda>c. (of_char c :: nat) < 128) s \<Longrightarrow> utf16_length s = length s"
proof -
  assume s: "list_all (\<lambda>c. (of_char c :: nat) < 128) s"
  then have "sum_list (map (\<lambda>c. if (of_char c :: nat) \<ge> 65536 then 2 else 1 :: nat) s) = length s"
    by (induction s) auto
  then show ?thesis by (simp add: utf16_length_def code_points_ascii [OF s] o_def)
qed

definition unreserved :: "char \<Rightarrow> bool" where
  "unreserved c \<longleftrightarrow> is_digit c \<or> c \<in> set ''ABCDEFGHIJKLMNOPQRSTUVWXYZabcdefghijklmnopqrstuvwxyz-_.!~*()'' \<or> c = CHR 0x27"

definition upper_hex :: "nat \<Rightarrow> char" where
  "upper_hex n = ''0123456789ABCDEF'' ! n"

definition encode_char :: "char \<Rightarrow> string" where
  "encode_char c = (if unreserved c then [c] else [CHR ''%'', upper_hex (of_char c div 16), upper_hex (of_char c mod 16)])"

definition encodeURIComponent :: "string \<Rightarrow> string" where
  "encodeURIComponent s = concat (map encode_char s)"

text \<open>\<open>None\<close> is the \<open>URIError\<close>.\<close>

fun percent_bytes :: "string \<Rightarrow> string option" where
  "percent_bytes [] = Some []"
| "percent_bytes (c # s) =
     (if c = CHR ''%'' then
        (case s of
           a # b # rest \<Rightarrow>
             (case (hex_digit a, hex_digit b) of
                (Some x, Some y) \<Rightarrow> map_option (\<lambda>t. char_of (16 * x + y) # t) (percent_bytes rest)
              | _ \<Rightarrow> None)
         | _ \<Rightarrow> None)
      else map_option (\<lambda>t. c # t) (percent_bytes s))"

definition decodeURIComponent :: "string \<Rightarrow> string option" where
  "decodeURIComponent s = Option.bind (percent_bytes s) (\<lambda>t. if code_points t = None then None else Some t)"

subsection \<open>The round trip\<close>

lemma below_16: "n < 16 \<Longrightarrow> n \<in> set [0, 1, 2, 3, 4, 5, 6, 7, 8, 9, 10, 11, 12, 13, 14, 15]" for n :: nat
  by (simp, presburger)

lemma char_nibble: "(of_char c :: nat) div 16 < 16"
proof -
  have "(of_char c :: nat) < 256" by simp
  then show ?thesis by presburger
qed

lemma hex_upper: "n < 16 \<Longrightarrow> hex_digit (upper_hex n) = Some n"
proof -
  have "\<forall>n \<in> set [0, 1, 2, 3, 4, 5, 6, 7, 8, 9, 10, 11, 12, 13, 14, 15]. hex_digit (upper_hex n) = Some n"
    by (simp add: upper_hex_def hex_digit_def lower_char_def Let_def)
  then show "n < 16 \<Longrightarrow> ?thesis" using below_16 by blast
qed

lemma percent_bytes_char: "percent_bytes (encode_char c @ s) = map_option (\<lambda>t. c # t) (percent_bytes s)"
proof (cases "unreserved c")
  case True
  have "\<not> unreserved CHR ''%''" by code_simp
  with True have "c \<noteq> CHR ''%''" by auto
  with True show ?thesis by (simp add: encode_char_def)
next
  case False
  let ?n = "of_char c :: nat"
  have "hex_digit (upper_hex (?n div 16)) = Some (?n div 16)" "hex_digit (upper_hex (?n mod 16)) = Some (?n mod 16)"
    using hex_upper [OF char_nibble [of c]] by (simp_all add: hex_upper)
  moreover have "char_of (16 * (?n div 16) + ?n mod 16) = c" by simp
  ultimately show ?thesis using False by (simp add: encode_char_def)
qed

lemma percent_round_trip: "percent_bytes (encodeURIComponent s) = Some s"
  by (induction s) (simp_all add: encodeURIComponent_def percent_bytes_char)

lemma uri_component_round_trip: "code_points s \<noteq> None \<Longrightarrow> decodeURIComponent (encodeURIComponent s) = Some s"
  by (simp add: decodeURIComponent_def percent_round_trip)

text \<open>The characters of an encoded component.\<close>

definition component_char :: "char \<Rightarrow> bool" where
  "component_char c \<longleftrightarrow> unreserved c \<or> c = CHR ''%''"

lemma encoded_chars: "list_all component_char (encodeURIComponent s)"
proof -
  have "\<forall>n \<in> set [0, 1, 2, 3, 4, 5, 6, 7, 8, 9, 10, 11, 12, 13, 14, 15]. unreserved (upper_hex n)"
    by (simp add: upper_hex_def unreserved_def is_digit_def)
  then have "n < 16 \<Longrightarrow> unreserved (upper_hex n)" for n using below_16 by blast
  then have "list_all component_char (encode_char c)" for c
    using char_nibble [of c] by (simp add: encode_char_def component_char_def)
  then show ?thesis by (induction s) (simp_all add: encodeURIComponent_def)
qed

lemma component_char_plain: "component_char c \<Longrightarrow> c \<notin> {CHR ''&'', CHR ''='', CHR ''+'', CHR ''#'', CHR ''?'', CHR '' ''}"
proof -
  have "\<forall>d \<in> set [CHR ''&'', CHR ''='', CHR ''+'', CHR ''#'', CHR ''?'', CHR '' '']. \<not> component_char d" by code_simp
  then show "component_char c \<Longrightarrow> ?thesis" by auto
qed

end
