(* ===== verification/LifecycleReader.thy ===== *)
theory LifecycleReader
  imports LifecycleCleanup Json Retry PercentEncoding
begin

text \<open>
  Reading a classic account from Horizon: \<open>services/lifecycle-service/src/horizon.ts\<close>, the cache in front of it
  (\<open>account-cache.ts\<close>) and the routes that use it (\<open>server.ts\<close>).  What Horizon answers to each
  attempt of each request is an argument; bodies are JSON values, checked and read as the schemas do.
\<close>

subsection \<open>The schemas\<close>

definition must :: "(json \<Rightarrow> 'a option) \<Rightarrow> json \<Rightarrow> string \<Rightarrow> 'a option" where
  "must rd o1 k = Option.bind (fld o1 k) rd"

definition may :: "(json \<Rightarrow> 'a option) \<Rightarrow> json \<Rightarrow> string \<Rightarrow> 'a option option" where
  "may rd o1 k = (case fld o1 k of None \<Rightarrow> Some None | Some v \<Rightarrow> map_option Some (rd v))"

fun read_all :: "(json \<Rightarrow> 'a option) \<Rightarrow> json list \<Rightarrow> 'a list option" where
  "read_all rd [] = Some []"
| "read_all rd (j # js) = Option.bind (rd j) (\<lambda>x. map_option (\<lambda>xs. x # xs) (read_all rd js))"

definition array_of :: "(json \<Rightarrow> 'a option) \<Rightarrow> json \<Rightarrow> 'a list option" where
  "array_of rd j = Option.bind (arr_of j) (read_all rd)"

definition balanceRecordSchema :: "json \<Rightarrow> horizon_balance option" where
  "balanceRecordSchema j =
     Option.bind (must str_of j ''asset_type'') (\<lambda>ty.
     Option.bind (may str_of j ''asset_code'') (\<lambda>code.
     Option.bind (may str_of j ''asset_issuer'') (\<lambda>issuer.
     Option.bind (must str_of j ''balance'') (\<lambda>bal.
       Some \<lparr>hb_assetType = ty, hb_assetCode = code, hb_assetIssuer = issuer, hb_balance = bal\<rparr>))))"

definition assetRefSchema :: "json \<Rightarrow> (string \<times> string option \<times> string option) option" where
  "assetRefSchema j =
     Option.bind (must str_of j ''asset_type'') (\<lambda>ty.
     Option.bind (may str_of j ''asset_code'') (\<lambda>code.
     Option.bind (may str_of j ''asset_issuer'') (\<lambda>issuer. Some (ty, code, issuer))))"

text \<open>An offer id may be a number; \<open>pr\<close> is \<open>String(n)\<close>.\<close>

fun offer_id :: "(rat \<Rightarrow> string) \<Rightarrow> json \<Rightarrow> string option" where
  "offer_id pr (JStr s) = Some s"
| "offer_id pr (JNum n) = Some (pr n)"
| "offer_id pr _ = None"

definition offerRecordSchema :: "(rat \<Rightarrow> string) \<Rightarrow> json \<Rightarrow> horizon_offer option" where
  "offerRecordSchema pr j =
     Option.bind (must (offer_id pr) j ''id'') (\<lambda>i.
     Option.bind (must assetRefSchema j ''selling'') (\<lambda>(sty, scode, sissuer).
     Option.bind (must assetRefSchema j ''buying'') (\<lambda>(bty, bcode, bissuer).
     Option.bind (must str_of j ''price'') (\<lambda>price.
       Some \<lparr>ho_id = i, ho_sellingType = sty, ho_sellingCode = scode, ho_sellingIssuer = sissuer,
             ho_buyingType = bty, ho_buyingCode = bcode, ho_buyingIssuer = bissuer, ho_price = price\<rparr>))))"

fun obj_of :: "json \<Rightarrow> json option" where
  "obj_of (JObj kvs) = Some (JObj kvs)"
| "obj_of _ = None"

definition href_of :: "json \<Rightarrow> string option" where
  "href_of j = Option.bind (obj_of j) (\<lambda>o1. must str_of o1 ''href'')"

text \<open>The optional \<open>_links\<close> with an optional \<open>next\<close>; \<open>None\<close> is a body that the schema refuses.\<close>

definition link_in :: "string \<Rightarrow> json \<Rightarrow> string option option" where
  "link_in name j =
     Option.bind (may obj_of j ''_links'') (\<lambda>links.
       case links of None \<Rightarrow> Some None | Some l \<Rightarrow> may href_of l name)"

definition embedded :: "(json \<Rightarrow> 'a option) \<Rightarrow> json \<Rightarrow> 'a list option" where
  "embedded rd j = Option.bind (must obj_of j ''_embedded'') (\<lambda>e. must (array_of rd) e ''records'')"

type_synonym 'a page = "'a list \<times> string option"

definition page_of :: "'a list option \<Rightarrow> json \<Rightarrow> 'a page option" where
  "page_of rs j = Option.bind rs (\<lambda>xs. map_option (\<lambda>nxt. (xs, nxt)) (link_in ''next'' j))"

fun first_some :: "'a option list \<Rightarrow> 'a option" where
  "first_some [] = None"
| "first_some (x # xs) = (case x of None \<Rightarrow> first_some xs | Some y \<Rightarrow> Some y)"

text \<open>Three shapes of a trustlines page are accepted, tried in this order.\<close>

definition trustlinesPageSchema :: "json \<Rightarrow> horizon_balance page option" where
  "trustlinesPageSchema j =
     first_some [page_of (must (array_of balanceRecordSchema) j ''balances'') j,
                 page_of (embedded balanceRecordSchema j) j,
                 page_of (must (array_of balanceRecordSchema) j ''records'') j]"

definition offersPageSchema :: "(rat \<Rightarrow> string) \<Rightarrow> json \<Rightarrow> horizon_offer page option" where
  "offersPageSchema pr j = page_of (embedded (offerRecordSchema pr) j) j"

record account_body =
  ab_sequence :: string
  ab_subentry_count :: "rat option"
  ab_balances :: "horizon_balance list"
  ab_data :: "string list"
  ab_next :: "string option"

text \<open>\<open>data\<close> is an object of strings, of which only the keys are used.\<close>

fun data_keys :: "json \<Rightarrow> string list option" where
  "data_keys (JObj kvs) = (if list_all (\<lambda>(k, v). str_of v \<noteq> None) kvs then Some (map fst kvs) else None)"
| "data_keys _ = None"

definition or_opt :: "'a option \<Rightarrow> 'a option \<Rightarrow> 'a option" where
  "or_opt a b = (case a of None \<Rightarrow> b | Some x \<Rightarrow> Some x)"

definition accountSchema :: "json \<Rightarrow> account_body option" where
  "accountSchema j =
     Option.bind (must str_of j ''sequence'') (\<lambda>sq.
     Option.bind (may num_of j ''subentry_count'') (\<lambda>subs.
     Option.bind (must (array_of balanceRecordSchema) j ''balances'') (\<lambda>bals.
     Option.bind (may data_keys j ''data'') (\<lambda>keys.
     Option.bind (link_in ''next'' j) (\<lambda>nxt.
     Option.bind (link_in ''balances'' j) (\<lambda>bl.
     Option.bind (link_in ''trustlines'' j) (\<lambda>tl.
       Some \<lparr>ab_sequence = sq, ab_subentry_count = subs, ab_balances = bals,
             ab_data = (case keys of None \<Rightarrow> [] | Some ks \<Rightarrow> ks), ab_next = or_opt bl (or_opt tl nxt)\<rparr>)))))))"

subsection \<open>Requests\<close>

record fetch_error =
  je_name :: string
  je_message :: string

text \<open>What one attempt gets: a response whose body may fail to parse, or a rejected \<open>fetch\<close>.\<close>

datatype horizon_answer = Answer nat "json option" | Rejected fetch_error

record horizon_env =
  hz_base :: string
  hz_answer :: "nat \<Rightarrow> string \<Rightarrow> nat \<Rightarrow> horizon_answer"
  hz_random :: "nat \<Rightarrow> rat"
  hz_attempts :: int
  hz_baseDelay :: int
  hz_maxDelay :: int
  hz_offerPages :: nat
  hz_trustlinePages :: nat
  hz_number :: "rat \<Rightarrow> string"
  hz_sequence :: "string \<Rightarrow> int"

definition DEFAULT_MAX_OFFER_PAGES :: nat where "DEFAULT_MAX_OFFER_PAGES = 50"
definition DEFAULT_MAX_TRUSTLINE_PAGES :: nat where "DEFAULT_MAX_TRUSTLINE_PAGES = 50"
definition OFFERS_PAGE_LIMIT :: nat where "OFFERS_PAGE_LIMIT = 200"

definition fetch_once :: "string \<Rightarrow> horizon_answer \<Rightarrow> fetch_error + nat \<times> json option" where
  "fetch_once label ans =
     (case ans of
        Rejected e \<Rightarrow> Inl e
      | Answer status body \<Rightarrow>
          (if status = 404 then Inr (404, None)
           else if \<not> (200 \<le> status \<and> status \<le> 299)
           then Inl \<lparr>je_name = ''Error'', je_message = ''Horizon '' @ label @ '' failed ('' @ show_nat status @ '')''\<rparr>
           else (case body of
                   None \<Rightarrow> Inl \<lparr>je_name = ''SyntaxError'', je_message = ''Unexpected token''\<rparr>
                 | Some j \<Rightarrow> Inr (status, Some j))))"

definition fetch_retryable :: "fetch_error \<Rightarrow> bool" where
  "fetch_retryable e \<longleftrightarrow> je_name e \<noteq> ''AbortError''"

definition fetch_options :: "horizon_env \<Rightarrow> fetch_error retry_options" where
  "fetch_options env =
     \<lparr>maxAttempts = hz_attempts env, baseDelayMs = hz_baseDelay env, maxDelayMs = hz_maxDelay env, noJitter = False,
      isRetryable = fetch_retryable, aborted = (\<lambda>_. False), random = hz_random env\<rparr>"

text \<open>The \<open>n\<close>-th request of a reading.\<close>

definition fetchJson :: "horizon_env \<Rightarrow> nat \<Rightarrow> string \<Rightarrow> string \<Rightarrow> fetch_error retry_error + nat \<times> json option" where
  "fetchJson env n url label = snd (retryWithBackoff (fetch_options env) (\<lambda>i. fetch_once label (hz_answer env n url i)))"

subsection \<open>Pages\<close>

datatype reader_error =
    Fetch_failed "fetch_error retry_error"
  | Pagination_cut_short "fetch_error retry_error"
  | Malformed string

text \<open>Both loops carry the number of requests made so far; the last argument but one counts the pages they may still
  ask for.\<close>

fun more_balances :: "horizon_env \<Rightarrow> nat \<Rightarrow> nat \<Rightarrow> string \<Rightarrow> horizon_balance list \<Rightarrow> nat \<times> (reader_error + horizon_balance list)" where
  "more_balances env 0 n url acc = (n, Inr acc)"
| "more_balances env (Suc k) n url acc =
     (case fetchJson env n url ''trustlines fetch'' of
        Inl e \<Rightarrow> (Suc n, Inl (Pagination_cut_short e))
      | Inr (_, body) \<Rightarrow>
          (case Option.bind body trustlinesPageSchema of
             None \<Rightarrow> (Suc n, Inl (Malformed ''trustlines''))
           | Some (records, nxt) \<Rightarrow>
               (if records = [] then (Suc n, Inr acc)
                else if \<not> truthy nxt then (Suc n, Inr (acc @ records))
                else more_balances env k (Suc n) (the nxt) (acc @ records))))"

definition fetchAllBalances :: "horizon_env \<Rightarrow> nat \<Rightarrow> horizon_balance list \<Rightarrow> string option \<Rightarrow> nat \<times> (reader_error + horizon_balance list)" where
  "fetchAllBalances env n initial nxt =
     (if \<not> truthy nxt then (n, Inr initial) else more_balances env (hz_trustlinePages env - 1) n (the nxt) initial)"

fun more_offers :: "horizon_env \<Rightarrow> nat \<Rightarrow> nat \<Rightarrow> string \<Rightarrow> horizon_offer list \<Rightarrow> nat \<times> (reader_error + horizon_offer list)" where
  "more_offers env 0 n url acc = (n, Inr acc)"
| "more_offers env (Suc k) n url acc =
     (case fetchJson env n url ''offers fetch'' of
        Inl e \<Rightarrow> (Suc n, Inl (Fetch_failed e))
      | Inr (_, body) \<Rightarrow>
          (case Option.bind body (offersPageSchema (hz_number env)) of
             None \<Rightarrow> (Suc n, Inl (Malformed ''offers''))
           | Some (records, nxt) \<Rightarrow>
               (if records = [] then (Suc n, Inr acc)
                else if \<not> truthy nxt then (Suc n, Inr (acc @ records))
                else more_offers env k (Suc n) (the nxt) (acc @ records))))"

definition account_url :: "horizon_env \<Rightarrow> string \<Rightarrow> string" where
  "account_url env accountId = hz_base env @ ''/accounts/'' @ encodeURIComponent accountId"

definition offers_url :: "horizon_env \<Rightarrow> string \<Rightarrow> string" where
  "offers_url env accountId = account_url env accountId @ ''/offers?limit='' @ show_nat OFFERS_PAGE_LIMIT"

definition fetchAllOffers :: "horizon_env \<Rightarrow> nat \<Rightarrow> string \<Rightarrow> nat \<times> (reader_error + horizon_offer list)" where
  "fetchAllOffers env n accountId = more_offers env (hz_offerPages env) n (offers_url env accountId) []"

definition account_of ::
  "horizon_env \<Rightarrow> string \<Rightarrow> account_body \<Rightarrow> horizon_balance list \<Rightarrow> horizon_offer list \<Rightarrow> horizon_account" where
  "account_of env accountId b balances offers =
     \<lparr>ha_accountId = accountId, ha_sequence = hz_sequence env (ab_sequence b), ha_subentryCount = ab_subentry_count b,
      ha_balances = balances, ha_dataKeys = ab_data b, ha_offers = offers, ha_openOffers = length offers,
      ha_paginationIncomplete = False\<rparr>"

definition getAccount :: "horizon_env \<Rightarrow> string \<Rightarrow> nat \<times> (reader_error + horizon_account option)" where
  "getAccount env accountId =
     (case fetchJson env 0 (account_url env accountId) ''account fetch'' of
        Inl e \<Rightarrow> (1, Inl (Fetch_failed e))
      | Inr (status, body) \<Rightarrow>
          (if status = 404 then (1, Inr None)
           else (case Option.bind body accountSchema of
                   None \<Rightarrow> (1, Inl (Malformed ''account''))
                 | Some b \<Rightarrow>
                     (case fetchAllBalances env 1 (ab_balances b) (ab_next b) of
                        (n, Inl e) \<Rightarrow> (n, Inl e)
                      | (n, Inr balances) \<Rightarrow>
                          (case fetchAllOffers env n accountId of
                             (m, Inl e) \<Rightarrow> (m, Inl e)
                           | (m, Inr offers) \<Rightarrow> (m, Inr (Some (account_of env accountId b balances offers))))))))"

subsection \<open>What a reading contains\<close>

text \<open>A chain of pages as a Horizon with stable answers serves it: every page leads to the next one, and only the last
  one is empty or has no link.\<close>

fun linked :: "(string \<Rightarrow> 'a page \<Rightarrow> bool) \<Rightarrow> string \<Rightarrow> 'a page list \<Rightarrow> bool" where
  "linked served url [] = False"
| "linked served url (p # ps) =
     (served url p \<and> (if fst p = [] \<or> \<not> truthy (snd p) then ps = [] else linked served (the (snd p)) ps))"

definition served :: "horizon_env \<Rightarrow> string \<Rightarrow> (json \<Rightarrow> 'b option) \<Rightarrow> string \<Rightarrow> 'b \<Rightarrow> bool" where
  "served env label rd url p \<longleftrightarrow> (\<forall>n. \<exists>st j. fetchJson env n url label = Inr (st, Some j) \<and> rd j = Some p)"

lemma servedE:
  assumes "served env label rd url p"
  obtains st j where "fetchJson env n url label = Inr (st, Some j)" "rd j = Some p"
  using assms unfolding served_def by blast

lemma more_offers_linked:
  "linked (served env ''offers fetch'' (offersPageSchema (hz_number env))) url ps \<Longrightarrow>
   more_offers env k n url acc = (n + min k (length ps), Inr (acc @ concat (map fst (take k ps))))"
proof (induction k arbitrary: n url acc ps)
  case (Suc k)
  then obtain p ps' where ps: "ps = p # ps'" by (cases ps) auto
  with Suc.prems have "served env ''offers fetch'' (offersPageSchema (hz_number env)) url p" by simp
  then obtain st j where "fetchJson env n url ''offers fetch'' = Inr (st, Some j)" "offersPageSchema (hz_number env) j = Some p"
    by (rule servedE)
  then show ?case
    using Suc.prems Suc.IH [of "the (snd p)" ps' "Suc n" "acc @ fst p"] by (cases p) (auto simp: ps)
qed simp

lemma more_balances_linked:
  "linked (served env ''trustlines fetch'' trustlinesPageSchema) url ps \<Longrightarrow>
   more_balances env k n url acc = (n + min k (length ps), Inr (acc @ concat (map fst (take k ps))))"
proof (induction k arbitrary: n url acc ps)
  case (Suc k)
  then obtain p ps' where ps: "ps = p # ps'" by (cases ps) auto
  with Suc.prems have "served env ''trustlines fetch'' trustlinesPageSchema url p" by simp
  then obtain st j where "fetchJson env n url ''trustlines fetch'' = Inr (st, Some j)" "trustlinesPageSchema j = Some p"
    by (rule servedE)
  then show ?case
    using Suc.prems Suc.IH [of "the (snd p)" ps' "Suc n" "acc @ fst p"] by (cases p) (auto simp: ps)
qed simp

lemma more_offers_requests: "fst (more_offers env k n url acc) \<le> n + k"
proof (induction k arbitrary: n url acc)
  case (Suc k)
  have "fst (more_offers env k (Suc n) u bs) \<le> Suc (n + k)" for u bs using Suc.IH [of "Suc n" u bs] by simp
  then show ?case by (simp split: sum.split prod.split option.split)
qed simp

lemma more_balances_requests: "fst (more_balances env k n url acc) \<le> n + k"
proof (induction k arbitrary: n url acc)
  case (Suc k)
  have "fst (more_balances env k (Suc n) u bs) \<le> Suc (n + k)" for u bs using Suc.IH [of "Suc n" u bs] by simp
  then show ?case by (simp split: sum.split prod.split option.split)
qed simp

lemma getAccount_requests: "fst (getAccount env i) \<le> 1 + (hz_trustlinePages env - 1) + hz_offerPages env"
proof -
  have b: "fst (fetchAllBalances env 1 bs nx) \<le> 1 + (hz_trustlinePages env - 1)" for bs nx
    using more_balances_requests [of env "hz_trustlinePages env - 1" 1] by (simp add: fetchAllBalances_def)
  have o: "fst (fetchAllOffers env n i) \<le> n + hz_offerPages env" for n
    unfolding fetchAllOffers_def by (rule more_offers_requests)
  show ?thesis
  proof (cases "fetchJson env 0 (account_url env i) ''account fetch''")
    case (Inr r)
    then obtain st body where r: "fetchJson env 0 (account_url env i) ''account fetch'' = Inr (st, body)" by (cases r) auto
    show ?thesis
    proof (cases "st = 404 \<or> Option.bind body accountSchema = None")
      case False
      then obtain ab where ab: "st \<noteq> 404" "Option.bind body accountSchema = Some ab" by auto
      obtain n res where B: "fetchAllBalances env 1 (ab_balances ab) (ab_next ab) = (n, res)" by fastforce
      then have "n \<le> 1 + (hz_trustlinePages env - 1)" using b [of "ab_balances ab" "ab_next ab"] by simp
      moreover obtain m res' where O: "fetchAllOffers env n i = (m, res')" by fastforce
      then have "m \<le> n + hz_offerPages env" using o [of n] by simp
      ultimately show ?thesis using B O ab by (simp add: getAccount_def r split: sum.splits)
    qed (auto simp: getAccount_def r)
  qed (simp add: getAccount_def)
qed

text \<open>What a reading contains. Whatever Horizon answers, even links that run in a circle, a reading ends after at most
  one request for the account and as many for pages as the caps allow. When Horizon serves the account, its
  trustlines and its offers as chains of pages, the reading has the balances and offers of these pages in
  their order up to the caps, none added, dropped or doubled below them, and never says that it was cut short.\<close>

theorem account_reading:
  assumes "served env ''account fetch'' accountSchema (account_url env i) b"
    and "\<And>n j. fetchJson env n (account_url env i) ''account fetch'' \<noteq> Inr (404, j)"
    and "if truthy (ab_next b) then linked (served env ''trustlines fetch'' trustlinesPageSchema) (the (ab_next b)) tps else tps = []"
    and "linked (served env ''offers fetch'' (offersPageSchema (hz_number env))) (offers_url env i) ops"
  shows "snd (getAccount env i)
      = Inr (Some (account_of env i b (ab_balances b @ concat (map fst (take (hz_trustlinePages env - 1) tps)))
                                      (concat (map fst (take (hz_offerPages env) ops)))))
    \<and> (\<forall>env' i'. fst (getAccount env' i') \<le> 1 + (hz_trustlinePages env' - 1) + hz_offerPages env')"
proof -
  obtain st j where j: "fetchJson env 0 (account_url env i) ''account fetch'' = Inr (st, Some j)" "accountSchema j = Some b"
    using assms(1) by (rule servedE)
  with assms(2) have "st \<noteq> 404" by metis
  obtain n where n: "fetchAllBalances env 1 (ab_balances b) (ab_next b)
      = (n, Inr (ab_balances b @ concat (map fst (take (hz_trustlinePages env - 1) tps))))"
    using assms(3) more_balances_linked by (fastforce simp: fetchAllBalances_def split: if_splits)
  obtain m where "fetchAllOffers env n i = (m, Inr (concat (map fst (take (hz_offerPages env) ops))))"
    using more_offers_linked [OF assms(4)] by (simp add: fetchAllOffers_def)
  with j \<open>st \<noteq> 404\<close> n have "snd (getAccount env i)
      = Inr (Some (account_of env i b (ab_balances b @ concat (map fst (take (hz_trustlinePages env - 1) tps)))
                                      (concat (map fst (take (hz_offerPages env) ops)))))"
    by (simp add: getAccount_def)
  then show ?thesis using getAccount_requests by blast
qed

text \<open>A Horizon with one trustline on the account page, none on the next, and one offer.\<close>

definition example_line :: json where
  "example_line = JObj [(''asset_type'', JStr ''credit_alphanum4''), (''asset_code'', JStr ''USD''), (''asset_issuer'', JStr ''G2''), (''balance'', JStr ''5'')]"

definition example_body :: json where
  "example_body = JObj [(''sequence'', JStr ''7''), (''balances'', JArr [example_line]),
     (''_links'', JObj [(''balances'', JObj [(''href'', JStr ''more'')])])]"

definition example_more :: json where
  "example_more = JObj [(''records'', JArr [example_line])]"

definition example_offers :: json where
  "example_offers = JObj [(''_embedded'', JObj [(''records'', JArr [JObj [(''id'', JStr ''1''), (''price'', JStr ''2''),
     (''selling'', JObj [(''asset_type'', JStr ''native'')]), (''buying'', JObj [(''asset_type'', JStr ''native'')])]])])]"

definition example_hz :: horizon_env where
  "example_hz = \<lparr>hz_base = ''h'',
     hz_answer = (\<lambda>n url i. Answer 200 (Some (if url = ''more'' then example_more else if url = ''h/accounts/G1'' then example_body else example_offers))),
     hz_random = (\<lambda>_. 0), hz_attempts = 3, hz_baseDelay = 200, hz_maxDelay = 5000, hz_offerPages = 50, hz_trustlinePages = 50,
     hz_number = (\<lambda>_. ''1''), hz_sequence = (\<lambda>_. 7)\<rparr>"

lemma retry_at_once: "fn 0 = Inr v \<Longrightarrow> \<not> aborted opts (BeforeAttempt 0) \<Longrightarrow> 1 \<le> maxAttempts opts \<Longrightarrow> snd (retryWithBackoff opts fn) = Inr v"
proof -
  assume a: "fn 0 = Inr v" "\<not> aborted opts (BeforeAttempt 0)" "1 \<le> maxAttempts opts"
  then obtain k where "nat (maxAttempts opts) = Suc k" by (cases "nat (maxAttempts opts)") auto
  with a show ?thesis by (simp add: retryWithBackoff_def)
qed

lemma example_fetch: "fetchJson example_hz n url label
    = Inr (200, Some (if url = ''more'' then example_more else if url = ''h/accounts/G1'' then example_body else example_offers))"
  unfolding fetchJson_def by (rule retry_at_once) (simp_all add: fetch_once_def example_hz_def fetch_options_def)

lemma example_urls: "account_url example_hz ''G1'' = ''h/accounts/G1''" "offers_url example_hz ''G1'' = ''h/accounts/G1/offers?limit='' @ show_nat 200"
  by (simp_all add: account_url_def offers_url_def example_hz_def encodeURIComponent_def encode_char_def unreserved_def is_digit_def OFFERS_PAGE_LIMIT_def)

lemma example_read: "balanceRecordSchema example_line = Some \<lparr>hb_assetType = ''credit_alphanum4'', hb_assetCode = Some ''USD'', hb_assetIssuer = Some ''G2'', hb_balance = ''5''\<rparr>"
  by (simp add: balanceRecordSchema_def example_line_def must_def may_def)

lemmas example_schemas = must_def may_def array_of_def example_read link_in_def href_of_def or_opt_def page_of_def embedded_def

theorem account_reading_witness:
  "\<exists>a. snd (getAccount example_hz ''G1'') = Inr (Some a) \<and> length (ha_balances a) = 2 \<and> ha_openOffers a = 1"
proof -
  let ?line = "\<lparr>hb_assetType = ''credit_alphanum4'', hb_assetCode = Some ''USD'', hb_assetIssuer = Some ''G2'', hb_balance = ''5''\<rparr>"
  let ?offer = "\<lparr>ho_id = ''1'', ho_sellingType = ''native'', ho_sellingCode = None, ho_sellingIssuer = None,
             ho_buyingType = ''native'', ho_buyingCode = None, ho_buyingIssuer = None, ho_price = ''2''\<rparr>"
  define b where "b = \<lparr>ab_sequence = ''7'', ab_subentry_count = None, ab_balances = [?line], ab_data = [], ab_next = Some ''more''\<rparr>"
  have "accountSchema example_body = Some b"
    by (simp add: accountSchema_def example_body_def example_schemas b_def)
  moreover have "trustlinesPageSchema example_more = Some ([?line], None)"
    by (simp add: trustlinesPageSchema_def example_more_def example_schemas)
  moreover have "offersPageSchema (hz_number example_hz) example_offers = Some ([?offer], None)"
    by (simp add: offersPageSchema_def example_offers_def offerRecordSchema_def assetRefSchema_def example_schemas)
  ultimately have "snd (getAccount example_hz ''G1'') = Inr (Some (account_of example_hz ''G1'' b
      (ab_balances b @ concat (map fst (take (hz_trustlinePages example_hz - 1) [([?line], None :: string option)])))
      (concat (map fst (take (hz_offerPages example_hz) [([?offer], None :: string option)])))))"
    apply -
    apply (rule account_reading [THEN conjunct1])
       apply (simp_all add: served_def example_fetch example_urls b_def)
    done
  then show ?thesis by (simp add: account_of_def example_hz_def b_def)
qed

end
