(* ===== verification/LifecycleServer.thy ===== *)
theory LifecycleServer
  imports LifecycleReader
begin

text \<open>
  The short-lived cache in front of the Horizon reader (\<open>services/lifecycle-service/src/account-cache.ts\<close>) and the
  routes of the service (\<open>server.ts\<close>).  A cached reading is two steps, the lookup that misses and the
  store when the answer arrives, so that other readings and invalidations run in between.  The payment gate in
  front of \<open>/lifecycle/execute\<close> is library code; \<open>classic\<close> is the SDK's check of an account id.
\<close>

subsection \<open>The cache\<close>

record account_entry =
  ce_value :: "horizon_account option"
  ce_expiresAt :: int

type_synonym account_cache = "(string, account_entry) js_map"

definition DEFAULT_TTL_MS :: int where "DEFAULT_TTL_MS = 30000"

definition cache_lookup :: "int \<Rightarrow> string \<Rightarrow> account_cache \<Rightarrow> horizon_account option option" where
  "cache_lookup now i c =
     (case js_get c i of None \<Rightarrow> None | Some e \<Rightarrow> if ce_expiresAt e > now then Some (ce_value e) else None)"

definition cache_store :: "int \<Rightarrow> int \<Rightarrow> string \<Rightarrow> horizon_account option \<Rightarrow> account_cache \<Rightarrow> account_cache" where
  "cache_store ttl now i v c = js_set i \<lparr>ce_value = v, ce_expiresAt = now + ttl\<rparr> c"

definition invalidate :: "string \<Rightarrow> account_cache \<Rightarrow> account_cache" where
  "invalidate i c = js_delete i c"

definition invalidateAll :: "account_cache \<Rightarrow> account_cache" where
  "invalidateAll c = []"

text \<open>What happens to a cache, in the order in which it happens: readings start on a miss, arrive or fail, entries are
  invalidated.\<close>

datatype cache_event =
    Started nat string int
  | Arrived nat string "horizon_account option" int
  | Gave_up nat
  | Invalidated string
  | Cleared

fun account_cache_step :: "int \<Rightarrow> cache_event \<Rightarrow> account_cache \<Rightarrow> account_cache" where
  "account_cache_step ttl (Started r i now) c = c"
| "account_cache_step ttl (Arrived r i v now) c = cache_store ttl now i v c"
| "account_cache_step ttl (Gave_up r) c = c"
| "account_cache_step ttl (Invalidated i) c = invalidate i c"
| "account_cache_step ttl Cleared c = invalidateAll c"

definition account_cache_run :: "int \<Rightarrow> cache_event list \<Rightarrow> account_cache" where
  "account_cache_run ttl es = fold (account_cache_step ttl) es []"

fun evicts :: "string \<Rightarrow> cache_event \<Rightarrow> bool" where
  "evicts i (Arrived r j v now) = (i = j)"
| "evicts i (Invalidated j) = (i = j)"
| "evicts i Cleared = True"
| "evicts i _ = False"

lemma account_cache_snoc [simp]: "account_cache_run ttl [] = []" "account_cache_run ttl (es @ [e]) = account_cache_step ttl e (account_cache_run ttl es)"
  by (simp_all add: account_cache_run_def)

lemma evicts_False: "\<not> evicts i e \<Longrightarrow> js_get (account_cache_step ttl e c) i = js_get c i"
  by (cases e) (auto simp: cache_store_def invalidate_def)

lemma account_cache_get:
  "js_get (account_cache_run ttl es) i = Some e \<longleftrightarrow>
   (\<exists>pre r f post. es = pre @ Arrived r i (ce_value e) f # post \<and> ce_expiresAt e = f + ttl \<and> \<not> list_ex (evicts i) post)"
proof (induction es rule: rev_induct)
  case (snoc ev es)
  show ?case
  proof (cases "evicts i ev")
    case False
    have "(\<exists>pre r f post. es @ [ev] = pre @ Arrived r i (ce_value e) f # post \<and> ce_expiresAt e = f + ttl \<and> \<not> list_ex (evicts i) post)
        \<longleftrightarrow> (\<exists>pre r f post. es = pre @ Arrived r i (ce_value e) f # post \<and> ce_expiresAt e = f + ttl \<and> \<not> list_ex (evicts i) post)"
      (is "?l \<longleftrightarrow> ?r")
    proof
      assume ?l
      then obtain pre r f post where s: "es @ [ev] = pre @ Arrived r i (ce_value e) f # post" "ce_expiresAt e = f + ttl"
        "\<not> list_ex (evicts i) post" by blast
      moreover from s False have "post \<noteq> []" by (cases post) auto
      ultimately obtain post' where "post = post' @ [ev]" "es = pre @ Arrived r i (ce_value e) f # post'"
        by (cases post rule: rev_cases) auto
      with s show ?r by auto
    next
      assume ?r
      then obtain pre r f post where "es = pre @ Arrived r i (ce_value e) f # post" "ce_expiresAt e = f + ttl" "\<not> list_ex (evicts i) post"
        by blast
      with False show ?l
        by (intro exI [of _ pre] exI [of _ r] exI [of _ f] exI [of _ "post @ [ev]"]) simp
    qed
    with snoc False show ?thesis by (simp add: evicts_False)
  next
    case True
    have last: "post = [] \<and> ev = Arrived r i (ce_value e) f" if "es @ [ev] = pre @ Arrived r i (ce_value e) f # post" "\<not> list_ex (evicts i) post"
      for pre r f post
      using that True by (cases post rule: rev_cases) auto
    show ?thesis
    proof (cases "\<exists>r v f. ev = Arrived r i v f")
      case True
      then obtain r v f where "ev = Arrived r i v f" by blast
      then show ?thesis
        using last by (cases e) (fastforce simp: cache_store_def intro: exI [of _ es])
    next
      case other: False
      then have "js_get (account_cache_run ttl (es @ [ev])) i = None"
        using True by (cases ev) (auto simp: invalidate_def invalidateAll_def)
      then show ?thesis using last other by auto
    qed
  qed
qed simp

subsection \<open>The routes\<close>

datatype lifecycle_reply =
    Bad_request string
  | Account_not_found
  | Inspected horizon_account
  | Planned cleanup_plan
  | Cannot_fund insufficient_balance
  | Built "cleanup_step list" cleanup_plan
  | Not_merge_ready cleanup_plan
  | Merge_built cleanup_step
  | Thrown "reader_error + lifecycle_error"

fun reply_status :: "lifecycle_reply \<Rightarrow> nat" where
  "reply_status (Bad_request e) = 400"
| "reply_status Account_not_found = 404"
| "reply_status (Cannot_fund i) = 400"
| "reply_status (Not_merge_ready p) = 409"
| "reply_status (Thrown e) = 500"
| "reply_status _ = 200"

definition nonempty_str :: "json \<Rightarrow> string option" where
  "nonempty_str j = Option.bind (str_of j) (\<lambda>s. if s = [] then None else Some s)"

definition inspectBodySchema :: "json \<Rightarrow> string option" where
  "inspectBodySchema body = must nonempty_str body ''accountId''"

definition planBodySchema :: "json \<Rightarrow> (string \<times> string) option" where
  "planBodySchema body =
     Option.bind (must nonempty_str body ''accountId'') (\<lambda>a. map_option (\<lambda>d. (a, d)) (must nonempty_str body ''destination''))"

definition validatePair :: "(string \<Rightarrow> bool) \<Rightarrow> string \<Rightarrow> string \<Rightarrow> string option" where
  "validatePair classic a d =
     (if \<not> classic a then Some ''not_classic_account''
      else if \<not> classic d then Some ''invalid_destination''
      else if d = a then Some ''invalid_destination''
      else None)"

text \<open>The reading is an argument of the routes: what the cached reader settles to.\<close>

type_synonym reading = "string \<Rightarrow> reader_error + horizon_account option"

definition inspect_route :: "(string \<Rightarrow> bool) \<Rightarrow> reading \<Rightarrow> json \<Rightarrow> lifecycle_reply" where
  "inspect_route classic get body =
     (case inspectBodySchema body of
        None \<Rightarrow> Bad_request ''invalid_body''
      | Some a \<Rightarrow>
          (if \<not> classic a then Bad_request ''not_classic_account''
           else (case get a of
                   Inl e \<Rightarrow> Thrown (Inl e)
                 | Inr None \<Rightarrow> Account_not_found
                 | Inr (Some account) \<Rightarrow> Inspected account)))"

text \<open>The part the three other routes share: the checks of the body, the reading and the plan.\<close>

definition with_plan ::
  "(string \<Rightarrow> rat option) \<Rightarrow> (string \<Rightarrow> bool) \<Rightarrow> reading \<Rightarrow> json \<Rightarrow> (lifecycle_reply \<Rightarrow> 'r)
   \<Rightarrow> (insufficient_balance \<Rightarrow> 'r) \<Rightarrow> (string \<Rightarrow> string \<Rightarrow> horizon_account \<Rightarrow> cleanup_plan \<Rightarrow> 'r) \<Rightarrow> 'r" where
  "with_plan num classic get body refused unfunded planned =
     (case planBodySchema body of
        None \<Rightarrow> refused (Bad_request ''invalid_body'')
      | Some (a, d) \<Rightarrow>
          (case validatePair classic a d of
             Some e \<Rightarrow> refused (Bad_request e)
           | None \<Rightarrow>
               (case get a of
                  Inl e \<Rightarrow> refused (Thrown (Inl e))
                | Inr None \<Rightarrow> refused Account_not_found
                | Inr (Some account) \<Rightarrow>
                    (case buildCleanupPlan num account d of
                       Inl e \<Rightarrow> refused (Thrown (Inr e))
                     | Inr (Insufficient i) \<Rightarrow> unfunded i
                     | Inr (Plan p) \<Rightarrow> planned a d account p))))"

definition plan_route :: "(string \<Rightarrow> rat option) \<Rightarrow> (string \<Rightarrow> bool) \<Rightarrow> reading \<Rightarrow> json \<Rightarrow> lifecycle_reply" where
  "plan_route num classic get body = with_plan num classic get body id Cannot_fund (\<lambda>a d account p. Planned p)"

definition execute_route ::
  "(string \<Rightarrow> rat option) \<Rightarrow> (string \<Rightarrow> string \<Rightarrow> bool) \<Rightarrow> (classic_tx \<Rightarrow> string) \<Rightarrow> string \<Rightarrow> (string \<Rightarrow> bool) \<Rightarrow> reading \<Rightarrow> json \<Rightarrow> lifecycle_reply" where
  "execute_route num asset_ok hash_of network classic get body =
     with_plan num classic get body id Cannot_fund
       (\<lambda>a d account p. case buildCleanupSteps num asset_ok hash_of account d network of
          Inl e \<Rightarrow> Thrown (Inr e) | Inr steps \<Rightarrow> Built steps p)"

text \<open>The merge route also says which accounts it evicts from the cache and which outcome it counts.\<close>

definition lifecycle_merge_route ::
  "(string \<Rightarrow> rat option) \<Rightarrow> (classic_tx \<Rightarrow> string) \<Rightarrow> string \<Rightarrow> (string \<Rightarrow> bool) \<Rightarrow> reading \<Rightarrow> json
   \<Rightarrow> lifecycle_reply \<times> string list \<times> bool option" where
  "lifecycle_merge_route num hash_of network classic get body =
     with_plan num classic get body (\<lambda>r. (r, [], None)) (\<lambda>i. (Cannot_fund i, [], Some False))
       (\<lambda>a d account p.
          if \<not> cp_mergeReady p then (Not_merge_ready p, [], Some False)
          else (Merge_built (buildMergeStep hash_of account d network), [a, d], Some True))"

definition cached_get :: "int \<Rightarrow> account_cache \<Rightarrow> reading \<Rightarrow> reading" where
  "cached_get now c live i = (case cache_lookup now i c of Some v \<Rightarrow> Inr v | None \<Rightarrow> live i)"

subsection \<open>What the cache and the merge route promise\<close>

lemma cached_reading:
  "cache_lookup now i (account_cache_run ttl es) = Some v \<longleftrightarrow>
   (\<exists>pre r f post. es = pre @ Arrived r i v f # post \<and> now < f + ttl \<and> \<not> list_ex (evicts i) post)"
proof -
  have "cache_lookup now i (account_cache_run ttl es) = Some v \<longleftrightarrow> (\<exists>e. js_get (account_cache_run ttl es) i = Some e \<and> now < ce_expiresAt e \<and> ce_value e = v)"
    by (auto simp: cache_lookup_def split: option.splits if_splits)
  also have "\<dots> \<longleftrightarrow> (\<exists>pre r f post. es = pre @ Arrived r i v f # post \<and> now < f + ttl \<and> \<not> list_ex (evicts i) post)"
    (is "?l \<longleftrightarrow> ?r")
  proof
    assume ?l
    then obtain e :: account_entry and pre r f post where "es = pre @ Arrived r i (ce_value e) f # post" "ce_expiresAt e = f + ttl"
      "\<not> list_ex (evicts i) post" "now < ce_expiresAt e" "ce_value e = v" unfolding account_cache_get by blast
    then show ?r by metis
  next
    assume ?r
    then obtain pre r f post where s: "es = pre @ Arrived r i v f # post" "now < f + ttl" "\<not> list_ex (evicts i) post" by blast
    let ?e = "\<lparr>ce_value = v, ce_expiresAt = f + ttl\<rparr>"
    have "js_get (account_cache_run ttl es) i = Some ?e" unfolding account_cache_get using s by auto
    then show ?l using s(2) by (intro exI [of _ ?e]) simp
  qed
  finally show ?thesis .
qed

text \<open>What the cache serves. A lookup is answered from the cache exactly when a reading of that account arrived less than
  the time-to-live ago and nothing stored or evicted the account since; the answer is the newest such
  reading, a missing account included.\<close>

theorem cached_reading_iff:
  "cache_lookup now i (account_cache_run ttl es) = Some v \<longleftrightarrow>
   (\<exists>pre r f post. es = pre @ Arrived r i v f # post \<and> now < f + ttl \<and> \<not> list_ex (evicts i) post)"
  by (rule cached_reading)

text \<open>A reading that was under way when the account was evicted still stores what it saw before.\<close>

lemma eviction_lost_to_reading_under_way:
  assumes "now < f + ttl"
  shows "cache_lookup now i (account_cache_run ttl [Started r i s, Invalidated i, Arrived r i v f]) = Some v"
  using assms unfolding cached_reading by (intro exI [of _ "[Started r i s, Invalidated i]"] exI [of _ r] exI [of _ f] exI [of _ "[]"]) simp

text \<open>The merge is decided on the cached reading, whatever Horizon would say now.\<close>

lemma merge_decided_on_cached_reading:
  assumes "planBodySchema body = Some (a, d)" "cache_lookup now a c = Some v"
  shows "lifecycle_merge_route num hash_of network classic (cached_get now c live) body = lifecycle_merge_route num hash_of network classic (cached_get now c live') body"
proof -
  have "cached_get now c live a = cached_get now c live' a" by (simp add: cached_get_def assms(2))
  then show ?thesis unfolding lifecycle_merge_route_def with_plan_def assms(1) option.case prod.case by (rule arg_cong)
qed

lemma validatePair_None: "validatePair classic a d = None \<longleftrightarrow> classic a \<and> classic d \<and> d \<noteq> a"
  by (simp add: validatePair_def)

lemma no_blockers: "all_blockers num a = [] \<longleftrightarrow> list_all native_balance (ha_balances a) \<and> ha_openOffers a = 0 \<and> ha_dataKeys a = []"
  by (auto simp: all_blockers_def balance_blockers_def offer_blockers_def list_all_iff Let_def)

lemma no_cleanup_ops: "list_all native_balance (ha_balances a) \<Longrightarrow> ha_openOffers a = 0 \<Longrightarrow> ha_dataKeys a = [] \<Longrightarrow> cleanup_op_count num a = 0"
  by (auto simp: cleanup_op_count_def balance_ops_def list_all_iff)

text \<open>When a merge is built. The merge route answers with a merge transaction exactly for a body that names two different
  classic accounts, of which the first exists as read, holds nothing but XLM, has no offers and no data entries, and
  can pay one fee above its reserve; the transaction then has that account as source and the merge into
  the destination as its only operation, both accounts are evicted from the cache, and a success is counted.\<close>

theorem merge_built_iff:
  "lifecycle_merge_route num hash_of network classic get body = (Merge_built st, evicted, counted) \<longleftrightarrow>
   (\<exists>a d account. planBodySchema body = Some (a, d) \<and> classic a \<and> classic d \<and> d \<noteq> a
      \<and> get a = Inr (Some account) \<and> \<not> ha_paginationIncomplete account
      \<and> list_all native_balance (ha_balances account) \<and> ha_openOffers account = 0 \<and> ha_dataKeys account = []
      \<and> (\<exists>spendable. calculateSpendableBalanceStroops num account = Inr spendable \<and> BASE_FEE_STROOPS \<le> spendable)
      \<and> st = buildMergeStep hash_of account d network \<and> evicted = [a, d] \<and> counted = Some True)"
proof -
  have plan: "buildCleanupPlan num account d = Inr (Plan p) \<and> cp_mergeReady p \<longleftrightarrow>
      \<not> ha_paginationIncomplete account \<and> all_blockers num account = []
      \<and> (\<exists>spendable. calculateSpendableBalanceStroops num account = Inr spendable \<and> calculateRequiredFeeStroops num account \<le> spendable)
      \<and> p = \<lparr>cp_accountId = ha_accountId account, cp_destination = d, cp_blockers = [], cp_estimatedTransactions = 1, cp_mergeReady = True\<rparr>"
    for account d p
    by (cases "calculateSpendableBalanceStroops num account") (auto simp: buildCleanupPlan_def Let_def)
  have fee: "calculateRequiredFeeStroops num account = BASE_FEE_STROOPS" if "all_blockers num account = []" for account
    using that no_cleanup_ops by (simp add: no_blockers calculateRequiredFeeStroops_def)
  have "lifecycle_merge_route num hash_of network classic get body = (Merge_built st, evicted, counted) \<longleftrightarrow>
      (\<exists>a d account p. planBodySchema body = Some (a, d) \<and> validatePair classic a d = None \<and> get a = Inr (Some account)
         \<and> (buildCleanupPlan num account d = Inr (Plan p) \<and> cp_mergeReady p)
         \<and> st = buildMergeStep hash_of account d network \<and> evicted = [a, d] \<and> counted = Some True)"
    by (auto simp: lifecycle_merge_route_def with_plan_def split: option.splits sum.splits plan_result.splits)
  also have "\<dots> \<longleftrightarrow> (\<exists>a d account. planBodySchema body = Some (a, d) \<and> validatePair classic a d = None \<and> get a = Inr (Some account)
         \<and> \<not> ha_paginationIncomplete account \<and> all_blockers num account = []
         \<and> (\<exists>spendable. calculateSpendableBalanceStroops num account = Inr spendable \<and> BASE_FEE_STROOPS \<le> spendable)
         \<and> st = buildMergeStep hash_of account d network \<and> evicted = [a, d] \<and> counted = Some True)"
    unfolding plan using fee by auto
  finally show ?thesis
    by (simp only: no_blockers validatePair_None conj_assoc)
qed

end
