(* ===== verification/AuditRedaction.thy ===== *)
theory AuditRedaction
  imports Complex_Main Prelude "HOL-Library.List_Lexorder" "HOL-Library.Char_ord"
begin

text \<open>
  The audit trail of the lifecycle service and its redaction: \<open>services/lifecycle-service/src/audit-redaction.ts\<close> and
  \<open>audit.ts\<close>.  Values are JavaScript values; objects live in a heap and are compared by reference, so that shared and
  circular data are as the code sees them.  SHA-256 is an argument.
\<close>

subsection \<open>Values\<close>

datatype js_value =
    VUndef
  | VNull
  | VBool bool
  | VNum rat
  | VBig int
  | VStr string
  | VSym string
  | VFun
  | VRef nat

text \<open>An error has an inherited name besides its own properties; of a plain object and an error the own property names are
  distinct.\<close>

datatype js_object =
    Plain_obj "(string \<times> js_value) list"
  | Array_obj "js_value list"
  | Error_obj string "(string \<times> js_value) list"

type_synonym js_heap = "js_object list"

definition deref :: "js_heap \<Rightarrow> nat \<Rightarrow> js_object" where
  "deref h r = (if r < length h then h ! r else Plain_obj [])"

definition own :: "(string \<times> js_value) list \<Rightarrow> string \<Rightarrow> js_value" where
  "own fs k = (case map_of fs k of None \<Rightarrow> VUndef | Some v \<Rightarrow> v)"

definition has_own :: "(string \<times> js_value) list \<Rightarrow> string \<Rightarrow> bool" where
  "has_own fs k \<longleftrightarrow> k \<in> fst ` set fs"

text \<open>Reading a property, inherited ones included.\<close>

fun prop_of :: "js_object \<Rightarrow> string \<Rightarrow> js_value" where
  "prop_of (Plain_obj fs) k = own fs k"
| "prop_of (Array_obj vs) k = VUndef"
| "prop_of (Error_obj nm fs) k =
     (if has_own fs k then own fs k else if k = ''name'' then VStr nm else if k = ''message'' then VStr [] else VUndef)"

fun own_props :: "js_object \<Rightarrow> (string \<times> js_value) list" where
  "own_props (Plain_obj fs) = fs"
| "own_props (Array_obj vs) = []"
| "own_props (Error_obj nm fs) = fs"

fun error_like :: "js_object \<Rightarrow> bool" where
  "error_like (Plain_obj fs) = (has_own fs ''message'' \<and> has_own fs ''name'')"
| "error_like (Array_obj vs) = False"
| "error_like (Error_obj nm fs) = True"

subsection \<open>Secrets in strings\<close>

definition word_char :: "char \<Rightarrow> bool" where
  "word_char c = (let n = of_char c :: nat in 48 \<le> n \<and> n \<le> 57 \<or> 65 \<le> n \<and> n \<le> 90 \<or> n = 95 \<or> 97 \<le> n \<and> n \<le> 122)"

definition secret_char :: "char \<Rightarrow> bool" where
  "secret_char c = (let n = of_char c :: nat in 48 \<le> n \<and> n \<le> 57 \<or> 65 \<le> n \<and> n \<le> 90)"

text \<open>\<open>S[A-Z0-9]{55}\b\<close> at the front of a string; the flag of the scan says whether the character before it is a word
  character, for the \<open>\b\<close> in front.\<close>

definition secret_at :: "string \<Rightarrow> bool" where
  "secret_at s \<longleftrightarrow> take 1 s = ''S'' \<and> 56 \<le> length s \<and> list_all secret_char (take 56 s)
     \<and> (case drop 56 s of [] \<Rightarrow> True | c # _ \<Rightarrow> \<not> word_char c)"

definition REDACTED :: string where "REDACTED = ''[REDACTED_SECRET_KEY]''"

function redact_from :: "bool \<Rightarrow> string \<Rightarrow> string" where
  "redact_from p [] = []"
| "redact_from p (c # s) =
     (if \<not> p \<and> secret_at (c # s) then REDACTED @ redact_from True (drop 55 s) else c # redact_from (word_char c) s)"
  by pat_completeness auto
termination by (relation "measure (\<lambda>(p, s). length s)") auto

definition redactString :: "string \<Rightarrow> string" where
  "redactString s = redact_from False s"

fun has_secret_from :: "bool \<Rightarrow> string \<Rightarrow> bool" where
  "has_secret_from p [] = False"
| "has_secret_from p (c # s) = (\<not> p \<and> secret_at (c # s) \<or> has_secret_from (word_char c) s)"

definition has_secret :: "string \<Rightarrow> bool" where
  "has_secret s = has_secret_from False s"

text \<open>\<open>/secret|private_?key|sponsor.*key|seed/i\<close>; the dot does not match a line end.\<close>

fun sponsor_key :: "string \<Rightarrow> bool" where
  "sponsor_key [] = False"
| "sponsor_key (c # s) =
     (starts_with (c # s) ''sponsor'' \<and> str_includes (takeWhile (\<lambda>c. c \<noteq> CHR 0x0A \<and> c \<noteq> CHR 0x0D) (drop 7 (c # s))) ''key''
      \<or> sponsor_key s)"

definition isSensitiveKey :: "string \<Rightarrow> bool" where
  "isSensitiveKey key =
     (let k = to_lower key in
      str_includes k ''secret'' \<or> str_includes k ''privatekey'' \<or> str_includes k ''private_key'' \<or> sponsor_key k \<or> str_includes k ''seed'')"

subsection \<open>Nested values\<close>

datatype redacted =
    RUndef
  | RNull
  | RBool bool
  | RNum rat
  | RBig int
  | RStr string
  | RArr "redacted list"
  | RObj "(string \<times> redacted) list"
  | RRaw js_value
  | ROut_of_fuel

fun thread :: "('a \<Rightarrow> 's \<Rightarrow> 'b \<times> 's) \<Rightarrow> 'a list \<Rightarrow> 's \<Rightarrow> 'b list \<times> 's" where
  "thread f [] s = ([], s)"
| "thread f (x # xs) s = (let (y, s1) = f x s; (ys, s2) = thread f xs s1 in (y # ys, s2))"

type_synonym redactor = "js_value \<Rightarrow> nat list \<Rightarrow> redacted \<times> nat list"

definition redact_field :: "redactor \<Rightarrow> string \<times> js_value \<Rightarrow> nat list \<Rightarrow> (string \<times> redacted) \<times> nat list" where
  "redact_field rec f seen =
     (if isSensitiveKey (fst f) then ((fst f, RStr REDACTED), seen)
      else (let (v, s1) = rec (snd f) seen in ((fst f, v), s1)))"

text \<open>The part for errors: the name is kept as it is, and so is a message that is not a string.\<close>

definition error_message :: "js_object \<Rightarrow> redacted" where
  "error_message o1 = (case prop_of o1 ''message'' of VStr s \<Rightarrow> RStr (redactString s) | v \<Rightarrow> RRaw v)"

definition error_stack :: "js_object \<Rightarrow> (string \<times> redacted) list" where
  "error_stack o1 = (case prop_of o1 ''stack'' of VStr s \<Rightarrow> [(''stack'', RStr (redactString s))] | _ \<Rightarrow> [])"

definition error_cause :: "redactor \<Rightarrow> js_object \<Rightarrow> nat list \<Rightarrow> (string \<times> redacted) list \<times> nat list" where
  "error_cause rec o1 seen =
     (case prop_of o1 ''cause'' of
        VUndef \<Rightarrow> ([], seen)
      | v \<Rightarrow> (let (c, s1) = rec v seen in ([(''cause'', c)], s1)))"

definition redact_error :: "redactor \<Rightarrow> js_object \<Rightarrow> nat list \<Rightarrow> redacted \<times> nat list" where
  "redact_error rec o1 seen =
     (let (cause, s1) = error_cause rec o1 seen;
          (rest, s2) = thread (redact_field rec)
            (filter (\<lambda>f. fst f \<notin> {''name'', ''message'', ''stack'', ''cause''}) (own_props o1)) s1
      in (RObj ([(''name'', RRaw (prop_of o1 ''name'')), (''message'', error_message o1)] @ error_stack o1 @ cause @ rest), s2))"

definition redact_object :: "redactor \<Rightarrow> js_object \<Rightarrow> nat list \<Rightarrow> redacted \<times> nat list" where
  "redact_object rec o1 seen =
     (if error_like o1 then redact_error rec o1 seen
      else (case o1 of
              Array_obj vs \<Rightarrow> (let (rs, s1) = thread rec vs seen in (RArr rs, s1))
            | _ \<Rightarrow> (let (rs, s1) = thread (redact_field rec) (own_props o1) seen in (RObj rs, s1))))"

text \<open>The last argument is the set of the objects seen so far; fuel bounds the depth of the recursion.\<close>

fun redactNested :: "js_heap \<Rightarrow> nat \<Rightarrow> redactor" where
  "redactNested h 0 v seen = (ROut_of_fuel, seen)"
| "redactNested h (Suc n) v seen =
     (case v of
        VUndef \<Rightarrow> (RUndef, seen)
      | VNull \<Rightarrow> (RNull, seen)
      | VBool b \<Rightarrow> (RBool b, seen)
      | VNum q \<Rightarrow> (RNum q, seen)
      | VBig i \<Rightarrow> (RBig i, seen)
      | VStr s \<Rightarrow> (RStr (redactString s), seen)
      | VSym s \<Rightarrow> (RStr (''Symbol('' @ s @ '')''), seen)
      | VFun \<Rightarrow> (RStr ''[Function]'', seen)
      | VRef r \<Rightarrow>
          (if r \<in> set seen then (RStr ''[Circular]'', seen)
           else redact_object (redactNested h n) (deref h r) (r # seen)))"

text \<open>Enough fuel for every value over a heap.\<close>

definition redact_value :: "js_heap \<Rightarrow> redactor" where
  "redact_value h v seen = redactNested h (length h + 2) v seen"

subsection \<open>Audit events\<close>

definition hashForRedaction :: "(string \<Rightarrow> string) \<Rightarrow> string \<Rightarrow> string \<Rightarrow> string" where
  "hashForRedaction sha256_hex value salt = take 12 (sha256_hex (value @ salt))"

fun object_at :: "js_heap \<Rightarrow> js_value \<Rightarrow> js_object option" where
  "object_at h (VRef r) = Some (deref h r)"
| "object_at h _ = None"

definition type_of_blocker :: "js_heap \<Rightarrow> js_value \<Rightarrow> string list" where
  "type_of_blocker h b =
     (case object_at h b of None \<Rightarrow> [] | Some o1 \<Rightarrow> (case prop_of o1 ''type'' of VStr t \<Rightarrow> [t] | _ \<Rightarrow> []))"

definition extractBlockerTypes :: "js_heap \<Rightarrow> js_value list \<Rightarrow> string list" where
  "extractBlockerTypes h bs = sort (remdups (concat (map (type_of_blocker h) bs)))"

definition array_at :: "js_heap \<Rightarrow> js_value \<Rightarrow> js_value list option" where
  "array_at h v = (case object_at h v of Some (Array_obj vs) \<Rightarrow> Some vs | _ \<Rightarrow> None)"

definition hashed_ref :: "(string \<Rightarrow> string) \<Rightarrow> string \<Rightarrow> string \<Rightarrow> js_value \<Rightarrow> (string \<times> redacted) list" where
  "hashed_ref sha256_hex salt k v = (case v of VStr s \<Rightarrow> [(k, RStr (hashForRedaction sha256_hex s salt))] | _ \<Rightarrow> [])"

definition redactPlan :: "(string \<Rightarrow> string) \<Rightarrow> string \<Rightarrow> js_heap \<Rightarrow> js_value \<Rightarrow> redacted" where
  "redactPlan sha256_hex salt h plan =
     (case object_at h plan of
        None \<Rightarrow> RObj []
      | Some p \<Rightarrow>
          RObj (hashed_ref sha256_hex salt ''accountRef'' (prop_of p ''accountId'')
              @ hashed_ref sha256_hex salt ''destinationRef'' (prop_of p ''destination'')
              @ (case prop_of p ''estimatedTransactions'' of VNum q \<Rightarrow> [(''estimatedTransactions'', RNum q)] | _ \<Rightarrow> [])
              @ (case prop_of p ''mergeReady'' of VBool b \<Rightarrow> [(''mergeReady'', RBool b)] | _ \<Rightarrow> [])
              @ (case array_at h (prop_of p ''blockers'') of
                   None \<Rightarrow> []
                 | Some bs \<Rightarrow> [(''blockerTypes'', RArr (map RStr (extractBlockerTypes h bs))), (''blockerCount'', RNum (of_nat (length bs)))])))"

definition kept_string :: "js_object \<Rightarrow> string \<Rightarrow> (string \<times> redacted) list" where
  "kept_string o1 k = (case prop_of o1 k of VStr s \<Rightarrow> [(k, RStr s)] | _ \<Rightarrow> [])"

definition redactStep :: "js_heap \<Rightarrow> js_value \<Rightarrow> redacted" where
  "redactStep h step = (case object_at h step of None \<Rightarrow> RObj [] | Some s \<Rightarrow> RObj (kept_string s ''title'' @ kept_string s ''hash''))"

fun truthy_value :: "js_value \<Rightarrow> bool" where
  "truthy_value VUndef = False"
| "truthy_value VNull = False"
| "truthy_value (VBool b) = b"
| "truthy_value (VNum q) = (q \<noteq> 0)"
| "truthy_value (VBig i) = (i \<noteq> 0)"
| "truthy_value (VStr s) = (s \<noteq> [])"
| "truthy_value _ = True"

record lifecycle_event =
  ae_type :: string
  ae_at :: string
  ae_data :: "(string \<times> js_value) list"

record redacted_event =
  re_type :: string
  re_at :: string
  re_data :: "(string \<times> redacted) list"

definition dropped_fields :: "string list" where
  "dropped_fields = [''accountId'', ''destination'', ''account'', ''dataKeys'', ''offers'', ''description'']"

definition plan_field :: "(string \<Rightarrow> string) \<Rightarrow> string \<Rightarrow> js_heap \<Rightarrow> (string \<times> js_value) list \<Rightarrow> (string \<times> redacted) list" where
  "plan_field sha256_hex salt h data =
     (if truthy_value (own data ''plan'') then [(''plan'', redactPlan sha256_hex salt h (own data ''plan''))] else [])"

definition redact_data ::
  "(string \<Rightarrow> string) \<Rightarrow> string \<Rightarrow> js_heap \<Rightarrow> string \<Rightarrow> (string \<times> js_value) list \<Rightarrow> (string \<times> redacted) list \<times> nat list" where
  "redact_data sha256_hex salt h ty data =
     (if ty \<in> {''lifecycle.inspect_requested'', ''lifecycle.account_inspected''} then ([], [])
      else if ty \<in> {''lifecycle.plan_requested'', ''lifecycle.cleanup_planned''} then (plan_field sha256_hex salt h data, [])
      else if ty \<in> {''lifecycle.execute_requested'', ''lifecycle.cleanup_executed''} then
        (plan_field sha256_hex salt h data
         @ (case array_at h (own data ''steps'') of None \<Rightarrow> [] | Some ss \<Rightarrow> [(''steps'', RArr (map (redactStep h) ss))]), [])
      else if ty \<in> {''lifecycle.merge_requested'', ''lifecycle.account_merged''} then
        (if truthy_value (own data ''step'') then [(''step'', redactStep h (own data ''step''))] else [], [])
      else thread (redact_field (redact_value h)) (filter (\<lambda>f. fst f \<notin> set dropped_fields) data) [])"

definition redactAuditEvent :: "(string \<Rightarrow> string) \<Rightarrow> string \<Rightarrow> js_heap \<Rightarrow> lifecycle_event \<Rightarrow> redacted_event" where
  "redactAuditEvent sha256_hex salt h e =
     (let (data, seen) = redact_data sha256_hex salt h (ae_type e) (ae_data e) in
      \<lparr>re_type = ae_type e, re_at = ae_at e,
       re_data = data @ (if own (ae_data e) ''error'' \<noteq> VUndef \<and> map_of data ''error'' \<in> {None, Some RUndef}
                         then [(''error'', fst (redact_value h (own (ae_data e) ''error'') seen))] else [])\<rparr>)"

text \<open>The in-memory log redacts before it stores.\<close>

definition record_lifecycle_event :: "(string \<Rightarrow> string) \<Rightarrow> string \<Rightarrow> js_heap \<Rightarrow> string \<Rightarrow> string \<Rightarrow> (string \<times> js_value) list
  \<Rightarrow> redacted_event list \<Rightarrow> redacted_event list" where
  "record_lifecycle_event sha256_hex salt h now ty data stored =
     stored @ [redactAuditEvent sha256_hex salt h \<lparr>ae_type = ty, ae_at = now, ae_data = data\<rparr>]"

subsection \<open>No secret survives\<close>

definition secret_run :: "string \<Rightarrow> bool" where
  "secret_run r \<longleftrightarrow> take 1 r = ''S'' \<and> length r = 56 \<and> list_all secret_char r"

lemma key_word: "secret_char c \<Longrightarrow> word_char c"
  by (auto simp: secret_char_def word_char_def Let_def)

lemma takeWhile_exact: "list_all P r \<Longrightarrow> (case t of [] \<Rightarrow> True | c # _ \<Rightarrow> \<not> P c) \<Longrightarrow> takeWhile P (r @ t) = r"
  by (cases t) (auto simp: list_all_iff takeWhile_append)

lemma take_takeWhile: "list_all P (take n s) \<Longrightarrow> (case drop n s of [] \<Rightarrow> True | c # _ \<Rightarrow> \<not> P c) \<Longrightarrow> takeWhile P s = take n s"
  using takeWhile_exact [of P "take n s" "drop n s"] by simp

text \<open>The regular expression matches at a word start exactly when the whole word is a secret.\<close>

lemma secret_at_run: "secret_at s \<longleftrightarrow> secret_run (takeWhile word_char s)"
proof
  assume s: "secret_at s"
  then have "list_all word_char (take 56 s)" using key_word by (auto simp: secret_at_def list_all_iff)
  with s have "takeWhile word_char s = take 56 s" by (intro take_takeWhile) (auto simp: secret_at_def)
  with s show "secret_run (takeWhile word_char s)" by (auto simp: secret_at_def secret_run_def min_def)
next
  assume r: "secret_run (takeWhile word_char s)"
  let ?r = "takeWhile word_char s" and ?t = "dropWhile word_char s"
  have s: "?r @ ?t = s" by simp
  have l: "length ?r = 56" using r by (simp add: secret_run_def)
  have "take 56 s = ?r" "drop 56 s = ?t"
    using append_eq_conv_conj [of ?r ?t s] s unfolding l by simp_all
  moreover from this(1) have "take 1 s = take 1 ?r" by (metis take_take min_def one_le_numeral)
  moreover have "56 \<le> length s" using length_takeWhile_le [of word_char s] l by simp
  moreover have "case ?t of [] \<Rightarrow> True | c # _ \<Rightarrow> \<not> word_char c" by (metis hd_dropWhile list.case_eq_if)
  ultimately show "secret_at s" using r by (simp add: secret_at_def secret_run_def)
qed

lemma redact_word: "takeWhile word_char (redact_from True s) = takeWhile word_char s"
  by (induction s) simp_all

lemma has_secret_skip: "list_all word_char w \<Longrightarrow> has_secret_from True (w @ t) = has_secret_from True t"
  by (induction w) simp_all

lemma redact_from_clean: "\<not> has_secret_from p (redact_from p s)"
proof (induction p s rule: redact_from.induct)
  case (2 p c s)
  show ?case
  proof (cases "\<not> p \<and> secret_at (c # s)")
    case True
    let ?X = "redact_from True (drop 55 s)"
    have X: "\<not> has_secret_from True ?X" using 2(1) True by blast
    have "\<not> has_secret_from False ?X"
    proof (cases "drop 55 s")
      case (Cons c' t)
      then have "\<not> word_char c'" using True by (auto simp: secret_at_def)
      then have "c' \<noteq> CHR ''S''" by (auto simp: word_char_def)
      with X Cons show ?thesis by (simp add: secret_at_def)
    qed simp
    moreover have "has_secret_from p (REDACTED @ ?X) = has_secret_from False ?X"
    proof -
      have w: "list_all word_char ''EDACTED_SECRET_KEY''" by (simp add: word_char_def)
      have "REDACTED @ ?X = CHR ''['' # CHR ''R'' # (''EDACTED_SECRET_KEY'' @ CHR '']'' # ?X)" by (simp add: REDACTED_def)
      moreover have "has_secret_from p (CHR ''['' # CHR ''R'' # (''EDACTED_SECRET_KEY'' @ CHR '']'' # ?X)) = has_secret_from False ?X"
        using has_secret_skip [OF w, of "CHR '']'' # ?X"] by (simp add: secret_at_def word_char_def)
      ultimately show ?thesis by (simp only:)
    qed
    ultimately show ?thesis using True by simp
  next
    case False
    have "\<not> has_secret_from (word_char c) (redact_from (word_char c) s)" using 2(2) False by blast
    moreover have "secret_at (c # redact_from (word_char c) s) = secret_at (c # s)"
      by (cases "word_char c") (simp_all add: secret_at_run redact_word)
    ultimately show ?thesis using False by auto
  qed
qed simp

lemma redactString_clean: "\<not> has_secret (redactString s)"
  by (simp add: has_secret_def redactString_def redact_from_clean)

lemma redactString_unchanged: "\<not> has_secret s \<Longrightarrow> redactString s = s"
proof -
  have "\<not> has_secret_from p s \<Longrightarrow> redact_from p s = s" for p
    by (induction p s rule: redact_from.induct) auto
  then show "\<not> has_secret s \<Longrightarrow> redactString s = s" by (simp add: has_secret_def redactString_def)
qed

subsection \<open>Every value is redacted, circular ones included\<close>

fun raw_ok :: "js_value \<Rightarrow> bool" where
  "raw_ok (VStr s) = (\<not> has_secret s)"
| "raw_ok (VSym s) = (\<not> has_secret s)"
| "raw_ok (VRef r) = False"
| "raw_ok _ = True"

fun sym_ok :: "js_value \<Rightarrow> bool" where
  "sym_ok (VSym s) = (\<not> has_secret (''Symbol('' @ s @ '')''))"
| "sym_ok _ = True"

fun message_ok :: "js_value \<Rightarrow> bool" where
  "message_ok (VStr s) = True"
| "message_ok v = raw_ok v"

fun values_of :: "js_object \<Rightarrow> js_value list" where
  "values_of (Array_obj vs) = vs"
| "values_of o1 = map snd (own_props o1)"

definition kept_fields :: "string list" where
  "kept_fields = [''type'', ''title'', ''hash'']"

text \<open>What redaction leaves to its callers: names of error-like objects, messages that are not strings, symbols, and the
  blocker types, titles and hashes that are kept.\<close>

definition object_ok :: "js_object \<Rightarrow> bool" where
  "object_ok o1 \<longleftrightarrow> list_all sym_ok (values_of o1)
     \<and> (error_like o1 \<longrightarrow> raw_ok (prop_of o1 ''name'') \<and> message_ok (prop_of o1 ''message''))
     \<and> list_all (\<lambda>k. case prop_of o1 k of VStr s \<Rightarrow> \<not> has_secret s | _ \<Rightarrow> True) kept_fields"

definition heap_ok :: "js_heap \<Rightarrow> bool" where
  "heap_ok h \<longleftrightarrow> list_all object_ok h"

fun clean :: "redacted \<Rightarrow> bool" where
  "clean (RStr s) = (\<not> has_secret s)"
| "clean (RArr rs) = list_all clean rs"
| "clean (RObj fs) = list_all (\<lambda>f. clean (snd f)) fs"
| "clean (RRaw v) = raw_ok v"
| "clean ROut_of_fuel = False"
| "clean _ = True"

definition unseen :: "js_heap \<Rightarrow> nat list \<Rightarrow> nat" where
  "unseen h seen = card ({..<length h} - set seen)"

definition redactor_ok :: "js_heap \<Rightarrow> nat \<Rightarrow> redactor \<Rightarrow> bool" where
  "redactor_ok h m rec \<longleftrightarrow>
     (\<forall>v seen. unseen h seen < m \<and> sym_ok v \<longrightarrow> clean (fst (rec v seen)) \<and> set seen \<subseteq> set (snd (rec v seen)))"

lemma unseen_antimono: "set s \<subseteq> set s' \<Longrightarrow> unseen h s' \<le> unseen h s"
  unfolding unseen_def by (rule card_mono) auto

lemma unseen_visit: "r < length h \<Longrightarrow> r \<notin> set seen \<Longrightarrow> Suc (unseen h (r # seen)) = unseen h seen"
proof -
  assume r: "r < length h" "r \<notin> set seen"
  have "{..<length h} - set (r # seen) = ({..<length h} - set seen) - {r}" by auto
  then show ?thesis using r unfolding unseen_def by (simp add: card_Suc_Diff1 del: card_Diff_insert)
qed

lemma redactor_okD:
  assumes "redactor_ok h m rec" "unseen h seen < m" "sym_ok v" "rec v seen = (r, s1)"
  shows "clean r" "set seen \<subseteq> set s1"
  using assms unfolding redactor_ok_def by (metis fst_conv, metis snd_conv)

lemma thread_ok:
  assumes "\<And>x s. x \<in> set xs \<Longrightarrow> unseen h s < m \<Longrightarrow> Q (fst (f x s)) \<and> set s \<subseteq> set (snd (f x s))" "unseen h s < m"
  shows "list_all Q (fst (thread f xs s)) \<and> set s \<subseteq> set (snd (thread f xs s))"
  using assms
proof (induction xs arbitrary: s)
  case (Cons x xs)
  obtain y s1 where f: "f x s = (y, s1)" by fastforce
  with Cons.prems have y: "Q y" "set s \<subseteq> set s1" by (metis fst_conv snd_conv list.set_intros(1))+
  then have "unseen h s1 < m" using unseen_antimono [of s s1 h] Cons.prems(2) by linarith
  with Cons have "list_all Q (fst (thread f xs s1)) \<and> set s1 \<subseteq> set (snd (thread f xs s1))" by (meson list.set_intros(2))
  with y f show ?case by (auto simp: split_def Let_def)
qed simp

lemma redact_field_ok:
  assumes "redactor_ok h m rec" "unseen h s < m" "sym_ok (snd f)"
  shows "clean (snd (fst (redact_field rec f s))) \<and> set s \<subseteq> set (snd (redact_field rec f s))"
proof (cases "isSensitiveKey (fst f)")
  case True
  have "\<not> has_secret REDACTED" by code_simp
  with True show ?thesis by (simp add: redact_field_def)
next
  case False
  obtain r s1 where r: "rec (snd f) s = (r, s1)" by fastforce
  from redactor_okD [OF assms this] False r show ?thesis by (simp add: redact_field_def)
qed

lemma own_sym_ok: "list_all sym_ok (map snd fs) \<Longrightarrow> sym_ok (own fs k)"
  by (force simp: own_def list_all_iff split: option.splits dest: map_of_SomeD)

lemma prop_sym_ok: "list_all sym_ok (values_of o1) \<Longrightarrow> sym_ok (prop_of o1 k)"
  by (cases o1) (auto simp: own_sym_ok)

lemma redact_object_ok:
  assumes rec: "redactor_ok h m rec" and fuel: "unseen h s < m" and o1: "object_ok o1"
  shows "clean (fst (redact_object rec o1 s)) \<and> set s \<subseteq> set (snd (redact_object rec o1 s))"
proof -
  have props: "list_all (\<lambda>f. clean (snd f)) (fst (thread (redact_field rec) fs s')) \<and> set s' \<subseteq> set (snd (thread (redact_field rec) fs s'))"
    if "set fs \<subseteq> set (own_props o1)" "unseen h s' < m" for fs s'
  proof (rule thread_ok [where m = m and h = h])
    fix f s''
    assume "f \<in> set fs" "unseen h s'' < m"
    moreover from this that o1 have "sym_ok (snd f)" by (cases o1) (auto simp: object_ok_def list_all_iff)
    ultimately show "clean (snd (fst (redact_field rec f s''))) \<and> set s'' \<subseteq> set (snd (redact_field rec f s''))"
      using redact_field_ok [OF rec] by blast
  qed (rule that)
  show ?thesis
  proof (cases "error_like o1")
    case True
    have cause: "list_all (\<lambda>f. clean (snd f)) (fst (error_cause rec o1 s)) \<and> set s \<subseteq> set (snd (error_cause rec o1 s))"
    proof (cases "prop_of o1 ''cause'' = VUndef")
      case False
      obtain c s1 where c: "rec (prop_of o1 ''cause'') s = (c, s1)" by fastforce
      have "sym_ok (prop_of o1 ''cause'')" using o1 prop_sym_ok by (simp add: object_ok_def)
      from redactor_okD [OF rec fuel this c] False c show ?thesis
        by (auto simp: error_cause_def split: js_value.split)
    qed (simp add: error_cause_def)
    obtain cs s1 where cs: "error_cause rec o1 s = (cs, s1)" by fastforce
    let ?fs = "filter (\<lambda>f. fst f \<notin> {''name'', ''message'', ''stack'', ''cause''}) (own_props o1)"
    obtain rest s2 where rest: "thread (redact_field rec) ?fs s1 = (rest, s2)" by fastforce
    have "unseen h s1 < m" using cause cs fuel unseen_antimono [of s s1 h] by simp
    with props [of ?fs s1] rest have r: "list_all (\<lambda>f. clean (snd f)) rest" "set s1 \<subseteq> set s2" by auto
    have "clean (error_message o1)"
      using o1 True by (auto simp: object_ok_def error_message_def redactString_clean split: js_value.splits)
    moreover have "list_all (\<lambda>f. clean (snd f)) (error_stack o1)"
      by (auto simp: error_stack_def redactString_clean split: js_value.splits)
    ultimately show ?thesis
      using True o1 cause cs r rest by (auto simp: redact_object_def redact_error_def Let_def object_ok_def)
  next
    case False
    show ?thesis
    proof (cases o1)
      case (Array_obj vs)
      obtain rs s1 where rs: "thread rec vs s = (rs, s1)" by fastforce
      have "list_all clean (fst (thread rec vs s)) \<and> set s \<subseteq> set (snd (thread rec vs s))"
      proof (rule thread_ok [where m = m and h = h])
        fix v s'
        assume "v \<in> set vs" "unseen h s' < m"
        then show "clean (fst (rec v s')) \<and> set s' \<subseteq> set (snd (rec v s'))"
          using rec o1 Array_obj unfolding redactor_ok_def by (auto simp: object_ok_def list_all_iff)
      qed (rule fuel)
      with rs False Array_obj show ?thesis by (simp add: redact_object_def)
    qed (use props [of "own_props o1" s] fuel False in \<open>auto simp: redact_object_def split_def Let_def\<close>)
  qed
qed

lemma redactNested_ok: "heap_ok h \<Longrightarrow> redactor_ok h m (redactNested h m)"
proof (induction m)
  case (Suc m)
  have "clean (fst (redactNested h (Suc m) v seen)) \<and> set seen \<subseteq> set (snd (redactNested h (Suc m) v seen))"
    if fuel: "unseen h seen < Suc m" and v: "sym_ok v" for v seen
  proof (cases "\<exists>r. v = VRef r \<and> r \<notin> set seen")
    case True
    then obtain r where r: "v = VRef r" "r \<notin> set seen" by blast
    show ?thesis
    proof (cases "r < length h")
      case True
      then have "object_ok (deref h r)" using Suc.prems by (simp add: deref_def heap_ok_def list_all_length)
      moreover have "unseen h (r # seen) < m" using unseen_visit [OF True r(2)] fuel by simp
      ultimately have "clean (fst (redact_object (redactNested h m) (deref h r) (r # seen)))
          \<and> set (r # seen) \<subseteq> set (snd (redact_object (redactNested h m) (deref h r) (r # seen)))"
        using redact_object_ok [OF Suc.IH [OF Suc.prems]] by blast
      with r show ?thesis by simp
    next
      case False
      with r show ?thesis by (auto simp: deref_def redact_object_def has_own_def)
    qed
  next
    case False
    have "\<not> has_secret ''[Circular]''" "\<not> has_secret ''[Function]''" by code_simp+
    with False v show ?thesis by (cases v) (auto simp: redactString_clean)
  qed
  then show ?case by (simp add: redactor_ok_def)
qed (simp add: redactor_ok_def)

lemma redact_value_ok: "heap_ok h \<Longrightarrow> redactor_ok h (length h + 2) (redact_value h)"
  using redactNested_ok [of h "length h + 2"] by (simp add: redactor_ok_def redact_value_def)

lemma unseen_le: "unseen h seen \<le> length h"
  using card_mono [of "{..<length h}" "{..<length h} - set seen"] by (auto simp: unseen_def)

subsection \<open>Redacted events\<close>

lemma has_secret_from_length: "has_secret_from p s \<Longrightarrow> 56 \<le> length s"
proof (induction s arbitrary: p)
  case (Cons c s)
  then consider "secret_at (c # s)" | "56 \<le> length s" by auto
  then show ?case by cases (simp_all add: secret_at_def)
qed simp

lemma hash_clean: "\<not> has_secret (hashForRedaction sha v salt)"
  using has_secret_from_length [of False "take 12 (sha (v @ salt))"] by (auto simp: has_secret_def hashForRedaction_def)

lemma kept_ok: "heap_ok h \<Longrightarrow> object_at h v = Some o1 \<Longrightarrow> k \<in> set kept_fields \<Longrightarrow> prop_of o1 k = VStr s \<Longrightarrow> \<not> has_secret s"
proof (cases v)
  case (VRef r)
  assume h: "heap_ok h" and o1: "object_at h v = Some o1" and k: "k \<in> set kept_fields" "prop_of o1 k = VStr s"
  show ?thesis
  proof (cases "r < length h")
    case True
    then have "object_ok o1" using h o1 VRef by (auto simp: heap_ok_def list_all_length deref_def)
    with k show ?thesis by (auto simp: object_ok_def list_all_iff)
  next
    case False
    with k o1 VRef show ?thesis by (auto simp: deref_def own_def)
  qed
qed auto

lemma blocker_types_clean: "heap_ok h \<Longrightarrow> t \<in> set (extractBlockerTypes h bs) \<Longrightarrow> \<not> has_secret t"
proof -
  assume h: "heap_ok h" and "t \<in> set (extractBlockerTypes h bs)"
  then obtain b where "t \<in> set (type_of_blocker h b)" by (auto simp: extractBlockerTypes_def)
  then obtain o1 where "object_at h b = Some o1" "prop_of o1 ''type'' = VStr t"
    by (cases "object_at h b"; cases "prop_of (the (object_at h b)) ''type''") (simp_all add: type_of_blocker_def)
  with kept_ok [OF h this(1), of "''type''"] show "\<not> has_secret t" by (simp add: kept_fields_def)
qed

lemma redactPlan_clean: "heap_ok h \<Longrightarrow> clean (redactPlan sha salt h v)"
  using blocker_types_clean hash_clean
  by (auto simp: redactPlan_def hashed_ref_def list_all_iff split: option.splits js_value.splits)

lemma redactStep_clean: "heap_ok h \<Longrightarrow> clean (redactStep h v)"
  using kept_ok [of h v _ "''title''"] kept_ok [of h v _ "''hash''"]
  by (auto simp: redactStep_def kept_string_def kept_fields_def split: option.splits js_value.splits)

lemma redact_data_clean:
  assumes h: "heap_ok h" and d: "list_all sym_ok (map snd data)"
  shows "list_all (\<lambda>f. clean (snd f)) (fst (redact_data sha salt h ty data))"
proof -
  have plan: "list_all (\<lambda>f. clean (snd f)) (plan_field sha salt h data)"
    using redactPlan_clean [OF h] by (simp add: plan_field_def)
  have "list_all (\<lambda>f. clean (snd f)) (fst (thread (redact_field (redact_value h)) (filter (\<lambda>f. fst f \<notin> set dropped_fields) data) []))"
  proof (rule thread_ok [where m = "length h + 2" and h = h, THEN conjunct1])
    fix f s
    assume "f \<in> set (filter (\<lambda>f. fst f \<notin> set dropped_fields) data)" "unseen h s < length h + 2"
    with d show "clean (snd (fst (redact_field (redact_value h) f s))) \<and> set s \<subseteq> set (snd (redact_field (redact_value h) f s))"
      by (intro redact_field_ok [OF redact_value_ok [OF h]]) (auto simp: list_all_iff)
  qed (use unseen_le [of h "[]"] in simp)
  moreover have "list_all (\<lambda>f. clean (snd f))
      (case array_at h (own data ''steps'') of None \<Rightarrow> [] | Some ss \<Rightarrow> [(''steps'', RArr (map (redactStep h) ss))])"
    by (cases "array_at h (own data ''steps'')") (simp_all add: list_all_iff redactStep_clean [OF h])
  moreover have branch: "list_all Q (fst a) \<Longrightarrow> list_all Q (fst b) \<Longrightarrow> list_all Q (fst (if c then a else b))"
    for Q :: "string \<times> redacted \<Rightarrow> bool" and a b :: "(string \<times> redacted) list \<times> nat list" and c by simp
  ultimately show ?thesis
    unfolding redact_data_def by (intro branch) (simp_all add: plan redactStep_clean [OF h])
qed


definition example_key :: string where
  "example_key = CHR ''S'' # replicate 55 CHR ''A''"

definition example_heap :: js_heap where
  "example_heap =
     [Error_obj ''TypeError'' [(''message'', VStr (''bad key '' @ example_key)), (''cause'', VRef 1)],
      Plain_obj [(''next'', VRef 0), (''seed'', VNum 7), (''note'', VStr (''in '' @ example_key @ '', found''))]]"


text \<open>The name of an error-like object is stored as it is, whatever it holds.\<close>

lemma error_name_leaks:
  assumes "h = [Plain_obj [(''name'', VStr s), (''message'', VStr m)]]"
  shows "\<exists>fs. redact_value h (VRef 0) [] = (RObj ((''name'', RRaw (VStr s)) # fs), [0])"
  using assms by (simp add: redact_value_def redact_object_def redact_error_def deref_def has_own_def own_def error_cause_def)

text \<open>An object that is merely shared, not circular, is reported as circular the second time.\<close>

lemma shared_reported_circular:
  assumes "h = [Plain_obj [(''x'', VRef 1), (''y'', VRef 1)], Plain_obj []]"
  shows "fst (redact_value h (VRef 0) []) = RObj [(''x'', RObj []), (''y'', RStr ''[Circular]'')]"
proof -
  have "\<not> isSensitiveKey ''x''" "\<not> isSensitiveKey ''y''" by code_simp+
  then show ?thesis
    using assms by (simp add: redact_value_def redact_object_def deref_def has_own_def redact_field_def)
qed

end
