(* ===== verification/Sep7.thy ===== *)
theory Sep7
  imports PercentEncoding Base64
begin

text \<open>
  SEP-7 payment requests of the web wallet: \<open>apps/web/lib/sep7.ts\<close> with the token registry of \<open>apps/web/lib/assets.ts\<close>.
  Strings are their UTF-8 bytes.  The address checks of the SDK, its network configuration, the signature check and what the
  origin serves as \<open>stellar.toml\<close> are arguments.  White space is the ASCII one.
\<close>

subsection \<open>The registry\<close>

record registered_asset =
  ra_id :: string
  ra_name :: string
  ra_code :: string
  ra_issuer :: "string option"
  ra_symbol :: string
  ra_contractId :: string
  ra_decimals :: nat

record sdk_network =
  sn_nativeTokenContractId :: string
  sn_usdcIssuer :: string
  sn_usdcContractId :: string

definition STELLAR_DECIMALS :: nat where "STELLAR_DECIMALS = 7"

definition registryFor :: "sdk_network \<Rightarrow> registered_asset list" where
  "registryFor cfg =
     [\<lparr>ra_id = ''native'', ra_name = ''Stellar Lumens'', ra_code = ''XLM'', ra_issuer = None, ra_symbol = ''XLM'',
       ra_contractId = sn_nativeTokenContractId cfg, ra_decimals = STELLAR_DECIMALS\<rparr>,
      \<lparr>ra_id = ''USDC:'' @ sn_usdcIssuer cfg, ra_name = ''USD Coin'', ra_code = ''USDC'', ra_issuer = Some (sn_usdcIssuer cfg),
       ra_symbol = ''USDC'', ra_contractId = sn_usdcContractId cfg, ra_decimals = STELLAR_DECIMALS\<rparr>]"

type_synonym sdk_configs = "network \<Rightarrow> sdk_network"

definition nativeAsset :: "sdk_configs \<Rightarrow> network \<Rightarrow> registered_asset" where
  "nativeAsset cfg n = registryFor (cfg n) ! 0"

definition findAssetById :: "sdk_configs \<Rightarrow> network \<Rightarrow> string \<Rightarrow> registered_asset option" where
  "findAssetById cfg n i = find (\<lambda>a. ra_id a = i) (registryFor (cfg n))"

definition findAssetByContractId :: "sdk_configs \<Rightarrow> network \<Rightarrow> string \<Rightarrow> registered_asset option" where
  "findAssetByContractId cfg n i = find (\<lambda>a. ra_contractId a = i) (registryFor (cfg n))"

definition findClassicAsset :: "sdk_configs \<Rightarrow> network \<Rightarrow> string \<Rightarrow> string \<Rightarrow> registered_asset option" where
  "findClassicAsset cfg n code issuer = find (\<lambda>a. ra_code a = code \<and> ra_issuer a = Some issuer) (registryFor (cfg n))"

subsection \<open>Texts\<close>

definition SEP7_SCHEME :: string where "SEP7_SCHEME = ''web+stellar:''"
definition MAX_URI_LENGTH :: nat where "MAX_URI_LENGTH = 2048"
definition MAX_MSG_LENGTH :: nat where "MAX_MSG_LENGTH = 300"
definition MAX_MEMO_TEXT_BYTES :: nat where "MAX_MEMO_TEXT_BYTES = 28"

text \<open>\<open>AMOUNT_PATTERN\<close> and a digit that is not zero.\<close>

definition amount_pattern :: "string \<Rightarrow> bool" where
  "amount_pattern s =
     (let whole = takeWhile is_digit s; rest = dropWhile is_digit s in
      (whole = ''0'' \<or> whole \<noteq> [] \<and> hd whole \<noteq> CHR ''0'' \<and> length whole \<le> 12)
      \<and> (case rest of
           [] \<Rightarrow> True
         | c # frac \<Rightarrow> c = CHR ''.'' \<and> 1 \<le> length frac \<and> length frac \<le> STELLAR_DECIMALS \<and> list_all is_digit frac))"

definition isValidAmount :: "string \<Rightarrow> bool" where
  "isValidAmount s \<longleftrightarrow> amount_pattern s \<and> list_ex (\<lambda>c. is_digit c \<and> c \<noteq> CHR ''0'') s"

text \<open>Control characters, zero-width characters and the marks that reorder text.\<close>

definition unsafe_point :: "nat \<Rightarrow> bool" where
  "unsafe_point c \<longleftrightarrow> c \<le> 31 \<or> 127 \<le> c \<and> c \<le> 159 \<or> 8203 \<le> c \<and> c \<le> 8207 \<or> 8234 \<le> c \<and> c \<le> 8238
     \<or> 8294 \<le> c \<and> c \<le> 8297 \<or> c = 65279"

definition unsafe_text :: "string \<Rightarrow> bool" where
  "unsafe_text s = (case code_points s of None \<Rightarrow> True | Some cs \<Rightarrow> list_ex unsafe_point cs)"

definition label_char :: "char \<Rightarrow> bool" where
  "label_char c \<longleftrightarrow> is_digit c \<or> c = CHR ''-'' \<or> c \<in> set ''abcdefghijklmnopqrstuvwxyz''"

definition fqdn :: "string \<Rightarrow> bool" where
  "fqdn s =
     (let labels = split_on CHR ''.'' s in
      1 \<le> length s \<and> length s \<le> 253 \<and> 2 \<le> length labels
      \<and> list_all (\<lambda>l. 1 \<le> length l \<and> length l \<le> 63 \<and> list_all label_char l \<and> hd l \<noteq> CHR ''-'' \<and> last l \<noteq> CHR ''-'') (butlast labels)
      \<and> 2 \<le> length (last labels) \<and> length (last labels) \<le> 63 \<and> list_all (\<lambda>c. c \<in> set ''abcdefghijklmnopqrstuvwxyz'') (last labels))"

definition PAY_PARAMS :: "string list" where
  "PAY_PARAMS = [''destination'', ''amount'', ''asset_code'', ''asset_issuer'', ''memo'', ''memo_type'', ''callback'', ''msg'',
     ''network_passphrase'', ''origin_domain'', ''signature'']"

datatype sep7_error =
    Not_a_string | Too_long | Bad_scheme | Unsupported_operation | Malformed_request | Duplicate_param | Unknown_param
  | Missing_destination | Invalid_destination | Unsupported_destination | Invalid_amount | Invalid_asset
  | Unregistered_asset | Memo_unsupported | Callback_unsupported | Wrong_network | Unsafe_text | Invalid_origin

record address_checks =
  ac_account :: "string \<Rightarrow> bool"
  ac_contract :: "string \<Rightarrow> bool"
  ac_muxed :: "string \<Rightarrow> bool"

datatype destination_kind = Account_kind | Contract_kind

definition destinationKind :: "address_checks \<Rightarrow> string \<Rightarrow> destination_kind option" where
  "destinationKind ac s = (if ac_account ac s then Some Account_kind else if ac_contract ac s then Some Contract_kind else None)"

record pay_request =
  pq_destination :: string
  pq_destinationKind :: destination_kind
  pq_amount :: "string option"
  pq_asset :: registered_asset
  pq_msg :: "string option"
  pq_originDomain :: "string option"
  pq_signature :: "string option"
  pq_uri :: string

subsection \<open>Building a request\<close>

record build_request =
  br_destination :: string
  br_amount :: "string option"
  br_asset :: "registered_asset option"
  br_memo :: "string option"
  br_msg :: "string option"
  br_networkPassphrase :: "string option"
  br_network :: network

definition given :: "string option \<Rightarrow> string option" where
  "given v = (if truthy v then v else None)"

definition amount_param :: "build_request \<Rightarrow> sep7_error + (string \<times> string) list" where
  "amount_param i =
     (case given (br_amount i) of
        None \<Rightarrow> Inr []
      | Some a \<Rightarrow> if isValidAmount a then Inr [(''amount'', a)] else Inl Invalid_amount)"

definition asset_params :: "build_request \<Rightarrow> (string \<times> string) list" where
  "asset_params i =
     (case br_asset i of
        None \<Rightarrow> []
      | Some a \<Rightarrow> (case given (ra_issuer a) of None \<Rightarrow> [] | Some iss \<Rightarrow> [(''asset_code'', ra_code a), (''asset_issuer'', iss)]))"

definition memo_params :: "build_request \<Rightarrow> sep7_error + (string \<times> string) list" where
  "memo_params i =
     (case given (br_memo i) of
        None \<Rightarrow> Inr []
      | Some m \<Rightarrow> if length m > MAX_MEMO_TEXT_BYTES \<or> unsafe_text m then Inl Unsafe_text
                  else Inr [(''memo'', m), (''memo_type'', ''MEMO_TEXT'')])"

definition msg_param :: "build_request \<Rightarrow> sep7_error + (string \<times> string) list" where
  "msg_param i =
     (case given (br_msg i) of
        None \<Rightarrow> Inr []
      | Some m \<Rightarrow> if utf16_length m > MAX_MSG_LENGTH \<or> unsafe_text m then Inl Unsafe_text else Inr [(''msg'', m)])"

definition network_param :: "build_request \<Rightarrow> (string \<times> string) list" where
  "network_param i =
     (if br_network i \<noteq> Mainnet then (case given (br_networkPassphrase i) of None \<Rightarrow> [] | Some p \<Rightarrow> [(''network_passphrase'', p)]) else [])"

definition build_params :: "address_checks \<Rightarrow> build_request \<Rightarrow> sep7_error + (string \<times> string) list" where
  "build_params ac i =
     (if destinationKind ac (br_destination i) = None then Inl Invalid_destination
      else
        res_bind (amount_param i) (\<lambda>am.
        res_bind (memo_params i) (\<lambda>memo.
        res_bind (msg_param i) (\<lambda>msg.
          Inr ([(''destination'', br_destination i)] @ am @ asset_params i @ memo @ msg @ network_param i)))))"

definition query_text :: "(string \<times> string) list \<Rightarrow> string" where
  "query_text ps = join_with ''&'' (map (\<lambda>(k, v). k @ ''='' @ encodeURIComponent v) ps)"

definition buildPayUri :: "address_checks \<Rightarrow> build_request \<Rightarrow> sep7_error + string" where
  "buildPayUri ac i = map_sum id (\<lambda>ps. SEP7_SCHEME @ ''pay?'' @ query_text ps) (build_params ac i)"

subsection \<open>Parsing a request\<close>

definition decode_field :: "string \<Rightarrow> string option" where
  "decode_field s = decodeURIComponent (map (\<lambda>c. if c = CHR ''+'' then CHR '' '' else c) s)"

fun parse_pairs :: "string list \<Rightarrow> (string, string) js_map \<Rightarrow> sep7_error + (string, string) js_map" where
  "parse_pairs [] params = Inr params"
| "parse_pairs (pair # pairs) params =
     (let key_text = takeWhile (\<lambda>c. c \<noteq> CHR ''='') pair in
      if CHR ''='' \<notin> set pair \<or> key_text = [] then Inl Malformed_request
      else
        (case (decode_field key_text, decode_field (drop (length key_text + 1) pair)) of
           (Some k, Some v) \<Rightarrow>
             (if k \<notin> set PAY_PARAMS then Inl Unknown_param
              else if js_has params k then Inl Duplicate_param
              else parse_pairs pairs (js_set k v params))
         | _ \<Rightarrow> Inl Malformed_request))"

text \<open>The query of a payment request, or why there is none.\<close>

definition request_query :: "string \<Rightarrow> sep7_error + string" where
  "request_query uri =
     (if utf16_length uri > MAX_URI_LENGTH then Inl Too_long
      else if to_lower (take (length SEP7_SCHEME) uri) \<noteq> SEP7_SCHEME then Inl Bad_scheme
      else
        (let rest = drop (length SEP7_SCHEME) uri;
             operation = takeWhile (\<lambda>c. c \<noteq> CHR ''?'') rest;
             query = drop (length operation + 1) rest
         in
         if operation \<noteq> ''pay'' then Inl Unsupported_operation
         else if query = [] then Inl Missing_destination
         else if CHR ''#'' \<in> set query then Inl Malformed_request
         else Inr query))"

record sep7_context =
  cx_network :: network
  cx_networkPassphrase :: string

definition read_destination :: "address_checks \<Rightarrow> (string, string) js_map \<Rightarrow> sep7_error + string \<times> destination_kind" where
  "read_destination ac params =
     (case given (js_get params ''destination'') of
        None \<Rightarrow> Inl Missing_destination
      | Some d \<Rightarrow>
          (if ac_muxed ac d then Inl Unsupported_destination
           else (case destinationKind ac d of None \<Rightarrow> Inl Invalid_destination | Some k \<Rightarrow> Inr (d, k))))"

definition check_network :: "sep7_context \<Rightarrow> (string, string) js_map \<Rightarrow> sep7_error + unit" where
  "check_network ctx params =
     (case js_get params ''network_passphrase'' of
        Some p \<Rightarrow> if p \<noteq> cx_networkPassphrase ctx then Inl Wrong_network else Inr ()
      | None \<Rightarrow> if cx_network ctx \<noteq> Mainnet then Inl Wrong_network else Inr ())"

definition asset_code_ok :: "string \<Rightarrow> bool" where
  "asset_code_ok code \<longleftrightarrow> 1 \<le> length code \<and> length code \<le> 12
     \<and> list_all (\<lambda>c. is_digit c \<or> c \<in> set ''ABCDEFGHIJKLMNOPQRSTUVWXYZabcdefghijklmnopqrstuvwxyz'') code"

definition read_asset :: "address_checks \<Rightarrow> sdk_configs \<Rightarrow> network \<Rightarrow> (string, string) js_map \<Rightarrow> sep7_error + registered_asset" where
  "read_asset ac cfg n params =
     (case (js_get params ''asset_code'', js_get params ''asset_issuer'') of
        (None, None) \<Rightarrow> Inr (nativeAsset cfg n)
      | (Some code, Some issuer) \<Rightarrow>
          (if \<not> ac_account ac issuer \<or> \<not> asset_code_ok code then Inl Invalid_asset
           else (case findClassicAsset cfg n code issuer of None \<Rightarrow> Inl Unregistered_asset | Some a \<Rightarrow> Inr a))
      | _ \<Rightarrow> Inl Invalid_asset)"

definition read_amount :: "(string, string) js_map \<Rightarrow> sep7_error + string option" where
  "read_amount params =
     (case js_get params ''amount'' of
        None \<Rightarrow> Inr None
      | Some a \<Rightarrow> if isValidAmount a then Inr (Some a) else Inl Invalid_amount)"

definition read_msg :: "(string, string) js_map \<Rightarrow> sep7_error + string option" where
  "read_msg params =
     (case js_get params ''msg'' of
        None \<Rightarrow> Inr None
      | Some m \<Rightarrow> if utf16_length m > MAX_MSG_LENGTH \<or> unsafe_text m then Inl Unsafe_text else Inr (given (Some m)))"

definition read_origin :: "(string, string) js_map \<Rightarrow> sep7_error + string option \<times> string option" where
  "read_origin params =
     (let signature = js_get params ''signature'' in
      case js_get params ''origin_domain'' of
        Some d \<Rightarrow> if \<not> fqdn d \<or> \<not> truthy signature then Inl Invalid_origin else Inr (Some d, signature)
      | None \<Rightarrow> if signature \<noteq> None then Inl Invalid_origin else Inr (None, None))"

definition read_request ::
  "address_checks \<Rightarrow> sdk_configs \<Rightarrow> sep7_context \<Rightarrow> string \<Rightarrow> (string, string) js_map \<Rightarrow> sep7_error + pay_request" where
  "read_request ac cfg ctx uri params =
     res_bind (read_destination ac params) (\<lambda>dest.
       if js_has params ''callback'' then Inl Callback_unsupported
       else if js_has params ''memo'' \<or> js_has params ''memo_type'' then Inl Memo_unsupported
       else
         res_bind (check_network ctx params) (\<lambda>_.
         res_bind (read_asset ac cfg (cx_network ctx) params) (\<lambda>asset.
         res_bind (read_amount params) (\<lambda>amount.
         res_bind (read_msg params) (\<lambda>msg.
         res_bind (read_origin params) (\<lambda>origin.
           Inr \<lparr>pq_destination = fst dest, pq_destinationKind = snd dest, pq_amount = amount, pq_asset = asset, pq_msg = msg,
                 pq_originDomain = fst origin, pq_signature = snd origin, pq_uri = uri\<rparr>))))))"

text \<open>An input that is not a string is \<open>None\<close>.\<close>

definition parsePayUri :: "address_checks \<Rightarrow> sdk_configs \<Rightarrow> string option \<Rightarrow> sep7_context \<Rightarrow> sep7_error + pay_request" where
  "parsePayUri ac cfg input ctx =
     (case input of
        None \<Rightarrow> Inl Not_a_string
      | Some s \<Rightarrow>
          (let uri = js_trim s in
           res_bind (request_query uri) (\<lambda>query.
           res_bind (parse_pairs (split_on CHR ''&'' query) []) (read_request ac cfg ctx uri))))"

subsection \<open>The origin of a request\<close>

datatype origin_verification = No_origin | Verified_origin string | Invalid_claim string string

definition SIGNATURE_PREFIX :: string where "SIGNATURE_PREFIX = ''stellar.sep.7 - URI Scheme''"

definition sep7SignaturePayload :: "string \<Rightarrow> nat list" where
  "sep7SignaturePayload uri = replicate 35 0 @ [4] @ map of_char (SIGNATURE_PREFIX @ uri)"

text \<open>The last field of the URI, when it is the signature.\<close>

definition stripSignature :: "string \<Rightarrow> string option" where
  "stripSignature uri =
     (let field = rev (takeWhile (\<lambda>c. c \<noteq> CHR ''&'') (rev uri)); before = dropWhile (\<lambda>c. c \<noteq> CHR ''&'') (rev uri) in
      if before \<noteq> [] \<and> starts_with field ''signature='' then Some (rev (tl before)) else None)"

definition toml_lines :: "string \<Rightarrow> string list" where
  "toml_lines s =
     (let ls = split_on CHR 0x0A s in
      map (\<lambda>l. if l \<noteq> [] \<and> last l = CHR 0x0D then butlast l else l) (butlast ls) @ [last ls])"

definition skip_spaces :: "string \<Rightarrow> string" where
  "skip_spaces s = dropWhile is_space s"

text \<open>The key line of the file: the quoted value, when only white space or a comment follows.\<close>

definition toml_key :: "string \<Rightarrow> string option" where
  "toml_key line =
     (let name = ''URI_REQUEST_SIGNING_KEY''; s = skip_spaces line; after_name = skip_spaces (drop (length name) s);
          value_text = skip_spaces (drop 1 after_name); body = drop 1 value_text;
          v = takeWhile (\<lambda>c. c \<noteq> CHR 0x22) body; tail = skip_spaces (drop (length v + 1) body)
      in if starts_with s name \<and> take 1 after_name = ''='' \<and> take 1 value_text = [CHR 0x22] \<and> CHR 0x22 \<in> set body
            \<and> (tail = [] \<or> hd tail = CHR ''#'' \<and> CHR 0x0D \<notin> set tail)
         then Some v else None)"

fun signing_key_in :: "string list \<Rightarrow> string option" where
  "signing_key_in [] = None"
| "signing_key_in (l # ls) =
     (if take 1 (skip_spaces l) = ''['' then None
      else (case toml_key l of Some k \<Rightarrow> Some k | None \<Rightarrow> signing_key_in ls))"

definition signingKeyFromToml :: "string \<Rightarrow> string option" where
  "signingKeyFromToml toml = signing_key_in (toml_lines toml)"

text \<open>\<open>atob\<close>: white space is dropped, up to two padding characters of a complete group too, and what is left is of the
  alphabet and not one character too long.\<close>

definition atob :: "string \<Rightarrow> nat list option" where
  "atob s =
     (let t = filter (\<lambda>c. \<not> (is_space c \<and> c \<noteq> CHR 0x0B)) s;
          u = (if length t mod 4 = 0 \<and> t \<noteq> [] \<and> last t = CHR ''=''
               then (if butlast t \<noteq> [] \<and> last (butlast t) = CHR ''='' then butlast (butlast t) else butlast t) else t)
      in if length u mod 4 = 1 \<or> \<not> list_all (\<lambda>c. c \<noteq> CHR ''-'' \<and> c \<noteq> CHR ''_'' \<and> b64_value c \<noteq> None) u then None
         else Some (of_sextets (map (\<lambda>c. the (b64_value c)) u)))"

record origin_deps =
  od_toml :: "string \<Rightarrow> string option"
  od_verify :: "string \<Rightarrow> nat list \<Rightarrow> nat list \<Rightarrow> bool"

definition toml_url :: "string \<Rightarrow> string" where
  "toml_url domain = ''https://'' @ domain @ ''/.well-known/stellar.toml''"

text \<open>\<open>od_toml\<close> is \<open>None\<close> when the file cannot be fetched; the cache of keys is returned updated.\<close>

definition verifySep7Origin ::
  "address_checks \<Rightarrow> origin_deps \<Rightarrow> (string, string) js_map \<Rightarrow> pay_request \<Rightarrow> (string, string) js_map \<times> origin_verification" where
  "verifySep7Origin ac deps cache request =
     (case given (pq_originDomain request) of
        None \<Rightarrow> (cache, No_origin)
      | Some domain \<Rightarrow>
          (case (given (stripSignature (pq_uri request)), given (pq_signature request)) of
             (Some covered, Some sig) \<Rightarrow>
               (case od_toml deps (toml_url domain) of
                  None \<Rightarrow> (cache, Invalid_claim domain ''The origin's stellar.toml couldn't be loaded.'')
                | Some toml \<Rightarrow>
                    (case given (signingKeyFromToml toml) of
                       None \<Rightarrow> (cache, Invalid_claim domain ''The origin doesn't publish a request-signing key.'')
                     | Some pk \<Rightarrow>
                         (if \<not> ac_account ac pk then (cache, Invalid_claim domain ''The origin doesn't publish a request-signing key.'')
                          else if truthy (js_get cache domain) \<and> js_get cache domain \<noteq> Some pk then (cache, Invalid_claim domain ''The origin's signing key changed since your last request from it.'')
                          else (case atob sig of
                                  None \<Rightarrow> (cache, Invalid_claim domain ''The request's signature is malformed.'')
                                | Some bs \<Rightarrow>
                                    (if od_verify deps pk (sep7SignaturePayload covered) bs
                                     then (js_set domain pk cache, Verified_origin domain)
                                     else (cache, Invalid_claim domain ''The request's signature doesn't match its origin.''))))))
           | _ \<Rightarrow> (cache, Invalid_claim domain ''The signature must be the request's last field.'')))"

subsection \<open>Accepted requests\<close>

text \<open>A field of the query and what it is read as.\<close>

definition field_of :: "string \<Rightarrow> string \<times> string \<Rightarrow> bool" where
  "field_of text kv \<longleftrightarrow>
     (\<exists>k v. text = k @ ''='' @ v \<and> CHR ''='' \<notin> set k \<and> decode_field k = Some (fst kv) \<and> decode_field v = Some (snd kv))"

lemma cut_at: "c \<in> set s \<Longrightarrow> s = takeWhile (\<lambda>x. x \<noteq> c) s @ c # drop (length (takeWhile (\<lambda>x. x \<noteq> c) s) + 1) s"
  by (induction s) auto

lemma parse_pairs_Inr:
  assumes "parse_pairs pairs ps = Inr qs" "js_ok ps"
  shows "\<exists>new. qs = ps @ new \<and> list_all2 field_of pairs new \<and> js_ok qs \<and> fst ` set new \<subseteq> set PAY_PARAMS"
  using assms
proof (induction pairs arbitrary: ps)
  case (Cons pair pairs)
  let ?kt = "takeWhile (\<lambda>c. c \<noteq> CHR ''='') pair"
  from Cons.prems(1) obtain k v where kv: "decode_field ?kt = Some k" "decode_field (drop (length ?kt + 1) pair) = Some v"
    and ok: "CHR ''='' \<in> set pair" "k \<in> set PAY_PARAMS" "\<not> js_has ps k"
    and rest: "parse_pairs pairs (js_set k v ps) = Inr qs"
    by (auto simp: Let_def split: if_splits option.splits)
  from Cons.IH [OF rest js_ok_set [OF Cons.prems(2)]] obtain new where
    new: "qs = js_set k v ps @ new" "list_all2 field_of pairs new" "js_ok qs" "fst ` set new \<subseteq> set PAY_PARAMS" by blast
  have "field_of pair (k, v)"
    unfolding field_of_def using cut_at [OF ok(1)] kv
    by (intro exI [of _ ?kt] exI [of _ "drop (length ?kt + 1) pair"]) (auto dest: set_takeWhileD)
  with new ok show ?case by (intro exI [of _ "(k, v) # new"]) (simp add: js_set_new)
qed simp

lemma if_Inl_Inr: "(if c then Inl e else x) = Inr y \<longleftrightarrow> \<not> c \<and> x = Inr y"
  by simp

lemma request_query_Inr:
  assumes "request_query uri = Inr query"
  shows "\<exists>scheme. uri = scheme @ ''pay?'' @ query \<and> to_lower scheme = SEP7_SCHEME \<and> utf16_length uri \<le> MAX_URI_LENGTH
     \<and> query \<noteq> [] \<and> CHR ''#'' \<notin> set query"
proof -
  let ?rest = "drop (length SEP7_SCHEME) uri"
  let ?op = "takeWhile (\<lambda>c. c \<noteq> CHR ''?'') ?rest"
  from assms have q: "?op = ''pay''" "query = drop (length ?op + 1) ?rest" "query \<noteq> []" "CHR ''#'' \<notin> set query"
    "to_lower (take (length SEP7_SCHEME) uri) = SEP7_SCHEME" "utf16_length uri \<le> MAX_URI_LENGTH"
    unfolding request_query_def Let_def if_Inl_Inr sum.inject by (elim conjE, simp only: not_less not_not)+
  have "CHR ''?'' \<in> set ?rest"
  proof (rule ccontr)
    assume "CHR ''?'' \<notin> set ?rest"
    then have "?op = ?rest" unfolding takeWhile_eq_all_conv by blast
    with q(2,3) show False by simp
  qed
  have "?rest = ?op @ CHR ''?'' # drop (length ?op + 1) ?rest" by (rule cut_at) fact
  also have "\<dots> = ''pay?'' @ query" unfolding q(1) q(2) by simp
  finally have rest: "?rest = ''pay?'' @ query" .
  have "uri = take (length SEP7_SCHEME) uri @ ?rest" by simp
  then have "uri = take (length SEP7_SCHEME) uri @ ''pay?'' @ query" unfolding rest .
  with q(3-6) show ?thesis by blast
qed

text \<open>What the parameters of a request say, as the request that is shown for approval.\<close>

definition honoured :: "address_checks \<Rightarrow> sdk_configs \<Rightarrow> sep7_context \<Rightarrow> (string, string) js_map \<Rightarrow> pay_request \<Rightarrow> bool" where
  "honoured ac cfg ctx params r \<longleftrightarrow>
     js_get params ''destination'' = Some (pq_destination r) \<and> \<not> ac_muxed ac (pq_destination r)
   \<and> destinationKind ac (pq_destination r) = Some (pq_destinationKind r)
   \<and> js_get params ''amount'' = pq_amount r \<and> (case pq_amount r of None \<Rightarrow> True | Some a \<Rightarrow> isValidAmount a)
   \<and> (case (js_get params ''asset_code'', js_get params ''asset_issuer'') of
        (None, None) \<Rightarrow> pq_asset r = nativeAsset cfg (cx_network ctx)
      | (Some code, Some issuer) \<Rightarrow> pq_asset r \<in> set (registryFor (cfg (cx_network ctx))) \<and> ra_code (pq_asset r) = code
           \<and> ra_issuer (pq_asset r) = Some issuer
      | _ \<Rightarrow> False)
   \<and> given (js_get params ''msg'') = pq_msg r \<and> (case pq_msg r of None \<Rightarrow> True | Some m \<Rightarrow> \<not> unsafe_text m)
   \<and> (case js_get params ''network_passphrase'' of None \<Rightarrow> cx_network ctx = Mainnet | Some p \<Rightarrow> p = cx_networkPassphrase ctx)
   \<and> js_get params ''origin_domain'' = pq_originDomain r \<and> js_get params ''signature'' = pq_signature r
   \<and> (case pq_originDomain r of None \<Rightarrow> pq_signature r = None | Some d \<Rightarrow> fqdn d \<and> truthy (pq_signature r))"

lemma given_Some: "given v = Some s \<longleftrightarrow> v = Some s \<and> s \<noteq> []"
  by (cases v) (auto simp: given_def)

lemma find_SomeD: "find P xs = Some x \<Longrightarrow> x \<in> set xs \<and> P x"
  by (auto simp: find_Some_iff)

lemma read_destination_Inr:
  "read_destination ac params = Inr (d, k) \<Longrightarrow>
   js_get params ''destination'' = Some d \<and> \<not> ac_muxed ac d \<and> destinationKind ac d = Some k"
  by (auto simp: read_destination_def given_Some split: option.splits if_splits)

lemma read_asset_Inr:
  "read_asset ac cfg n params = Inr a \<Longrightarrow>
   (case (js_get params ''asset_code'', js_get params ''asset_issuer'') of
      (None, None) \<Rightarrow> a = nativeAsset cfg n
    | (Some code, Some issuer) \<Rightarrow> a \<in> set (registryFor (cfg n)) \<and> ra_code a = code \<and> ra_issuer a = Some issuer
    | _ \<Rightarrow> False)"
  by (auto simp: read_asset_def findClassicAsset_def dest: find_SomeD split: option.splits if_splits)

lemma read_amount_Inr:
  "read_amount params = Inr a \<Longrightarrow> js_get params ''amount'' = a \<and> (case a of None \<Rightarrow> True | Some x \<Rightarrow> isValidAmount x)"
  by (cases "js_get params ''amount''"; cases a) (simp_all add: read_amount_def split: if_split_asm)

lemma read_msg_Inr:
  "read_msg params = Inr m \<Longrightarrow> given (js_get params ''msg'') = m \<and> (case m of None \<Rightarrow> True | Some x \<Rightarrow> \<not> unsafe_text x)"
  by (cases "js_get params ''msg''"; cases m) (simp_all add: read_msg_def given_def split: if_split_asm)

lemma read_origin_Inr:
  "read_origin params = Inr (d, sig) \<Longrightarrow>
   js_get params ''origin_domain'' = d \<and> js_get params ''signature'' = sig
   \<and> (case d of None \<Rightarrow> sig = None | Some x \<Rightarrow> fqdn x \<and> truthy sig)"
  by (cases "js_get params ''origin_domain''"; cases d) (simp_all add: read_origin_def Let_def split: if_split_asm)

lemma read_request_Inr:
  assumes "read_request ac cfg ctx uri params = Inr r"
  shows "honoured ac cfg ctx params r \<and> pq_uri r = uri
     \<and> \<not> js_has params ''callback'' \<and> \<not> js_has params ''memo'' \<and> \<not> js_has params ''memo_type''"
proof -
  from assms obtain d k asset amount msg od sig where
    r: "read_destination ac params = Inr (d, k)" "\<not> js_has params ''callback''" "\<not> js_has params ''memo''" "\<not> js_has params ''memo_type''"
      "check_network ctx params = Inr ()" "read_asset ac cfg (cx_network ctx) params = Inr asset"
      "read_amount params = Inr amount" "read_msg params = Inr msg" "read_origin params = Inr (od, sig)"
    and eq: "r = \<lparr>pq_destination = d, pq_destinationKind = k, pq_amount = amount, pq_asset = asset, pq_msg = msg,
                 pq_originDomain = od, pq_signature = sig, pq_uri = uri\<rparr>"
    by (auto simp: read_request_def res_bind_eq_Inr split: if_splits)
  have net: "case js_get params ''network_passphrase'' of None \<Rightarrow> cx_network ctx = Mainnet | Some p \<Rightarrow> p = cx_networkPassphrase ctx"
    using r(5) by (auto simp: check_network_def split: option.splits if_splits)
  have sel: "pq_destination r = d" "pq_destinationKind r = k" "pq_amount r = amount" "pq_asset r = asset" "pq_msg r = msg"
    "pq_originDomain r = od" "pq_signature r = sig" "pq_uri r = uri" by (simp_all add: eq)
  from net r(2-4) read_destination_Inr [OF r(1)] read_asset_Inr [OF r(6)] read_amount_Inr [OF r(7)] read_msg_Inr [OF r(8)]
    read_origin_Inr [OF r(9)]
  show ?thesis unfolding honoured_def sel by simp
qed

lemma parsed:
  assumes "parsePayUri ac cfg (Some s) ctx = Inr r"
  shows "\<exists>scheme query params. pq_uri r = scheme @ ''pay?'' @ query \<and> to_lower scheme = SEP7_SCHEME \<and> pq_uri r = js_trim s
     \<and> list_all2 field_of (split_on CHR ''&'' query) params \<and> js_ok params
     \<and> fst ` set params \<subseteq> set PAY_PARAMS - {''callback'', ''memo'', ''memo_type''} \<and> honoured ac cfg ctx params r"
proof -
  from assms obtain query params where q: "request_query (js_trim s) = Inr query" "parse_pairs (split_on CHR ''&'' query) [] = Inr params"
    "read_request ac cfg ctx (js_trim s) params = Inr r"
    by (auto simp: parsePayUri_def res_bind_eq_Inr Let_def)
  note r = read_request_Inr [OF q(3)]
  obtain new where new: "params = [] @ new" "list_all2 field_of (split_on CHR ''&'' query) new" "js_ok params" "fst ` set new \<subseteq> set PAY_PARAMS"
    using parse_pairs_Inr [OF q(2)] unfolding js_ok_def by auto
  then have fields: "list_all2 field_of (split_on CHR ''&'' query) params" and keys: "fst ` set params \<subseteq> set PAY_PARAMS" by simp_all
  from r have "''callback'' \<notin> fst ` set params" "''memo'' \<notin> fst ` set params" "''memo_type'' \<notin> fst ` set params"
    by (simp_all add: js_has_iff)
  with keys have keys': "fst ` set params \<subseteq> set PAY_PARAMS - {''callback'', ''memo'', ''memo_type''}"
    by (simp only: subset_Diff_insert Diff_empty simp_thms)
  obtain scheme where scheme: "js_trim s = scheme @ ''pay?'' @ query" "to_lower scheme = SEP7_SCHEME"
    using request_query_Inr [OF q(1)] by blast
  from r have uri: "pq_uri r = js_trim s" and hon: "honoured ac cfg ctx params r" by simp_all
  from uri scheme(1) have "pq_uri r = scheme @ ''pay?'' @ query" by simp
  with scheme(2) uri fields new(3) keys' hon
  have "pq_uri r = scheme @ ''pay?'' @ query \<and> to_lower scheme = SEP7_SCHEME \<and> pq_uri r = js_trim s
     \<and> list_all2 field_of (split_on CHR ''&'' query) params \<and> js_ok params
     \<and> fst ` set params \<subseteq> set PAY_PARAMS - {''callback'', ''memo'', ''memo_type''} \<and> honoured ac cfg ctx params r"
    by (intro conjI)
  then show ?thesis by (intro exI)
qed

text \<open>C5: Nothing of an accepted payment request is dropped or changed. The URI is the scheme, the operation \<open>pay\<close> and
  fields, each read as one parameter; no parameter is repeated, unknown, a memo or a callback; and the request says
  exactly what the parameters say: destination, amount, registered asset, message and origin, for the network of the
  wallet.\<close>

theorem accepted_request_honoured:
  assumes "parsePayUri ac cfg (Some s) ctx = Inr r"
  shows "\<exists>scheme query params. pq_uri r = scheme @ ''pay?'' @ query \<and> to_lower scheme = SEP7_SCHEME \<and> pq_uri r = js_trim s
     \<and> list_all2 field_of (split_on CHR ''&'' query) params \<and> js_ok params
     \<and> fst ` set params \<subseteq> set PAY_PARAMS - {''callback'', ''memo'', ''memo_type''} \<and> honoured ac cfg ctx params r"
  by (rule parsed [OF assms])

subsection \<open>What the wallet builds, it accepts\<close>

lemma split_on_no: "d \<notin> set w \<Longrightarrow> split_on d (w @ s) = (case split_on d s of [] \<Rightarrow> [w] | v # vs \<Rightarrow> (w @ v) # vs)"
  by (induction w) (auto split: list.splits)

lemma split_on_join_with: "ls \<noteq> [] \<Longrightarrow> \<forall>l \<in> set ls. d \<notin> set l \<Longrightarrow> split_on d (join_with [d] ls) = ls"
proof (induction "[d]" ls rule: join_with.induct)
  case (2 s)
  then show ?case using split_on_no [of d s "[]"] by simp
next
  case (3 s t ss)
  then have "split_on d (join_with [d] (t # ss)) = t # ss" by simp
  then show ?case using split_on_no [of d s "d # join_with [d] (t # ss)"] 3(3) by simp
qed simp

definition key_ok :: "string \<Rightarrow> bool" where
  "key_ok k \<longleftrightarrow> k \<noteq> [] \<and> list_all (\<lambda>c. component_char c \<and> c \<noteq> CHR ''%'') k \<and> code_points k \<noteq> None"

lemma pay_params_ok: "k \<in> set PAY_PARAMS \<Longrightarrow> key_ok k"
proof -
  have "list_all key_ok PAY_PARAMS"
    by (simp add: PAY_PARAMS_def key_ok_def component_char_def unreserved_def is_digit_def code_points_def)
  then show "k \<in> set PAY_PARAMS \<Longrightarrow> ?thesis" by (simp add: list_all_iff)
qed

lemma percent_bytes_plain: "list_all (\<lambda>c. c \<noteq> CHR ''%'') s \<Longrightarrow> percent_bytes s = Some s"
  by (induction s) simp_all

lemma decode_field_component: "list_all component_char s \<Longrightarrow> decode_field s = decodeURIComponent s"
proof -
  assume s: "list_all component_char s"
  then have "map (\<lambda>c. if c = CHR ''+'' then CHR '' '' else c) s = map id s"
    by (intro map_cong) (auto simp: list_all_iff dest: component_char_plain)
  then show ?thesis by (simp add: decode_field_def)
qed

lemma decode_key: "key_ok k \<Longrightarrow> decode_field k = Some k"
proof -
  assume k: "key_ok k"
  then have "list_all component_char k" "list_all (\<lambda>c. c \<noteq> CHR ''%'') k" by (auto simp: key_ok_def list_all_iff)
  with k show ?thesis by (simp add: decode_field_component decodeURIComponent_def percent_bytes_plain key_ok_def)
qed

lemma decode_value: "code_points v \<noteq> None \<Longrightarrow> decode_field (encodeURIComponent v) = Some v"
  by (simp add: decode_field_component encoded_chars uri_component_round_trip)

lemma key_no_eq: "key_ok k \<Longrightarrow> CHR ''='' \<notin> set k"
  using component_char_plain by (fastforce simp: key_ok_def list_all_iff)

lemma parse_pairs_fields:
  assumes "list_all (\<lambda>(k, v). k \<in> set PAY_PARAMS \<and> code_points v \<noteq> None) ps" "distinct (map fst (acc @ ps))"
  shows "parse_pairs (map (\<lambda>(k, v). k @ ''='' @ encodeURIComponent v) ps) acc = Inr (acc @ ps)"
  using assms
proof (induction ps arbitrary: acc)
  case (Cons p ps)
  obtain k v where p: "p = (k, v)" by fastforce
  from Cons.prems(1) have k: "k \<in> set PAY_PARAMS" "key_ok k" and v: "code_points v \<noteq> None" by (auto simp: p pay_params_ok)
  have new: "\<not> js_has acc k" using Cons.prems(2) by (auto simp: p js_has_iff)
  have cut: "takeWhile (\<lambda>c. c \<noteq> CHR ''='') (k @ CHR ''='' # w) = k" for w
    using key_no_eq [OF k(2)] by (auto simp: takeWhile_append)
  have "k \<noteq> []" using k(2) by (simp add: key_ok_def)
  moreover have "parse_pairs (map (\<lambda>(k, v). k @ ''='' @ encodeURIComponent v) ps) (acc @ [(k, v)]) = Inr ((acc @ [(k, v)]) @ ps)"
    using Cons.prems by (intro Cons.IH) (auto simp: p)
  ultimately show ?case
    using k(1) decode_key [OF k(2)] decode_value [OF v] new by (simp add: p cut js_set_new Let_def)
qed simp

lemma trim_spaceless: "list_all (\<lambda>c. \<not> is_space c) s \<Longrightarrow> js_trim s = s"
proof -
  assume s: "list_all (\<lambda>c. \<not> is_space c) s"
  have "dropWhile is_space t = t" if "list_all (\<lambda>c. \<not> is_space c) t" for t
    using that by (cases t) auto
  from this [OF s] this [of "rev s"] s show ?thesis by (simp add: js_trim_def)
qed

definition query_char :: "char \<Rightarrow> bool" where
  "query_char c \<longleftrightarrow> component_char c \<or> c = CHR ''='' \<or> c = CHR ''&''"

lemma query_char_plain: "query_char c \<Longrightarrow> \<not> is_space c \<and> c \<noteq> CHR ''#''"
proof -
  assume c: "query_char c"
  have "\<forall>n \<in> set [9, 10, 11, 12, 13, 32, 35]. \<not> query_char (char_of n)"
    by (simp add: query_char_def component_char_def unreserved_def is_digit_def char_of_def)
  then have "of_char c \<notin> set [9, 10, 11, 12, 13, 32, 35 :: nat]" using c by (metis char_of_char)
  then show ?thesis by (auto simp: is_space_def Let_def)
qed

lemma field_chars: "key_ok k \<Longrightarrow> list_all query_char (k @ ''='' @ encodeURIComponent v)"
  using encoded_chars [of v] by (auto simp: key_ok_def list_all_iff query_char_def)

lemma join_chars: "list_all (list_all P) ls \<Longrightarrow> list_all P sep \<Longrightarrow> list_all P (join_with sep ls)"
  by (induction sep ls rule: join_with.induct) auto

lemma query_text_chars: "list_all (\<lambda>(k, v). k \<in> set PAY_PARAMS) ps \<Longrightarrow> list_all query_char (query_text ps)"
proof -
  assume ps: "list_all (\<lambda>(k, v). k \<in> set PAY_PARAMS) ps"
  then have "list_all (list_all query_char) (map (\<lambda>(k, v). k @ ''='' @ encodeURIComponent v) ps)"
    using field_chars pay_params_ok by (fastforce simp: list_all_iff)
  then show ?thesis unfolding query_text_def by (intro join_chars) (simp_all add: query_char_def)
qed

lemma query_text_parses:
  assumes "list_all (\<lambda>(k, v). k \<in> set PAY_PARAMS \<and> code_points v \<noteq> None) ps" "distinct (map fst ps)" "ps \<noteq> []"
  shows "parse_pairs (split_on CHR ''&'' (query_text ps)) [] = Inr ps"
proof -
  have "CHR ''&'' \<notin> set (k @ ''='' @ encodeURIComponent v)" if "(k, v) \<in> set ps" for k v
  proof -
    have "key_ok k" using that assms(1) pay_params_ok by (auto simp: list_all_iff)
    then show ?thesis using encoded_chars [of v] component_char_plain by (fastforce simp: key_ok_def list_all_iff)
  qed
  then have "split_on CHR ''&'' (query_text ps) = map (\<lambda>(k, v). k @ ''='' @ encodeURIComponent v) ps"
    unfolding query_text_def using assms(3) by (intro split_on_join_with) auto
  then show ?thesis using parse_pairs_fields [OF assms(1), of "[]"] assms(2) by simp
qed

lemma request_query_built:
  assumes "list_all query_char q" "q \<noteq> []" "utf16_length (SEP7_SCHEME @ ''pay?'' @ q) \<le> MAX_URI_LENGTH"
  shows "request_query (SEP7_SCHEME @ ''pay?'' @ q) = Inr q"
proof -
  have "to_lower SEP7_SCHEME = SEP7_SCHEME" by code_simp
  moreover have "CHR ''#'' \<notin> set q" using assms(1) query_char_plain by (auto simp: list_all_iff)
  ultimately show ?thesis using assms(2,3) by (simp add: request_query_def)
qed

text \<open>What a wallet can show as a request that it would also pay.\<close>

definition asset_payable :: "address_checks \<Rightarrow> sdk_configs \<Rightarrow> network \<Rightarrow> registered_asset \<Rightarrow> bool" where
  "asset_payable ac cfg n a \<longleftrightarrow>
     (case given (ra_issuer a) of
        None \<Rightarrow> a = nativeAsset cfg n
      | Some iss \<Rightarrow> ac_account ac iss \<and> asset_code_ok (ra_code a) \<and> findClassicAsset cfg n (ra_code a) iss = Some a)"

definition payable :: "address_checks \<Rightarrow> sdk_configs \<Rightarrow> sep7_context \<Rightarrow> build_request \<Rightarrow> bool" where
  "payable ac cfg ctx i \<longleftrightarrow>
     br_destination i \<noteq> [] \<and> \<not> ac_muxed ac (br_destination i) \<and> given (br_memo i) = None \<and> br_network i = cx_network ctx
   \<and> (br_network i \<noteq> Mainnet \<longrightarrow> given (br_networkPassphrase i) = Some (cx_networkPassphrase ctx))
   \<and> (case br_asset i of None \<Rightarrow> True | Some a \<Rightarrow> asset_payable ac cfg (cx_network ctx) a)"

definition asked_asset :: "sdk_configs \<Rightarrow> network \<Rightarrow> build_request \<Rightarrow> registered_asset" where
  "asked_asset cfg n i = (case br_asset i of None \<Rightarrow> nativeAsset cfg n | Some a \<Rightarrow> a)"

lemma given_None_truthy: "given v = None \<longleftrightarrow> \<not> truthy v"
  by (auto simp: given_def truthy_def split: option.splits)

lemma build_params_Inr:
  assumes "build_params ac i = Inr ps" "given (br_memo i) = None"
  obtains am msg where "amount_param i = Inr am" "msg_param i = Inr msg" "destinationKind ac (br_destination i) \<noteq> None"
    "ps = [(''destination'', br_destination i)] @ am @ asset_params i @ msg @ network_param i"
  using assms by (auto simp: build_params_def memo_params_def res_bind_eq_Inr if_Inl_Inr)

text \<open>The groups of parameters, each present or not.\<close>

lemma amount_group:
  "amount_param i = Inr am \<Longrightarrow> am = (case given (br_amount i) of None \<Rightarrow> [] | Some a \<Rightarrow> [(''amount'', a)])
     \<and> (\<forall>a. given (br_amount i) = Some a \<longrightarrow> isValidAmount a)"
  by (cases "given (br_amount i)") (simp_all add: amount_param_def split: if_split_asm)

lemma msg_group:
  "msg_param i = Inr msg \<Longrightarrow> msg = (case given (br_msg i) of None \<Rightarrow> [] | Some m \<Rightarrow> [(''msg'', m)])
     \<and> (\<forall>m. given (br_msg i) = Some m \<longrightarrow> utf16_length m \<le> MAX_MSG_LENGTH \<and> \<not> unsafe_text m \<and> m \<noteq> [])"
proof (cases "given (br_msg i)")
  case (Some m)
  then have "m \<noteq> []" by (simp add: given_Some)
  moreover assume "msg_param i = Inr msg"
  ultimately show ?thesis by (simp add: Some msg_param_def split: if_split_asm)
qed (simp add: msg_param_def)

lemma built_params:
  assumes b: "build_params ac i = Inr ps" and pay: "payable ac cfg ctx i"
  shows "distinct (map fst ps) \<and> fst ` set ps \<subseteq> set PAY_PARAMS
     \<and> (\<exists>k. destinationKind ac (br_destination i) = Some k \<and> read_request ac cfg ctx uri ps
          = Inr \<lparr>pq_destination = br_destination i, pq_destinationKind = k, pq_amount = given (br_amount i),
                 pq_asset = asked_asset cfg (cx_network ctx) i, pq_msg = given (br_msg i), pq_originDomain = None, pq_signature = None,
                 pq_uri = uri\<rparr>)"
proof -
  from pay have memo: "given (br_memo i) = None" by (simp add: payable_def)
  from b memo obtain am msg where g: "amount_param i = Inr am" "msg_param i = Inr msg" "destinationKind ac (br_destination i) \<noteq> None"
    and ps: "ps = [(''destination'', br_destination i)] @ am @ asset_params i @ msg @ network_param i" by (rule build_params_Inr)
  have groups: "am = (case given (br_amount i) of None \<Rightarrow> [] | Some a \<Rightarrow> [(''amount'', a)])"
    "\<forall>a. given (br_amount i) = Some a \<longrightarrow> isValidAmount a"
    "msg = (case given (br_msg i) of None \<Rightarrow> [] | Some m \<Rightarrow> [(''msg'', m)])"
    "\<forall>m. given (br_msg i) = Some m \<longrightarrow> utf16_length m \<le> MAX_MSG_LENGTH \<and> \<not> unsafe_text m \<and> m \<noteq> []"
    using amount_group [OF g(1)] msg_group [OF g(2)] by blast+
  let ?am = "given (br_amount i)" and ?msg = "given (br_msg i)"
  have asset: "asset_params i = [] \<and> asked_asset cfg (cx_network ctx) i = nativeAsset cfg (cx_network ctx)
      \<or> (\<exists>code iss a. asset_params i = [(''asset_code'', code), (''asset_issuer'', iss)] \<and> ac_account ac iss \<and> asset_code_ok code
           \<and> findClassicAsset cfg (cx_network ctx) code iss = Some (asked_asset cfg (cx_network ctx) i))"
    using pay by (auto simp: payable_def asset_payable_def asset_params_def asked_asset_def split: option.splits)
  have net: "network_param i = (if cx_network ctx \<noteq> Mainnet then [(''network_passphrase'', cx_networkPassphrase ctx)] else [])"
    using pay by (auto simp: payable_def network_param_def)
  obtain k where k: "destinationKind ac (br_destination i) = Some k" using g(3) by blast
  have d: "br_destination i \<noteq> []" "\<not> ac_muxed ac (br_destination i)" using pay by (simp_all add: payable_def)
  have keys: "distinct (map fst ps) \<and> fst ` set ps \<subseteq> set PAY_PARAMS"
    using asset unfolding ps groups(1,3) net by (cases ?am; cases ?msg) (auto simp: PAY_PARAMS_def)
  have "read_destination ac ps = Inr (br_destination i, k)" using d k by (simp add: ps read_destination_def given_Some given_def)
  moreover have "\<not> js_has ps ''callback''" "\<not> js_has ps ''memo''" "\<not> js_has ps ''memo_type''"
    using asset unfolding ps groups(1,3) net js_has_iff by (cases ?am; cases ?msg; auto)+
  moreover have "check_network ctx ps = Inr ()"
    using asset unfolding ps groups(1,3) net check_network_def by (cases ?am; cases ?msg) auto
  moreover have "read_asset ac cfg (cx_network ctx) ps = Inr (asked_asset cfg (cx_network ctx) i)"
    using asset unfolding ps groups(1,3) net read_asset_def by (cases ?am; cases ?msg) auto
  moreover have "read_amount ps = Inr ?am"
    using asset groups(2) unfolding ps groups(1,3) net read_amount_def by (cases ?am; cases ?msg) auto
  moreover have "read_msg ps = Inr ?msg"
    using asset groups(4) unfolding ps groups(1,3) net read_msg_def by (cases ?am; cases ?msg) (auto simp: given_def truthy_def)
  moreover have "read_origin ps = Inr (None, None)"
    using asset unfolding ps groups(1,3) net read_origin_def by (cases ?am; cases ?msg) auto
  ultimately show ?thesis using keys k by (simp add: read_request_def)
qed


subsection \<open>Verified origins\<close>

lemma stripSignature_Some:
  assumes "stripSignature uri = Some u"
  shows "\<exists>v. uri = u @ ''&signature='' @ v \<and> CHR ''&'' \<notin> set v"
proof -
  let ?f = "takeWhile (\<lambda>c. c \<noteq> CHR ''&'') (rev uri)" and ?b = "dropWhile (\<lambda>c. c \<noteq> CHR ''&'') (rev uri)"
  from assms have b: "?b \<noteq> []" "starts_with (rev ?f) ''signature=''" "u = rev (tl ?b)"
    by (auto simp: stripSignature_def Let_def split: if_splits)
  have "hd ?b = CHR ''&''" using hd_dropWhile [OF b(1)] by simp
  then obtain t where t: "?b = CHR ''&'' # t" using b(1) by (cases ?b) auto
  have "rev (?f @ ?b) = uri" unfolding takeWhile_dropWhile_id by simp
  then have "uri = rev ?b @ rev ?f" by (simp only: rev_append)
  then have uri: "uri = rev t @ CHR ''&'' # rev ?f" by (simp only: rev_rev_ident t rev.simps append.assoc append.simps)
  obtain v where v: "rev ?f = ''signature='' @ v" using b(2) unfolding starts_with_iff prefix_def by blast
  have "CHR ''&'' \<notin> set ?f" by (auto dest: set_takeWhileD)
  then have "CHR ''&'' \<notin> set (rev ?f)" by (simp only: set_rev not_False_eq_True)
  then have "CHR ''&'' \<notin> set v" unfolding v by simp
  moreover have "uri = u @ ''&signature='' @ v" using uri unfolding v b(3) t by simp
  ultimately show ?thesis by blast
qed

text \<open>The last field of the query is the last field of the URI.\<close>

lemma last_field: "d \<notin> set w \<Longrightarrow> length (split_on d (a @ d # w)) \<ge> 2 \<and> last (split_on d (a @ d # w)) = w"
proof (induction a)
  case Nil
  then show ?case using split_on_no [of d w "[]"] by simp
next
  case (Cons c a)
  then obtain x y zs where "split_on d (a @ d # w) = x # y # zs"
    by (cases "split_on d (a @ d # w)"; cases "tl (split_on d (a @ d # w))") auto
  with Cons show ?case by simp
qed

lemma signature_is_last_field:
  assumes uri: "scheme @ ''pay?'' @ query = u @ ''&signature='' @ v" and v: "CHR ''&'' \<notin> set v" and scheme: "to_lower scheme = SEP7_SCHEME"
  shows "last (split_on CHR ''&'' query) = ''signature='' @ v"
proof -
  have "CHR ''&'' \<notin> set (scheme @ ''pay?'')"
  proof
    assume "CHR ''&'' \<in> set (scheme @ ''pay?'')"
    then have "lower_char CHR ''&'' \<in> set (to_lower scheme)" by (auto simp: to_lower_def)
    moreover have "lower_char CHR ''&'' \<notin> set SEP7_SCHEME" by code_simp
    ultimately show False using scheme by simp
  qed
  note no = this
  from uri have "(scheme @ ''pay?'') @ query = u @ CHR ''&'' # ''signature='' @ v" by simp
  then obtain w where "scheme @ ''pay?'' = u @ w \<and> w @ query = CHR ''&'' # ''signature='' @ v
      \<or> (scheme @ ''pay?'') @ w = u \<and> query = w @ CHR ''&'' # ''signature='' @ v"
    unfolding append_eq_append_conv2 by blast
  then obtain w where "query = w @ CHR ''&'' # ''signature='' @ v"
  proof
    assume w: "scheme @ ''pay?'' = u @ w \<and> w @ query = CHR ''&'' # ''signature='' @ v"
    then have "w = []" using no by (cases w) auto
    with w show ?thesis by (intro that [of "[]"]) simp
  qed (use that in blast)
  moreover have "CHR ''&'' \<notin> set (''signature='' @ v)" using v by simp
  ultimately show ?thesis using last_field [of "CHR ''&''" "''signature='' @ v" w] by simp
qed

text \<open>What a verified origin stands for: the key that the domain publishes over https, not different from the one remembered
  for it, signed the whole URI up to its last field, which is the signature.\<close>

definition vouched :: "address_checks \<Rightarrow> origin_deps \<Rightarrow> (string, string) js_map \<Rightarrow> (string, string) js_map \<Rightarrow> string \<Rightarrow> string \<Rightarrow> bool" where
  "vouched ac deps cache cache' domain uri \<longleftrightarrow>
     (\<exists>u v sig bs toml pk. uri = u @ ''&signature='' @ v \<and> CHR ''&'' \<notin> set v \<and> decode_field v = Some sig \<and> atob sig = Some bs
        \<and> od_toml deps (toml_url domain) = Some toml \<and> signingKeyFromToml toml = Some pk
        \<and> ac_account ac pk \<and> js_get cache domain \<in> {None, Some [], Some pk}
        \<and> od_verify deps pk (sep7SignaturePayload u) bs \<and> cache' = js_set domain pk cache)"

lemma field_value: "field_of (''signature='' @ v) (k, x) \<Longrightarrow> CHR ''&'' \<notin> set v \<Longrightarrow> k = ''signature'' \<and> decode_field v = Some x"
proof -
  assume "field_of (''signature='' @ v) (k, x)" "CHR ''&'' \<notin> set v"
  then obtain kt vt where f: "''signature='' @ v = kt @ ''='' @ vt" "CHR ''='' \<notin> set kt" "decode_field kt = Some k" "decode_field vt = Some x"
    by (auto simp: field_of_def)
  have "takeWhile (\<lambda>c. c \<noteq> CHR ''='') (kt @ ''='' @ vt) = kt" using f(2) by (auto simp: takeWhile_append)
  moreover have "takeWhile (\<lambda>c. c \<noteq> CHR ''='') (''signature='' @ v) = ''signature''" by simp
  ultimately have kt: "kt = ''signature''" using f(1) by (simp only:)
  then have "vt = v" using f(1) by simp
  moreover have "decode_field ''signature'' = Some ''signature''"
    by (rule decode_key) (rule pay_params_ok, simp add: PAY_PARAMS_def)
  ultimately show ?thesis using f(3,4) kt by simp
qed

lemma verified_claim:
  assumes "verifySep7Origin ac deps cache r = (cache', Verified_origin domain)"
  shows "\<exists>u sig bs toml pk. pq_originDomain r = Some domain \<and> stripSignature (pq_uri r) = Some u \<and> pq_signature r = Some sig \<and> atob sig = Some bs
     \<and> od_toml deps (toml_url domain) = Some toml \<and> signingKeyFromToml toml = Some pk
     \<and> ac_account ac pk \<and> js_get cache domain \<in> {None, Some [], Some pk}
     \<and> od_verify deps pk (sep7SignaturePayload u) bs \<and> cache' = js_set domain pk cache"
proof -
  obtain d u sig toml pk bs where f: "given (pq_originDomain r) = Some d" "given (stripSignature (pq_uri r)) = Some u"
    "given (pq_signature r) = Some sig" "od_toml deps (toml_url d) = Some toml"
    "given (signingKeyFromToml toml) = Some pk" "atob sig = Some bs"
    using assms unfolding verifySep7Origin_def by (auto split: option.splits if_splits)
  from assms have "ac_account ac pk" "\<not> (truthy (js_get cache d) \<and> js_get cache d \<noteq> Some pk)" "od_verify deps pk (sep7SignaturePayload u) bs"
    "cache' = js_set d pk cache \<and> domain = d"
    unfolding verifySep7Origin_def by (auto simp: f split: if_split_asm)
  moreover from this(2) have "js_get cache d \<in> {None, Some [], Some pk}" by (auto simp: truthy_def split: option.splits)
  ultimately show ?thesis using f by (simp add: given_Some)
qed

text \<open>C4: A verified origin signed everything that is paid. When an accepted request is shown as coming from a domain, the key
  which that domain publishes over https, and which is not different from the one remembered for it, signed the whole
  URI but its last field, and that field is the signature; the domain is a plain host name, and the key is remembered.\<close>

theorem verified_origin_signed_request:
  assumes "parsePayUri ac cfg (Some s) ctx = Inr r"
    and "verifySep7Origin ac deps cache r = (cache', Verified_origin domain)"
  shows "pq_originDomain r = Some domain \<and> fqdn domain \<and> vouched ac deps cache cache' domain (pq_uri r)"
proof -
  from parsed [OF assms(1)] obtain scheme query params where p: "pq_uri r = scheme @ ''pay?'' @ query" "to_lower scheme = SEP7_SCHEME"
    "list_all2 field_of (split_on CHR ''&'' query) params" "js_ok params" "honoured ac cfg ctx params r" by blast
  from verified_claim [OF assms(2)] obtain u sig bs toml pk where v: "pq_originDomain r = Some domain" "stripSignature (pq_uri r) = Some u"
    "pq_signature r = Some sig" "atob sig = Some bs" "od_toml deps (toml_url domain) = Some toml"
    "signingKeyFromToml toml = Some pk" "ac_account ac pk" "js_get cache domain \<in> {None, Some [], Some pk}"
    "od_verify deps pk (sep7SignaturePayload u) bs" "cache' = js_set domain pk cache" by blast
  obtain w where w: "pq_uri r = u @ ''&signature='' @ w" "CHR ''&'' \<notin> set w" using stripSignature_Some [OF v(2)] by blast
  have last: "last (split_on CHR ''&'' query) = ''signature='' @ w"
    by (rule signature_is_last_field [OF _ w(2) p(2)]) (use w(1) p(1) in simp)
  have "params \<noteq> []" using p(3) by (metis list_all2_Nil2 split_on_nonempty)
  then obtain k x where kx: "last params = (k, x)" "(k, x) \<in> set params" by (metis last_in_set surj_pair)
  have "field_of (last (split_on CHR ''&'' query)) (last params)"
    using p(3) \<open>params \<noteq> []\<close> list_all2_lengthD [OF p(3)] by (simp add: last_conv_nth list_all2_conv_all_nth)
  then have "k = ''signature'' \<and> decode_field w = Some x" using field_value [of w k x] w(2) unfolding last kx(1) by blast
  moreover from this kx(2) have "js_get params ''signature'' = Some x" using js_get_Some_iff [OF p(4)] by blast
  moreover have "js_get params ''signature'' = Some sig" "fqdn domain" using p(5) v(1,3) by (simp_all add: honoured_def)
  ultimately have "decode_field w = Some sig" by simp
  then have "vouched ac deps cache cache' domain (pq_uri r)" unfolding vouched_def using w v(4-) by blast
  with v(1) \<open>fqdn domain\<close> show ?thesis by blast
qed

subsection \<open>Examples\<close>

definition example_accounts :: "string \<Rightarrow> bool" where
  "example_accounts s \<longleftrightarrow> s \<in> set [''GA'', ''GK'']"

definition example_contracts :: "string \<Rightarrow> bool" where
  "example_contracts s \<longleftrightarrow> s \<in> set [''CA'']"

definition example_checks :: address_checks where
  "example_checks = \<lparr>ac_account = example_accounts, ac_contract = example_contracts, ac_muxed = (\<lambda>s. False)\<rparr>"

definition example_cfg :: sdk_configs where
  "example_cfg n = \<lparr>sn_nativeTokenContractId = ''CN'', sn_usdcIssuer = ''GK'', sn_usdcContractId = ''CU''\<rparr>"

definition example_ctx :: sep7_context where
  "example_ctx = \<lparr>cx_network = Mainnet, cx_networkPassphrase = ''net''\<rparr>"

definition example_uri :: string where
  "example_uri = ''web+stellar:pay?destination=GA&amount=10&origin_domain=a.io&signature=AAAA''"

lemma example_kinds:
  "destinationKind example_checks ''GA'' = Some Account_kind" "destinationKind example_checks ''CA'' = Some Contract_kind"
  by (simp_all add: destinationKind_def example_checks_def example_accounts_def example_contracts_def)

lemma example_trim: "js_trim example_uri = example_uri" by code_simp

lemma example_query: "request_query example_uri = Inr ''destination=GA&amount=10&origin_domain=a.io&signature=AAAA''"
  by (simp add: request_query_def example_uri_def SEP7_SCHEME_def utf16_length_ascii MAX_URI_LENGTH_def to_lower_def lower_char_def)

lemma example_split: "split_on CHR ''&'' ''destination=GA&amount=10&origin_domain=a.io&signature=AAAA''
    = [''destination=GA'', ''amount=10'', ''origin_domain=a.io'', ''signature=AAAA'']" by code_simp

lemma example_pairs: "parse_pairs [''destination=GA'', ''amount=10'', ''origin_domain=a.io'', ''signature=AAAA''] []
     = Inr [(''destination'', ''GA''), (''amount'', ''10''), (''origin_domain'', ''a.io''), (''signature'', ''AAAA'')]"
  by code_simp

lemma example_amount: "isValidAmount ''10''" by code_simp

lemma example_amount': "isValidAmount ''1.5''" by code_simp

lemma example_domain: "fqdn ''a.io''" by code_simp

lemma example_safe: "\<not> unsafe_text ''a&b = 100%?''"
  by (simp add: unsafe_text_def code_points_ascii unsafe_point_def)

lemma example_length: "utf16_length ''a&b = 100%?'' = 11"
  by (simp add: utf16_length_ascii)

lemmas example_texts = example_amount example_amount' example_domain example_safe example_length
lemmas example_params = example_trim example_query example_split example_pairs

lemma example_parsed:
  "parsePayUri example_checks example_cfg (Some example_uri) example_ctx
     = Inr \<lparr>pq_destination = ''GA'', pq_destinationKind = Account_kind, pq_amount = Some ''10'', pq_asset = nativeAsset example_cfg Mainnet,
            pq_msg = None, pq_originDomain = Some ''a.io'', pq_signature = Some ''AAAA'', pq_uri = example_uri\<rparr>"
  by (simp del: split_on.simps parse_pairs.simps add: parsePayUri_def Let_def example_params read_request_def read_destination_def given_def example_kinds js_has_def
      check_network_def example_ctx_def read_asset_def read_amount_def example_texts read_msg_def read_origin_def)
    (simp add: example_checks_def)

theorem accepted_request_honoured_witness:
  "\<exists>r params. parsePayUri example_checks example_cfg (Some example_uri) example_ctx = Inr r \<and> honoured example_checks example_cfg example_ctx params r
     \<and> pq_amount r = Some ''10''"
  using accepted_request_honoured [OF example_parsed] example_parsed by fastforce

definition example_toml :: string where
  "example_toml = ''VERSION=2'' @ [CHR 0x0A] @ ''URI_REQUEST_SIGNING_KEY='' @ [CHR 0x22] @ ''GK'' @ [CHR 0x22]"

theorem verified_origin_signed_request_witness:
  "\<exists>r cache'. parsePayUri example_checks example_cfg (Some example_uri) example_ctx = Inr r
     \<and> vouched example_checks \<lparr>od_toml = (\<lambda>_. Some example_toml), od_verify = (\<lambda>k _ _. example_accounts k)\<rparr> [] cache' ''a.io'' (pq_uri r)"
proof -
  let ?r = "\<lparr>pq_destination = ''GA'', pq_destinationKind = Account_kind, pq_amount = Some ''10'', pq_asset = nativeAsset example_cfg Mainnet,
            pq_msg = None, pq_originDomain = Some ''a.io'', pq_signature = Some ''AAAA'', pq_uri = example_uri\<rparr>"
  have "verifySep7Origin example_checks \<lparr>od_toml = (\<lambda>_. Some example_toml), od_verify = (\<lambda>k _ _. example_accounts k)\<rparr> [] ?r
      = ([(''a.io'', ''GK'')], Verified_origin ''a.io'')" by code_simp
  from verified_origin_signed_request [OF example_parsed this] example_parsed show ?thesis by blast
qed

definition example_request :: build_request where
  "example_request = \<lparr>br_destination = ''CA'', br_amount = Some ''1.5'', br_asset = Some (the (findClassicAsset example_cfg Mainnet ''USDC'' ''GK'')),
     br_memo = None, br_msg = Some ''a&b = 100%?'', br_networkPassphrase = None, br_network = Mainnet\<rparr>"


text \<open>The pattern for amounts admits more than an amount of the ledger can be.\<close>

lemma amount_beyond_int64: "isValidAmount ''999999999999.9999999''"
  by code_simp

text \<open>A request built with a memo is refused by the wallet's own parser.\<close>

lemma memo_request_refused:
  assumes "js_has params ''memo''" "read_destination ac params = Inr d" "\<not> js_has params ''callback''"
  shows "read_request ac cfg ctx uri params = Inl Memo_unsupported"
  using assms by (simp add: read_request_def)

end
