(* ===== verification/HistoryParse.thy ===== *)
theory HistoryParse
  imports Json
begin

text \<open>
  The rows of the transaction history of the web wallet: \<open>apps/web/lib/history-parse.ts\<close> and \<open>history-types.ts\<close>.  Values of
  the RPC are JavaScript values; \<open>scValToNative\<close> of the SDK is the argument \<open>dec\<close>, \<open>None\<close> when it throws.  \<open>Date.parse\<close> is an
  argument too.
\<close>

subsection \<open>Transient failures\<close>

definition TRANSIENT_ERROR_CODES :: "string list" where
  "TRANSIENT_ERROR_CODES = [''txNoAccount'', ''txBadSeq'', ''MissingValue'']"

definition TRANSIENT_ERROR_PATTERNS :: "string list" where
  "TRANSIENT_ERROR_PATTERNS = TRANSIENT_ERROR_CODES @ [''must be within the ledger range'', ''stale'']"

datatype history_error = Transient_history string | Permanent_history string

definition mapTransientRpcError :: "string \<Rightarrow> history_error" where
  "mapTransientRpcError message =
     (case find (\<lambda>code. str_includes (to_lower message) (to_lower code)) TRANSIENT_ERROR_PATTERNS of
        Some code \<Rightarrow> Transient_history code
      | None \<Rightarrow> Permanent_history message)"

text \<open>The \<open>i\<close>-th call of \<open>run\<close> settles to \<open>run i\<close>; the first component lists the pauses.\<close>

fun transient_loop :: "int \<Rightarrow> (nat \<Rightarrow> string + 'a) \<Rightarrow> nat \<Rightarrow> nat \<Rightarrow> int list \<times> (history_error + 'a)" where
  "transient_loop base run attempt 0 =
     ([], case run attempt of Inr x \<Rightarrow> Inr x | Inl m \<Rightarrow> Inl (mapTransientRpcError m))"
| "transient_loop base run attempt (Suc left) =
     (case run attempt of
        Inr x \<Rightarrow> ([], Inr x)
      | Inl m \<Rightarrow>
          (case mapTransientRpcError m of
             Permanent_history p \<Rightarrow> ([], Inl (Permanent_history p))
           | Transient_history c \<Rightarrow>
               (let rest = transient_loop base run (Suc attempt) left in (base * 2 ^ attempt # fst rest, snd rest))))"

definition withTransientRetry :: "(nat \<Rightarrow> string + 'a) \<Rightarrow> int list \<times> (history_error + 'a)" where
  "withTransientRetry run = transient_loop 120 run 0 4"

subsection \<open>Rows\<close>

datatype asset_kind = Soroban_asset | Classic_asset

record history_asset =
  as_kind :: asset_kind
  as_code :: string
  as_decimals :: rat
  as_contractId :: string
  as_issuer :: "string option"

datatype direction = In_direction | Out_direction | Self_direction

record history_tx =
  tx_id :: string
  tx_kind :: asset_kind
  tx_direction :: direction
  tx_counterparty :: string
  tx_amount :: int
  tx_asset :: history_asset
  tx_timestamp :: string
  tx_success :: bool
  tx_hash :: string
  tx_description :: "string option"

definition directionFor :: "string \<Rightarrow> string option \<Rightarrow> string option \<Rightarrow> direction" where
  "directionFor accountId from to =
     (let isFrom = (from = Some accountId); isTo = (to = Some accountId) in
      if isFrom \<and> \<not> isTo then Out_direction else if isTo \<and> \<not> isFrom then In_direction else Self_direction)"

subsection \<open>Transfer events\<close>

datatype native =
    NBig int
  | NNum rat
  | NNaN
  | NStr string
  | NArr "native list"
  | NObj "(string \<times> native) list"
  | NScVal nat

type_synonym scval_decoder = "native \<Rightarrow> native option"

record raw_event =
  ev_type :: string
  ev_ledger :: int
  ev_ledgerClosedAt :: "string option"
  ev_id :: string
  ev_txHash :: string
  ev_success :: bool
  ev_topic :: "native list"
  ev_value :: native
  ev_contractId :: string

definition decodeString :: "scval_decoder \<Rightarrow> native \<Rightarrow> string option" where
  "decodeString dec v = (case dec v of Some (NStr s) \<Rightarrow> Some s | _ \<Rightarrow> None)"

definition isSACTransferEvent :: "scval_decoder \<Rightarrow> raw_event \<Rightarrow> bool" where
  "isSACTransferEvent dec e \<longleftrightarrow>
     ev_type e = ''contract'' \<and> 3 \<le> length (ev_topic e) \<and> decodeString dec (ev_topic e ! 0) = Some ''transfer''"

definition trunc :: "rat \<Rightarrow> int" where
  "trunc q = (if q < 0 then \<lceil>q\<rceil> else \<lfloor>q\<rfloor>)"

fun integer_text :: "string \<Rightarrow> bool" where
  "integer_text [] = False"
| "integer_text (c # s) = (if c = CHR ''-'' then s \<noteq> [] \<and> list_all is_digit s else list_all is_digit (c # s))"

text \<open>The first argument counts the levels left of the five that are looked into.\<close>

fun extract_amount :: "nat \<Rightarrow> scval_decoder \<Rightarrow> native \<Rightarrow> int option" where
  "extract_amount 0 dec v = None"
| "extract_amount (Suc n) dec v =
     (case v of
        NBig i \<Rightarrow> Some i
      | _ \<Rightarrow>
          (case dec v of
             Some (NBig i) \<Rightarrow> Some i
           | Some (NNum q) \<Rightarrow> Some (trunc q)
           | Some (NStr s) \<Rightarrow> if integer_text s then js_BigInt s else None
           | Some (NArr vs) \<Rightarrow> (case filter (\<lambda>r. r \<noteq> None) (map (extract_amount n dec) vs) of [] \<Rightarrow> None | r # _ \<Rightarrow> r)
           | Some (NObj fs) \<Rightarrow> (case map_of fs ''amount'' of None \<Rightarrow> None | Some w \<Rightarrow> extract_amount n dec w)
           | _ \<Rightarrow> None))"

definition extractAmount :: "scval_decoder \<Rightarrow> native \<Rightarrow> int option" where
  "extractAmount dec v = extract_amount 5 dec v"

definition EPOCH :: string where "EPOCH = ''1970-01-01T00:00:00.000Z''"

definition parseSACTransfer :: "scval_decoder \<Rightarrow> string \<Rightarrow> raw_event \<Rightarrow> history_asset \<Rightarrow> history_tx option" where
  "parseSACTransfer dec accountId e asset =
     (if \<not> isSACTransferEvent dec e then None
      else
        (let from = decodeString dec (ev_topic e ! 1); to = decodeString dec (ev_topic e ! 2) in
         if \<not> truthy from \<or> \<not> truthy to then None
         else
           (case extractAmount dec (ev_value e) of
              None \<Rightarrow> None
            | Some amount \<Rightarrow>
                Some \<lparr>tx_id = ''soroban:'' @ ev_contractId e @ '':'' @ ev_id e, tx_kind = Soroban_asset,
                      tx_direction = directionFor accountId from to,
                      tx_counterparty = (if from = Some accountId then the to else the from), tx_amount = amount, tx_asset = asset,
                      tx_timestamp = (case ev_ledgerClosedAt e of None \<Rightarrow> EPOCH | Some t \<Rightarrow> t), tx_success = ev_success e,
                      tx_hash = ev_txHash e, tx_description = None\<rparr>)))"

subsection \<open>Classic operations\<close>

record classic_op =
  op_id :: string
  op_type :: string
  op_successful :: bool
  op_created_at :: string
  op_hash :: string
  op_asset_type :: "string option"
  op_asset_code :: "string option"
  op_asset_issuer :: "string option"
  op_amount :: "string option"
  op_from :: "string option"
  op_to :: "string option"
  op_account :: "string option"
  op_starting_balance :: "string option"
  op_paging_token :: "string option"
  op_address :: "string option"
  op_function_name :: "string option"

definition NATIVE_DECIMALS :: nat where "NATIVE_DECIMALS = 7"

definition function_char :: "char \<Rightarrow> bool" where
  "function_char c \<longleftrightarrow> is_digit c \<or> c \<in> set ''ABCDEFGHIJKLMNOPQRSTUVWXYZabcdefghijklmnopqrstuvwxyz_.:-''"

definition describeInvokeHostFunction :: "classic_op \<Rightarrow> string" where
  "describeInvokeHostFunction op =
     (case op_function_name op of
        Some name \<Rightarrow> if 1 \<le> length name \<and> length name \<le> 64 \<and> list_all function_char name then ''Contract call: '' @ name
                     else ''Contract invocation''
      | None \<Rightarrow> ''Contract invocation'')"

definition text_of :: "string option \<Rightarrow> string" where
  "text_of v = (case v of None \<Rightarrow> [] | Some s \<Rightarrow> s)"

definition invokeHostFunctionRow :: "classic_op \<Rightarrow> history_tx" where
  "invokeHostFunctionRow op =
     \<lparr>tx_id = ''classic:'' @ op_id op, tx_kind = Soroban_asset, tx_direction = Self_direction, tx_counterparty = text_of (op_address op),
      tx_amount = 0,
      tx_asset = \<lparr>as_kind = Soroban_asset, as_code = ''Contract'', as_decimals = of_nat NATIVE_DECIMALS, as_contractId = text_of (op_address op),
        as_issuer = None\<rparr>,
      tx_timestamp = op_created_at op, tx_success = op_successful op, tx_hash = op_hash op,
      tx_description = Some (describeInvokeHostFunction op)\<rparr>"

definition classicAssetOf :: "classic_op \<Rightarrow> history_asset option" where
  "classicAssetOf op =
     (if op_asset_type op = Some ''native''
      then Some \<lparr>as_kind = Classic_asset, as_code = ''XLM'', as_decimals = of_nat NATIVE_DECIMALS, as_contractId = [], as_issuer = None\<rparr>
      else if truthy (op_asset_code op) \<and> truthy (op_asset_issuer op)
      then Some \<lparr>as_kind = Classic_asset, as_code = text_of (op_asset_code op), as_decimals = of_nat NATIVE_DECIMALS, as_contractId = [],
             as_issuer = op_asset_issuer op\<rparr>
      else None)"

text \<open>\<open>None\<close> is the \<open>SyntaxError\<close> of \<open>BigInt\<close>.\<close>

definition pad_fraction :: "nat \<Rightarrow> string \<Rightarrow> string" where
  "pad_fraction n s = s @ replicate (n - length s) CHR ''0''"

definition decimalToRaw :: "string \<Rightarrow> int option" where
  "decimalToRaw decimal =
     (let negative = starts_with decimal ''-'';
          parts = split_on CHR ''.'' (if negative then drop 1 decimal else decimal);
          frac = (if length parts \<ge> 2 then parts ! 1 else []);
          digits = hd parts @ take NATIVE_DECIMALS (pad_fraction NATIVE_DECIMALS frac)
      in map_option (\<lambda>n. if negative then - n else n) (js_BigInt (if digits = [] then ''0'' else digits)))"

text \<open>The transfer-shaped part of an operation: counterparty, direction and amount; \<open>None\<close> for no row.  The outer \<open>None\<close> is
  the exception of \<open>decimalToRaw\<close>.\<close>

definition op_transfer :: "string \<Rightarrow> classic_op \<Rightarrow> (string \<times> direction \<times> int) option option" where
  "op_transfer accountId op =
     (if op_type op = ''payment'' \<or> starts_with (op_type op) ''path_payment'' then
        (if \<not> truthy (op_amount op) then Some None
         else map_option (\<lambda>n. Some (if op_from op = Some accountId then text_of (op_to op) else text_of (op_from op),
                                    directionFor accountId (op_from op) (op_to op), n)) (decimalToRaw (text_of (op_amount op))))
      else if op_type op = ''create_account'' then
        (if \<not> truthy (op_starting_balance op) then Some None
         else map_option (\<lambda>n. Some (text_of (op_account op), if op_from op = Some accountId then Out_direction else In_direction, n))
                (decimalToRaw (text_of (op_starting_balance op))))
      else if op_type op = ''account_merge'' then
        Some (Some (text_of (op_account op), if op_from op = Some accountId then Out_direction else In_direction, 0))
      else Some None)"

definition classicOpToRow :: "string \<Rightarrow> classic_op \<Rightarrow> history_tx option option" where
  "classicOpToRow accountId op =
     (if op_type op = ''invoke_host_function'' then Some (Some (invokeHostFunctionRow op))
      else
        (case classicAssetOf op of
           None \<Rightarrow> Some None
         | Some asset \<Rightarrow>
             map_option (map_option (\<lambda>(counterparty, dir, amount).
               \<lparr>tx_id = ''classic:'' @ op_id op, tx_kind = Classic_asset, tx_direction = dir, tx_counterparty = counterparty,
                tx_amount = amount, tx_asset = asset, tx_timestamp = op_created_at op, tx_success = op_successful op,
                tx_hash = op_hash op, tx_description = None\<rparr>)) (op_transfer accountId op)))"

subsection \<open>The two rails\<close>

definition buildSorobanRail ::
  "scval_decoder \<Rightarrow> string \<Rightarrow> raw_event list \<Rightarrow> (string \<Rightarrow> history_asset option) \<Rightarrow> history_tx list" where
  "buildSorobanRail dec accountId events assetOf =
     rev (List.map_filter (\<lambda>e. Option.bind (if isSACTransferEvent dec e then assetOf (ev_contractId e) else None)
                                (parseSACTransfer dec accountId e)) events)"

fun all_rows :: "string \<Rightarrow> classic_op list \<Rightarrow> history_tx list option" where
  "all_rows accountId [] = Some []"
| "all_rows accountId (op # ops) =
     Option.bind (classicOpToRow accountId op) (\<lambda>r.
       map_option (\<lambda>rs. case r of None \<Rightarrow> rs | Some row \<Rightarrow> row # rs) (all_rows accountId ops))"

definition buildClassicRail :: "string \<Rightarrow> classic_op list \<Rightarrow> nat \<Rightarrow> (history_tx list \<times> string option) option" where
  "buildClassicRail accountId ops pageSize =
     map_option (\<lambda>rows.
       if length rows \<le> pageSize then (rows, None)
       else (let lastOpId = drop (length ''classic:'') (tx_id (rows ! (pageSize - 1)))
             in (take pageSize rows, Option.bind (find (\<lambda>op. op_id op = lastOpId) ops) op_paging_token)))
     (all_rows accountId ops)"

text \<open>The merged list of both rails, newest first; the order of equal timestamps is kept.\<close>

definition rows_newest_first :: "(string \<Rightarrow> int) \<Rightarrow> history_tx list \<Rightarrow> history_tx list" where
  "rows_newest_first date rows = sort_key (\<lambda>r. - date (tx_timestamp r)) rows"

definition mergeHistoryPages ::
  "(string \<Rightarrow> int) \<Rightarrow> scval_decoder \<Rightarrow> string \<Rightarrow> raw_event list \<Rightarrow> classic_op list \<Rightarrow> (string \<Rightarrow> history_asset option) \<Rightarrow> nat
   \<Rightarrow> (history_tx list \<times> bool) option" where
  "mergeHistoryPages date dec accountId events ops assetOf pageSize =
     map_option (\<lambda>classic.
       let rows = rows_newest_first date (rev (buildSorobanRail dec accountId events assetOf) @ classic)
       in (take pageSize rows, length rows > pageSize))
     (all_rows accountId ops)"

subsection \<open>What the rows say\<close>

lemma transient_loop_pauses:
  "length (fst (transient_loop base run attempt left)) \<le> left
   \<and> (\<forall>i < length (fst (transient_loop base run attempt left)). fst (transient_loop base run attempt left) ! i = base * 2 ^ (attempt + i))"
proof (induction left arbitrary: attempt)
  case (Suc left)
  show ?case
  proof (cases "run attempt")
    case (Inl m)
    show ?thesis
    proof (cases "mapTransientRpcError m")
      case (Transient_history c)
      with Inl Suc.IH [of "Suc attempt"] show ?thesis by (auto simp: Let_def nth_Cons split: nat.split)
    qed (simp add: Inl)
  qed simp
qed simp

text \<open>An operation that creates or merges an account carries no asset, so it never becomes a row.\<close>

lemma account_operations_never_shown:
  assumes "op_type op \<in> {''create_account'', ''account_merge''}" "op_asset_type op = None" "op_asset_code op = None"
  shows "classicOpToRow accountId op = Some None"
  using assms by (auto simp: classicOpToRow_def classicAssetOf_def)

text \<open>A transfer between two other accounts becomes a row of the history of any account.\<close>

lemma unrelated_transfer_shown:
  assumes "isSACTransferEvent dec e" "decodeString dec (ev_topic e ! 1) = Some a" "decodeString dec (ev_topic e ! 2) = Some b"
    "a \<noteq> []" "b \<noteq> []" "extractAmount dec (ev_value e) = Some n" "assetOf (ev_contractId e) = Some asset" "a \<noteq> me" "b \<noteq> me"
  shows "\<exists>row. buildSorobanRail dec me [e] assetOf = [row] \<and> tx_direction row = Self_direction \<and> tx_counterparty row = a \<and> tx_amount row = n"
  using assms by (simp add: buildSorobanRail_def parseSACTransfer_def Let_def List.map_filter_simps directionFor_def)

end
