(* ===== verification/History.thy ===== *)
theory History
  imports HistoryParse
begin

text \<open>
  The history client of the web wallet, \<open>apps/web/lib/history.ts\<close>: one page reads a window of ledgers through the RPC and, for a
  classic account, one page of operations from Horizon.  What the services answer to each attempt is an argument; so are
  the contract ids of the SDK's test network and what a contract says about itself.  The cursor is the pair it carries; its
  base64 text is not modelled.
\<close>

definition WINDOW_LEDGERS :: int where "WINDOW_LEDGERS = 32"
definition MAX_SCAN_PAGES :: nat where "MAX_SCAN_PAGES = 8"

type_synonym page_cursor = "string option \<times> string option"

definition some_text :: "string option \<Rightarrow> string option" where
  "some_text v = (if truthy v then v else None)"

definition encodePageCursor :: "string option \<Rightarrow> string option \<Rightarrow> page_cursor option" where
  "encodePageCursor events ops = (if \<not> truthy events \<and> \<not> truthy ops then None else Some (some_text events, some_text ops))"

text \<open>\<open>Number(text) || 0\<close> on the texts that a cursor carries.\<close>

definition ledger_number :: "string \<Rightarrow> int" where
  "ledger_number s = (if s \<noteq> [] \<and> list_all is_digit s then int (parse_nat s) else 0)"

definition carried_window :: "page_cursor option \<Rightarrow> int \<times> int" where
  "carried_window pack =
     (let parts = split_on CHR '':'' (text_of (Option.bind pack fst)) in
      (ledger_number (hd parts), if length parts \<ge> 2 then ledger_number (parts ! 1) else 0))"

definition window_text :: "int \<Rightarrow> int \<Rightarrow> string" where
  "window_text from to = show_int from @ '':'' @ show_int to"

datatype scan_request = From_to int int | Continue string

record history_env =
  hv_health :: "nat \<Rightarrow> string + int \<times> int option"
  hv_scan :: "scan_request \<Rightarrow> nat \<Rightarrow> string + raw_event list \<times> string option"
  hv_ops :: "string option \<Rightarrow> nat \<Rightarrow> string + classic_op list"
  hv_native :: string
  hv_usdc :: string
  hv_simulated :: "string \<Rightarrow> (string \<times> rat) option"
  hv_decoder :: scval_decoder
  hv_date :: "string \<Rightarrow> int"

subsection \<open>Assets\<close>

definition soroban_asset :: "string \<Rightarrow> rat \<Rightarrow> string \<Rightarrow> history_asset" where
  "soroban_asset code decimals i =
     \<lparr>as_kind = Soroban_asset, as_code = code, as_decimals = decimals, as_contractId = i, as_issuer = None\<rparr>"

definition knownAsset :: "history_env \<Rightarrow> string \<Rightarrow> history_asset option" where
  "knownAsset env i =
     (if i = hv_native env then Some (soroban_asset ''XLM'' 7 i)
      else if i = hv_usdc env then Some (soroban_asset ''USDC'' 7 i) else None)"

definition resolveAsset :: "history_env \<Rightarrow> string \<Rightarrow> history_asset option" where
  "resolveAsset env i =
     (case knownAsset env i of
        Some a \<Rightarrow> Some a
      | None \<Rightarrow>
          (case hv_simulated env i of
             None \<Rightarrow> None
           | Some (symbol, decimals) \<Rightarrow> if decimals < 0 then None else Some (soroban_asset symbol decimals i)))"

subsection \<open>The window of one page\<close>

text \<open>The scan stops at the end of the window or when its budget is spent.\<close>

fun scan_window :: "history_env \<Rightarrow> nat \<Rightarrow> scan_request \<Rightarrow> raw_event list \<Rightarrow> history_error + raw_event list" where
  "scan_window env 0 req acc = Inr acc"
| "scan_window env (Suc n) req acc =
     (case snd (withTransientRetry (hv_scan env req)) of
        Inl e \<Rightarrow> Inl e
      | Inr (events, nxt) \<Rightarrow>
          (case nxt of None \<Rightarrow> Inr (acc @ events) | Some c \<Rightarrow> scan_window env n (Continue c) (acc @ events)))"

definition read_window :: "history_env \<Rightarrow> int \<Rightarrow> int \<Rightarrow> history_error + raw_event list" where
  "read_window env from to = scan_window env MAX_SCAN_PAGES (From_to from to) []"

definition transfer_count :: "history_env \<Rightarrow> raw_event list \<Rightarrow> nat" where
  "transfer_count env events = length (filter (isSACTransferEvent (hv_decoder env)) events)"

text \<open>The events of the page and the ledger its window starts at; a quiet first window is read again, twice as wide.\<close>

definition page_window :: "history_env \<Rightarrow> nat \<Rightarrow> int \<Rightarrow> int \<Rightarrow> int \<times> int \<Rightarrow> history_error + raw_event list \<times> int" where
  "page_window env pageSize latest oldest carried =
     (let (carriedFrom, carriedTo) = carried;
          from = (if carriedFrom \<noteq> 0 then carriedFrom else max oldest (latest - WINDOW_LEDGERS));
          windowEnd = (if carriedTo \<noteq> 0 then carriedTo else latest)
      in res_bind (read_window env from windowEnd) (\<lambda>events.
           if pageSize \<le> transfer_count env events \<or> carriedFrom \<noteq> 0 then Inr (events, from)
           else
             (let wide = max oldest (from - WINDOW_LEDGERS) in
              if wide \<le> oldest then Inr (events, wide)
              else map_sum id (\<lambda>events. (events, wide)) (read_window env wide latest))))"

definition next_window :: "int \<Rightarrow> raw_event list \<times> int \<Rightarrow> int \<times> int" where
  "next_window oldest w =
     (let nextTo = (case fst w of [] \<Rightarrow> max oldest (snd w - 1) | e # _ \<Rightarrow> ev_ledger e - 1)
      in (max oldest (nextTo - WINDOW_LEDGERS + 1), nextTo))"

definition next_events_cursor :: "int \<Rightarrow> int \<times> int \<Rightarrow> string option" where
  "next_events_cursor oldest w = (if snd w > oldest then Some (window_text (fst w) (snd w)) else None)"

definition ledger_range :: "history_env \<Rightarrow> history_error + int \<times> int" where
  "ledger_range env =
     map_sum id (\<lambda>(latest, oldest). (latest, min (case oldest of None \<Rightarrow> 1 | Some x \<Rightarrow> x) latest)) (snd (withTransientRetry (hv_health env)))"

subsection \<open>A page\<close>

definition isClassicAccount :: "string \<Rightarrow> bool" where
  "isClassicAccount a = starts_with a ''G''"

definition read_ops :: "history_env \<Rightarrow> string \<Rightarrow> page_cursor option \<Rightarrow> history_error + classic_op list" where
  "read_ops env accountId pack =
     (if isClassicAccount accountId then snd (withTransientRetry (hv_ops env (some_text (Option.bind pack snd)))) else Inr [])"

record history_page =
  hp_rows :: "history_tx list"
  hp_next :: "page_cursor option"

definition ops_cursor :: "string option \<Rightarrow> classic_op list \<Rightarrow> string option" where
  "ops_cursor resume ops = (case resume of Some t \<Rightarrow> Some t | None \<Rightarrow> if ops = [] then None else op_paging_token (last ops))"

definition fetchPage :: "history_env \<Rightarrow> string \<Rightarrow> page_cursor option \<Rightarrow> nat \<Rightarrow> history_error + history_page" where
  "fetchPage env accountId pack pageSize =
     res_bind (ledger_range env) (\<lambda>range.
     res_bind (page_window env pageSize (fst range) (snd range) (carried_window pack)) (\<lambda>w.
     res_bind (read_ops env accountId pack) (\<lambda>ops.
       case buildClassicRail accountId ops pageSize of
         None \<Rightarrow> Inl (Permanent_history ''SyntaxError'')
       | Some (classic, resume) \<Rightarrow>
           (let events = next_events_cursor (snd range) (next_window (snd range) w);
                exhausted = (\<not> isClassicAccount accountId \<or> length ops < pageSize)
            in Inr \<lparr>hp_rows = rows_newest_first (hv_date env)
                       (buildSorobanRail (hv_decoder env) accountId (fst w) (resolveAsset env) @ classic),
                    hp_next = (if events = None \<and> exhausted then None else encodePageCursor events (ops_cursor resume ops))\<rparr>))))"

subsection \<open>The cursor of the windows\<close>

lemma ledger_number_show: "0 \<le> n \<Longrightarrow> ledger_number (show_int n) = n"
  using show_nat_digits [of "nat n"] by (simp add: ledger_number_def show_int_def parse_show_nat)

lemma window_bound_no_colon: "CHR '':'' \<notin> set (show_int n)"
  by (auto dest!: show_int_chars simp: is_digit_def)

lemma split_colon: "CHR '':'' \<notin> set v \<Longrightarrow> CHR '':'' \<notin> set w \<Longrightarrow> split_on CHR '':'' (w @ CHR '':'' # v) = [w, v]"
proof -
  assume v: "CHR '':'' \<notin> set v"
  have "split_on CHR '':'' v = [v]" using v by (induction v) auto
  then show "CHR '':'' \<notin> set w \<Longrightarrow> ?thesis" by (induction w) auto
qed

lemma carried_round_trip:
  assumes "0 \<le> f" "0 \<le> t"
  shows "carried_window (Some (Some (window_text f t), ops)) = (f, t)"
  using assms by (simp add: carried_window_def window_text_def text_of_def split_colon window_bound_no_colon ledger_number_show)

lemma carried_none: "carried_window None = (0, 0)" "carried_window (Some (None, ops)) = (0, 0)"
  by (simp_all add: carried_window_def text_of_def ledger_number_def)

subsection \<open>Following the windows\<close>

text \<open>The windows read by following the cursor, newest first, until the events are exhausted; the first argument bounds their
  number.\<close>

fun follow_windows :: "nat \<Rightarrow> history_env \<Rightarrow> nat \<Rightarrow> int \<Rightarrow> int \<Rightarrow> int \<times> int \<Rightarrow> raw_event list list option" where
  "follow_windows 0 env pageSize latest oldest c = None"
| "follow_windows (Suc n) env pageSize latest oldest c =
     (case page_window env pageSize latest oldest c of
        Inl e \<Rightarrow> None
      | Inr w \<Rightarrow>
          (let nw = next_window oldest w in
           if snd nw > oldest then map_option (\<lambda>ws. fst w # ws) (follow_windows n env pageSize latest oldest nw)
           else Some [fst w]))"

definition between :: "int \<Rightarrow> int \<Rightarrow> raw_event list \<Rightarrow> raw_event list" where
  "between f t es = filter (\<lambda>e. f \<le> ev_ledger e \<and> ev_ledger e \<le> t) es"

text \<open>A node that serves every window of the retained ledgers within the scan budget.\<close>

definition calm_node :: "history_env \<Rightarrow> int \<Rightarrow> int \<Rightarrow> raw_event list \<Rightarrow> bool" where
  "calm_node env latest oldest chain \<longleftrightarrow> sorted (map ev_ledger chain)
     \<and> (\<forall>f t. oldest \<le> f \<and> f \<le> t \<and> t \<le> latest \<longrightarrow> read_window env f t = Inr (between f t chain))"

lemma between_split:
  "sorted (map ev_ledger es) \<Longrightarrow> a \<le> b + 1 \<Longrightarrow> b \<le> c \<Longrightarrow> between a b es @ between (b + 1) c es = between a c es"
proof (induction es)
  case (Cons e es)
  have rest: "between a b es = []" if "b < ev_ledger e"
    using Cons.prems(1) that by (auto simp: between_def filter_empty_conv)
  show ?case
  proof (cases "ev_ledger e \<le> b")
    case True
    with Cons show ?thesis by (auto simp: between_def)
  next
    case False
    then show ?thesis using Cons rest by (auto simp: between_def)
  qed
qed (simp add: between_def)

lemma between_empty: "\<forall>e \<in> set es. \<not> (a \<le> ev_ledger e \<and> ev_ledger e \<le> b) \<Longrightarrow> between a b es = []"
  by (simp add: between_def filter_empty_conv)

text \<open>What one window leaves for the next: everything up to the end of the next window, and nothing above it.\<close>

lemma window_rest:
  assumes sorted: "sorted (map ev_ledger chain)" and w: "next_window oldest (between f t chain, f) = (f', t')"
    and f: "oldest \<le> f" "f \<le> t" and t: "oldest < t"
  shows "t' < t" "f' = max oldest (t' - 31)" "oldest \<le> t' \<longrightarrow> between (t' + 1) t (between f t chain) = between (t' + 1) t chain"
    "between (max oldest t' + 1) t (between f t chain) = between (max oldest t' + 1) t chain"
    "\<forall>e \<in> set (between f t chain). t' < ev_ledger e \<and> ev_ledger e \<le> t"
proof -
  have t': "t' = (case between f t chain of [] \<Rightarrow> max oldest (f - 1) | e # _ \<Rightarrow> ev_ledger e - 1)" and f': "f' = max oldest (t' - 31)"
    using w unfolding next_window_def WINDOW_LEDGERS_def Let_def fst_conv snd_conv prod.inject by (elim conjE; simp)+
  show "f' = max oldest (t' - 31)" by (rule f')
  have in_window: "f \<le> ev_ledger e \<and> ev_ledger e \<le> t" if "e \<in> set (between f t chain)" for e
    using that by (simp add: between_def)
  show "t' < t"
  proof (cases "between f t chain")
    case Nil
    with t' f t show ?thesis by simp
  next
    case (Cons e es)
    with in_window [of e] t' show ?thesis by simp
  qed
  have ge: "f - 1 \<le> t'"
  proof (cases "between f t chain")
    case (Cons e es)
    with in_window [of e] t' show ?thesis by simp
  qed (use t' in simp)
  have inner: "between a t (between f t chain) = between a t chain" if "f \<le> a" for a
    using that unfolding between_def filter_filter by (intro filter_cong) auto
  show "oldest \<le> t' \<longrightarrow> between (t' + 1) t (between f t chain) = between (t' + 1) t chain"
    using ge by (intro impI inner) simp
  show "between (max oldest t' + 1) t (between f t chain) = between (max oldest t' + 1) t chain"
    using ge by (intro inner) simp
  show "\<forall>e \<in> set (between f t chain). t' < ev_ledger e \<and> ev_ledger e \<le> t"
  proof (cases "between f t chain")
    case (Cons e es)
    have "sorted (map ev_ledger (e # es))" using sorted unfolding Cons [symmetric] between_def by (rule sorted_filter)
    moreover have "t' = ev_ledger e - 1" using t' Cons by simp
    ultimately show ?thesis using in_window unfolding Cons by auto
  qed simp
qed

lemma page_window_carried:
  assumes "calm_node env latest oldest chain" "oldest \<le> f" "f \<le> t" "t \<le> latest" "1 \<le> oldest"
  shows "page_window env pageSize latest oldest (f, t) = Inr (between f t chain, f)"
  using assms by (simp add: page_window_def calm_node_def)

text \<open>The windows from a cursor on hold exactly the events up to a ledger.\<close>

definition covers :: "history_env \<Rightarrow> nat \<Rightarrow> int \<Rightarrow> int \<Rightarrow> raw_event list \<Rightarrow> nat \<Rightarrow> int \<times> int \<Rightarrow> int \<Rightarrow> bool" where
  "covers env pageSize latest oldest chain n c t \<longleftrightarrow>
     (\<exists>ws. follow_windows n env pageSize latest oldest c = Some ws
       \<and> between (oldest + 1) t (concat (rev ws)) = between (oldest + 1) t chain
       \<and> (\<forall>e \<in> set (concat ws). ev_ledger e \<le> t))"

lemma covers_step:
  assumes calm: "calm_node env latest oldest chain" and page: "page_window env pageSize latest oldest c = Inr (between f t chain, f)"
    and t: "oldest \<le> f" "f \<le> t" "oldest < t"
    and more: "\<And>t'. oldest < t' \<Longrightarrow> t' < t \<Longrightarrow> covers env pageSize latest oldest chain n (max oldest (t' - 31), t') t'"
  shows "covers env pageSize latest oldest chain (Suc n) c t"
proof -
  have sorted: "sorted (map ev_ledger chain)" using calm by (simp add: calm_node_def)
  obtain f' t' where w: "next_window oldest (between f t chain, f) = (f', t')" by fastforce
  note rest = window_rest [OF sorted w t]
  show ?thesis
  proof (cases "oldest < t'")
    case True
    from more [OF this rest(1)] obtain ws where ws: "follow_windows n env pageSize latest oldest (max oldest (t' - 31), t') = Some ws"
      "between (oldest + 1) t' (concat (rev ws)) = between (oldest + 1) t' chain" "\<forall>e \<in> set (concat ws). ev_ledger e \<le> t'"
      unfolding covers_def by blast
    let ?W = "between f t chain"
    have "between (oldest + 1) t (concat (rev ws)) = between (oldest + 1) t' (concat (rev ws))"
      using ws(3) rest(1) unfolding between_def by (intro filter_cong) auto
    moreover have "between (oldest + 1) t ?W = between (t' + 1) t ?W"
      using rest(5) True unfolding between_def [of "oldest + 1"] between_def [of "t' + 1"] by (intro filter_cong) auto
    moreover have "\<dots> = between (t' + 1) t chain" using rest(3) True by simp
    moreover have "between (oldest + 1) t' chain @ between (t' + 1) t chain = between (oldest + 1) t chain"
      using True rest(1) by (intro between_split [OF sorted]) auto
    moreover have "between (oldest + 1) t (concat (rev (?W # ws))) = between (oldest + 1) t (concat (rev ws)) @ between (oldest + 1) t ?W"
      by (simp add: between_def)
    ultimately have "between (oldest + 1) t (concat (rev (?W # ws))) = between (oldest + 1) t chain" using ws(2) by simp
    moreover have "\<forall>e \<in> set (concat (?W # ws)). ev_ledger e \<le> t" using ws(3) rest(1,5) by fastforce
    moreover have "follow_windows (Suc n) env pageSize latest oldest c = Some (?W # ws)"
      using page w True ws(1) rest(2) by (simp add: Let_def)
    ultimately show ?thesis unfolding covers_def by blast
  next
    case False
    then have "max oldest t' = oldest" by simp
    then show ?thesis using page w False rest(4,5) by (simp add: Let_def covers_def)
  qed
qed

lemma covers_carried:
  assumes calm: "calm_node env latest oldest chain" and "1 \<le> oldest"
  shows "oldest < t \<Longrightarrow> t \<le> latest \<Longrightarrow> nat (t - oldest) \<le> n \<Longrightarrow> covers env pageSize latest oldest chain n (max oldest (t - 31), t) t"
proof (induction n arbitrary: t)
  case (Suc n)
  show ?case
  proof (rule covers_step [OF calm])
    show "page_window env pageSize latest oldest (max oldest (t - 31), t) = Inr (between (max oldest (t - 31)) t chain, max oldest (t - 31))"
      using Suc.prems assms by (intro page_window_carried) auto
    show "covers env pageSize latest oldest chain n (max oldest (t' - 31), t') t'" if "oldest < t'" "t' < t" for t'
      using Suc.IH [of t'] Suc.prems that by linarith
  qed (use Suc.prems in auto)
qed simp


definition example_transfer :: "int \<Rightarrow> raw_event" where
  "example_transfer n = \<lparr>ev_type = ''contract'', ev_ledger = n, ev_ledgerClosedAt = None, ev_id = show_int n, ev_txHash = ''h'', ev_success = True,
     ev_topic = [NScVal 0, NScVal 1, NScVal 2], ev_value = NScVal 3, ev_contractId = ''C''\<rparr>"

definition example_chain :: "raw_event list" where "example_chain = map example_transfer [3, 40, 40, 95]"

definition example_history :: history_env where
  "example_history = \<lparr>hv_health = (\<lambda>_. Inr (100, Some 2)),
     hv_scan = (\<lambda>req _. case req of From_to f t \<Rightarrow> Inr (between f t example_chain, None) | Continue c \<Rightarrow> Inl c),
     hv_ops = (\<lambda>_ _. Inr []), hv_native = ''N'', hv_usdc = ''U'', hv_simulated = (\<lambda>_. None), hv_decoder = (\<lambda>_. None), hv_date = (\<lambda>_. 0)\<rparr>"

lemma example_history_calm: "calm_node example_history 100 2 example_chain"
proof -
  have scan: "snd (withTransientRetry (hv_scan example_history (From_to f t))) = Inr (between f t example_chain, None)" for f t
    by (simp add: example_history_def withTransientRetry_def eval_nat_numeral)
  have eight: "MAX_SCAN_PAGES = Suc 7" by (simp add: MAX_SCAN_PAGES_def)
  have "read_window example_history f t = Inr (between f t example_chain)" for f t
    unfolding read_window_def eight scan_window.simps scan by simp
  moreover have "sorted (map ev_ledger example_chain)" by (simp add: example_chain_def example_transfer_def)
  ultimately show ?thesis by (simp add: calm_node_def)
qed


text \<open>A scan that stops early has read the oldest events of its window; the next window ends below them, so what it left is not
  read by any later window.\<close>

lemma truncated_window_skips_newest:
  assumes "sorted (map ev_ledger (seen @ unread))" "seen \<noteq> []" "e \<in> set unread"
  shows "snd (next_window oldest (seen, f)) < ev_ledger e"
proof (cases seen)
  case (Cons a as)
  then have "ev_ledger a \<le> ev_ledger e" using assms(1,3) by auto
  then show ?thesis using Cons by (simp add: next_window_def Let_def)
qed (use assms(2) in simp)

text \<open>A rail that is exhausted leaves no cursor, and is read again from its newest page while the other one goes on.\<close>

lemma exhausted_rail_restarts: "Option.bind (encodePageCursor (Some c) None) snd = None"
  by (auto simp: encodePageCursor_def some_text_def truthy_def split: option.splits)

end
