(* ===== verification/GatewayLimits.thy ===== *)
theory GatewayLimits
  imports Prelude Complex_Main
begin

text \<open>
  The two in-memory stores of the API gateway: the token buckets of \<open>services/api-gateway/src/token-bucket.ts\<close> and the
  idempotency keys of \<open>idempotency-store.ts\<close> (which the gateway does not use yet).  Both are \<open>Map\<close>s; every read of the
  clock is an argument.  Tokens are rationals: the rounding of floating point is not modelled.
\<close>

subsection \<open>Token buckets\<close>

record bucket_options =
  bo_capacity :: rat
  bo_refillRatePerSecond :: rat

record bucket_state =
  bk_tokens :: rat
  bk_lastRefillTime :: instant

type_synonym buckets = "(string, bucket_state) js_map"

datatype consumption = Allowed int | Refused int

definition refreshed :: "bucket_options \<Rightarrow> instant \<Rightarrow> bucket_state option \<Rightarrow> bucket_state" where
  "refreshed opts now b =
     (case b of
        None \<Rightarrow> \<lparr>bk_tokens = bo_capacity opts, bk_lastRefillTime = now\<rparr>
      | Some s \<Rightarrow>
          (let elapsedSeconds = of_int (now - bk_lastRefillTime s) / 1000;
               refilledTokens = elapsedSeconds * bo_refillRatePerSecond opts
           in \<lparr>bk_tokens = min (bo_capacity opts) (bk_tokens s + refilledTokens), bk_lastRefillTime = now\<rparr>))"

text \<open>\<open>Allowed n\<close> carries the tokens that remain, \<open>Refused n\<close> the seconds to wait.\<close>

definition bucket_tryConsume :: "bucket_options \<Rightarrow> instant \<Rightarrow> string \<Rightarrow> rat \<Rightarrow> buckets \<Rightarrow> consumption \<times> buckets" where
  "bucket_tryConsume opts now key tokensToConsume bs =
     (let s = refreshed opts now (js_get bs key) in
      if bk_tokens s \<ge> tokensToConsume then
        (let s' = s\<lparr>bk_tokens := bk_tokens s - tokensToConsume\<rparr> in (Allowed \<lfloor>bk_tokens s'\<rfloor>, js_set key s' bs))
      else
        (let deficit = tokensToConsume - bk_tokens s in
         (Refused (max 1 \<lceil>deficit / bo_refillRatePerSecond opts\<rceil>), js_set key s bs)))"

definition bucket_reset :: "string option \<Rightarrow> buckets \<Rightarrow> buckets" where
  "bucket_reset key bs = (if truthy key then js_delete (the key) bs else [])"

subsection \<open>What a bucket lets through\<close>

text \<open>A run of requests for one token each, with their times and keys.\<close>

fun bucket_run :: "bucket_options \<Rightarrow> (instant \<times> string) list \<Rightarrow> buckets \<Rightarrow> consumption list \<times> buckets" where
  "bucket_run opts [] bs = ([], bs)"
| "bucket_run opts ((now, key) # rs) bs =
     (let (r, bs1) = bucket_tryConsume opts now key 1 bs; (results, bs2) = bucket_run opts rs bs1 in (r # results, bs2))"

fun is_allowed :: "consumption \<Rightarrow> bool" where
  "is_allowed (Allowed n) = True"
| "is_allowed (Refused n) = False"

definition admitted_calls :: "bucket_options \<Rightarrow> string \<Rightarrow> (instant \<times> string) list \<Rightarrow> buckets \<Rightarrow> nat" where
  "admitted_calls opts key rs bs = length (filter (\<lambda>(r, c). snd r = key \<and> is_allowed c) (zip rs (fst (bucket_run opts rs bs))))"

definition bucket_level :: "bucket_options \<Rightarrow> instant \<Rightarrow> buckets \<Rightarrow> string \<Rightarrow> rat" where
  "bucket_level opts now bs key = bk_tokens (refreshed opts now (js_get bs key))"

definition bucket_ok :: "bucket_options \<Rightarrow> instant \<Rightarrow> bucket_state option \<Rightarrow> bool" where
  "bucket_ok opts now b \<longleftrightarrow> (\<forall>s. b = Some s \<longrightarrow> 0 \<le> bk_tokens s \<and> bk_tokens s \<le> bo_capacity opts \<and> bk_lastRefillTime s \<le> now)"

lemma bucket_tryConsume_other: "key' \<noteq> key \<Longrightarrow> js_get (snd (bucket_tryConsume opts now key n bs)) key' = js_get bs key'"
  by (simp add: bucket_tryConsume_def Let_def)

lemma bucket_tryConsume_same:
  "js_get (snd (bucket_tryConsume opts now key n bs)) key =
     (let s = refreshed opts now (js_get bs key) in
      Some (s\<lparr>bk_tokens := bk_tokens s - (if is_allowed (fst (bucket_tryConsume opts now key n bs)) then n else 0)\<rparr>))"
  by (simp add: bucket_tryConsume_def Let_def)

lemma allowed_iff: "is_allowed (fst (bucket_tryConsume opts now key n bs)) \<longleftrightarrow> n \<le> bucket_level opts now bs key"
  by (simp add: bucket_tryConsume_def Let_def bucket_level_def)

lemma refreshed_time [simp]: "bk_lastRefillTime (refreshed opts now b) = now"
  by (simp add: refreshed_def Let_def split: option.splits)

lemma level_bounds:
  assumes "bucket_ok opts now (js_get bs key)" "0 \<le> bo_capacity opts" "0 \<le> bo_refillRatePerSecond opts"
  shows "0 \<le> bucket_level opts now bs key" "bucket_level opts now bs key \<le> bo_capacity opts"
  using assms by (auto simp: bucket_level_def refreshed_def bucket_ok_def Let_def split: option.splits)

lemma bucket_tryConsume_ok:
  assumes "bucket_ok opts now (js_get bs key')" "0 \<le> bo_capacity opts" "0 \<le> bo_refillRatePerSecond opts"
  shows "bucket_ok opts now (js_get (snd (bucket_tryConsume opts now key 1 bs)) key')"
proof (cases "key' = key")
  case True
  with level_bounds [of opts now bs key] allowed_iff [of opts now key 1 bs] assms show ?thesis
    by (auto simp: bucket_ok_def bucket_tryConsume_same Let_def bucket_level_def)
qed (use assms in \<open>simp add: bucket_tryConsume_other\<close>)

lemma bucket_ok_later: "bucket_ok opts now b \<Longrightarrow> now \<le> t \<Longrightarrow> bucket_ok opts t b"
  by (auto simp: bucket_ok_def)

lemma admitted_Nil [simp]: "admitted_calls opts key [] bs = 0"
  by (simp add: admitted_calls_def)

lemma admitted_Cons:
  "admitted_calls opts key ((now, k) # rs) bs =
     (if k = key \<and> 1 \<le> bucket_level opts now bs k then 1 else 0) + admitted_calls opts key rs (snd (bucket_tryConsume opts now k 1 bs))"
  unfolding allowed_iff [symmetric] by (cases "k = key") (simp_all add: admitted_calls_def Let_def case_prod_beta)

lemma min_grows: "0 \<le> c \<Longrightarrow> a' = a + c \<Longrightarrow> min m (x + a') \<le> min m (x + a) + (c :: rat)"
  by (simp add: min_def)

lemma level_grows:
  assumes "now \<le> t" "0 \<le> bo_refillRatePerSecond opts"
  shows "bucket_level opts t bs key \<le> bucket_level opts now bs key + of_int (t - now) / 1000 * bo_refillRatePerSecond opts"
proof (cases "js_get bs key")
  case None
  then show ?thesis using assms by (simp add: bucket_level_def refreshed_def)
next
  case (Some b)
  let ?rate = "bo_refillRatePerSecond opts" and ?l = "bk_lastRefillTime b"
  have level: "bucket_level opts u bs key = min (bo_capacity opts) (bk_tokens b + of_int (u - ?l) / 1000 * ?rate)" for u
    by (simp add: bucket_level_def refreshed_def Some Let_def)
  have "of_int (t - ?l) / 1000 * ?rate = of_int (now - ?l) / 1000 * ?rate + of_int (t - now) / 1000 * ?rate"
    by (simp add: algebra_simps add_divide_distrib diff_divide_distrib)
  moreover have "0 \<le> of_int (t - now) / 1000 * ?rate" using assms by simp
  ultimately show ?thesis unfolding level by (intro min_grows)
qed

lemma level_after:
  assumes "0 \<le> bo_capacity opts" "0 \<le> bo_refillRatePerSecond opts" "bucket_ok opts now (js_get bs k)"
  shows "bucket_level opts now (snd (bucket_tryConsume opts now k 1 bs)) key
     = bucket_level opts now bs key - (if k = key \<and> 1 \<le> bucket_level opts now bs k then 1 else 0)"
proof (cases "k = key")
  case True
  have "refreshed opts now (Some s) = s" if "bk_lastRefillTime s = now" "bk_tokens s \<le> bo_capacity opts" for s
    using that by (simp add: refreshed_def)
  then show ?thesis using level_bounds [OF assms(3,1,2)] True
    by (simp add: bucket_level_def bucket_tryConsume_same allowed_iff Let_def)
qed (simp add: bucket_level_def bucket_tryConsume_other)

text \<open>The requests of a key that are let through by \<open>T\<close> are paid from its level and the refill.\<close>

lemma admitted_paid:
  assumes opts: "0 \<le> bo_capacity opts" "0 \<le> bo_refillRatePerSecond opts"
  shows "bucket_ok opts now (js_get bs key) \<Longrightarrow> sorted (map fst rs) \<Longrightarrow> \<forall>r \<in> set rs. now \<le> fst r \<and> fst r \<le> T \<Longrightarrow> now \<le> T \<Longrightarrow>
     of_nat (admitted_calls opts key rs bs) \<le> bucket_level opts now bs key + of_int (T - now) / 1000 * bo_refillRatePerSecond opts"
proof (induction rs arbitrary: now bs)
  case Nil
  then show ?case using level_bounds [OF Nil(1) opts] opts by simp
next
  case (Cons r rs)
  obtain t k where r: "r = (t, k)" by (cases r)
  let ?bs = "snd (bucket_tryConsume opts t k 1 bs)" and ?rate = "bo_refillRatePerSecond opts"
  let ?d = "if k = key \<and> 1 \<le> bucket_level opts t bs k then 1 else 0"
  have ok: "bucket_ok opts t (js_get bs key)" using Cons.prems r by (auto intro: bucket_ok_later)
  have "of_nat (admitted_calls opts key rs ?bs) \<le> bucket_level opts t ?bs key + of_int (T - t) / 1000 * ?rate"
    using Cons.prems r bucket_tryConsume_ok [OF ok opts] by (intro Cons.IH) (auto simp: bucket_tryConsume_other)
  moreover have "bucket_level opts t ?bs key = bucket_level opts t bs key - ?d"
  proof (cases "k = key")
    case True
    then show ?thesis using level_after [OF opts, of t bs key key] ok by simp
  qed (simp add: bucket_level_def bucket_tryConsume_other)
  moreover have "bucket_level opts t bs key \<le> bucket_level opts now bs key + of_int (t - now) / 1000 * ?rate"
    using Cons.prems r opts by (intro level_grows) auto
  moreover have "of_int (T - t) / 1000 * ?rate + of_int (t - now) / 1000 * ?rate = of_int (T - now) / 1000 * ?rate"
    by (simp add: algebra_simps add_divide_distrib diff_divide_distrib)
  moreover have "of_nat (admitted_calls opts key (r # rs) bs) = ?d + (of_nat (admitted_calls opts key rs ?bs) :: rat)"
    using r by (cases "k = key") (simp_all add: admitted_Cons)
  ultimately show ?case by linarith
qed

lemma bucket_run_append:
  "bucket_run opts (xs @ ys) bs =
     (let (r1, bs1) = bucket_run opts xs bs; (r2, bs2) = bucket_run opts ys bs1 in (r1 @ r2, bs2))"
  by (induction xs arbitrary: bs) (auto simp: Let_def case_prod_beta)

lemma bucket_run_ok:
  assumes opts: "0 \<le> bo_capacity opts" "0 \<le> bo_refillRatePerSecond opts"
  shows "bucket_ok opts now (js_get bs key) \<Longrightarrow> sorted (map fst rs) \<Longrightarrow> \<forall>r \<in> set rs. now \<le> fst r \<and> fst r \<le> T \<Longrightarrow> now \<le> T \<Longrightarrow>
     bucket_ok opts T (js_get (snd (bucket_run opts rs bs)) key)"
proof (induction rs arbitrary: now bs)
  case (Cons r rs)
  obtain t k where r: "r = (t, k)" by (cases r)
  have "bucket_ok opts t (js_get bs key)" using Cons.prems r by (auto intro: bucket_ok_later)
  then have "bucket_ok opts t (js_get (snd (bucket_tryConsume opts t k 1 bs)) key)"
    using bucket_tryConsume_ok [OF _ opts] by (cases "k = key") (auto simp: bucket_tryConsume_other)
  then have "bucket_ok opts T (js_get (snd (bucket_run opts rs (snd (bucket_tryConsume opts t k 1 bs)))) key)"
    using Cons.prems r by (intro Cons.IH) auto
  then show ?case by (simp add: r Let_def case_prod_beta)
qed (auto intro: bucket_ok_later)

text \<open>Waiting as long as a refusal says is enough.\<close>

lemma refused_wait_enough:
  assumes "fst (bucket_tryConsume opts now key 1 bs) = Refused n" "1 \<le> bo_capacity opts" "0 < bo_refillRatePerSecond opts"
    and t: "now + 1000 * n \<le> t" and idle: "js_get bs' key = js_get (snd (bucket_tryConsume opts now key 1 bs)) key"
  shows "is_allowed (fst (bucket_tryConsume opts t key 1 bs'))"
proof -
  let ?s = "refreshed opts now (js_get bs key)" and ?rate = "bo_refillRatePerSecond opts"
  have refused: "\<not> 1 \<le> bk_tokens ?s" "n = max 1 \<lceil>(1 - bk_tokens ?s) / ?rate\<rceil>"
    using assms(1) by (auto simp: bucket_tryConsume_def Let_def split: if_splits)
  have got: "js_get bs' key = Some ?s" using refused(1) unfolding idle by (simp add: bucket_tryConsume_def Let_def)
  have "(1 - bk_tokens ?s) / ?rate \<le> of_int n" using refused(2) by linarith
  then have need: "1 - bk_tokens ?s \<le> of_int n * ?rate" using assms(3) by (simp add: divide_le_eq)
  have "of_int n \<le> (of_int (t - now) :: rat) / 1000" using t by (simp add: le_divide_eq flip: of_int_le_iff [where 'a = rat])
  then have "of_int n * ?rate \<le> of_int (t - now) / 1000 * ?rate" using assms(3) by (intro mult_right_mono) auto
  then have "1 \<le> bk_tokens ?s + of_int (t - now) / 1000 * ?rate" using need by linarith
  moreover have "bk_tokens (refreshed opts t (Some ?s)) = min (bo_capacity opts) (bk_tokens ?s + of_int (t - now) / 1000 * ?rate)"
    by (simp add: refreshed_def [of _ t] Let_def)
  ultimately show ?thesis using assms(2) by (simp add: allowed_iff bucket_level_def got)
qed

subsection \<open>Idempotency keys\<close>

record idempotency_record =
  id_payloadHash :: string
  id_statusCode :: nat
  id_headers :: "(string, string) js_map"
  id_body :: string
  id_recordedAt :: instant
  id_route :: "string option"

datatype idempotency_lookup = Idem_miss | Idem_hit idempotency_record | Idem_conflict

record idempotency_options =
  io_ttlMs :: "int option"
  io_routeTtlMs :: "(string, int) js_map"

type_synonym idempotency_store = "(string, idempotency_record) js_map"

definition ttlFor :: "idempotency_options \<Rightarrow> string option \<Rightarrow> int" where
  "ttlFor opts route =
     (case Option.bind route (js_get (io_routeTtlMs opts)) of
        Some t \<Rightarrow> t
      | None \<Rightarrow> (case io_ttlMs opts of Some t \<Rightarrow> t | None \<Rightarrow> 24 * 60 * 60 * 1000))"

definition idem_expired :: "idempotency_options \<Rightarrow> idempotency_record \<Rightarrow> instant \<Rightarrow> bool" where
  "idem_expired opts r now \<longleftrightarrow> now - id_recordedAt r > ttlFor opts (id_route r)"

definition idem_lookup :: "idempotency_options \<Rightarrow> string \<Rightarrow> string \<Rightarrow> instant \<Rightarrow> idempotency_store \<Rightarrow> idempotency_lookup" where
  "idem_lookup opts key payloadHash now rs =
     (case js_get rs key of
        None \<Rightarrow> Idem_miss
      | Some r \<Rightarrow>
          (if idem_expired opts r now then Idem_miss
           else if id_payloadHash r \<noteq> payloadHash then Idem_conflict
           else Idem_hit r))"

definition idem_record :: "string \<Rightarrow> idempotency_record \<Rightarrow> idempotency_store \<Rightarrow> idempotency_store" where
  "idem_record key r rs = js_set key r rs"

text \<open>The store after the pruning, and the number of records pruned.\<close>

definition idem_pruneExpired :: "idempotency_options \<Rightarrow> instant \<Rightarrow> idempotency_store \<Rightarrow> idempotency_store \<times> nat" where
  "idem_pruneExpired opts now rs =
     (let live = filter (\<lambda>p. \<not> idem_expired opts (snd p) now) rs in (live, length rs - length live))"

datatype idem_call = Idem_record string idempotency_record | Idem_prune instant

fun idem_step :: "idempotency_options \<Rightarrow> idem_call \<Rightarrow> idempotency_store \<Rightarrow> idempotency_store" where
  "idem_step opts (Idem_record key r) rs = idem_record key r rs"
| "idem_step opts (Idem_prune now) rs = fst (idem_pruneExpired opts now rs)"

definition idem_run :: "idempotency_options \<Rightarrow> idem_call list \<Rightarrow> idempotency_store" where
  "idem_run opts cs = fold (idem_step opts) cs []"

fun last_recorded :: "string \<Rightarrow> idem_call list \<Rightarrow> idempotency_record option" where
  "last_recorded key [] = None"
| "last_recorded key (Idem_record k r # cs) = (case last_recorded key cs of Some r' \<Rightarrow> Some r' | None \<Rightarrow> if k = key then Some r else None)"
| "last_recorded key (Idem_prune t # cs) = last_recorded key cs"

lemma last_recorded_append:
  "last_recorded key (cs @ [c]) = (case c of Idem_record k r \<Rightarrow> if k = key then Some r else last_recorded key cs | Idem_prune t \<Rightarrow> last_recorded key cs)"
  by (induction key cs rule: last_recorded.induct) (auto split: idem_call.splits option.splits)

lemma idem_run_append: "idem_run opts (cs @ [c]) = idem_step opts c (idem_run opts cs)"
  by (simp add: idem_run_def)

lemma idem_run_js_ok: "js_ok (idem_run opts cs)"
proof (induction cs rule: rev_induct)
  case (snoc c cs)
  then show ?case
    by (cases c) (auto simp: idem_run_append idem_record_def idem_pruneExpired_def js_ok_def distinct_map_filter Let_def intro: js_ok_set [unfolded js_ok_def])
qed (simp add: idem_run_def)

lemma idem_expired_later: "idem_expired opts r t \<Longrightarrow> t \<le> now \<Longrightarrow> idem_expired opts r now"
  by (simp add: idem_expired_def)

lemma idem_run_keeps_live:
  "\<forall>t. Idem_prune t \<in> set cs \<longrightarrow> t \<le> now \<Longrightarrow>
     js_get (idem_run opts cs) key = last_recorded key cs
     \<or> (js_get (idem_run opts cs) key = None \<and> (\<exists>r. last_recorded key cs = Some r \<and> idem_expired opts r now))"
proof (induction cs rule: rev_induct)
  case (snoc c cs)
  note kept = js_get_filter_key [OF idem_run_js_ok [of opts cs]]
  show ?case
  proof (cases c)
    case (Idem_record k r)
    then show ?thesis using snoc by (auto simp: idem_run_append last_recorded_append idem_record_def)
  next
    case (Idem_prune t)
    then have "t \<le> now" using snoc.prems by simp
    then show ?thesis using snoc Idem_prune
      by (auto simp: idem_run_append last_recorded_append idem_pruneExpired_def Let_def kept dest: idem_expired_later split: option.splits)
  qed
qed (simp add: idem_run_def)

text \<open>C40: Pruning is invisible, and a response is replayed only to the request it answered: at any instant not before the
  prunings, a lookup answers from the last record of its key alone.  It is a hit with that very record exactly if the record
  has not outlived the time of its route and was made for the same payload, a conflict if it was made for another one.\<close>

theorem idempotency_lookup_iff:
  assumes "\<forall>t. Idem_prune t \<in> set cs \<longrightarrow> t \<le> now"
  shows "idem_lookup opts key h now (idem_run opts cs) =
     (case last_recorded key cs of
        None \<Rightarrow> Idem_miss
      | Some r \<Rightarrow> if now - id_recordedAt r > ttlFor opts (id_route r) then Idem_miss
                  else if id_payloadHash r = h then Idem_hit r else Idem_conflict)"
proof (cases "js_get (idem_run opts cs) key = last_recorded key cs")
  case True
  then show ?thesis by (cases "last_recorded key cs") (simp_all add: idem_lookup_def idem_expired_def)
next
  case False
  with idem_run_keeps_live [OF assms, of opts key] obtain r where
    "js_get (idem_run opts cs) key = None" "last_recorded key cs = Some r" "idem_expired opts r now" by metis
  then show ?thesis by (simp add: idem_lookup_def idem_expired_def)
qed

definition example_response :: idempotency_record where
  "example_response = \<lparr>id_payloadHash = ''aa'', id_statusCode = 201, id_headers = [], id_body = ''ok'', id_recordedAt = 50, id_route = Some ''deploy''\<rparr>"

definition example_ttls :: idempotency_options where
  "example_ttls = \<lparr>io_ttlMs = Some 10, io_routeTtlMs = [(''deploy'', 1000)]\<rparr>"

lemma example_ttl: "ttlFor example_ttls (Some ''deploy'') = 1000"
  by (simp add: ttlFor_def example_ttls_def)

theorem idempotency_lookup_iff_witness:
  "idem_lookup example_ttls ''k'' ''aa'' 900 (idem_run example_ttls [Idem_record ''k'' example_response, Idem_prune 700])
   = Idem_hit example_response"
proof -
  let ?cs = "[Idem_record ''k'' example_response, Idem_prune 700]"
  have past: "\<forall>t. Idem_prune t \<in> set ?cs \<longrightarrow> t \<le> 900" by simp
  have "last_recorded ''k'' ?cs = Some example_response" by simp
  moreover have "id_payloadHash example_response = ''aa''" "id_recordedAt example_response = 50" "id_route example_response = Some ''deploy''"
    by (simp_all add: example_response_def)
  moreover have "idem_lookup example_ttls ''k'' ''aa'' 900 (idem_run example_ttls ?cs) =
      (case last_recorded ''k'' ?cs of None \<Rightarrow> Idem_miss
       | Some r \<Rightarrow> if 900 - id_recordedAt r > ttlFor example_ttls (id_route r) then Idem_miss
                   else if id_payloadHash r = ''aa'' then Idem_hit r else Idem_conflict)"
    by (rule idempotency_lookup_iff [OF past])
  ultimately show ?thesis by (simp only: option.case example_ttl) simp
qed

end
