(* ===== verification/Gateway.thy ===== *)
theory Gateway
  imports GatewayLimits CircuitBreaker Csrf
begin

text \<open>
  The API gateway, \<open>services/api-gateway/src\<close>: the error envelope (\<open>error-envelope.ts\<close>), the proxy routes
  (\<open>register-proxy-route.ts\<close>) and the server (\<open>server.ts\<close>).  A request is its method, its URL and its headers (names in
  lower case); a step is a request, or the outcome of a call forwarded to the verification service.  Fastify's own parts are
  not modelled: the limit per address, the security headers, the writing of the CORS headers and the tracing hook.  The proxy
  forwards a URL below a prefix with the prefix rewritten.  The settings are arguments.
\<close>

subsection \<open>Errors\<close>

record gateway_error =
  ge_status :: nat
  ge_code :: string
  ge_message :: string
  ge_details :: "(string \<times> string) option"

definition sendError :: "nat \<Rightarrow> string \<Rightarrow> string \<Rightarrow> (string \<times> string) option \<Rightarrow> gateway_error" where
  "sendError status code message details =
     \<lparr>ge_status = status, ge_code = code, ge_message = message, ge_details = details\<rparr>"

definition notFoundHandler :: "string \<Rightarrow> string \<Rightarrow> gateway_error" where
  "notFoundHandler method url = sendError 404 ''not_found'' (''No route matches '' @ method @ '' '' @ url) None"

text \<open>The status of an uncaught error, and the \<open>Retry-After\<close> header already on the reply.\<close>

definition errorHandler :: "nat option \<Rightarrow> string option \<Rightarrow> gateway_error" where
  "errorHandler status retryAfter =
     (let statusCode = (case status of Some s \<Rightarrow> s | None \<Rightarrow> 500);
          isRateLimited = (statusCode = 429)
      in sendError statusCode
           (if isRateLimited then ''too_many_requests'' else ''internal_error'')
           (if isRateLimited then ''Too many requests. Please retry later.'' else ''An internal error occurred.'')
           (if isRateLimited then map_option (Pair ''retryAfter'') retryAfter else None))"

subsection \<open>Routes\<close>

datatype upstream = Wallet_upstream | Lifecycle_upstream | Policy_upstream | Verification_upstream

record proxy_route =
  pr_upstream :: upstream
  pr_prefix :: string
  pr_rewrite :: string

definition registerProxyRoute :: "upstream \<Rightarrow> string \<Rightarrow> string option \<Rightarrow> proxy_route" where
  "registerProxyRoute u path rewrite =
     \<lparr>pr_upstream = u, pr_prefix = path, pr_rewrite = (case rewrite of Some r \<Rightarrow> r | None \<Rightarrow> path)\<rparr>"

definition registerVersionedProxyRoute :: "upstream \<Rightarrow> string \<Rightarrow> string option \<Rightarrow> proxy_route list" where
  "registerVersionedProxyRoute u path rewrite =
     (let rewritePrefix = (case rewrite of Some r \<Rightarrow> r | None \<Rightarrow> path)
      in [registerProxyRoute u (''/v1'' @ path) (Some rewritePrefix), registerProxyRoute u path (Some rewritePrefix)])"

definition gateway_routes :: "proxy_route list" where
  "gateway_routes =
     registerVersionedProxyRoute Wallet_upstream ''/wallet'' None
     @ registerVersionedProxyRoute Lifecycle_upstream ''/lifecycle'' None
     @ registerVersionedProxyRoute Policy_upstream ''/policies'' None
     @ registerVersionedProxyRoute Verification_upstream ''/verification'' None"

definition url_path :: "string \<Rightarrow> string" where
  "url_path url = takeWhile (\<lambda>c. c \<noteq> CHR ''?'') url"

definition below :: "string \<Rightarrow> string \<Rightarrow> bool" where
  "below path area \<longleftrightarrow> path = area \<or> starts_with path (area @ ''/'')"

definition route_of :: "string \<Rightarrow> proxy_route option" where
  "route_of url = find (\<lambda>r. below (url_path url) (pr_prefix r)) gateway_routes"

definition forwarded_url :: "proxy_route \<Rightarrow> string \<Rightarrow> string" where
  "forwarded_url r url = pr_rewrite r @ drop (length (pr_prefix r)) url"

subsection \<open>Origins\<close>

definition DEFAULT_ALLOWED_ORIGINS :: "string list" where
  "DEFAULT_ALLOWED_ORIGINS = [''http://localhost:3000'', ''https://app.vellar.wallet'', ''https://vellar.wallet'',
     ''chrome-extension://vellar-wallet-extension'']"

definition corsOrigins :: "string option \<Rightarrow> string list" where
  "corsOrigins configured =
     (if truthy configured then filter (\<lambda>s. s \<noteq> []) (map js_trim (split_on CHR '','' (the configured)))
      else DEFAULT_ALLOWED_ORIGINS)"

text \<open>The expression made of an entry: \<open>*\<close> is any text and, since nothing is escaped, a dot is any character.  Other special
  characters are left to \<open>other\<close>.\<close>

fun glob :: "string \<Rightarrow> string \<Rightarrow> bool" where
  "glob [] s = (s = [])"
| "glob (c # p) [] = (c = CHR ''*'' \<and> glob p [])"
| "glob (c # p) (x # s) =
     (if c = CHR ''*'' then glob p (x # s) \<or> (x \<noteq> CHR 0x0A \<and> glob (c # p) s)
      else (c = x \<or> (c = CHR ''.'' \<and> x \<noteq> CHR 0x0A)) \<and> glob p s)"

definition plain_pattern :: "string \<Rightarrow> bool" where
  "plain_pattern p = list_all (\<lambda>c. c \<notin> set ''^$+?()[]{}|'' \<and> c \<noteq> CHR 0x5C) p"

definition origin_matches :: "(string \<Rightarrow> string \<Rightarrow> bool) \<Rightarrow> string \<Rightarrow> string \<Rightarrow> bool" where
  "origin_matches other origin allowed \<longleftrightarrow>
     allowed = origin
     \<or> (CHR ''*'' \<in> set allowed \<and> (if plain_pattern allowed then glob allowed origin else other allowed origin))"

definition isAllowedOrigin :: "(string \<Rightarrow> string \<Rightarrow> bool) \<Rightarrow> string list \<Rightarrow> string option \<Rightarrow> bool" where
  "isAllowedOrigin other origins origin \<longleftrightarrow> \<not> truthy origin \<or> list_ex (origin_matches other (the origin)) origins"

subsection \<open>The boundary\<close>

record gateway_request =
  gr_method :: string
  gr_url :: string
  gr_headers :: "string \<Rightarrow> string option"

record gateway_config =
  gc_maxBodyBytes :: int
  gc_tenants :: bucket_options
  gc_breaker :: breaker_options

record gateway_state =
  gs_buckets :: buckets
  gs_breaker :: breaker

definition tenantId :: "gateway_request \<Rightarrow> string option" where
  "tenantId req =
     (let tenant = gr_headers req ''x-tenant-id'' in if truthy tenant then tenant else gr_headers req ''x-session-id'')"

definition throttled :: "gateway_request \<Rightarrow> string option" where
  "throttled req = (if truthy (tenantId req) \<and> gr_url req \<noteq> ''/health'' then tenantId req else None)"

definition isMutation :: "gateway_request \<Rightarrow> bool" where
  "isMutation req \<longleftrightarrow> gr_method req \<in> {''POST'', ''PUT'', ''PATCH''}"

definition too_large :: "int \<Rightarrow> gateway_request \<Rightarrow> bool" where
  "too_large maxBodyBytes req =
     (case (case gr_headers req ''content-length'' of None \<Rightarrow> Some 0 | Some s \<Rightarrow> js_Number s) of
        None \<Rightarrow> False
      | Some declaredLen \<Rightarrow> declaredLen > of_int maxBodyBytes)"

definition json_content :: "gateway_request \<Rightarrow> bool" where
  "json_content req =
     str_includes (to_lower (case gr_headers req ''content-type'' of None \<Rightarrow> [] | Some s \<Rightarrow> s)) ''application/json''"

text \<open>The hook \<open>onRequest\<close>: the error it replies with, if any.\<close>

definition boundary :: "gateway_config \<Rightarrow> instant \<Rightarrow> gateway_request \<Rightarrow> buckets \<Rightarrow> gateway_error option \<times> buckets" where
  "boundary cfg now req bs =
     (let (verdict, bs') =
            (case throttled req of
               None \<Rightarrow> (None, bs)
             | Some tenant \<Rightarrow> (let (r, bs1) = bucket_tryConsume (gc_tenants cfg) now tenant 1 bs in (Some r, bs1)))
      in case verdict of
           Some (Refused retryAfterSeconds) \<Rightarrow>
             (Some (sendError 429 ''too_many_requests'' ''Tenant rate limit exceeded. Please retry later.''
                (Some (''retryAfter'', show_int retryAfterSeconds))), bs')
         | _ \<Rightarrow>
             (if too_large (gc_maxBodyBytes cfg) req then
                Some (sendError 413 ''payload_too_large'' (''Body exceeds '' @ show_int (gc_maxBodyBytes cfg) @ '' bytes.'') None)
              else if isMutation req \<and> \<not> json_content req then
                Some (sendError 415 ''unsupported_media_type'' ''Content-Type must be application/json.'' None)
              else None, bs'))"

subsection \<open>The gateway\<close>

datatype gateway_outcome = Replied gateway_error | Own_route | Forwarded upstream string

definition own_route :: "gateway_request \<Rightarrow> bool" where
  "own_route req \<longleftrightarrow> gr_method req \<in> {''GET'', ''HEAD''} \<and> url_path (gr_url req) \<in> {''/health'', ''/ready'', ''/metrics''}"

definition handle_request ::
  "gateway_config \<Rightarrow> instant \<Rightarrow> gateway_request \<Rightarrow> gateway_state \<Rightarrow> gateway_outcome \<times> gateway_state" where
  "handle_request cfg now req st =
     (let (refusal, bs) = boundary cfg now req (gs_buckets st); st = st\<lparr>gs_buckets := bs\<rparr> in
      case refusal of
        Some e \<Rightarrow> (Replied e, st)
      | None \<Rightarrow>
          (if own_route req then (Own_route, st)
           else
             (case route_of (gr_url req) of
                None \<Rightarrow> (Replied (notFoundHandler (gr_method req) (gr_url req)), st)
              | Some r \<Rightarrow>
                  (if pr_upstream r = Verification_upstream then
                     (case beforeCall (gc_breaker cfg) now (gs_breaker st) of
                        Inl retryAfterMs \<Rightarrow>
                          (Replied (sendError 503 ''verification_service_unavailable''
                             ''Circuit breaker open: verification-service is failing.'' (Some (''retryAfterMs'', show_int retryAfterMs))), st)
                      | Inr b \<Rightarrow> (Forwarded Verification_upstream (forwarded_url r (gr_url req)), st\<lparr>gs_breaker := b\<rparr>))
                   else (Forwarded (pr_upstream r) (forwarded_url r (gr_url req)), st)))))"

datatype gateway_event = Client_request gateway_request | Verification_responded | Verification_unreachable

fun gateway_step :: "gateway_config \<Rightarrow> instant \<times> gateway_event \<Rightarrow> gateway_state \<Rightarrow> gateway_outcome option \<times> gateway_state" where
  "gateway_step cfg (now, Client_request req) st = (let (r, st') = handle_request cfg now req st in (Some r, st'))"
| "gateway_step cfg (now, Verification_responded) st = (None, st\<lparr>gs_breaker := recordOutcome (gc_breaker cfg) now Success (gs_breaker st)\<rparr>)"
| "gateway_step cfg (now, Verification_unreachable) st = (None, st\<lparr>gs_breaker := recordOutcome (gc_breaker cfg) now Failure (gs_breaker st)\<rparr>)"

fun gateway_run :: "gateway_config \<Rightarrow> (instant \<times> gateway_event) list \<Rightarrow> gateway_state \<Rightarrow> gateway_outcome option list \<times> gateway_state" where
  "gateway_run cfg [] st = ([], st)"
| "gateway_run cfg (e # es) st =
     (let (r, st1) = gateway_step cfg e st; (rs, st2) = gateway_run cfg es st1 in (r # rs, st2))"

definition gateway_start :: gateway_state where
  "gateway_start = \<lparr>gs_buckets = [], gs_breaker = createCircuitBreaker\<rparr>"

subsection \<open>What is forwarded\<close>

definition tenant_calls :: "(instant \<times> gateway_event) list \<Rightarrow> (instant \<times> string) list" where
  "tenant_calls es =
     concat (map (\<lambda>(t, e). case e of Client_request req \<Rightarrow> (case throttled req of None \<Rightarrow> [] | Some k \<Rightarrow> [(t, k)]) | _ \<Rightarrow> []) es)"

text \<open>The requests of a tenant that pass the limit: all that are not answered 429.\<close>

definition passes :: "string \<Rightarrow> (instant \<times> gateway_event) \<times> gateway_outcome option \<Rightarrow> bool" where
  "passes tenant p =
     (case p of
        ((t, Client_request req), Some r) \<Rightarrow>
          throttled req = Some tenant \<and> (case r of Replied e \<Rightarrow> ge_status e \<noteq> 429 | _ \<Rightarrow> True)
      | _ \<Rightarrow> False)"

lemma boundary_buckets:
  "snd (boundary cfg now req bs) = (case throttled req of None \<Rightarrow> bs | Some k \<Rightarrow> snd (bucket_tryConsume (gc_tenants cfg) now k 1 bs))"
  by (simp add: boundary_def Let_def case_prod_beta split: option.split consumption.split)

lemma handle_request_buckets:
  "gs_buckets (snd (handle_request cfg now req st)) = snd (boundary cfg now req (gs_buckets st))"
  by (simp add: handle_request_def Let_def case_prod_beta split: option.split sum.split)

lemma boundary_429:
  "throttled req = Some k \<Longrightarrow> \<not> is_allowed (fst (bucket_tryConsume (gc_tenants cfg) now k 1 bs)) \<Longrightarrow>
     \<exists>e. fst (boundary cfg now req bs) = Some e \<and> ge_status e = 429"
  by (cases "fst (bucket_tryConsume (gc_tenants cfg) now k 1 bs)") (simp_all add: boundary_def Let_def case_prod_beta sendError_def)

lemma route_of_cases:
  "route_of url = Some r \<Longrightarrow> below (url_path url) (pr_prefix r) \<and> r \<in> set gateway_routes"
  by (auto simp: route_of_def find_Some_iff)

lemma below_split: "below (url_path url) area \<Longrightarrow> url = area @ drop (length area) url"
proof -
  assume "below (url_path url) area"
  then obtain rest where "url_path url = area @ rest"
    unfolding below_def starts_with_def by (metis append.assoc append.right_neutral append_take_drop_id)
  moreover have "url = url_path url @ dropWhile (\<lambda>c. c \<noteq> CHR ''?'') url" by (simp add: url_path_def)
  ultimately have "url = area @ rest @ dropWhile (\<lambda>c. c \<noteq> CHR ''?'') url" by simp
  then show ?thesis by (metis append_eq_conv_conj)
qed

definition served_prefix :: "upstream \<Rightarrow> string" where
  "served_prefix u = (case u of Wallet_upstream \<Rightarrow> ''/wallet'' | Lifecycle_upstream \<Rightarrow> ''/lifecycle'' | Policy_upstream \<Rightarrow> ''/policies''
     | Verification_upstream \<Rightarrow> ''/verification'')"

lemma gateway_route_cases:
  "r \<in> set gateway_routes \<Longrightarrow> pr_rewrite r = served_prefix (pr_upstream r) \<and> pr_prefix r \<in> {served_prefix (pr_upstream r), ''/v1'' @ served_prefix (pr_upstream r)}"
  by (auto simp: gateway_routes_def registerVersionedProxyRoute_def registerProxyRoute_def served_prefix_def Let_def)

lemma route_forwards:
  assumes "route_of url = Some r"
  shows "\<exists>rest. forwarded_url r url = served_prefix (pr_upstream r) @ rest \<and> url \<in> {served_prefix (pr_upstream r) @ rest, ''/v1'' @ served_prefix (pr_upstream r) @ rest}"
proof (intro exI conjI)
  note r = route_of_cases [OF assms]
  show "forwarded_url r url = served_prefix (pr_upstream r) @ drop (length (pr_prefix r)) url"
    using gateway_route_cases r by (simp add: forwarded_url_def)
  show "url \<in> {served_prefix (pr_upstream r) @ drop (length (pr_prefix r)) url, ''/v1'' @ served_prefix (pr_upstream r) @ drop (length (pr_prefix r)) url}"
    using below_split [of url "pr_prefix r"] gateway_route_cases [of r] r by (metis append.assoc insertE insertI1 insertI2 singletonD)
qed

text \<open>C19: Whatever the gateway forwards has passed every check of the boundary, in the state it leaves behind: its declared body
  is no larger than the limit, a POST, PUT or PATCH names JSON in its content type, its tenant had a whole token and has
  paid it, the verification service is only called while its breaker is not open or has cooled down, and the service behind
  a prefix gets the URL below that prefix, whether or not the version is named.\<close>

theorem forwarded_requests_checked:
  assumes "handle_request cfg now req st = (Forwarded u url, st')"
  shows "\<not> too_large (gc_maxBodyBytes cfg) req
    \<and> (isMutation req \<longrightarrow> json_content req)
    \<and> (\<forall>k. throttled req = Some k \<longrightarrow> (\<exists>b. js_get (gs_buckets st') k = Some b \<and> 0 \<le> bk_tokens b
           \<and> bk_tokens b = bucket_level (gc_tenants cfg) now (gs_buckets st) k - 1))
    \<and> (u = Verification_upstream \<longrightarrow> beforeCall (gc_breaker cfg) now (gs_breaker st) = Inr (gs_breaker st'))
    \<and> (\<exists>rest. url = served_prefix u @ rest \<and> gr_url req \<in> {served_prefix u @ rest, ''/v1'' @ served_prefix u @ rest})"
proof -
  let ?bs = "gs_buckets st"
  have none: "fst (boundary cfg now req ?bs) = None"
    using assms by (auto simp: handle_request_def Let_def case_prod_beta split: option.splits)
  have bs: "gs_buckets st' = snd (boundary cfg now req ?bs)"
    using handle_request_buckets [of cfg now req st] unfolding assms by simp
  have "\<not> too_large (gc_maxBodyBytes cfg) req" "isMutation req \<longrightarrow> json_content req"
    using none by (auto simp: boundary_def Let_def case_prod_beta split: option.splits consumption.splits if_splits)
  moreover have "\<exists>b. js_get (gs_buckets st') k = Some b \<and> 0 \<le> bk_tokens b \<and> bk_tokens b = bucket_level (gc_tenants cfg) now ?bs k - 1"
    if "throttled req = Some k" for k
  proof -
    have "is_allowed (fst (bucket_tryConsume (gc_tenants cfg) now k 1 ?bs))" using boundary_429 [OF that] none by fastforce
    then show ?thesis using bs that allowed_iff [of "gc_tenants cfg" now k 1 ?bs]
      by (auto simp: boundary_buckets bucket_tryConsume_same Let_def bucket_level_def)
  qed
  moreover obtain r where r: "route_of (gr_url req) = Some r" "u = pr_upstream r" "url = forwarded_url r (gr_url req)"
    using assms none by (auto simp: handle_request_def Let_def case_prod_beta split: option.splits if_splits sum.splits)
  moreover have "u = Verification_upstream \<longrightarrow> beforeCall (gc_breaker cfg) now (gs_breaker st) = Inr (gs_breaker st')"
    using assms none r by (auto simp: handle_request_def Let_def case_prod_beta split: sum.splits if_splits)
  ultimately show ?thesis using route_forwards [OF r(1)] by auto
qed

definition example_client_request :: "string \<Rightarrow> string \<Rightarrow> string \<Rightarrow> gateway_request" where
  "example_client_request method url ct = \<lparr>gr_method = method, gr_url = url,
     gr_headers = (\<lambda>h. if h = ''content-type'' then Some ct else if h = ''x-tenant-id'' then Some ''acme'' else None)\<rparr>"

definition example_gateway :: gateway_config where
  "example_gateway = \<lparr>gc_maxBodyBytes = 1048576, gc_tenants = \<lparr>bo_capacity = 2, bo_refillRatePerSecond = 1\<rparr>,
     gc_breaker = \<lparr>failureThreshold = 5, cooldownMs = 30000\<rparr>\<rparr>"

lemma example_forwarded:
  "\<exists>st. handle_request example_gateway 0 (example_client_request ''POST'' ''/v1/verification/C'' ''application/json'') gateway_start
     = (Forwarded Verification_upstream ''/verification/C'', st)"
  by (simp add: handle_request_def boundary_def Let_def throttled_def tenantId_def truthy_def example_client_request_def too_large_def isMutation_def
      json_content_def to_lower_def lower_char_def starts_with_def own_route_def url_path_def route_of_def gateway_routes_def
      registerVersionedProxyRoute_def registerProxyRoute_def below_def forwarded_url_def beforeCall_def gateway_start_def
      createCircuitBreaker_def bucket_tryConsume_def refreshed_def example_gateway_def)

theorem forwarded_requests_checked_witness:
  "\<exists>st :: gateway_state. \<not> too_large 1048576 (example_client_request ''POST'' ''/v1/verification/C'' ''application/json'')
     \<and> beforeCall (gc_breaker example_gateway) 0 createCircuitBreaker = Inr (gs_breaker st)
     \<and> (\<exists>b. js_get (gs_buckets st) ''acme'' = Some b \<and> bk_tokens b = 1)"
proof -
  let ?req = "example_client_request ''POST'' ''/v1/verification/C'' ''application/json''"
  obtain st where st: "handle_request example_gateway 0 ?req gateway_start = (Forwarded Verification_upstream ''/verification/C'', st)"
    using example_forwarded by blast
  have "throttled ?req = Some ''acme''" "bucket_level (gc_tenants example_gateway) 0 (gs_buckets gateway_start) ''acme'' = 2"
    "gc_maxBodyBytes example_gateway = 1048576" "gs_breaker gateway_start = createCircuitBreaker"
    by (simp_all add: throttled_def tenantId_def truthy_def example_client_request_def bucket_level_def refreshed_def gateway_start_def example_gateway_def)
  then show ?thesis using forwarded_requests_checked [OF st] by auto
qed

subsection \<open>The limit of a tenant\<close>

lemma gateway_run_buckets:
  "gs_buckets (snd (gateway_run cfg es st)) = snd (bucket_run (gc_tenants cfg) (tenant_calls es) (gs_buckets st))"
proof (induction es arbitrary: st)
  case (Cons e es)
  obtain t ev where e: "e = (t, ev)" by (cases e)
  show ?case
  proof (cases ev)
    case (Client_request req)
    then show ?thesis using Cons [of "snd (handle_request cfg t req st)"]
      by (cases "throttled req") (simp_all add: e tenant_calls_def Let_def case_prod_beta handle_request_buckets boundary_buckets)
  qed (use Cons in \<open>simp_all add: e tenant_calls_def Let_def case_prod_beta\<close>)
qed (simp add: tenant_calls_def)

lemma passes_allowed:
  "passes tenant ((t, Client_request req), Some (fst (handle_request cfg t req st))) \<Longrightarrow>
     throttled req = Some tenant \<and> is_allowed (fst (bucket_tryConsume (gc_tenants cfg) t tenant 1 (gs_buckets st)))"
  using boundary_429 [of req tenant cfg t "gs_buckets st"]
  by (auto simp: passes_def handle_request_def Let_def case_prod_beta split: option.splits)

lemma passes_admitted:
  "length (filter (passes tenant) (zip es (fst (gateway_run cfg es st)))) \<le> admitted_calls (gc_tenants cfg) tenant (tenant_calls es) (gs_buckets st)"
proof (induction es arbitrary: st)
  case (Cons e es)
  obtain t ev where e: "e = (t, ev)" by (cases e)
  show ?case
  proof (cases ev)
    case (Client_request req)
    let ?st = "snd (handle_request cfg t req st)" and ?r = "fst (handle_request cfg t req st)"
    have "length (filter (passes tenant) (zip (e # es) (fst (gateway_run cfg (e # es) st))))
        = (if passes tenant ((t, Client_request req), Some ?r) then 1 else 0)
          + length (filter (passes tenant) (zip es (fst (gateway_run cfg es ?st))))"
      by (simp add: e Client_request Let_def case_prod_beta)
    moreover have "admitted_calls (gc_tenants cfg) tenant (tenant_calls (e # es)) (gs_buckets st)
        = (if throttled req = Some tenant \<and> is_allowed (fst (bucket_tryConsume (gc_tenants cfg) t tenant 1 (gs_buckets st))) then 1 else 0)
          + admitted_calls (gc_tenants cfg) tenant (tenant_calls es) (gs_buckets ?st)"
      by (cases "throttled req")
        (auto simp: e Client_request tenant_calls_def admitted_Cons allowed_iff handle_request_buckets boundary_buckets)
    ultimately show ?thesis using Cons [of ?st] passes_allowed [of tenant t req cfg st] by auto
  next
    case Verification_responded
    then show ?thesis using Cons [of "snd (gateway_step cfg e st)"] by (simp add: e tenant_calls_def passes_def Let_def case_prod_beta)
  next
    case Verification_unreachable
    then show ?thesis using Cons [of "snd (gateway_step cfg e st)"] by (simp add: e tenant_calls_def passes_def Let_def case_prod_beta)
  qed
qed (simp add: tenant_calls_def)

lemma tenant_calls_times: "fst ` set (tenant_calls es) \<subseteq> fst ` set es"
  by (force simp: tenant_calls_def split: gateway_event.splits option.splits)

lemma tenant_calls_sorted: "sorted (map fst es) \<Longrightarrow> sorted (map fst (tenant_calls es))"
proof (induction es)
  case (Cons e es)
  obtain t ev where e: "e = (t, ev)" by (cases e)
  have "\<forall>r \<in> set (tenant_calls es). t \<le> fst r" using Cons.prems e tenant_calls_times [of es] by fastforce
  then show ?case using Cons by (auto simp: e tenant_calls_def split: gateway_event.splits option.splits)
qed (simp add: tenant_calls_def)

text \<open>C20: However its requests are spread, and whatever the other tenants do, no tenant gets more requests past its limit in any
  interval than its bucket holds plus what is refilled in that time.\<close>

theorem tenant_rate_bounded:
  assumes "sorted (map fst (earlier @ es))" "\<forall>e \<in> set earlier. fst e \<le> T0" "\<forall>e \<in> set es. T0 \<le> fst e \<and> fst e \<le> T" "T0 \<le> T"
    and opts: "0 \<le> bo_capacity (gc_tenants cfg)" "0 \<le> bo_refillRatePerSecond (gc_tenants cfg)"
    and st: "st = snd (gateway_run cfg earlier gateway_start)"
  shows "of_nat (length (filter (passes tenant) (zip es (fst (gateway_run cfg es st)))))
     \<le> bo_capacity (gc_tenants cfg) + of_int (T - T0) / 1000 * bo_refillRatePerSecond (gc_tenants cfg)"
proof -
  let ?opts = "gc_tenants cfg"
  have times: "\<forall>r \<in> set (tenant_calls earlier). fst r \<le> T0" "\<forall>r \<in> set (tenant_calls es). T0 \<le> fst r \<and> fst r \<le> T"
    using assms(2,3) tenant_calls_times by fastforce+
  obtain m where m: "\<forall>r \<in> set (tenant_calls earlier). m \<le> fst r" "m \<le> T0"
    using Min_le [of "insert T0 (fst ` set (tenant_calls earlier))"] by (metis finite_imageI finite.insertI image_eqI insertI1 insertI2 List.finite_set)
  have "bucket_ok ?opts T0 (js_get (snd (bucket_run ?opts (tenant_calls earlier) [])) tenant)"
    using assms(1) times(1) m by (intro bucket_run_ok [OF opts, of m]) (auto simp: bucket_ok_def sorted_append intro: tenant_calls_sorted)
  then have ok: "bucket_ok ?opts T0 (js_get (gs_buckets st) tenant)" by (simp add: st gateway_run_buckets gateway_start_def)
  have "of_nat (admitted_calls ?opts tenant (tenant_calls es) (gs_buckets st))
      \<le> bucket_level ?opts T0 (gs_buckets st) tenant + of_int (T - T0) / 1000 * bo_refillRatePerSecond ?opts"
    using assms(1,4) times(2) by (intro admitted_paid [OF opts ok]) (auto simp: sorted_append intro: tenant_calls_sorted)
  moreover note level_bounds(2) [OF ok opts]
  moreover have "(of_nat (length (filter (passes tenant) (zip es (fst (gateway_run cfg es st))))) :: rat)
      \<le> of_nat (admitted_calls ?opts tenant (tenant_calls es) (gs_buckets st))"
    using passes_admitted by (simp only: of_nat_le_iff)
  ultimately show ?thesis by linarith
qed

definition example_burst :: "(instant \<times> gateway_event) list" where
  "example_burst = replicate 9 (500, Client_request (example_client_request ''GET'' ''/wallet'' []))"

theorem tenant_rate_bounded_witness:
  "of_nat (length (filter (passes ''acme'') (zip example_burst (fst (gateway_run example_gateway example_burst gateway_start))))) \<le> (3 :: rat)"
proof -
  have opts: "gc_tenants example_gateway = \<lparr>bo_capacity = 2, bo_refillRatePerSecond = 1\<rparr>" by (simp add: example_gateway_def)
  have "sorted (map fst ([] @ example_burst))" "\<forall>e \<in> set example_burst. 0 \<le> fst e \<and> fst e \<le> 1000"
    by (simp_all add: example_burst_def map_replicate sorted_replicate)
  from tenant_rate_bounded [OF this(1) _ this(2), of example_gateway gateway_start "''acme''"] show ?thesis by (simp add: opts)
qed

subsection \<open>What the boundary lets through\<close>

text \<open>A content type that only mentions JSON in a parameter, as a page of any origin may send without a preflight.\<close>

lemma text_plain_mentioning_json:
  "throttled req = None \<Longrightarrow> gr_headers req ''content-length'' = None \<Longrightarrow> 0 \<le> gc_maxBodyBytes cfg \<Longrightarrow>
     gr_headers req ''content-type'' = Some ''text/plain; x=application/json'' \<Longrightarrow> boundary cfg now req bs = (None, bs)"
  by (simp add: boundary_def Let_def too_large_def json_content_def to_lower_def lower_char_def starts_with_def)

lemma delete_needs_no_content_type:
  "throttled req = None \<Longrightarrow> gr_method req = ''DELETE'' \<Longrightarrow> gr_headers req ''content-length'' = None \<Longrightarrow> 0 \<le> gc_maxBodyBytes cfg \<Longrightarrow>
     boundary cfg now req bs = (None, bs)"
  by (simp add: boundary_def Let_def too_large_def isMutation_def)

lemma undeclared_body_unlimited: "gr_headers req ''content-length'' = None \<Longrightarrow> 0 \<le> maxBodyBytes \<Longrightarrow> \<not> too_large maxBodyBytes req"
  by (simp add: too_large_def)

text \<open>The name of a tenant is what the client says: a new one always has a full bucket, and is kept for ever.\<close>

lemma new_tenant_admitted:
  "js_get bs tenant = None \<Longrightarrow> 1 \<le> bo_capacity opts \<Longrightarrow>
     is_allowed (fst (bucket_tryConsume opts now tenant 1 bs)) \<and> length (snd (bucket_tryConsume opts now tenant 1 bs)) = Suc (length bs)"
  using js_set_new [of bs tenant] by (simp add: bucket_tryConsume_def refreshed_def js_has_def Let_def)

lemma wildcard_matches_foreign_host:
  "isAllowedOrigin other [''https://*.vellar.wallet''] (Some ''https://notvellar.wallet'')"
  by (simp add: isAllowedOrigin_def origin_matches_def truthy_def plain_pattern_def)

end
