(* ===== verification/Spec2Isabelle.thy ===== *)
theory Spec2Isabelle
  imports Prelude CircuitBreaker Retry RpcPool SpendBudget SigningKeys WasmCompare Artifact ErrorClassification Verify
    JobStore Publisher Attestor WorkerLoop RepoUrlGuard EventQueue Json PolicyTemplates
    PolicyDeploy PolicyDeployment DeployDlq Csrf
    TxScope ReplayGuard Relayer Sponsor SubmissionQueue Base64 Keyset WalletRepo WalletServer WalletAccount WalletCache
    VerificationQueue VerificationApi VerificationSubmit CargoLock CargoFetch BuildExecutor ArtifactResolver
    LifecyclePlan LifecycleCleanup PercentEncoding LifecycleReader LifecycleServer AuditRedaction Sep7 HistoryParse History GatewayLimits Gateway
begin

text \<open>
  A verification development for the Vellar wallet monorepo.
\<close>

end
